(* ===== verification/Prelude.thy ===== *)
theory Prelude
  imports Main "HOL-Library.Word" "HOL-Library.Char_ord" "HOL-Library.List_Lexorder"
begin

text \<open>
  What every component of the model shares: the collections the proofs draw on, the character
  classes of the C locale that the sources test with the C and C++ library, and
  std::map as an ordered association list. A std::map iterates in the order of its keys,
  and the sources rely on that order (the first match wins, lists are built in it), so a map is a
  list of pairs sorted by key; std::string compares bytes as unsigned characters, which is the
  lexicographic order of HOL-Library's List_Lexorder over Char_ord.
\<close>

named_theorems progress_simps \<open>how far an operation of the parser moves\<close>
named_theorems std_map_simps \<open>lookups in an ordered map\<close>

section \<open>Vectors\<close>

text \<open>\<open>vec_upd\<close>: a vector with the element at an index replaced by a function of it.\<close>

definition vec_upd :: "nat \<Rightarrow> ('a \<Rightarrow> 'a) \<Rightarrow> 'a list \<Rightarrow> 'a list" where
  "vec_upd i f xs = (if i < length xs then xs[i := f (xs ! i)] else xs)"

lemma length_vec_upd [simp]: "length (vec_upd i f xs) = length xs"
  by (simp add: vec_upd_def)

lemma nth_vec_upd: "j < length xs \<Longrightarrow> vec_upd i f xs ! j = (if i = j then f (xs ! j) else xs ! j)"
  by (auto simp: vec_upd_def nth_list_update)

lemma map_vec_upd: "(\<And>x. g (f x) = g x) \<Longrightarrow> map g (vec_upd i f xs) = map g xs"
  by (rule nth_equalityI) (auto simp: nth_vec_upd)

section \<open>Characters of the C locale\<close>

abbreviation code_of :: "char \<Rightarrow> nat" where
  "code_of c \<equiv> of_char c"

definition is_space :: "char \<Rightarrow> bool" where
  "is_space c \<longleftrightarrow> c = CHR '' '' \<or> (9 \<le> code_of c \<and> code_of c \<le> 13)"

definition is_digit :: "char \<Rightarrow> bool" where
  "is_digit c \<longleftrightarrow> 48 \<le> code_of c \<and> code_of c \<le> 57"

definition digit_val :: "char \<Rightarrow> nat" where
  "digit_val c = code_of c - 48"

definition is_lower :: "char \<Rightarrow> bool" where
  "is_lower c \<longleftrightarrow> 97 \<le> code_of c \<and> code_of c \<le> 122"

definition to_upper :: "char \<Rightarrow> char" where
  "to_upper c = (if is_lower c then char_of (code_of c - 32) else c)"

definition newline :: char where
  "newline = CHR 0x0A"

lemma code_of_newline [simp]: "code_of newline = 10"
  by (simp add: newline_def)

lemma char_of_newline [simp]: "char_of (10 :: nat) = newline"
  by (simp add: newline_def char_of_def bit_0)

lemma is_space_newline [simp]: "is_space newline"
  by (simp add: is_space_def)

lemma digit_not_space: "is_digit c \<Longrightarrow> \<not> is_space c"
  by (auto simp: is_digit_def is_space_def)

section \<open>Writing numbers\<close>

text \<open>An unsigned number on a stream in the C locale.\<close>

definition digit_char :: "nat \<Rightarrow> char" where
  "digit_char d = char_of (48 + d)"

fun decimal :: "nat \<Rightarrow> string" where
  "decimal n = (if n < 10 then [digit_char n] else decimal (n div 10) @ [digit_char (n mod 10)])"

declare decimal.simps [simp del]

lemma code_of_digit [simp]: "d < 10 \<Longrightarrow> code_of (digit_char d) = 48 + d"
  by (simp add: digit_char_def)

lemma digit_char_props [simp]:
  "d < 10 \<Longrightarrow> is_digit (digit_char d)" "d < 10 \<Longrightarrow> digit_val (digit_char d) = d"
  by (simp_all add: is_digit_def digit_val_def)

lemma decimal_digits: "list_all is_digit (decimal n)"
  by (induction n rule: decimal.induct) (subst decimal.simps, simp)

lemma decimal_nonempty [simp]: "decimal n \<noteq> []"
  by (subst decimal.simps) simp

lemma decimal_value: "foldl (\<lambda>v c. 10 * v + digit_val c) 0 (decimal n) = n"
proof (induction n rule: decimal.induct)
  case (1 n)
  then show ?case by (subst decimal.simps) simp
qed

lemma decimal_inject [simp]: "decimal m = decimal n \<longleftrightarrow> m = n"
  using decimal_value [of m] decimal_value [of n] by metis

section \<open>Ordered maps\<close>

type_synonym ('k, 'v) smap = "('k \<times> 'v) list"

fun map_put :: "'k::linorder \<Rightarrow> 'v \<Rightarrow> ('k, 'v) smap \<Rightarrow> ('k, 'v) smap" where
  "map_put k v [] = [(k, v)]"
| "map_put k v ((a, b) # m) =
     (if k < a then (k, v) # (a, b) # m
      else if k = a then (k, v) # m
      else (a, b) # map_put k v m)"

definition map_get :: "('k, 'v) smap \<Rightarrow> 'k \<Rightarrow> 'v option" where
  "map_get m k = map_of m k"

definition map_has :: "('k, 'v) smap \<Rightarrow> 'k \<Rightarrow> bool" where
  "map_has m k \<longleftrightarrow> map_get m k \<noteq> None"

definition map_erase :: "'k \<Rightarrow> ('k, 'v) smap \<Rightarrow> ('k, 'v) smap" where
  "map_erase k m = filter (\<lambda>p. fst p \<noteq> k) m"

definition map_keys :: "('k, 'v) smap \<Rightarrow> 'k set" where
  "map_keys m = fst ` set m"

text \<open>std::map::insert keeps the value a key already has.\<close>

definition map_insert :: "'k::linorder \<Rightarrow> 'v \<Rightarrow> ('k, 'v) smap \<Rightarrow> ('k, 'v) smap" where
  "map_insert k v m = (if map_has m k then m else map_put k v m)"

text \<open>\<open>m[k]\<close> with its default for a key the map does not hold yet, and a write through it.\<close>

definition map_at :: "'v \<Rightarrow> ('k, 'v) smap \<Rightarrow> 'k \<Rightarrow> 'v" where
  "map_at d m k = (case map_get m k of None \<Rightarrow> d | Some v \<Rightarrow> v)"

definition map_modify :: "'v \<Rightarrow> ('v \<Rightarrow> 'v) \<Rightarrow> 'k::linorder \<Rightarrow> ('k, 'v) smap \<Rightarrow> ('k, 'v) smap" where
  "map_modify d f k m = map_put k (f (map_at d m k)) m"

definition map_ok :: "('k::linorder, 'v) smap \<Rightarrow> bool" where
  "map_ok m \<longleftrightarrow> sorted_wrt (<) (map fst m)"

lemma fst_set_map_put: "fst ` set (map_put k v m) = insert k (fst ` set m)"
  by (induction k v m rule: map_put.induct) auto

lemma map_of_map_put: "map_ok m \<Longrightarrow> map_of (map_put k v m) = (map_of m)(k \<mapsto> v)"
proof (induction k v m rule: map_put.induct)
  case (2 k v a b m)
  then have "map_ok m" and above: "\<forall>x \<in> fst ` set m. a < x"
    by (auto simp: map_ok_def)
  with 2 show ?case
    by (auto simp: fun_eq_iff)
qed simp

lemma map_ok_put: "map_ok m \<Longrightarrow> map_ok (map_put k v m)"
proof (induction k v m rule: map_put.induct)
  case (2 k v a b m)
  then have "sorted_wrt (<) (map fst m)" and above: "\<forall>x \<in> fst ` set m. a < x"
    by (auto simp: map_ok_def)
  with 2 show ?case
    using fst_set_map_put [of k v m]
    by (auto simp: map_ok_def dest: less_trans)
qed (simp add: map_ok_def)

lemma map_ok_distinct: "map_ok m \<Longrightarrow> distinct (map fst m)"
  by (auto simp: map_ok_def strict_sorted_iff)

lemma map_of_map_erase: "map_of (map_erase k m) = (map_of m)(k := None)"
  by (induction m) (auto simp: map_erase_def fun_eq_iff)

lemma map_ok_erase: "map_ok m \<Longrightarrow> map_ok (map_erase k m)"
  by (induction m) (auto simp: map_ok_def map_erase_def)

lemma map_get_dom: "k \<in> map_keys m \<longleftrightarrow> map_get m k \<noteq> None"
  by (simp add: map_keys_def map_get_def map_of_eq_None_iff)

text \<open>
  The interface the components rely on. Everything a client needs to know of a std::map is a
  consequence of these laws.
\<close>

locale ordered_map =
  fixes empty :: "'m"
    and get :: "'m \<Rightarrow> 'k \<Rightarrow> 'v option"
    and put :: "'k \<Rightarrow> 'v \<Rightarrow> 'm \<Rightarrow> 'm"
    and del :: "'k \<Rightarrow> 'm \<Rightarrow> 'm"
    and keys :: "'m \<Rightarrow> 'k set"
    and ok :: "'m \<Rightarrow> bool"
  assumes ok_empty: "ok empty"
    and ok_put: "ok m \<Longrightarrow> ok (put k v m)"
    and ok_del: "ok m \<Longrightarrow> ok (del k m)"
    and get_empty: "get empty k = None"
    and get_put: "ok m \<Longrightarrow> get (put k v m) j = (if j = k then Some v else get m j)"
    and get_del: "ok m \<Longrightarrow> get (del k m) j = (if j = k then None else get m j)"
    and keys_get: "k \<in> keys m \<longleftrightarrow> get m k \<noteq> None"
begin

lemmas laws = ok_empty ok_put ok_del get_empty get_put get_del

lemma keys_empty: "keys empty = {}"
  by (auto simp: keys_get get_empty)

lemma keys_put: "ok m \<Longrightarrow> keys (put k v m) = insert k (keys m)"
  by (auto simp: keys_get get_put split: if_splits)

lemma keys_del: "ok m \<Longrightarrow> keys (del k m) = keys m - {k}"
  by (auto simp: keys_get get_del split: if_splits)

lemma ok_puts: "ok m \<Longrightarrow> ok (fold (\<lambda>(k, v). put k v) kvs m)"
  by (induction kvs arbitrary: m) (auto simp: ok_put)

lemma get_puts:
  "ok m \<Longrightarrow> get (fold (\<lambda>(k, v). put k v) kvs m) j =
    (case map_of (rev kvs) j of None \<Rightarrow> get m j | Some v \<Rightarrow> Some v)"
proof (induction kvs arbitrary: m)
  case Nil
  then show ?case by simp
next
  case (Cons kv kvs)
  obtain k v where kv: "kv = (k, v)" by (cases kv)
  have "get (fold (\<lambda>(k, v). put k v) kvs (put k v m)) j =
      (case map_of (rev kvs) j of None \<Rightarrow> get (put k v m) j | Some v \<Rightarrow> Some v)"
    using Cons.prems by (intro Cons.IH ok_put)
  then show ?case
    using Cons.prems by (auto simp: kv get_put map_add_def split: option.splits)
qed

end

interpretation smap: ordered_map "[]" map_get map_put map_erase map_keys map_ok
  by unfold_locales
    (simp_all add: map_get_def map_of_map_put map_ok_put map_ok_erase map_of_map_erase
      map_keys_def map_of_eq_None_iff, simp add: map_ok_def)

lemmas smap_laws [std_map_simps] =
  smap.get_put smap.get_del smap.get_empty smap.ok_put smap.ok_del smap.keys_put

lemma map_ok_Nil [simp]: "map_ok []"
  by (rule smap.ok_empty)

lemma map_get_Nil [simp]: "map_get [] k = None"
  by (simp add: map_get_def)

lemma map_ok_insert: "map_ok m \<Longrightarrow> map_ok (map_insert k v m)"
  by (simp add: map_insert_def map_ok_put)

lemma map_get_insert:
  "map_ok m \<Longrightarrow> map_get (map_insert k v m) j =
    (if j = k \<and> map_get m k = None then Some v else map_get m j)"
  by (auto simp: map_insert_def map_has_def smap.get_put)

lemma map_ok_modify: "map_ok m \<Longrightarrow> map_ok (map_modify d f k m)"
  by (simp add: map_modify_def map_ok_put)

lemma map_get_modify:
  "map_ok m \<Longrightarrow> map_get (map_modify d f k m) j =
    (if j = k then Some (f (map_at d m k)) else map_get m j)"
  by (simp add: map_modify_def smap.get_put)

declare map_ok_insert [std_map_simps] map_get_insert [std_map_simps]
  map_ok_modify [std_map_simps] map_get_modify [std_map_simps]

lemma map_of_set: "map_get m k = Some v \<Longrightarrow> (k, v) \<in> set m"
  by (auto simp: map_get_def dest: map_of_SomeD)

lemma set_map_get: "map_ok m \<Longrightarrow> (k, v) \<in> set m \<longleftrightarrow> map_get m k = Some v"
  using map_ok_distinct [of m] by (auto simp: map_get_def)

end
