(* ===== verification/Deployment_Data.thy ===== *)
theory Deployment_Data
  imports Prelude
begin

text \<open>
  The data of the deployment tools: the IDL structures of dancex11/deployment/*.idl as records,
  field by field as far as the modelled code reads or writes them, and the CORBA Any in which
  property values, object references and exceptions travel.

  An Any is a value together with its type. Inserting (\<open>any <<= v\<close>) is a constructor of
  \<open>any\<close>; extracting into a variable of type T succeeds exactly when the Any holds
  a T, and is a function \<open>'d any \<Rightarrow> 't option\<close>. A default-constructed Any holds
  no value and its type code has kind tk_null. \<open>OtherAny\<close> is a value of a type that the code never extracts,
  such as a struct, by a number. Floating-point values are a type parameter
  \<open>'d\<close> of the model, with the conversions the code uses as parameters. A reference to a
  CORBA object is a number, None for a nil reference.
\<close>

section \<open>Exceptions\<close>

datatype user_kind =
    PlanError | StartError | StopError | InvalidConnection
  | InvalidNodeExecParameter | InvalidComponentExecParameter | InvalidProperty

text \<open>
  The user exceptions of the Deployment module carry a name and a reason. \<open>OtherUser\<close> is any
  other IDL user exception with its repository id, \<open>SysEx\<close> a CORBA system exception,
  \<open>StdEx\<close> a std::exception with its text and \<open>ForeignEx\<close> anything else that C++ throws.
\<close>

datatype exn =
    UserEx user_kind (ex_name: string) (ex_reason: string)
  | OtherUser string
  | SysEx string
  | StdEx string
  | ForeignEx

definition plan_error :: "string \<Rightarrow> string \<Rightarrow> exn" where
  "plan_error name reason = UserEx PlanError name reason"

fun kind_id :: "user_kind \<Rightarrow> string" where
  "kind_id PlanError = ''IDL:Deployment/PlanError:1.0''"
| "kind_id StartError = ''IDL:Deployment/StartError:1.0''"
| "kind_id StopError = ''IDL:Deployment/StopError:1.0''"
| "kind_id InvalidConnection = ''IDL:Deployment/InvalidConnection:1.0''"
| "kind_id InvalidNodeExecParameter = ''IDL:Deployment/InvalidNodeExecParameter:1.0''"
| "kind_id InvalidComponentExecParameter = ''IDL:Deployment/InvalidComponentExecParameter:1.0''"
| "kind_id InvalidProperty = ''IDL:Deployment/InvalidProperty:1.0''"

lemma kind_id_inject [simp]: "kind_id j = kind_id k \<longleftrightarrow> j = k"
  by (cases j; cases k) simp_all

fun is_user :: "exn \<Rightarrow> bool" where
  "is_user (UserEx _ _ _) = True"
| "is_user (OtherUser _) = True"
| "is_user _ = False"

fun is_corba :: "exn \<Rightarrow> bool" where
  "is_corba (SysEx _) = True"
| "is_corba e = is_user e"

fun is_stop_error :: "exn \<Rightarrow> bool" where
  "is_stop_error (UserEx StopError _ _) = True"
| "is_stop_error _ = False"

section \<open>Any\<close>

text \<open>The types a property can declare, and the type of an Any of that type.\<close>

datatype type_id =
    TNone | TUser
  | TChar | TOctet | TBool
  | TInt16 | TInt32 | TInt64
  | TUInt16 | TUInt32 | TUInt64
  | TFloat | TDouble
  | TString

datatype 'd prim =
    VChar char
  | VOctet "8 word"
  | VBool bool
  | VInt16 "16 word"
  | VInt32 "32 word"
  | VInt64 "64 word"
  | VUInt16 "16 word"
  | VUInt32 "32 word"
  | VUInt64 "64 word"
  | VFloat 'd
  | VDouble 'd
  | VString string

fun prim_type :: "'d prim \<Rightarrow> type_id" where
  "prim_type (VChar _) = TChar"
| "prim_type (VOctet _) = TOctet"
| "prim_type (VBool _) = TBool"
| "prim_type (VInt16 _) = TInt16"
| "prim_type (VInt32 _) = TInt32"
| "prim_type (VInt64 _) = TInt64"
| "prim_type (VUInt16 _) = TUInt16"
| "prim_type (VUInt32 _) = TUInt32"
| "prim_type (VUInt64 _) = TUInt64"
| "prim_type (VFloat _) = TFloat"
| "prim_type (VDouble _) = TDouble"
| "prim_type (VString _) = TString"

datatype 'd any =
    NullAny
  | PrimAny "'d prim"
  | SeqAny type_id "'d prim list"
  | ObjAny "nat option"
  | ExAny exn
  | OtherAny nat

fun is_null :: "'d any \<Rightarrow> bool" where
  "is_null NullAny = True"
| "is_null _ = False"

text \<open>Extraction of the types the code extracts.\<close>

fun as_string :: "'d any \<Rightarrow> string option" where
  "as_string (PrimAny (VString s)) = Some s"
| "as_string _ = None"

fun as_bool :: "'d any \<Rightarrow> bool option" where
  "as_bool (PrimAny (VBool b)) = Some b"
| "as_bool _ = None"

fun as_uint16 :: "'d any \<Rightarrow> 16 word option" where
  "as_uint16 (PrimAny (VUInt16 w)) = Some w"
| "as_uint16 _ = None"

fun as_uint32 :: "'d any \<Rightarrow> 32 word option" where
  "as_uint32 (PrimAny (VUInt32 w)) = Some w"
| "as_uint32 _ = None"

fun as_object :: "'d any \<Rightarrow> nat option option" where
  "as_object (ObjAny r) = Some r"
| "as_object _ = None"

definition as_strings :: "'d any \<Rightarrow> string list option" where
  "as_strings a =
     (case a of SeqAny TString vs \<Rightarrow> those (map (\<lambda>v. as_string (PrimAny v)) vs) | _ \<Rightarrow> None)"

fun as_user_ex :: "user_kind \<Rightarrow> 'd any \<Rightarrow> exn option" where
  "as_user_ex k (ExAny (UserEx j n r)) = (if j = k then Some (UserEx j n r) else None)"
| "as_user_ex k _ = None"

section \<open>Property lists and requirements\<close>

record 'd property =
  pr_name :: string
  pr_value :: "'d any"

type_synonym 'd properties = "'d property list"

abbreviation mk_prop :: "string \<Rightarrow> 'd any \<Rightarrow> 'd property" where
  "mk_prop n v \<equiv> \<lparr>pr_name = n, pr_value = v\<rparr>"

text \<open>The kinds of type codes; the type code of a basic type is its kind.\<close>

datatype tc_kind =
    TK_null | TK_void | TK_short | TK_long | TK_ushort | TK_ulong | TK_float | TK_double | TK_boolean
  | TK_char | TK_octet | TK_any | TK_TypeCode | TK_Principal | TK_objref | TK_struct | TK_union
  | TK_enum | TK_string | TK_sequence | TK_array | TK_alias | TK_except | TK_longlong | TK_ulonglong
  | TK_longdouble | TK_wchar | TK_wstring | TK_fixed | TK_value | TK_value_box | TK_native
  | TK_abstract_interface | TK_local_interface | TK_component | TK_home | TK_event

record 'd requirement =
  rq_name :: string
  rq_type :: string
  rq_property :: "'d properties"

datatype sat_kind = Quantity | Capacity | Minimum | Maximum | Attribute | Selection

record 'd sat_property =
  sp_name :: string
  sp_kind :: sat_kind
  sp_dynamic :: bool
  sp_value :: "'d any"

record 'd resource =
  rs_name :: string
  rs_types :: "string list"
  rs_property :: "'d sat_property list"

record 'd node =
  nd_name :: string
  nd_label :: string
  nd_resource :: "'d resource list"

record 'd domain =
  dm_UUID :: string
  dm_label :: string
  dm_node :: "'d node list"
  dm_infoProperty :: "'d properties"

section \<open>Deployment plans\<close>

datatype port_kind =
    Facet | SimplexReceptacle | MultiplexReceptacle | EventEmitter
  | EventPublisher | EventConsumer | ExtendedPort | MirrorPort

record port_description =
  cp_name :: string
  cp_specificType :: string
  cp_supportedType :: "string list"
  cp_provider :: bool
  cp_exclusiveProvider :: bool
  cp_exclusiveUser :: bool
  cp_optional :: bool
  cp_kind :: port_kind
  cp_templateParam :: "string list"

record property_description =
  pd_name :: string
  pd_type :: "tc_kind option"

record 'd interface_description =
  ci_label :: string
  ci_UUID :: string
  ci_specificType :: string
  ci_supportedType :: "string list"
  ci_idlFile :: "string list"
  ci_configProperty :: "'d properties"
  ci_port :: "port_description list"
  ci_property :: "property_description list"
  ci_infoProperty :: "'d properties"

record 'd mdd =
  md_name :: string
  md_source :: "string list"
  md_artifactRef :: "nat list"
  md_execParameter :: "'d properties"
  md_deployRequirement :: "'d requirement list"

datatype resource_usage =
    NoUsage | InstanceUsesResource | ResourceUsesInstance | PortUsesResource | ResourceUsesPort

record 'd resource_use =
  ru_requirementName :: string
  ru_resourceName :: string
  ru_property :: "'d properties"

record 'd instance_resource = "'d resource_use" +
  ru_usage :: resource_usage

record 'd connection_resource = "'d resource_use" +
  ru_targetName :: string

record 'd idd =
  id_name :: string
  id_node :: string
  id_source :: "string list"
  id_implementationRef :: nat
  id_configProperty :: "'d properties"
  id_deployedResource :: "'d instance_resource list"
  id_deployedSharedResource :: "'d instance_resource list"

record endpoint =
  ep_portName :: string
  ep_provider :: bool
  ep_kind :: port_kind
  ep_instanceRef :: nat

record ext_ref =
  er_location :: string
  er_provider :: bool
  er_portName :: string
  er_supportedType :: "string list"

record 'd connection =
  cn_name :: string
  cn_source :: "string list"
  cn_deployRequirement :: "'d requirement list"
  cn_externalEndpoint :: "string list"
  cn_internalEndpoint :: "endpoint list"
  cn_externalReference :: "ext_ref list"
  cn_deployedResource :: "'d connection_resource list"

record 'd artifact =
  ar_name :: string
  ar_location :: "string list"
  ar_node :: string
  ar_source :: "string list"
  ar_execParameter :: "'d properties"
  ar_deployRequirement :: "'d requirement list"
  ar_deployedResource :: "'d resource_use list"

datatype locality_kind = PlanSameProcess | PlanDifferentProcess | PlanNoConstraint

record plan_locality =
  lo_constraint :: locality_kind
  lo_instanceRef :: "nat list"

text \<open>What an external property of the plan stands for: properties of instances, by name and index.\<close>

record property_mapping =
  pm_name :: string
  pm_source :: "string list"
  pm_externalName :: string
  pm_delegatesTo :: "(string \<times> nat) list"

record 'd plan =
  pl_label :: string
  pl_UUID :: string
  pl_realizes :: "'d interface_description"
  pl_implementation :: "'d mdd list"
  pl_instance :: "'d idd list"
  pl_connection :: "'d connection list"
  pl_externalProperty :: "property_mapping list"
  pl_dependsOn :: "string list"
  pl_artifact :: "'d artifact list"
  pl_infoProperty :: "'d properties"
  pl_localityConstraint :: "plan_locality list"

text \<open>Default-constructed structures: empty strings and sequences, zero, false, first enumerator.\<close>

definition new_mdd :: "'d mdd" where
  "new_mdd = \<lparr>md_name = [], md_source = [], md_artifactRef = [], md_execParameter = [], md_deployRequirement = []\<rparr>"

definition new_idd :: "'d idd" where
  "new_idd = \<lparr>id_name = [], id_node = [], id_source = [], id_implementationRef = 0, id_configProperty = [],
     id_deployedResource = [], id_deployedSharedResource = []\<rparr>"

definition new_endpoint :: endpoint where
  "new_endpoint = \<lparr>ep_portName = [], ep_provider = False, ep_kind = Facet, ep_instanceRef = 0\<rparr>"

definition new_connection :: "'d connection" where
  "new_connection = \<lparr>cn_name = [], cn_source = [], cn_deployRequirement = [], cn_externalEndpoint = [],
     cn_internalEndpoint = [], cn_externalReference = [], cn_deployedResource = []\<rparr>"

definition new_interface :: "'d interface_description" where
  "new_interface = \<lparr>ci_label = [], ci_UUID = [], ci_specificType = [], ci_supportedType = [], ci_idlFile = [],
     ci_configProperty = [], ci_port = [], ci_property = [], ci_infoProperty = []\<rparr>"

definition new_plan :: "'d plan" where
  "new_plan = \<lparr>pl_label = [], pl_UUID = [], pl_realizes = new_interface, pl_implementation = [], pl_instance = [],
     pl_connection = [], pl_externalProperty = [], pl_dependsOn = [], pl_artifact = [], pl_infoProperty = [], pl_localityConstraint = []\<rparr>"

definition new_domain :: "'d domain" where
  "new_domain = \<lparr>dm_UUID = [], dm_label = [], dm_node = [], dm_infoProperty = []\<rparr>"

section \<open>Property names of dancex11_properties.idl\<close>

abbreviation "HOME_FACTORY \<equiv> ''nl.remedy.it.DnCX11.Home.Factory''"
abbreviation "COMPONENT_ARTIFACT \<equiv> ''nl.remedy.it.DnCX11.Executor.Artifact''"
abbreviation "COMPONENT_FACTORY \<equiv> ''nl.remedy.it.DnCX11.Executor.Factory''"
abbreviation "COMPONENT_LOCALITY \<equiv> ''nl.remedy.it.DnCX11.Locality''"
abbreviation "COMPONENT_CONTAINER \<equiv> ''nl.remedy.it.CIAOX11.ContainerId''"
abbreviation "EXPLICIT_HOME \<equiv> ''nl.remedy.it.DnCX11.ExplicitHome''"
abbreviation "NODE_RESOURCE_TYPE \<equiv> ''nl.remedy.it.DnCX11.NodeAddress''"
abbreviation "NODE_IOR \<equiv> ''nl.remedy.it.DnCX11.StringIOR''"
abbreviation "NODE_PORT \<equiv> ''nl.remedy.it.DnCX11.Node.Port''"
abbreviation "NODE_HOST \<equiv> ''nl.remedy.it.DnCX11.Node.Host''"
abbreviation "LOCALITY_TIMEOUT \<equiv> ''nl.remedy.it.DnCX11.Locality.Timeout''"
abbreviation "LOCALITY_ACTIVATION_MODE \<equiv> ''nl.remedy.it.DnCX11.Locality.ActivationMode''"
abbreviation "DOMAIN_NC \<equiv> ''nl.remedy.it.DnCX11.DomainNC''"
abbreviation "DANCE_LM_PATH \<equiv> ''nl.remedy.it.DnCX11.Locality.Path''"
abbreviation "DANCE_LM_LIBPATH \<equiv> ''nl.remedy.it.DnCX11.Locality.LibPath''"
abbreviation "DANCE_LM_PROCESSNAME \<equiv> ''nl.remedy.it.DnCX11.LocalityManager.ProcessName''"
abbreviation "CONNECTION_PROPERTY \<equiv> ''nl.remedy.it.CIAOX11.Properties''"
abbreviation "IMPL_TYPE \<equiv> ''nl.remedy.it.DnCX11.ImplementationType''"
abbreviation "CCM_HOME \<equiv> ''nl.remedy.it.CCM.Home''"
abbreviation "CCM_COMPONENT \<equiv> ''nl.remedy.it.CCM.Component''"
abbreviation "CCM_HOMEDCOMPONENT \<equiv> ''nl.remedy.it.CCM.HomedComponent''"
abbreviation "DANCE_LOCALITYMANAGER \<equiv> ''nl.remedy.it.DnCX11.LocalityManager''"
abbreviation "PARENT_PLAN \<equiv> ''nl.remedy.it.DnCX11.ParentPlan''"
abbreviation "DANCE_ARTIFACT \<equiv> ''nl.remedy.it.DnCX11.Artifact''"
abbreviation "DANCE_PLUGIN_FACTORY \<equiv> ''nl.remedy.it.DnCX11.InstanceHandler.Factory''"
abbreviation "DANCE_PLUGIN_ARTIFACT \<equiv> ''nl.remedy.it.DnCX11.InstanceHandler.Artifact''"
abbreviation "DANCE_PLUGIN_OPENMODE \<equiv> ''nl.remedy.it.DnCX11.InstanceHandler.OpenMode''"

end
