(* ===== verification/Utility.thy ===== *)
theory Utility
  imports Deployment_Data
begin

text \<open>
  dancex11/core/dancex11_utility.cpp and dancex11_utility_t.cpp: property lists and property
  maps, the lookup of a property, a resource or an instance type, the exceptions that travel in an
  Any, and the tokenizer. A lookup returns None where the source returns false (and leaves its
  output parameter alone); the extraction \<open>property.value () >>= val\<close> into the
  template's T is the argument \<open>ex\<close>.
\<close>

section \<open>Property maps\<close>

type_synonym 'd property_map = "(string, 'd any) smap"

definition build_property_map :: "'d property_map \<Rightarrow> 'd properties \<Rightarrow> bool \<Rightarrow> 'd property_map" where
  "build_property_map m ps overwrite =
     fold (\<lambda>p m. if overwrite \<or> map_get m (pr_name p) = None
                 then map_put (pr_name p) (pr_value p) m else m) ps m"

definition build_property_sequence :: "'d properties \<Rightarrow> 'd property_map \<Rightarrow> 'd properties" where
  "build_property_sequence ps m = ps @ map (\<lambda>(n, v). mk_prop n v) m"

definition append_properties :: "'d properties \<Rightarrow> 'd properties \<Rightarrow> 'd properties" where
  "append_properties dest src = dest @ src"

abbreviation prop_pairs :: "'d properties \<Rightarrow> (string \<times> 'd any) list" where
  "prop_pairs \<equiv> map (\<lambda>p. (pr_name p, pr_value p))"

lemma prop_pairs_sequence [simp]:
  "(\<lambda>p. (pr_name p, pr_value p)) \<circ> (\<lambda>(n, v). mk_prop n v) = (id :: string \<times> 'd any \<Rightarrow> _)"
  by auto

lemma build_property_map_overwrite:
  "build_property_map m ps True = fold (\<lambda>(k, v). map_put k v) (prop_pairs ps) m"
  by (induction ps arbitrary: m) (auto simp: build_property_map_def)

lemma map_ok_build: "map_ok m \<Longrightarrow> map_ok (build_property_map m ps ow)"
  unfolding build_property_map_def
  by (induction ps arbitrary: m) (auto simp: smap.ok_put)

lemma build_get_overwrite:
  "map_ok m \<Longrightarrow> map_get (build_property_map m ps True) k =
    (case map_of (rev (prop_pairs ps)) k of None \<Rightarrow> map_get m k | Some v \<Rightarrow> Some v)"
  unfolding build_property_map_overwrite by (rule smap.get_puts)

lemma build_get_keep:
  "map_ok m \<Longrightarrow> map_get (build_property_map m ps False) k =
    (case map_get m k of None \<Rightarrow> map_of (prop_pairs ps) k | Some v \<Rightarrow> Some v)"
proof (induction ps arbitrary: m)
  case Nil
  then show ?case by (simp add: build_property_map_def split: option.split)
next
  case (Cons p ps)
  let ?m = "if map_get m (pr_name p) = None then map_put (pr_name p) (pr_value p) m else m"
  have "map_get (build_property_map ?m ps False) k =
      (case map_get ?m k of None \<Rightarrow> map_of (prop_pairs ps) k | Some v \<Rightarrow> Some v)"
    using Cons.prems by (intro Cons.IH) (simp add: smap.ok_put)
  with Cons.prems show ?case
    by (auto simp: build_property_map_def smap.get_put split: option.splits if_splits)
qed

lemma map_ok_unique:
  "map_ok m \<Longrightarrow> map_ok n \<Longrightarrow> (\<And>k. map_get m k = map_get n k) \<Longrightarrow> m = n"
proof -
  assume m: "map_ok m" and n: "map_ok n" and eq: "\<And>k. map_get m k = map_get n k"
  then have set_eq: "set m = set n"
    by (auto simp: set_map_get)
  have "sorted (map fst m)" "distinct (map fst m)" "sorted (map fst n)" "distinct (map fst n)"
    using m n by (auto simp: map_ok_def strict_sorted_iff)
  then have "map fst m = map fst n"
    using set_eq by (metis list.set_map sorted_distinct_set_unique)
  moreover have "distinct m" "distinct n"
    using m n by (auto dest!: map_ok_distinct simp: distinct_map)
  moreover have "inj_on fst (set m)"
    using m by (auto dest!: map_ok_distinct simp: distinct_map)
  ultimately show "m = n"
    using set_eq by (metis inj_on_map_eq_map Un_absorb)
qed

section \<open>Lookups\<close>

fun get_property_value :: "('d any \<Rightarrow> 't option) \<Rightarrow> string \<Rightarrow> 'd properties \<Rightarrow> 't option" where
  "get_property_value ex name [] = None"
| "get_property_value ex name (p # ps) =
     (if pr_name p = name then ex (pr_value p) else get_property_value ex name ps)"

definition get_property_value_map :: "('d any \<Rightarrow> 't option) \<Rightarrow> string \<Rightarrow> 'd property_map \<Rightarrow> 't option" where
  "get_property_value_map ex name m =
     (case map_get m name of None \<Rightarrow> None | Some v \<Rightarrow> ex v)"

fun get_satisfier_property_value ::
    "('d any \<Rightarrow> 't option) \<Rightarrow> string \<Rightarrow> 'd sat_property list \<Rightarrow> 't option" where
  "get_satisfier_property_value ex name [] = None"
| "get_satisfier_property_value ex name (p # ps) =
     (if sp_name p = name then ex (sp_value p) else get_satisfier_property_value ex name ps)"

text \<open>
  The loop variable of \<open>update_property_value\<close> is a copy of the list's element, so the value
  inserted into it is lost when the loop's variable goes out of scope.
\<close>

definition update_property_value :: "string \<Rightarrow> 'd any \<Rightarrow> 'd properties \<Rightarrow> 'd properties" where
  "update_property_value name val ps =
     (if \<exists>p \<in> set ps. pr_name p = name then ps else ps @ [mk_prop name val])"

fun get_resource_value :: "string \<Rightarrow> 'd resource list \<Rightarrow> 'd resource option" where
  "get_resource_value ty [] = None"
| "get_resource_value ty (r # rs) =
     (if ty \<in> set (rs_types r) then Some r else get_resource_value ty rs)"

text \<open>
  The type of an instance is decided by the first property that names a home, a component factory,
  an explicit home or an implementation type; an implementation type whose value is not a string is
  skipped.
\<close>

fun instance_type_loop :: "'d properties \<Rightarrow> 'd properties \<Rightarrow> string" where
  "instance_type_loop all [] = []"
| "instance_type_loop all (p # ps) =
     (if pr_name p = HOME_FACTORY then CCM_HOME
      else if pr_name p = COMPONENT_FACTORY then CCM_COMPONENT
      else if pr_name p = EXPLICIT_HOME then CCM_HOMEDCOMPONENT
      else if pr_name p = IMPL_TYPE then
        (case get_property_value as_string IMPL_TYPE all of
           Some v \<Rightarrow> v
         | None \<Rightarrow> instance_type_loop all ps)
      else instance_type_loop all ps)"

definition get_instance_type :: "'d properties \<Rightarrow> string" where
  "get_instance_type ps = instance_type_loop ps ps"

section \<open>Exceptions in an Any\<close>

text \<open>The flag and exception of a caller that reports only the first failure.\<close>

definition test_and_set_exception ::
    "bool \<Rightarrow> string \<times> string \<Rightarrow> string \<Rightarrow> string \<Rightarrow> bool \<times> string \<times> string" where
  "test_and_set_exception flag ex name reason =
     (if flag then (flag, ex) else (True, name, reason))"

text \<open>Raises the exception of kind \<open>k\<close> if the Any holds one; returns (false) otherwise.\<close>

definition extract_and_throw_exception :: "user_kind \<Rightarrow> 'd any \<Rightarrow> exn + unit" where
  "extract_and_throw_exception k a = (case as_user_ex k a of Some e \<Rightarrow> Inl e | None \<Rightarrow> Inr ())"

fun repo_id :: "exn \<Rightarrow> string" where
  "repo_id (UserEx k _ _) = kind_id k"
| "repo_id (OtherUser i) = i"
| "repo_id (SysEx i) = i"
| "repo_id _ = []"

fun any_id :: "'d any \<Rightarrow> string" where
  "any_id (ExAny e) = repo_id e"
| "any_id _ = []"

abbreviation CORBA_UNKNOWN :: exn where
  "CORBA_UNKNOWN \<equiv> SysEx ''IDL:omg.org/CORBA/UNKNOWN:1.0''"

definition starts_with :: "string \<Rightarrow> string \<Rightarrow> bool" where
  "starts_with p s \<longleftrightarrow> take (length p) s = p"

text \<open>
  The kinds of exception the chain of typecode comparisons tests, in its order. The extraction of
  a system exception is the ORB's, the parameter \<open>sysx\<close>. Every path ends in an exception, so
  the result is the exception thrown.
\<close>

definition thrown_kinds :: "user_kind list" where
  "thrown_kinds = [PlanError, StartError, StopError, InvalidConnection,
     InvalidNodeExecParameter, InvalidProperty]"

fun throw_kind :: "user_kind list \<Rightarrow> 'd any \<Rightarrow> exn option" where
  "throw_kind [] a = None"
| "throw_kind (k # ks) a =
     (if any_id a = kind_id k
      then (case extract_and_throw_exception k a of Inl e \<Rightarrow> Some e | Inr _ \<Rightarrow> Some CORBA_UNKNOWN)
      else throw_kind ks a)"

definition throw_exception_from_any :: "('d any \<Rightarrow> exn option) \<Rightarrow> 'd any \<Rightarrow> exn" where
  "throw_exception_from_any sysx a =
     (case throw_kind thrown_kinds a of
        Some e \<Rightarrow> e
      | None \<Rightarrow>
          (if starts_with ''IDL:omg.org/CORBA/'' (any_id a)
           then (case sysx a of Some e \<Rightarrow> e | None \<Rightarrow> CORBA_UNKNOWN)
           else CORBA_UNKNOWN))"

fun kind_text :: "user_kind \<Rightarrow> string" where
  "kind_text PlanError = ''PlanError exception -''"
| "kind_text StartError = ''StartError exception -''"
| "kind_text StopError = ''StopError exception -''"
| "kind_text InvalidConnection = ''InvalidConnection exception -''"
| "kind_text InvalidNodeExecParameter = ''InvalidNodeExecParameter exception -''"
| "kind_text InvalidComponentExecParameter = ''InvalidComponentExecParameter exception -''"
| "kind_text InvalidProperty = ''InvalidProperty exception -''"

definition stringify_exception :: "user_kind \<Rightarrow> 'd any \<Rightarrow> string \<Rightarrow> bool \<times> string" where
  "stringify_exception k a result =
     (case as_user_ex k a of
        Some e \<Rightarrow> (True, result @ '' Name: '' @ ex_name e @ '' Reason: '' @ ex_reason e)
      | None \<Rightarrow> (False, result))"

text \<open>\<open>show_sys\<close>: what the ORB writes for a system exception.\<close>

definition stringify_exception_from_any ::
    "('d any \<Rightarrow> exn option) \<Rightarrow> (exn \<Rightarrow> string) \<Rightarrow> 'd any \<Rightarrow> string" where
  "stringify_exception_from_any sysx show_sys a =
     (let (flag, result) =
        (case filter (\<lambda>k. any_id a = kind_id k) thrown_kinds of
           k # _ \<Rightarrow> stringify_exception k a (kind_text k)
         | [] \<Rightarrow>
             (if starts_with ''IDL:omg.org/CORBA/'' (any_id a)
              then (case sysx a of
                      Some e \<Rightarrow> (True, ''CORBA System Exception: '' @ show_sys e)
                    | None \<Rightarrow> (False, []))
              else (False, [])))
      in if flag then result
         else result @ ''Unable to decode exception meta-data for ID '' @ any_id a)"

section \<open>Tokenizing\<close>

text \<open>\<open>str\<close> is the text of the C string, up to its terminating zero.\<close>

function tokenize :: "string \<Rightarrow> char \<Rightarrow> string list" where
  "tokenize str c =
     (case dropWhile (\<lambda>x. x \<noteq> c) str of
        [] \<Rightarrow> [takeWhile (\<lambda>x. x \<noteq> c) str]
      | _ # rest \<Rightarrow> takeWhile (\<lambda>x. x \<noteq> c) str # tokenize rest c)"
  by pat_completeness auto
termination
proof (relation "measure (length \<circ> fst)")
  fix str :: string and c x rest
  assume "dropWhile (\<lambda>x. x \<noteq> c) str = x # rest"
  then have "length (x # rest) \<le> length str"
    by (metis length_dropWhile_le)
  then show "((rest, c), str, c) \<in> measure (length \<circ> fst)" by simp
qed simp

declare tokenize.simps [simp del]

fun join_with :: "char \<Rightarrow> string list \<Rightarrow> string" where
  "join_with c [] = []"
| "join_with c [t] = t"
| "join_with c (t # u # ts) = t @ c # join_with c (u # ts)"

lemma tokenize_not_Nil: "tokenize str c \<noteq> []"
  by (subst tokenize.simps) (simp split: list.split)

section \<open>Properties\<close>

text \<open>
  A property map built with overwriting holds, for each name, the last value the list gives it
  and otherwise the value it had; built without overwriting it keeps every value it had and takes
  the first value the list gives a new name.
\<close>

theorem build_property_map_lookup:
  assumes "map_ok m"
  shows "map_ok (build_property_map m ps ow) \<and>
    map_get (build_property_map m ps ow) k =
      (if ow then (case map_of (rev (prop_pairs ps)) k of None \<Rightarrow> map_get m k | Some v \<Rightarrow> Some v)
       else (case map_get m k of None \<Rightarrow> map_of (prop_pairs ps) k | Some v \<Rightarrow> Some v))"
  using assms by (simp add: map_ok_build build_get_overwrite build_get_keep)

theorem build_property_map_lookup_witness:
  "map_get (build_property_map [(''a'', PrimAny (VBool True))]
     [mk_prop ''a'' (PrimAny (VBool False)), mk_prop ''b'' (NullAny :: int any)] False) ''a''
   = Some (PrimAny (VBool True))"
  using build_property_map_lookup
    [of "[(''a'', PrimAny (VBool True))]"
        "[mk_prop ''a'' (PrimAny (VBool False)), mk_prop ''b'' (NullAny :: int any)]" False "''a''"]
  by (simp add: map_ok_def map_get_def)

text \<open>
  Writing a property map out as a sequence and building a map from that sequence gives the map
  back.
\<close>

theorem property_map_roundtrip:
  assumes "map_ok m"
  shows "build_property_map [] (build_property_sequence [] m) ow = m"
proof (rule map_ok_unique)
  show "map_ok (build_property_map [] (build_property_sequence [] m) ow)"
    by (simp add: map_ok_build)
  fix k
  have "map_of (rev m) k = map_of m k"
    using map_ok_distinct [OF assms] by (metis map_of_inject_set distinct_rev rev_map set_rev)
  then show "map_get (build_property_map [] (build_property_sequence [] m) ow) k = map_get m k"
    by (cases ow) (simp_all add: build_get_overwrite build_get_keep build_property_sequence_def
        map_get_def [of m k] split: option.split)
qed (rule assms)

theorem property_map_roundtrip_witness:
  "build_property_map [] (build_property_sequence []
     [(''a'', NullAny :: int any), (''b'', PrimAny (VString ''x''))]) True =
     [(''a'', NullAny), (''b'', PrimAny (VString ''x''))]"
  by (rule property_map_roundtrip) (simp add: map_ok_def)

text \<open>
  Updating a property that the list already names leaves the list as it is: the new value goes
  into a copy of the element. A name the list does not have is appended with the value.
\<close>

theorem update_property_value_lost:
  "get_property_value Some name (update_property_value name val ps) =
     (if name \<in> pr_name ` set ps then get_property_value Some name ps else Some val)"
proof -
  have absent: "name \<notin> pr_name ` set ps \<Longrightarrow>
      get_property_value Some name (ps @ [mk_prop name val]) = Some val"
    by (induction ps) auto
  show ?thesis
    using absent by (auto simp: update_property_value_def image_iff)
qed

lemma throw_kind_user:
  "throw_kind ks (ExAny (UserEx k n r)) = (if k \<in> set ks then Some (UserEx k n r) else None)"
  by (induction ks) (auto simp: extract_and_throw_exception_def)

lemma throw_any_user:
  "throw_exception_from_any sysx (ExAny (UserEx k n r)) =
     (if k = InvalidComponentExecParameter then CORBA_UNKNOWN else UserEx k n r)"
  by (cases k)
    (simp_all add: throw_exception_from_any_def throw_kind_user starts_with_def thrown_kinds_def)

text \<open>
  Rethrowing the exception in an Any: the six listed Deployment exceptions come out as they went
  in, name and reason included, but an InvalidComponentExecParameter, which instance handlers are
  declared to raise, comes out as CORBA::UNKNOWN and its name and reason are lost.
\<close>

theorem throw_exception_from_any_user:
  "throw_exception_from_any sysx (ExAny (UserEx k n r)) =
     (if k = InvalidComponentExecParameter then CORBA_UNKNOWN else UserEx k n r)"
  by (rule throw_any_user)

text \<open>
  Joining the tokens of a string with the separator gives the string back, and no token
  contains the separator.
\<close>

theorem tokenize_join:
  "join_with c (tokenize str c) = str \<and> c \<notin> \<Union> (set ` set (tokenize str c))"
proof (induction str c rule: tokenize.induct)
  case (1 str c)
  let ?h = "takeWhile (\<lambda>x. x \<noteq> c) str" and ?t = "dropWhile (\<lambda>x. x \<noteq> c) str"
  have split: "?h @ ?t = str" by simp
  have h: "c \<notin> set ?h" by (auto dest: set_takeWhileD)
  show ?case
  proof (cases ?t)
    case Nil
    then have "tokenize str c = [?h]"
      by (subst tokenize.simps) (simp only: list.case)
    moreover from Nil split have "?h = str" by (metis append_Nil2)
    ultimately show ?thesis using h by (metis join_with.simps(2) Union_image_empty image_insert
        UN_insert empty_set list.simps(15) sup_bot_right)
  next
    case (Cons x rest)
    then have tok: "tokenize str c = ?h # tokenize rest c"
      by (subst tokenize.simps) (simp only: list.case)
    have "x = c" using Cons by (metis (mono_tags) dropWhile_eq_Cons_conv)
    moreover obtain u us where "tokenize rest c = u # us"
      using tokenize_not_Nil by (metis list.exhaust)
    moreover have "?h @ x # rest = str" using split Cons by simp
    ultimately show ?thesis
      using 1 [OF Cons] h by (simp add: tok)
  qed
qed

end
