(* ===== verification/Dependency_Sorter.thy ===== *)
theory Dependency_Sorter
  imports Prelude
begin

text \<open>
  The order in which instance handlers install, dancex11/scheduler/dependency_sorter.cpp. A handler
  type has a set of types to install after; calculate_order repeatedly selects the first type, in the
  order of the names, whose dependencies it takes to be satisfied.
\<close>

type_synonym dep_map = "(string, string set) smap"

datatype order_error = Invalid_Install_Order (ordered_so_far: "string list")

definition add_nondependent :: "string \<Rightarrow> dep_map \<Rightarrow> dep_map" where
  "add_nondependent subject m = map_put subject {} m"

definition add_dependencies :: "string \<Rightarrow> string set \<Rightarrow> dep_map \<Rightarrow> dep_map" where
  "add_dependencies subject deps m = map_put subject deps m"

definition add_dependency :: "string \<Rightarrow> string \<Rightarrow> dep_map \<Rightarrow> dep_map" where
  "add_dependency subject install_after m =
     (case map_get m subject of
        None \<Rightarrow> map_put subject {install_after} m
      | Some deps \<Rightarrow> map_put subject (insert install_after deps) m)"

text \<open>
  \<open>std::set_intersection\<close> writes through an iterator over a vector that already has the size of the
  dependencies, so the size of the vector does not depend on what is written.
\<close>

definition write_over :: "'a list \<Rightarrow> 'a list \<Rightarrow> 'a list" where
  "write_over buf xs = take (length buf) xs @ drop (length xs) buf"

definition dependencies_satisfied :: "string set \<Rightarrow> string set \<Rightarrow> bool" where
  "dependencies_satisfied selected deps \<longleftrightarrow>
     deps = {} \<or>
     (card deps \<le> card selected
      \<and> length (write_over (replicate (card deps) []) (sorted_list_of_set (deps \<inter> selected))) = card deps)"

fun next_subject :: "string set \<Rightarrow> dep_map \<Rightarrow> string option" where
  "next_subject selected [] = None"
| "next_subject selected ((n, deps) # m) =
     (if dependencies_satisfied selected deps then Some n else next_subject selected m)"

lemma next_subject_mem: "next_subject sel m = Some n \<Longrightarrow> \<exists>d. (n, d) \<in> set m \<and> dependencies_satisfied sel d"
  by (induction m) (auto split: if_splits)

lemma next_subject_none: "next_subject sel m = None \<longleftrightarrow> (\<forall>p \<in> set m. \<not> dependencies_satisfied sel (snd p))"
proof (induction m)
  case (Cons p m)
  then show ?case by (cases p; cases "dependencies_satisfied sel (snd p)") simp_all
qed simp

text \<open>
  The loop: \<open>wanted\<close> is the size of the dependency map, the list the result parameter, the map the
  types not yet selected. Invalid_Install_Order carries what the result parameter holds when it is
  thrown.
\<close>

function order_loop ::
  "nat \<Rightarrow> string set \<Rightarrow> dep_map \<Rightarrow> string list \<Rightarrow> order_error + string list" where
  "order_loop wanted selected todo retval =
     (if length retval = wanted then Inr retval
      else case next_subject selected todo of
          None \<Rightarrow> Inl (Invalid_Install_Order retval)
        | Some n \<Rightarrow> order_loop wanted (insert n selected) (map_erase n todo) (retval @ [n]))"
  by pat_completeness auto
termination
proof (relation "measure (\<lambda>(_, _, todo, _). length todo)", simp, clarsimp)
  fix selected and todo :: dep_map and n
  assume "next_subject selected todo = Some n"
  then obtain d where "(n, d) \<in> set todo" by (auto dest: next_subject_mem)
  then show "length (map_erase n todo) < length todo"
    unfolding map_erase_def by (intro length_filter_less) auto
qed

declare order_loop.simps [simp del]

definition calculate_order :: "dep_map \<Rightarrow> string list \<Rightarrow> order_error + string list" where
  "calculate_order m retval = order_loop (length m) {} m retval"

section \<open>What the check amounts to\<close>

lemma length_write_over: "length xs \<le> length buf \<Longrightarrow> length (write_over buf xs) = length buf"
  by (simp add: write_over_def)

lemma dependencies_satisfied_card:
  "finite deps \<Longrightarrow> dependencies_satisfied selected deps \<longleftrightarrow> card deps \<le> card selected"
  by (auto simp: dependencies_satisfied_def length_write_over card_mono)

definition deps_finite :: "dep_map \<Rightarrow> bool" where
  "deps_finite m \<longleftrightarrow> (\<forall>(n, d) \<in> set m. finite d)"

section \<open>The loop\<close>

text \<open>The state of the loop: what is selected is the result so far, the rest is still to do.\<close>

definition loop_inv :: "dep_map \<Rightarrow> string set \<Rightarrow> dep_map \<Rightarrow> string list \<Rightarrow> bool" where
  "loop_inv m sel todo ret \<longleftrightarrow> sel = set ret \<and> distinct ret \<and> sel \<subseteq> map_keys m
     \<and> todo = filter (\<lambda>p. fst p \<notin> sel) m
     \<and> (\<forall>i < length ret. \<exists>d. map_get m (ret ! i) = Some d \<and> card d \<le> i)"

lemma loop_inv_step:
  assumes ok: "map_ok m" "deps_finite m" and inv: "loop_inv m sel todo ret"
    and n: "next_subject sel todo = Some n"
  shows "loop_inv m (insert n sel) (map_erase n todo) (ret @ [n])"
proof -
  obtain d where d: "(n, d) \<in> set todo" "dependencies_satisfied sel d"
    using next_subject_mem [OF n] by blast
  then have m: "(n, d) \<in> set m" "n \<notin> sel" using inv by (auto simp: loop_inv_def)
  have "finite d" using m ok by (auto simp: deps_finite_def)
  with d have "card d \<le> card sel" by (simp add: dependencies_satisfied_card)
  moreover have "card sel = length ret" using inv by (auto simp: loop_inv_def distinct_card)
  moreover have "map_get m n = Some d" using m ok by (simp add: set_map_get)
  ultimately have "\<forall>i < length (ret @ [n]). \<exists>d. map_get m ((ret @ [n]) ! i) = Some d \<and> card d \<le> i"
    using inv by (auto simp: loop_inv_def nth_append less_Suc_eq)
  moreover have "map_erase n todo = filter (\<lambda>p. fst p \<notin> insert n sel) m"
    using inv by (auto simp: loop_inv_def map_erase_def intro: filter_cong)
  ultimately show ?thesis
    using inv m by (auto simp: loop_inv_def map_keys_def image_iff intro: bexI [of _ "(n, d)"])
qed

lemma order_loop_ok:
  "map_ok m \<Longrightarrow> deps_finite m \<Longrightarrow> loop_inv m sel todo ret \<Longrightarrow>
    order_loop (length m) sel todo ret = Inr io \<Longrightarrow>
    \<exists>sel todo. loop_inv m sel todo io \<and> length io = length m"
proof (induction "length m" sel todo ret rule: order_loop.induct)
  case (1 sel todo ret)
  show ?case
  proof (cases "length ret = length m")
    case True
    with 1 show ?thesis by (auto simp: order_loop.simps [of "length m" sel])
  next
    case False
    with 1(5) obtain n where n: "next_subject sel todo = Some n"
      by (auto simp: order_loop.simps [of "length m" sel] split: option.splits)
    with False 1(5) have "order_loop (length m) (insert n sel) (map_erase n todo) (ret @ [n]) = Inr io"
      by (simp add: order_loop.simps [of "length m" sel])
    with 1(1) [OF False n 1(2,3) loop_inv_step [OF 1(2,3,4) n]] show ?thesis by simp
  qed
qed

lemma order_perm:
  assumes "map_ok m" "loop_inv m sel todo io" "length io = length m"
  shows "set io = map_keys m"
proof -
  have "distinct io" "set io \<subseteq> map_keys m" using assms(2) by (auto simp: loop_inv_def)
  moreover have "card (map_keys m) = length m"
    using map_ok_distinct [OF assms(1)] distinct_card [of "map fst m"] by (simp add: map_keys_def)
  ultimately show ?thesis
    using assms(3) by (intro card_subset_eq) (auto simp: map_keys_def distinct_card)
qed

lemma loop_inv_start: "loop_inv m {} m []"
  by (simp add: loop_inv_def)

text \<open>Acyclic dependencies among registered types always leave a type to select.\<close>

lemma subject_left:
  assumes ok: "map_ok m" "deps_finite m" and inv: "loop_inv m sel todo ret" and left: "length ret \<noteq> length m"
    and closed: "\<And>n d. (n, d) \<in> set m \<Longrightarrow> d \<subseteq> map_keys m"
    and rank: "\<And>n d j. (n, d) \<in> set m \<Longrightarrow> j \<in> d \<Longrightarrow> rank j < (rank n :: nat)"
  shows "next_subject sel todo \<noteq> None"
proof
  assume none: "next_subject sel todo = None"
  have "set ret \<noteq> map_keys m"
  proof
    assume "set ret = map_keys m"
    then have "length ret = card (map_keys m)" using inv distinct_card by (fastforce simp: loop_inv_def)
    with left show False
      using map_ok_distinct [OF ok(1)] distinct_card [of "map fst m"] by (simp add: map_keys_def)
  qed
  then obtain k where "k \<in> map_keys m - sel" using inv by (auto simp: loop_inv_def)
  then obtain n where n: "n \<in> map_keys m - sel" "\<And>j. rank j < rank n \<Longrightarrow> j \<notin> map_keys m - sel"
    using wf_eq_minimal [of "measure rank"] wf_measure [of rank]
    by (metis in_measure)
  then obtain d where d: "(n, d) \<in> set m" by (auto simp: map_keys_def)
  have "d \<subseteq> sel"
  proof
    fix j assume j: "j \<in> d"
    then have "rank j < rank n" "j \<in> map_keys m" using rank [OF d j] closed [OF d] by auto
    with n(2) show "j \<in> sel" by blast
  qed
  then have "card d \<le> card sel"
    using inv by (intro card_mono) (auto simp: loop_inv_def)
  moreover have "finite d" using d ok by (auto simp: deps_finite_def)
  ultimately have "dependencies_satisfied sel d" by (simp add: dependencies_satisfied_card)
  moreover have "(n, d) \<in> set todo" using d n inv by (auto simp: loop_inv_def)
  ultimately show False using none by (fastforce simp: next_subject_none)
qed

lemma order_loop_total:
  assumes "map_ok m" "deps_finite m"
    and closed: "\<And>n d. (n, d) \<in> set m \<Longrightarrow> d \<subseteq> map_keys m"
    and rank: "\<And>n d j. (n, d) \<in> set m \<Longrightarrow> j \<in> d \<Longrightarrow> rank j < (rank n :: nat)"
  shows "loop_inv m sel todo ret \<Longrightarrow> \<exists>io. order_loop (length m) sel todo ret = Inr io"
proof (induction "length m" sel todo ret rule: order_loop.induct)
  case (1 sel todo ret)
  show ?case
  proof (cases "length ret = length m")
    case False
    then obtain n where n: "next_subject sel todo = Some n"
      using subject_left [OF assms(1,2) 1(2) False, of rank] closed rank by blast
    from 1(1) [OF False n loop_inv_step [OF assms(1,2) 1(2) n]] show ?thesis
      using False n by (simp add: order_loop.simps [of "length m" sel])
  qed (simp add: order_loop.simps [of "length m" sel])
qed

lemma calculate_order_ok:
  assumes "map_ok m" "deps_finite m" "calculate_order m [] = Inr io"
  shows "distinct io" "set io = map_keys m"
    "\<forall>i < length io. \<exists>d. map_get m (io ! i) = Some d \<and> card d \<le> i"
proof -
  have "order_loop (length m) {} m [] = Inr io"
    using assms(3) by (simp add: calculate_order_def)
  then obtain sel todo where inv: "loop_inv m sel todo io" and len: "length io = length m"
    using order_loop_ok [OF assms(1,2) loop_inv_start] by blast
  show "set io = map_keys m" by (rule order_perm [OF assms(1) inv len])
  show "distinct io" "\<forall>i < length io. \<exists>d. map_get m (io ! i) = Some d \<and> card d \<le> i"
    using inv by (auto simp: loop_inv_def)
qed

section \<open>Properties\<close>

text \<open>
  C30. An installation order lists every registered type exactly once, and no type at a position
  smaller than the number of types it depends on; that is all the loop guarantees.
\<close>

theorem order_is_permutation:
  assumes "map_ok m" "deps_finite m" "calculate_order m [] = Inr io"
  shows "distinct io \<and> set io = map_keys m
    \<and> (\<forall>i < length io. \<exists>d. map_get m (io ! i) = Some d \<and> card d \<le> i)"
  using calculate_order_ok [OF assms] by blast

definition two_handlers :: dep_map where
  "two_handlers = add_dependency ''B'' ''A'' (add_nondependent ''A'' [])"

theorem order_is_permutation_witness:
  "distinct [''A'', ''B''] \<and> set [''A'', ''B''] = map_keys two_handlers"
proof -
  have "map_ok two_handlers" by (simp add: map_ok_def two_handlers_def add_dependency_def add_nondependent_def
      map_get_def)
  moreover have "deps_finite two_handlers"
    by (simp add: deps_finite_def two_handlers_def add_dependency_def add_nondependent_def map_get_def)
  moreover have "calculate_order two_handlers [] = Inr [''A'', ''B'']"
    by code_simp
  ultimately show ?thesis
    using order_is_permutation by blast
qed

text \<open>
  The order is found, and Invalid_Install_Order is not thrown, whenever the dependencies are
  acyclic and name registered types only.
\<close>

theorem acyclic_order_found:
  assumes "map_ok m" "deps_finite m"
    and "\<And>n d. (n, d) \<in> set m \<Longrightarrow> d \<subseteq> map_keys m"
    and "\<And>n d j. (n, d) \<in> set m \<Longrightarrow> j \<in> d \<Longrightarrow> rank j < (rank n :: nat)"
  shows "\<exists>io. calculate_order m [] = Inr io \<and> length io = length m"
proof -
  obtain io where io: "order_loop (length m) {} m [] = Inr io"
    using order_loop_total [OF assms(1,2), of rank] assms(3,4) loop_inv_start by blast
  with order_loop_ok [OF assms(1,2) loop_inv_start] show ?thesis
    by (auto simp: calculate_order_def)
qed

theorem acyclic_order_found_witness:
  "\<exists>io. calculate_order two_handlers [] = Inr io \<and> length io = length two_handlers"
proof (rule acyclic_order_found [where rank = "\<lambda>n. if n = ''B'' then 1 else 0"])
  show "map_ok two_handlers" "deps_finite two_handlers"
    by (simp_all add: map_ok_def deps_finite_def two_handlers_def add_dependency_def
        add_nondependent_def map_get_def)
qed (auto simp: two_handlers_def add_dependency_def add_nondependent_def map_get_def map_keys_def)

text \<open>
  Dependencies are counted, not compared: with handlers A, B and C where B is to install after C,
  the order is A, B, C, with B before the handler it depends on.
\<close>

theorem order_violates_dependency:
  "calculate_order (add_nondependent ''C'' (add_dependency ''B'' ''C'' (add_nondependent ''A'' []))) [] =
    Inr [''A'', ''B'', ''C'']"
  by code_simp

end
