(* ===== verification/Plugin_Manager.thy ===== *)
theory Plugin_Manager
  imports Utility Dependency_Sorter
begin

text \<open>
  The registry of plugins, dancex11/scheduler/events/plugin_manager.cpp: instance handlers by the
  type they install, interceptors, configuration handlers and service objects.

  Plugins are code loaded at run time. What the manager sees of them is in the record
  \<open>plugin_env\<close>: the result of resolving and calling a factory, and of the operations of a plugin
  that the manager calls. The service configurator of ACE and the presence of an ORB are in it too.
\<close>

record ('p, 'd) plugin_env =
  resolve_factory :: "string \<Rightarrow> string \<Rightarrow> 32 word \<Rightarrow> string + 'p option"
  instance_type :: "'p \<Rightarrow> string"
  plugin_dependencies :: "'p \<Rightarrow> string list"
  plugin_configure :: "'p \<Rightarrow> 'd properties \<Rightarrow> exn option"
  configuration_type :: "'p \<Rightarrow> exn + string"
  exception_text :: "exn \<Rightarrow> string"
  process_directive :: "string \<Rightarrow> bool"
  has_orb :: bool

record ('p, 'd) manager =
  pm_config :: "'d properties"
  handler_map :: "(string, 'p) smap"
  interceptors :: "'p list"
  config_plugins :: "(string, 'p) smap"
  service_objects :: "string list"
  ih_dep :: dep_map
  service_directives :: "string list"

definition new_manager :: "('p, 'd) manager" where
  "new_manager = \<lparr>pm_config = [], handler_map = [], interceptors = [], config_plugins = [],
     service_objects = [], ih_dep = [], service_directives = []\<rparr>"

definition load_plugin ::
  "('p, 'd) plugin_env \<Rightarrow> string \<Rightarrow> string \<Rightarrow> 32 word \<Rightarrow> exn + 'p" where
  "load_plugin env artifact entrypoint open_mode =
     (if artifact = [] \<or> entrypoint = []
      then Inl (plan_error [] ''Invalid parameters for plug-in installation'')
      else case resolve_factory env artifact entrypoint open_mode of
          Inl err \<Rightarrow> Inl (plan_error artifact err)
        | Inr None \<Rightarrow> Inl (plan_error artifact ''Nil result from factory'')
        | Inr (Some p) \<Rightarrow> Inr p)"

definition set_configuration :: "'d properties \<Rightarrow> ('p, 'd) manager \<Rightarrow> ('p, 'd) manager" where
  "set_configuration cfg pm = pm\<lparr>pm_config := cfg\<rparr>"

definition add_configuration :: "'d properties \<Rightarrow> ('p, 'd) manager \<Rightarrow> ('p, 'd) manager" where
  "add_configuration cfg pm =
     (if pm_config pm = [] then pm\<lparr>pm_config := cfg\<rparr>
      else (let m = build_property_map [] (pm_config pm) False;
                m' = build_property_map m cfg True
            in pm\<lparr>pm_config := build_property_sequence [] m'\<rparr>))"

text \<open>How a failing configure call is reported.\<close>

fun configuration_error :: "('p, 'd) plugin_env \<Rightarrow> string \<Rightarrow> exn \<Rightarrow> exn" where
  "configuration_error env artifact (StdEx what) = plan_error artifact what"
| "configuration_error env artifact ForeignEx =
     plan_error artifact ''Unknown C++ exception during handler configuration''"
| "configuration_error env artifact e = plan_error artifact (exception_text env e)"

text \<open>
  Registering an instance handler: the caller's properties are completed from the configuration of the
  manager, before anything that can fail. The result is the instance type, the properties as they are
  left, and the manager.
\<close>

definition register_installation_handler ::
  "('p, 'd) plugin_env \<Rightarrow> string \<Rightarrow> string \<Rightarrow> string set \<Rightarrow> 32 word \<Rightarrow> 'd property_map \<Rightarrow>
    ('p, 'd) manager \<Rightarrow> (exn + string) \<times> 'd property_map \<times> ('p, 'd) manager" where
  "register_installation_handler env artifact entrypoint depends open_mode config pm =
     (case load_plugin env artifact entrypoint open_mode of
        Inl e \<Rightarrow> (Inl e, config, pm)
      | Inr p \<Rightarrow>
          (let ty = instance_type env p;
               config' = build_property_map config (pm_config pm) False
           in case plugin_configure env p (build_property_sequence [] config') of
               Some e \<Rightarrow> (Inl (configuration_error env artifact e), config', pm)
             | None \<Rightarrow>
                 (Inr ty, config',
                  pm\<lparr>ih_dep := fold (add_dependency ty) (plugin_dependencies env p)
                        (add_dependencies ty depends (ih_dep pm)),
                     handler_map := map_insert ty p (handler_map pm)\<rparr>)))"

definition get_installation_order :: "('p, 'd) manager \<Rightarrow> string list \<Rightarrow> order_error + string list" where
  "get_installation_order pm io = calculate_order (ih_dep pm) io"

text \<open>The interceptor variant knows no std::exception handler.\<close>

fun interceptor_error :: "('p, 'd) plugin_env \<Rightarrow> string \<Rightarrow> exn \<Rightarrow> exn" where
  "interceptor_error env artifact (StdEx what) =
     plan_error artifact (''Unknown C++ exception during handler configuration'' @ [newline])"
| "interceptor_error env artifact ForeignEx =
     plan_error artifact (''Unknown C++ exception during handler configuration'' @ [newline])"
| "interceptor_error env artifact e = plan_error artifact (exception_text env e)"

definition register_interceptor ::
  "('p, 'd) plugin_env \<Rightarrow> string \<Rightarrow> string \<Rightarrow> 32 word \<Rightarrow> 'd property_map \<Rightarrow>
    ('p, 'd) manager \<Rightarrow> (exn + unit) \<times> 'd property_map \<times> ('p, 'd) manager" where
  "register_interceptor env artifact entrypoint open_mode config pm =
     (case load_plugin env artifact entrypoint open_mode of
        Inl e \<Rightarrow> (Inl e, config, pm)
      | Inr p \<Rightarrow>
          (let config' = build_property_map config (pm_config pm) False
           in case plugin_configure env p (build_property_sequence [] config') of
               Some e \<Rightarrow> (Inl (interceptor_error env artifact e), config', pm)
             | None \<Rightarrow> (Inr (), config', pm\<lparr>interceptors := interceptors pm @ [p]\<rparr>)))"

definition fetch_installation_handler :: "string \<Rightarrow> ('p, 'd) manager \<Rightarrow> 'p option" where
  "fetch_installation_handler ty pm = map_get (handler_map pm) ty"

definition fetch_interceptors :: "('p, 'd) manager \<Rightarrow> 'p list" where
  "fetch_interceptors pm = interceptors pm"

fun plugin_type_error :: "('p, 'd) plugin_env \<Rightarrow> string \<Rightarrow> exn \<Rightarrow> exn" where
  "plugin_type_error env artifact (StdEx what) =
     plan_error artifact (''Unknown C++ exception during plugin configuration'' @ [newline])"
| "plugin_type_error env artifact ForeignEx =
     plan_error artifact (''Unknown C++ exception during plugin configuration'' @ [newline])"
| "plugin_type_error env artifact e = plan_error artifact (exception_text env e)"

definition register_configuration_plugin ::
  "('p, 'd) plugin_env \<Rightarrow> string \<Rightarrow> string \<Rightarrow> 32 word \<Rightarrow> ('p, 'd) manager \<Rightarrow>
    (exn + unit) \<times> ('p, 'd) manager" where
  "register_configuration_plugin env artifact entrypoint open_mode pm =
     (case load_plugin env artifact entrypoint open_mode of
        Inl e \<Rightarrow> (Inl e, pm)
      | Inr p \<Rightarrow>
          (case configuration_type env p of
             Inl e \<Rightarrow> (Inl (plugin_type_error env artifact e), pm)
           | Inr ty \<Rightarrow> (Inr (), pm\<lparr>config_plugins := map_insert ty p (config_plugins pm)\<rparr>)))"

definition get_configuration_handler :: "string \<Rightarrow> ('p, 'd) manager \<Rightarrow> 'p option" where
  "get_configuration_handler ty pm = map_get (config_plugins pm) ty"

definition pm_icasecmp :: "string \<Rightarrow> string \<Rightarrow> bool" where
  "pm_icasecmp l r \<longleftrightarrow> length l = length r \<and> list_all2 (\<lambda>a b. to_upper a = to_upper b) l r"

definition service_directive :: "string \<Rightarrow> string \<Rightarrow> string \<Rightarrow> string \<Rightarrow> string" where
  "service_directive svoid artifact entrypoint arguments =
     (if pm_icasecmp entrypoint ''static''
      then ''static '' @ artifact @ CHR '' '' # CHR 0x22 # arguments @ [CHR 0x22]
      else ''dynamic '' @ svoid @ '' Service_Object * '' @ artifact @ CHR '':'' # entrypoint
        @ ''() '' @ CHR 0x22 # arguments @ [CHR 0x22])"

definition register_service ::
  "('p, 'd) plugin_env \<Rightarrow> string \<Rightarrow> string \<Rightarrow> string \<Rightarrow> string \<Rightarrow> bool \<Rightarrow> ('p, 'd) manager \<Rightarrow>
    (exn + unit) \<times> ('p, 'd) manager" where
  "register_service env svoid artifact entrypoint arguments ignore_load_error pm =
     (let txt = service_directive svoid artifact entrypoint arguments;
          static_svc = pm_icasecmp entrypoint ''static''
      in if has_orb env \<or> (\<not> static_svc \<and> ignore_load_error) then
           (if process_directive env txt then (Inr (), pm\<lparr>service_objects := service_objects pm @ [svoid]\<rparr>)
            else if ignore_load_error then (Inr (), pm)
            else (Inl (plan_error artifact (''Error processing Service Config directive ['' @ txt @
                    ''] for ServiceObject plugin'' @ [newline])), pm))
         else (Inr (), pm\<lparr>service_directives := service_directives pm @ [txt]\<rparr>))"

section \<open>Well-formedness\<close>

definition manager_ok :: "('p, 'd) plugin_env \<Rightarrow> ('p, 'd) manager \<Rightarrow> bool" where
  "manager_ok env pm \<longleftrightarrow> map_ok (handler_map pm) \<and> map_ok (config_plugins pm) \<and> map_ok (ih_dep pm)
     \<and> deps_finite (ih_dep pm) \<and> map_keys (handler_map pm) = map_keys (ih_dep pm)
     \<and> (\<forall>ty p. map_get (handler_map pm) ty = Some p \<longrightarrow> instance_type env p = ty)"

lemma manager_ok_new: "manager_ok env new_manager"
  by (simp add: manager_ok_def new_manager_def deps_finite_def map_keys_def)

lemma deps_finite_get: "map_ok m \<Longrightarrow> deps_finite m \<longleftrightarrow> (\<forall>n d. map_get m n = Some d \<longrightarrow> finite d)"
  by (auto simp: deps_finite_def set_map_get)

lemma add_dependency_ok:
  assumes "map_ok m" "deps_finite m"
  shows "map_ok (add_dependency s a m)" "deps_finite (add_dependency s a m)"
    "map_keys (add_dependency s a m) = insert s (map_keys m)"
  using assms
  by (auto simp: add_dependency_def deps_finite_get smap.ok_put smap.get_put smap.keys_put
      split: option.splits if_splits)

lemma add_dependency_fold:
  "map_ok m \<Longrightarrow> deps_finite m \<Longrightarrow> s \<in> map_keys m \<Longrightarrow>
    map_ok (fold (add_dependency s) as m) \<and> deps_finite (fold (add_dependency s) as m)
      \<and> map_keys (fold (add_dependency s) as m) = map_keys m"
  by (induction as arbitrary: m) (simp_all add: add_dependency_ok insert_absorb)

lemma manager_ok_register:
  assumes ok: "manager_ok env pm" and fin: "finite depends"
  shows "manager_ok env (snd (snd (register_installation_handler env a e depends mode cfg pm)))"
proof -
  have deps: "map_ok (add_dependencies ty depends (ih_dep pm)) \<and> deps_finite (add_dependencies ty depends (ih_dep pm))
      \<and> map_keys (add_dependencies ty depends (ih_dep pm)) = insert ty (map_keys (ih_dep pm))" for ty
    using ok fin
    by (auto simp: manager_ok_def add_dependencies_def deps_finite_get smap.ok_put smap.get_put smap.keys_put)
  have keys: "map_keys (map_insert ty p (handler_map pm)) = insert ty (map_keys (handler_map pm))" for ty p
    using ok by (auto simp: manager_ok_def map_insert_def map_has_def map_get_dom smap.keys_put)
  show ?thesis
    using ok deps add_dependency_fold [of "add_dependencies ty depends (ih_dep pm)" ty for ty] keys
    by (auto simp: register_installation_handler_def Let_def manager_ok_def map_ok_insert map_get_insert
        split: sum.split option.split if_splits)
qed

section \<open>Registries\<close>

text \<open>
  The interface of a registry in which the first entry of a key stays: what fetching returns after
  any number of registrations.
\<close>

locale registry =
  fixes ok :: "'s \<Rightarrow> bool" and fetch :: "'k \<Rightarrow> 's \<Rightarrow> 'p option" and enter :: "'k \<Rightarrow> 'p \<Rightarrow> 's \<Rightarrow> 's"
  assumes ok_enter: "ok s \<Longrightarrow> ok (enter k p s)"
    and fetch_enter: "ok s \<Longrightarrow> fetch j (enter k p s) =
      (if j = k \<and> fetch k s = None then Some p else fetch j s)"
begin

lemma fetch_same: "ok s \<Longrightarrow> fetch k (enter k p s) = Some (case fetch k s of None \<Rightarrow> p | Some q \<Rightarrow> q)"
  by (auto simp: fetch_enter split: option.split)

lemma fetch_keeps: "ok s \<Longrightarrow> fetch j s = Some q \<Longrightarrow> fetch j (enter k p s) = Some q"
  by (auto simp: fetch_enter)

lemma fetch_all: "ok s \<Longrightarrow> fetch j (fold (\<lambda>(k, p). enter k p) kps s) =
    (case fetch j s of None \<Rightarrow> map_of kps j | Some q \<Rightarrow> Some q)"
proof (induction kps arbitrary: s)
  case (Cons kp kps)
  obtain k p where kp: "kp = (k, p)" by (cases kp)
  from Cons.IH [OF ok_enter [OF Cons.prems]] fetch_enter [OF Cons.prems] show ?case
    by (auto simp: kp split: option.split)
qed (simp split: option.split)

end

definition enter_handler :: "string \<Rightarrow> 'p \<Rightarrow> ('p, 'd) manager \<Rightarrow> ('p, 'd) manager" where
  "enter_handler ty p pm = pm\<lparr>handler_map := map_insert ty p (handler_map pm)\<rparr>"

definition enter_config_plugin :: "string \<Rightarrow> 'p \<Rightarrow> ('p, 'd) manager \<Rightarrow> ('p, 'd) manager" where
  "enter_config_plugin ty p pm = pm\<lparr>config_plugins := map_insert ty p (config_plugins pm)\<rparr>"

interpretation handlers: registry "\<lambda>pm. map_ok (handler_map pm)" fetch_installation_handler enter_handler
  by unfold_locales
    (simp_all add: enter_handler_def fetch_installation_handler_def map_ok_insert map_get_insert)

interpretation configurations: registry "\<lambda>pm. map_ok (config_plugins pm)" get_configuration_handler
    enter_config_plugin
  by unfold_locales
    (simp_all add: enter_config_plugin_def get_configuration_handler_def map_ok_insert map_get_insert)

lemma fetch_handler_of [simp]:
  "fetch_installation_handler ty (pm\<lparr>ih_dep := d, handler_map := m\<rparr>) =
    fetch_installation_handler ty (pm\<lparr>handler_map := m\<rparr>)"
  by (simp add: fetch_installation_handler_def)

section \<open>Properties\<close>

text \<open>
  Registering an instance handler either fails and leaves the manager alone, or the type of the
  handler is then served, by the new handler unless an earlier one has the type; no other type
  changes its handler.
\<close>

theorem registered_handler_fetched:
  assumes "manager_ok env pm"
    and "register_installation_handler env artifact entry depends mode cfg pm = (res, cfg', pm')"
  shows "case res of
      Inl e \<Rightarrow> pm' = pm
    | Inr ty \<Rightarrow> (\<exists>p. load_plugin env artifact entry mode = Inr p \<and> instance_type env p = ty
        \<and> fetch_installation_handler ty pm' =
            Some (case fetch_installation_handler ty pm of None \<Rightarrow> p | Some q \<Rightarrow> q)
        \<and> fetch_installation_handler other pm' =
            (if other = ty then fetch_installation_handler ty pm'
             else fetch_installation_handler other pm))"
proof -
  have ok: "map_ok (handler_map pm)" using assms(1) by (simp add: manager_ok_def)
  show ?thesis
    using assms(2) handlers.fetch_same [OF ok] handlers.fetch_enter [OF ok]
    by (auto simp: register_installation_handler_def enter_handler_def Let_def
        split: sum.splits option.splits)
qed

definition example_plugins :: "(nat, int) plugin_env" where
  "example_plugins = \<lparr>resolve_factory = \<lambda>a e m. Inr (Some (length e)), instance_type = \<lambda>p. ''T'',
     plugin_dependencies = \<lambda>p. [], plugin_configure = \<lambda>p ps. None, configuration_type = \<lambda>p. Inr ''C'',
     exception_text = \<lambda>e. [], process_directive = \<lambda>d. True, has_orb = False\<rparr>"

theorem registered_handler_fetched_witness:
  "fetch_installation_handler ''T''
     (snd (snd (register_installation_handler example_plugins ''a'' ''f'' {} 1 [] new_manager))) = Some 1"
  using registered_handler_fetched [OF manager_ok_new, of example_plugins "''a''" "''f''" "{}" 1 "[]"
      "Inr ''T''" "[]" "snd (snd (register_installation_handler example_plugins ''a'' ''f'' {} 1 [] new_manager))" "[]"]
  by (simp add: register_installation_handler_def load_plugin_def example_plugins_def new_manager_def
      fetch_installation_handler_def build_property_map_def Let_def map_insert_def map_has_def)

text \<open>
  The installation order of the manager names exactly the types it has a handler for, each once,
  so that the locality manager finds a handler for every entry of the order.
\<close>

theorem order_names_handlers:
  assumes "manager_ok env pm" and "get_installation_order pm [] = Inr io"
  shows "distinct io \<and> set io = {ty. fetch_installation_handler ty pm \<noteq> None}"
proof -
  have "map_ok (ih_dep pm)" "deps_finite (ih_dep pm)"
    using assms(1) by (simp_all add: manager_ok_def)
  note order = calculate_order_ok [OF this assms(2) [unfolded get_installation_order_def]]
  have "map_keys (ih_dep pm) = {ty. fetch_installation_handler ty pm \<noteq> None}"
    using assms(1) map_get_dom [of _ "handler_map pm"]
    by (auto simp: manager_ok_def fetch_installation_handler_def)
  with order show ?thesis by simp
qed

theorem order_names_handlers_witness:
  "set [''T''] = {ty. fetch_installation_handler ty
     (snd (snd (register_installation_handler example_plugins ''a'' ''f'' {} 1 [] new_manager))) \<noteq> None}"
proof -
  let ?pm = "snd (snd (register_installation_handler example_plugins ''a'' ''f'' {} 1 [] new_manager))"
  have "get_installation_order ?pm [] = Inr [''T'']" by code_simp
  from order_names_handlers [OF manager_ok_register [OF manager_ok_new finite.emptyI] this]
  show ?thesis by simp
qed

text \<open>
  A property of the manager's configuration after a configuration is added: into an empty
  configuration it is added as it is, where the first property of a name counts; otherwise the last
  property of the name in the addition replaces the one the manager had.
\<close>

theorem added_configuration_lookup:
  "map_of (prop_pairs (pm_config (add_configuration cfg pm))) n =
     (if pm_config pm = [] then map_of (prop_pairs cfg) n
      else case map_of (rev (prop_pairs cfg)) n of
          None \<Rightarrow> map_of (prop_pairs (pm_config pm)) n
        | Some v \<Rightarrow> Some v)"
proof -
  let ?m = "build_property_map [] (pm_config pm) False"
  have ok: "map_ok ?m" by (simp add: map_ok_build)
  have get: "map_get ?m n = map_of (prop_pairs (pm_config pm)) n"
    by (simp add: build_get_keep)
  have "map_of (prop_pairs (build_property_sequence [] (build_property_map ?m cfg True))) n =
      map_get (build_property_map ?m cfg True) n"
    by (simp add: build_property_sequence_def map_get_def)
  then show ?thesis
    by (simp add: add_configuration_def build_get_overwrite [OF ok] get split: option.split)
qed

end
