(* ===== verification/Actions.thy ===== *)
theory Actions
  imports Plugin_Manager
begin

text \<open>
  The deployment events, dancex11/scheduler/events: Action_Base::call and the eight classes derived
  from it, and the interceptors of dancex11/handler/interceptors.

  A plugin is an object behind an IDL interface. Here it is the record of what its methods do, as
  functions on the state of the plugins \<open>'w\<close>; a method raises (the first component of its result), and
  its out and inout parameters are among its results. Handlers and unknown interceptors are parameters
  of the model; the interceptors of the repository are definitions.
\<close>

section \<open>Handlers and interceptors\<close>

datatype action =
    Install_Instance | Endpoint_Reference | Connect_Instance | Disconnect_Instance
  | Instance_Configured | Start_Instance | Passivate_Instance | Remove_Instance

text \<open>The calls of the InstanceDeploymentHandler interface with their in parameters after the plan.\<close>

datatype 'd handler_call =
    Call_install_instance nat | Call_provide_endpoint_reference nat | Call_connect_instance nat "'d any"
  | Call_disconnect_instance nat | Call_instance_configured nat | Call_activate_instance nat "'d any"
  | Call_passivate_instance nat "'d any" | Call_remove_instance nat "'d any"

datatype pre_call = Pre_install nat | Pre_connect nat | Pre_disconnect nat

datatype 'd post_call =
    Post_install nat "'d any" | Post_endpoint_reference nat "'d any" | Post_connect nat
  | Post_disconnect nat | Post_configured nat | Post_activate nat | Post_passivate nat | Post_remove nat

type_synonym ('d, 'w) handler = "'d handler_call \<Rightarrow> 'd plan \<Rightarrow> 'w \<Rightarrow> exn option \<times> 'd any \<times> 'w"

text \<open>
  The inout parameters of an interceptor are the plan and, for pre_connect, the provided reference.
\<close>

record ('d, 'w) interceptor =
  preprocess_plan :: "'d plan \<Rightarrow> 'w \<Rightarrow> exn option \<times> 'd plan \<times> 'w"
  pre_hook :: "pre_call \<Rightarrow> 'd plan \<Rightarrow> 'd any \<Rightarrow> 'w \<Rightarrow> exn option \<times> 'd plan \<times> 'd any \<times> 'w"
  post_hook :: "'d post_call \<Rightarrow> 'd plan \<Rightarrow> 'd any \<Rightarrow> 'w \<Rightarrow> exn option \<times> 'w"

definition interceptor_base :: "('d, 'w) interceptor" where
  "interceptor_base = \<lparr>preprocess_plan = \<lambda>plan w. (None, plan, w),
     pre_hook = \<lambda>c plan ref w. (None, plan, ref, w), post_hook = \<lambda>c plan ex w. (None, w)\<rparr>"

text \<open>Best_Effort overrides six of the post hooks, and only writes to the log there.\<close>

definition best_effort :: "('d, 'w) interceptor" where
  "best_effort = interceptor_base\<lparr>post_hook := \<lambda>c plan ex w. (None, w)\<rparr>"

text \<open>Standard_Error overrides the same six, and throws the exception it is given.\<close>

fun standard_error_overrides :: "'d post_call \<Rightarrow> bool" where
  "standard_error_overrides (Post_install _ _) = True"
| "standard_error_overrides (Post_connect _) = True"
| "standard_error_overrides (Post_configured _) = True"
| "standard_error_overrides (Post_activate _) = True"
| "standard_error_overrides (Post_passivate _) = True"
| "standard_error_overrides (Post_remove _) = True"
| "standard_error_overrides _ = False"

definition standard_error_post ::
  "('d any \<Rightarrow> exn option) \<Rightarrow> 'd post_call \<Rightarrow> 'd any \<Rightarrow> exn option" where
  "standard_error_post sysx c ex =
     (if standard_error_overrides c \<and> \<not> is_null ex then Some (throw_exception_from_any sysx ex) else None)"

definition standard_error :: "('d any \<Rightarrow> exn option) \<Rightarrow> ('d, 'w) interceptor" where
  "standard_error sysx =
     interceptor_base\<lparr>post_hook := \<lambda>c plan ex w. (standard_error_post sysx c ex, w)\<rparr>"

section \<open>Events\<close>

record 'd event =
  ev_action :: action
  ev_ref :: nat
  ev_name :: string
  ev_type :: string
  ev_provided :: "'d any"
  ev_value :: "'d any"
  ev_excep :: "'d any"

record 'd event_result =
  er_id :: string
  er_exception :: bool
  er_contents :: "'d any"

text \<open>Whether the class is constructed with an index into the connections of the plan.\<close>

definition on_connection :: "action \<Rightarrow> bool" where
  "on_connection a \<longleftrightarrow> a \<in> {Endpoint_Reference, Connect_Instance, Disconnect_Instance}"

text \<open>The constructors read the name from the plan; None is an index the plan does not have.\<close>

definition new_event ::
  "action \<Rightarrow> 'd plan \<Rightarrow> nat \<Rightarrow> 'd any \<Rightarrow> string \<Rightarrow> 'd event option" where
  "new_event a plan ref provided inst_type =
     (let mk = (\<lambda>n. \<lparr>ev_action = a, ev_ref = ref, ev_name = n, ev_type = inst_type,
            ev_provided = provided, ev_value = NullAny, ev_excep = NullAny\<rparr>)
      in if on_connection a then
           (if ref < length (pl_connection plan) then Some (mk (cn_name (pl_connection plan ! ref))) else None)
         else (if ref < length (pl_instance plan) then Some (mk (id_name (pl_instance plan ! ref))) else None))"

fun pre_call_of :: "action \<Rightarrow> nat \<Rightarrow> pre_call option" where
  "pre_call_of Install_Instance r = Some (Pre_install r)"
| "pre_call_of Connect_Instance r = Some (Pre_connect r)"
| "pre_call_of Disconnect_Instance r = Some (Pre_disconnect r)"
| "pre_call_of _ r = None"

fun handler_call_of :: "action \<Rightarrow> nat \<Rightarrow> 'd any \<Rightarrow> 'd handler_call" where
  "handler_call_of Install_Instance r p = Call_install_instance r"
| "handler_call_of Endpoint_Reference r p = Call_provide_endpoint_reference r"
| "handler_call_of Connect_Instance r p = Call_connect_instance r p"
| "handler_call_of Disconnect_Instance r p = Call_disconnect_instance r"
| "handler_call_of Instance_Configured r p = Call_instance_configured r"
| "handler_call_of Start_Instance r p = Call_activate_instance r NullAny"
| "handler_call_of Passivate_Instance r p = Call_passivate_instance r NullAny"
| "handler_call_of Remove_Instance r p = Call_remove_instance r NullAny"

fun post_call_of :: "action \<Rightarrow> nat \<Rightarrow> 'd any \<Rightarrow> 'd post_call" where
  "post_call_of Install_Instance r v = Post_install r v"
| "post_call_of Endpoint_Reference r v = Post_endpoint_reference r v"
| "post_call_of Connect_Instance r v = Post_connect r"
| "post_call_of Disconnect_Instance r v = Post_disconnect r"
| "post_call_of Instance_Configured r v = Post_configured r"
| "post_call_of Start_Instance r v = Post_activate r"
| "post_call_of Passivate_Instance r v = Post_passivate r"
| "post_call_of Remove_Instance r v = Post_remove r"

fun unexpected_kind :: "action \<Rightarrow> user_kind" where
  "unexpected_kind Install_Instance = StartError"
| "unexpected_kind Endpoint_Reference = StartError"
| "unexpected_kind Connect_Instance = InvalidConnection"
| "unexpected_kind Disconnect_Instance = InvalidConnection"
| "unexpected_kind Instance_Configured = StartError"
| "unexpected_kind Start_Instance = StartError"
| "unexpected_kind Passivate_Instance = StopError"
| "unexpected_kind Remove_Instance = StopError"

text \<open>The classes with a value to deliver: the reference of an instance or of an endpoint.\<close>

fun has_value :: "action \<Rightarrow> bool" where
  "has_value Install_Instance = True"
| "has_value Endpoint_Reference = True"
| "has_value _ = False"

definition invoke_pre_interceptor ::
  "('d, 'w) interceptor \<Rightarrow> 'd event \<Rightarrow> 'd plan \<Rightarrow> 'w \<Rightarrow> exn option \<times> 'd event \<times> 'd plan \<times> 'w" where
  "invoke_pre_interceptor di ev plan w =
     (case pre_call_of (ev_action ev) (ev_ref ev) of
        None \<Rightarrow> (None, ev, plan, w)
      | Some c \<Rightarrow>
          (case pre_hook di c plan (ev_provided ev) w of
             (x, plan', ref, w') \<Rightarrow>
               (x, if ev_action ev = Connect_Instance then ev\<lparr>ev_provided := ref\<rparr> else ev, plan', w')))"

definition invoke ::
  "('d, 'w) handler \<Rightarrow> 'd event \<Rightarrow> 'd plan \<Rightarrow> 'w \<Rightarrow> exn option \<times> 'd event \<times> 'w" where
  "invoke h ev plan w =
     (case h (handler_call_of (ev_action ev) (ev_ref ev) (ev_provided ev)) plan w of
        (x, v, w') \<Rightarrow> (x, if has_value (ev_action ev) then ev\<lparr>ev_value := v\<rparr> else ev, w'))"

definition invoke_post_interceptor ::
  "('d, 'w) interceptor \<Rightarrow> 'd event \<Rightarrow> 'd plan \<Rightarrow> 'w \<Rightarrow> exn option \<times> 'w" where
  "invoke_post_interceptor di ev plan w =
     post_hook di (post_call_of (ev_action ev) (ev_ref ev) (ev_value ev)) plan (ev_excep ev) w"

definition create_unexpected_exception :: "string \<Rightarrow> 'd event \<Rightarrow> 'd event" where
  "create_unexpected_exception reason ev =
     ev\<lparr>ev_excep := ExAny (UserEx (unexpected_kind (ev_action ev)) (ev_name ev) reason)\<rparr>"

definition create_valid_result :: "'d event \<Rightarrow> 'd event_result \<Rightarrow> 'd event_result" where
  "create_valid_result ev res = (if has_value (ev_action ev) then res\<lparr>er_contents := ev_value ev\<rparr> else res)"

section \<open>Action_Base::call\<close>

fun pre_interceptors ::
  "('d, 'w) interceptor list \<Rightarrow> 'd event \<Rightarrow> 'd plan \<Rightarrow> 'w \<Rightarrow> exn option \<times> 'd event \<times> 'd plan \<times> 'w" where
  "pre_interceptors [] ev plan w = (None, ev, plan, w)"
| "pre_interceptors (di # ds) ev plan w =
     (case invoke_pre_interceptor di ev plan w of
        (Some e, ev', plan', w') \<Rightarrow> (Some e, ev', plan', w')
      | (None, ev', plan', w') \<Rightarrow> pre_interceptors ds ev' plan' w')"

fun post_interceptors ::
  "('d, 'w) interceptor list \<Rightarrow> 'd event \<Rightarrow> 'd plan \<Rightarrow> 'w \<Rightarrow> exn option \<times> 'w" where
  "post_interceptors [] ev plan w = (None, w)"
| "post_interceptors (di # ds) ev plan w =
     (case invoke_post_interceptor di ev plan w of
        (Some e, w') \<Rightarrow> (Some e, w')
      | (None, w') \<Rightarrow> post_interceptors ds ev plan w')"

text \<open>What the handler throws is put in the event's exception.\<close>

definition handle ::
  "('d, 'w) handler option \<Rightarrow> 'd event \<Rightarrow> 'd plan \<Rightarrow> 'w \<Rightarrow> 'd event \<times> 'w" where
  "handle handler ev plan w =
     (case handler of
        None \<Rightarrow> (create_unexpected_exception (''Unable to load instance handler '' @ ev_type ev) ev, w)
      | Some h \<Rightarrow>
          (case invoke h ev plan w of
             (None, ev', w') \<Rightarrow> (ev', w')
           | (Some e, ev', w') \<Rightarrow>
               (if is_corba e then ev'\<lparr>ev_excep := ExAny e\<rparr>
                else create_unexpected_exception ''Caught unknown C++ exception from install'' ev', w')))"

text \<open>The outer handlers: a CORBA exception of an interceptor is the result, any other is not caught.\<close>

definition interceptor_failed :: "'d event \<Rightarrow> exn \<Rightarrow> exn + 'd event_result" where
  "interceptor_failed ev e =
     (if is_corba e then Inr \<lparr>er_id = ev_name ev, er_exception = True, er_contents = ExAny e\<rparr> else Inl e)"

definition action_result :: "'d event \<Rightarrow> 'd event_result" where
  "action_result ev =
     (let result = \<lparr>er_id = ev_name ev, er_exception = \<not> is_null (ev_excep ev), er_contents = NullAny\<rparr>
      in if er_exception result then result\<lparr>er_contents := ev_excep ev\<rparr> else create_valid_result ev result)"

definition intercepted_result :: "'d event \<Rightarrow> 'd event_result" where
  "intercepted_result ev =
     (create_valid_result ev
        \<lparr>er_id = ev_name ev, er_exception = \<not> is_null (ev_excep ev), er_contents = NullAny\<rparr>)\<lparr>er_exception := False\<rparr>"

text \<open>
  Inr is the result the event's future is set to. Inl is an exception that leaves call; the future is
  not set then. The plan is the one the event refers to, which the interceptors may change.
\<close>

definition action_call ::
  "('d, 'w) interceptor list \<Rightarrow> (string \<Rightarrow> ('d, 'w) handler option) \<Rightarrow> 'd event \<Rightarrow> 'd plan \<Rightarrow> 'w \<Rightarrow>
    (exn + 'd event_result) \<times> 'd plan \<times> 'w" where
  "action_call ds fetch ev plan w =
     (case pre_interceptors ds ev plan w of
        (Some e, ev', plan', w') \<Rightarrow> (interceptor_failed ev e, plan', w')
      | (None, ev', plan', w') \<Rightarrow>
          (case handle (fetch (ev_type ev)) ev' plan' w' of
             (ev'', w'') \<Rightarrow>
               (if ds = [] then (Inr (action_result ev''), plan', w'')
                else case post_interceptors ds ev'' plan' w'' of
                    (Some e, w3) \<Rightarrow> (interceptor_failed ev e, plan', w3)
                  | (None, w3) \<Rightarrow> (Inr (intercepted_result ev''), plan', w3))))"

section \<open>Interceptors that keep to the base class\<close>

text \<open>
  The contract of the interceptors derived from DeploymentInterceptor_Base that override post hooks
  only: they leave the plan and the reference alone and let nothing but the exception decide what a
  post hook throws.
\<close>

locale post_interceptor =
  fixes di :: "('d, 'w) interceptor" and post :: "'d post_call \<Rightarrow> 'd any \<Rightarrow> exn option"
  assumes pre_silent: "pre_hook di c plan ref w = (None, plan, ref, w)"
    and post_decides: "post_hook di pc plan ex w = (post pc ex, w)"
    and preprocess_silent: "preprocess_plan di plan w = (None, plan, w)"
begin

lemma pre: "invoke_pre_interceptor di ev plan w = (None, ev, plan, w)"
  by (simp add: invoke_pre_interceptor_def pre_silent split: option.split)

lemma post: "invoke_post_interceptor di ev plan w =
    (post (post_call_of (ev_action ev) (ev_ref ev) (ev_value ev)) (ev_excep ev), w)"
  by (simp add: invoke_post_interceptor_def post_decides)

lemma call: "action_call [di] fetch ev plan w =
    (case handle (fetch (ev_type ev)) ev plan w of (ev', w') \<Rightarrow>
      (case post (post_call_of (ev_action ev') (ev_ref ev') (ev_value ev')) (ev_excep ev') of
         Some e \<Rightarrow> interceptor_failed ev e
       | None \<Rightarrow> Inr (intercepted_result ev'), plan, w'))"
  by (simp add: action_call_def pre post split: prod.split option.split)

end

interpretation base: post_interceptor interceptor_base "\<lambda>c ex. None"
  by unfold_locales (simp_all add: interceptor_base_def)

interpretation best: post_interceptor best_effort "\<lambda>c ex. None"
  by unfold_locales (simp_all add: best_effort_def interceptor_base_def)

interpretation standard: post_interceptor "standard_error sysx" "standard_error_post sysx" for sysx
  by unfold_locales (simp_all add: standard_error_def interceptor_base_def)

section \<open>What an event promises\<close>

text \<open>The outcome of an event: what the handler delivers, or the exception the event reports.\<close>

definition outcome ::
  "('d, 'w) handler option \<Rightarrow> 'd event \<Rightarrow> 'd plan \<Rightarrow> 'w \<Rightarrow> exn + 'd any" where
  "outcome handler ev plan w =
     (case handler of
        None \<Rightarrow> Inl (UserEx (unexpected_kind (ev_action ev)) (ev_name ev)
          (''Unable to load instance handler '' @ ev_type ev))
      | Some h \<Rightarrow>
          (case h (handler_call_of (ev_action ev) (ev_ref ev) (ev_provided ev)) plan w of
             (None, v, _) \<Rightarrow> Inr (if has_value (ev_action ev) then v else NullAny)
           | (Some e, _) \<Rightarrow> Inl (if is_corba e then e
               else UserEx (unexpected_kind (ev_action ev)) (ev_name ev)
                 ''Caught unknown C++ exception from install'')))"

definition fresh :: "'d event \<Rightarrow> bool" where
  "fresh ev \<longleftrightarrow> ev_value ev = NullAny \<and> ev_excep ev = NullAny"

lemma fresh_new_event: "new_event a plan ref provided ty = Some ev \<Longrightarrow> fresh ev"
  by (auto simp: new_event_def fresh_def Let_def split: if_splits)

lemma handle_frame:
  "handle h ev plan w = (ev', w') \<Longrightarrow> ev_action ev' = ev_action ev \<and> ev_ref ev' = ev_ref ev
    \<and> ev_name ev' = ev_name ev \<and> ev_type ev' = ev_type ev"
  by (auto simp: handle_def invoke_def create_unexpected_exception_def
      split: option.splits prod.splits if_splits)

lemma handle_outcome:
  assumes "fresh ev" "handle h ev plan w = (ev', w')"
  shows "case outcome h ev plan w of
      Inl e \<Rightarrow> ev_excep ev' = ExAny e
    | Inr v \<Rightarrow> ev_excep ev' = NullAny \<and> (has_value (ev_action ev) \<longrightarrow> ev_value ev' = v)
        \<and> (\<not> has_value (ev_action ev) \<longrightarrow> v = NullAny)"
  using assms
  by (auto simp: handle_def invoke_def outcome_def create_unexpected_exception_def fresh_def
      split: option.splits prod.splits if_splits)

definition error_result :: "string \<Rightarrow> exn \<Rightarrow> 'd event_result" where
  "error_result n e = \<lparr>er_id = n, er_exception = True, er_contents = ExAny e\<rparr>"

definition value_result :: "string \<Rightarrow> 'd any \<Rightarrow> 'd event_result" where
  "value_result n v = \<lparr>er_id = n, er_exception = False, er_contents = v\<rparr>"

lemma call_plain:
  assumes "fresh ev"
  shows "fst (action_call [] fetch ev plan w) =
    Inr (case outcome (fetch (ev_type ev)) ev plan w of
           Inl e \<Rightarrow> error_result (ev_name ev) e
         | Inr v \<Rightarrow> value_result (ev_name ev) v)"
proof -
  obtain ev' w' where h: "handle (fetch (ev_type ev)) ev plan w = (ev', w')" by force
  show ?thesis
    using handle_outcome [OF assms h] handle_frame [OF h]
    by (auto simp: action_call_def h action_result_def create_valid_result_def error_result_def
        value_result_def Let_def split: sum.splits)
qed

section \<open>Properties\<close>

text \<open>
  Without interceptors an event reports exactly what its handler did: the value it delivered, or the
  exception it raised; a missing handler and an exception that is no CORBA exception are reported with
  the name of the instance or connection.
\<close>

theorem plain_event_reports_outcome:
  assumes "new_event a plan ref provided ty = Some ev"
  shows "fst (action_call [] fetch ev plan w) =
    Inr (case outcome (fetch ty) ev plan w of
           Inl e \<Rightarrow> error_result (ev_name ev) e
         | Inr v \<Rightarrow> value_result (ev_name ev) v)"
proof -
  have "ev_type ev = ty" using assms by (auto simp: new_event_def Let_def split: if_splits)
  with call_plain [OF fresh_new_event [OF assms]] show ?thesis by metis
qed

definition one_instance :: "int plan" where
  "one_instance = new_plan\<lparr>pl_instance := [new_idd\<lparr>id_name := ''i''\<rparr>]\<rparr>"

definition install_event :: "int event" where
  "install_event = \<lparr>ev_action = Install_Instance, ev_ref = 0, ev_name = ''i'', ev_type = ''T'',
     ev_provided = NullAny, ev_value = NullAny, ev_excep = NullAny\<rparr>"

definition failing_handler :: "(int, nat) handler" where
  "failing_handler c plan w = (Some (UserEx StartError ''i'' ''r''), NullAny, w + 1)"

lemma install_event_new:
  "new_event Install_Instance one_instance 0 NullAny ''T'' = Some install_event"
  by (simp add: new_event_def on_connection_def one_instance_def install_event_def new_idd_def)

theorem plain_event_reports_outcome_witness:
  "fst (action_call [] (\<lambda>_. Some failing_handler) install_event one_instance 0) =
    Inr (error_result ''i'' (UserEx StartError ''i'' ''r''))"
  by (subst plain_event_reports_outcome [OF install_event_new])
    (simp add: outcome_def failing_handler_def install_event_def)

text \<open>
  With the Best_Effort interceptor, or any number of them, no failure of a handler is reported: the
  result is never an exception, and carries what the handler left in its out parameter.
\<close>

theorem best_effort_reports_success:
  "fst (action_call (replicate (Suc n) best_effort) fetch ev plan w) =
    Inr (value_result (ev_name ev)
      (let ev' = fst (handle (fetch (ev_type ev)) ev plan w)
       in if has_value (ev_action ev') then ev_value ev' else NullAny))"
proof -
  have pre: "pre_interceptors (replicate m best_effort) ev plan w = (None, ev, plan, w)" for m
    by (induction m) (simp_all add: best.pre)
  obtain ev' w' where h: "handle (fetch (ev_type ev)) ev plan w = (ev', w')" by force
  have post: "post_interceptors (replicate m best_effort) ev' plan w' = (None, w')" for m
    by (induction m) (simp_all add: best.post)
  show ?thesis
    using pre [of n] post [of n] handle_frame [OF h]
    by (simp add: action_call_def best.pre best.post h intercepted_result_def create_valid_result_def
        value_result_def)
qed

text \<open>
  With the Standard_Error interceptor, which the shipped configurations load, a Deployment exception
  of a handler is reported as it was raised, except that InvalidComponentExecParameter becomes
  CORBA::UNKNOWN, and that what an endpoint reference or a disconnect raises is not reported at all:
  the interceptor does not override those hooks, and an intercepted event always succeeds.
\<close>

theorem standard_error_reports:
  assumes "new_event a plan ref provided ty = Some ev"
    and "outcome (fetch ty) ev plan w = Inl (UserEx k n r)"
  shows "\<exists>v. fst (action_call [standard_error sysx] fetch ev plan w) =
    Inr (if a = Endpoint_Reference \<or> a = Disconnect_Instance then value_result (ev_name ev) v
         else error_result (ev_name ev)
           (if k = InvalidComponentExecParameter then CORBA_UNKNOWN else UserEx k n r))"
proof -
  have ev: "ev_type ev = ty" "ev_action ev = a"
    using assms(1) by (auto simp: new_event_def Let_def split: if_splits)
  obtain ev' w' where h: "handle (fetch ty) ev plan w = (ev', w')" by force
  have ex: "ev_excep ev' = ExAny (UserEx k n r)"
    using handle_outcome [OF fresh_new_event [OF assms(1)] h] assms(2) by simp
  show ?thesis
    using handle_frame [OF h] ev
    by (cases a) (auto simp: standard.call h ex standard_error_post_def throw_any_user interceptor_failed_def
        error_result_def value_result_def intercepted_result_def create_valid_result_def)
qed

theorem standard_error_reports_witness:
  "\<exists>v. fst (action_call [standard_error (\<lambda>_. None)] (\<lambda>_. Some failing_handler) install_event one_instance 0) =
    Inr (if False then value_result ''i'' v else error_result ''i'' (UserEx StartError ''i'' ''r''))"
proof -
  have "outcome (Some failing_handler) install_event one_instance 0 = Inl (UserEx StartError ''i'' ''r'')"
    by (simp add: outcome_def failing_handler_def install_event_def)
  from standard_error_reports [OF install_event_new, of "\<lambda>_. Some failing_handler", OF this, of "\<lambda>_. None"]
  show ?thesis by (simp add: install_event_def)
qed

end
