(* ===== verification/Scheduler.thy ===== *)
theory Scheduler
  imports Deployment_Data
begin

text \<open>
  dancex11/scheduler: the queue of deployment events, the completion that counts the outstanding
  results of a phase, and the wait strategies.

  The queue is the list of the events it holds, in the order they will be dequeued. Where an event is
  put, and whether it is accepted, is decided by ACE's activation queue, the parameter \<open>enq\<close>; the
  law the code relies on is \<open>fifo\<close>. ACE_Future is used as it is documented: it is set at most
  once, attaching an observer to a future that is set calls the observer at once, and setting a
  future calls its observer. A future is therefore \<open>'r option\<close>, and a list of set futures a list
  of their values. Locks are not modelled as data; what they make atomic is one step of the relation
  at the end of the theory.
\<close>

section \<open>Completion counters, completion_counter_base.cpp and completion_base.h\<close>

record 'r completion =
  exec_count :: "32 word"
  fail_count :: "32 word"
  errors :: "string list"
  completed :: "'r list"
  broadcasts :: nat

definition new_completion :: "'r completion" where
  "new_completion = \<lparr>exec_count = 0, fail_count = 0, errors = [], completed = [], broadcasts = 0\<rparr>"

definition increment_exec_count :: "'r completion \<Rightarrow> 'r completion" where
  "increment_exec_count c = c\<lparr>exec_count := exec_count c + 1\<rparr>"

definition on_all_completed :: "'r completion \<Rightarrow> 'r completion" where
  "on_all_completed c = c\<lparr>broadcasts := broadcasts c + 1\<rparr>"

definition on_all_completed_with_failure :: "'r completion \<Rightarrow> 'r completion" where
  "on_all_completed_with_failure c = c\<lparr>broadcasts := broadcasts c + 1\<rparr>"

definition decrement_exec_count :: "'r completion \<Rightarrow> 'r completion" where
  "decrement_exec_count c =
     (let c = c\<lparr>exec_count := exec_count c - 1\<rparr>
      in if exec_count c = 0 then
           (if fail_count c > 0 then on_all_completed_with_failure c else on_all_completed c)
         else c)"

definition increment_fail_count :: "string \<Rightarrow> 'r completion \<Rightarrow> 'r completion" where
  "increment_fail_count err c = c\<lparr>fail_count := fail_count c + 1, errors := errors c @ [err]\<rparr>"

definition all_completed :: "'r completion \<Rightarrow> bool" where
  "all_completed c \<longleftrightarrow> exec_count c = 0"

definition update :: "'r \<Rightarrow> 'r completion \<Rightarrow> 'r completion" where
  "update r c = decrement_exec_count (c\<lparr>completed := completed c @ [r]\<rparr>)"

definition accept :: "'r option \<Rightarrow> 'r completion \<Rightarrow> 'r completion" where
  "accept future c =
     increment_exec_count (case future of None \<Rightarrow> c | Some r \<Rightarrow> update r c)"

definition completed_events :: "'r completion \<Rightarrow> 'r list \<times> 'r completion" where
  "completed_events c = (completed c, c\<lparr>completed := []\<rparr>)"

section \<open>The scheduler, deployment_scheduler.cpp\<close>

type_synonym 'e ace_queue = "'e \<Rightarrow> 'e list \<Rightarrow> 'e list option"

definition fifo :: "'e ace_queue \<Rightarrow> bool" where
  "fifo enq \<longleftrightarrow> (\<forall>e q. enq e q = Some (q @ [e]))"

text \<open>The result is -1 when the queue does not take the event, which the callers do not look at.\<close>

definition schedule_event :: "'e ace_queue \<Rightarrow> 'e \<Rightarrow> 'e list \<Rightarrow> int \<times> 'e list" where
  "schedule_event enq e q = (case enq e q of None \<Rightarrow> (-1, q) | Some q' \<Rightarrow> (0, q'))"

definition work_pending :: "'e list \<Rightarrow> bool" where
  "work_pending q \<longleftrightarrow> q \<noteq> []"

definition terminate_scheduler :: "'e list \<Rightarrow> 'e list" where
  "terminate_scheduler q = []"

text \<open>
  An event is run by \<open>run\<close> in the state \<open>'s\<close> it can reach, which does not contain the queue. What
  it throws is the first component; the event itself is gone from the queue either way. None is a
  dequeue on an empty queue.
\<close>

type_synonym ('e, 's, 'x) runner = "'e \<Rightarrow> 's \<Rightarrow> 'x option \<times> 's"

fun perform_work :: "('e, 's, 'x) runner \<Rightarrow> 'e list \<Rightarrow> 's \<Rightarrow> ('x option \<times> 'e list \<times> 's) option" where
  "perform_work run [] s = None"
| "perform_work run (e # q) s = (case run e s of (x, s') \<Rightarrow> Some (x, q, s'))"

text \<open>
  Waiting in the only thread there is: perform the pending work until the queue is empty or the
  countdown, which \<open>countdown\<close> reduces by the time an event took, is at zero.
\<close>

function single_threaded_wait ::
  "('s \<Rightarrow> 's \<Rightarrow> nat \<Rightarrow> nat) \<Rightarrow> ('e, 's, 'x) runner \<Rightarrow> nat option \<Rightarrow> 'e list \<Rightarrow> 's \<Rightarrow>
    ('x + bool) \<times> 'e list \<times> 's" where
  "single_threaded_wait countdown run timer q s =
     (if \<not> work_pending q then (Inr True, q, s)
      else if timer = Some 0 then (Inr False, q, s)
      else case perform_work run q s of
          None \<Rightarrow> (Inr True, q, s)
        | Some (Some x, q', s') \<Rightarrow> (Inl x, q', s')
        | Some (None, q', s') \<Rightarrow>
            single_threaded_wait countdown run (map_option (countdown s s') timer) q' s')"
  by pat_completeness auto
termination
  by (relation "measure (\<lambda>(_, _, _, q, _). length q)")
    (auto elim!: perform_work.elims split: prod.splits)

declare single_threaded_wait.simps [simp del]

lemma wait_Nil [simp]: "single_threaded_wait cd run timer [] s = (Inr True, [], s)"
  by (simp add: single_threaded_wait.simps work_pending_def)

lemma wait_Cons:
  "single_threaded_wait cd run timer (e # q) s =
     (if timer = Some 0 then (Inr False, e # q, s)
      else case run e s of (Some x, s') \<Rightarrow> (Inl x, q, s')
        | (None, s') \<Rightarrow> single_threaded_wait cd run (map_option (cd s s') timer) q s')"
  by (subst single_threaded_wait.simps) (auto simp: work_pending_def split: prod.splits option.splits)

text \<open>The state after running a list of events none of which throws.\<close>

definition run_all :: "('e, 's, 'x) runner \<Rightarrow> 'e list \<Rightarrow> 's \<Rightarrow> 's" where
  "run_all run q s = fold (\<lambda>e s. snd (run e s)) q s"

text \<open>A countdown that is never at zero once an event has run: the phase has time enough.\<close>

definition patient :: "('s \<Rightarrow> 's \<Rightarrow> nat \<Rightarrow> nat) \<Rightarrow> bool" where
  "patient cd \<longleftrightarrow> (\<forall>s s' t. 0 < t \<longrightarrow> 0 < cd s s' t)"

lemma wait_runs_all:
  assumes "patient cd" and "\<And>e s. e \<in> set q \<Longrightarrow> fst (run e s) = None"
  shows "timer \<noteq> Some 0 \<Longrightarrow> single_threaded_wait cd run timer q s = (Inr True, [], run_all run q s)"
  using assms(2)
proof (induction q arbitrary: timer s)
  case (Cons e q)
  obtain s' where run: "run e s = (None, s')"
    using Cons.prems(2) [of e s] by (cases "run e s") auto
  have "map_option (cd s s') timer \<noteq> Some 0"
    using Cons.prems(1) assms(1) by (cases timer) (auto simp: patient_def dest: gr0I)
  with Cons run show ?case
    by (simp add: wait_Cons run_all_def)
qed (simp add: run_all_def)

text \<open>What is left of the queue is always a suffix of it: events run in order, each at most once.\<close>

lemma wait_suffix: "\<exists>ran. q = ran @ fst (snd (single_threaded_wait cd run timer q s))"
proof (induction q arbitrary: timer s)
  case (Cons e q)
  then show ?case
    by (auto simp: wait_Cons split: prod.split option.split)
      (metis append_Cons)
qed simp

section \<open>Waiting in several threads\<close>

text \<open>
  The steps of a scheduler with worker threads and the thread that dispatches a phase and waits for
  it (wait_on_all_completed). Accepting a future and scheduling its event are steps of the
  dispatching thread, setting a future (which updates the completion under its lock) is one of a
  worker. \<open>pending\<close> counts the futures whose event is in the queue or being run, \<open>lost\<close> those
  whose event the queue refused. The wait returns when it is woken by a broadcast or timed out.
\<close>

datatype waiter = Dispatching | Accepted | Blocked | Returned bool

record 'r threads =
  counter :: "'r completion"
  pending :: nat
  lost :: nat
  dispatched :: nat
  waiter :: waiter

definition threads_start :: "'r threads" where
  "threads_start = \<lparr>counter = new_completion, pending = 0, lost = 0, dispatched = 0,
     waiter = Dispatching\<rparr>"

text \<open>What a broadcast between two states of the completion does to the waiting thread.\<close>

definition woken :: "'r completion \<Rightarrow> 'r completion \<Rightarrow> waiter \<Rightarrow> waiter" where
  "woken c c' w = (if w = Blocked \<and> broadcasts c < broadcasts c' then Returned True else w)"

inductive thread_step :: "'r threads \<Rightarrow> 'r threads \<Rightarrow> bool" where
  accept_future: "waiter t = Dispatching \<Longrightarrow> unat (exec_count (counter t)) + 1 < 2 ^ 32 \<Longrightarrow>
    thread_step t (t\<lparr>counter := accept None (counter t), dispatched := dispatched t + 1,
      waiter := Accepted\<rparr>)"
| scheduled: "waiter t = Accepted \<Longrightarrow>
    thread_step t (t\<lparr>pending := pending t + 1, waiter := Dispatching\<rparr>)"
| refused: "waiter t = Accepted \<Longrightarrow>
    thread_step t (t\<lparr>lost := lost t + 1, waiter := Dispatching\<rparr>)"
| future_set: "0 < pending t \<Longrightarrow> c = update r (counter t) \<Longrightarrow>
    thread_step t (t\<lparr>counter := c, pending := pending t - 1, waiter := woken (counter t) c (waiter t)\<rparr>)"
| wait_done: "waiter t = Dispatching \<Longrightarrow> all_completed (counter t) \<Longrightarrow>
    thread_step t (t\<lparr>waiter := Returned True\<rparr>)"
| wait_blocks: "waiter t = Dispatching \<Longrightarrow> \<not> all_completed (counter t) \<Longrightarrow>
    thread_step t (t\<lparr>waiter := Blocked\<rparr>)"
| timeout: "waiter t = Blocked \<Longrightarrow> thread_step t (t\<lparr>waiter := Returned False\<rparr>)"

inductive_cases thread_stepE: "thread_step t t'"

inductive reachable :: "'r threads \<Rightarrow> bool" where
  start: "reachable threads_start"
| step: "reachable t \<Longrightarrow> thread_step t t' \<Longrightarrow> reachable t'"

definition outstanding :: "'r threads \<Rightarrow> nat" where
  "outstanding t = pending t + lost t + (if waiter t = Accepted then 1 else 0)"

definition threads_inv :: "'r threads \<Rightarrow> bool" where
  "threads_inv t \<longleftrightarrow> unat (exec_count (counter t)) = outstanding t
     \<and> (waiter t = Blocked \<longrightarrow> 0 < outstanding t) \<and> (waiter t = Returned True \<longrightarrow> outstanding t = 0)
     \<and> length (completed (counter t)) + outstanding t = dispatched t"

lemma unat_plus_one: "unat w + 1 < 2 ^ LENGTH('a) \<Longrightarrow> unat (w + 1 :: 'a::len word) = unat w + 1"
  by (simp add: unat_word_ariths)

lemma unat_pred: "0 < unat w \<Longrightarrow> unat (w - 1) = unat w - 1"
  by (metis gr_implies_not0 unat_0 unat_minus_one)

lemma update_counter:
  "exec_count (update r c) = exec_count c - 1"
  "completed (update r c) = completed c @ [r]"
  "broadcasts (update r c) = broadcasts c + (if exec_count c = 1 then 1 else 0)"
  by (simp_all add: update_def decrement_exec_count_def Let_def on_all_completed_def
      on_all_completed_with_failure_def)

lemma accept_counter [simp]:
  "exec_count (accept None c) = exec_count c + 1" "completed (accept None c) = completed c"
  "broadcasts (accept None c) = broadcasts c"
  by (simp_all add: accept_def increment_exec_count_def)

lemma unat_is_one: "unat w = Suc 0 \<longleftrightarrow> w = (1 :: 32 word)"
  by (metis unat_1 word_unat_eq_iff One_nat_def)

lemma threads_inv_step: "threads_inv t \<Longrightarrow> thread_step t t' \<Longrightarrow> threads_inv t'"
proof (erule thread_stepE)
  fix r assume inv: "threads_inv t" and "0 < pending t"
    and t': "t' = t\<lparr>counter := update r (counter t), pending := pending t - Suc 0,
      waiter := woken (counter t) (update r (counter t)) (waiter t)\<rparr>"
  have "0 < unat (exec_count (counter t))"
    using inv \<open>0 < pending t\<close> by (auto simp: threads_inv_def outstanding_def)
  then show "threads_inv t'"
    using inv \<open>0 < pending t\<close>
    by (cases "waiter t") (auto simp: threads_inv_def outstanding_def t' update_counter unat_pred
        woken_def simp flip: unat_is_one)
qed (auto simp: threads_inv_def outstanding_def unat_plus_one all_completed_def unat_eq_0 simp flip: unat_gt_0)

lemma threads_inv: "reachable t \<Longrightarrow> threads_inv t"
proof (induction rule: reachable.induct)
  case start
  show ?case by (simp add: threads_inv_def outstanding_def threads_start_def new_completion_def)
qed (rule threads_inv_step)

section \<open>Properties\<close>

text \<open>
  C33. Events run in the order they were scheduled, after the ones that were there, and waiting returns
  true with nothing left in the queue, when no event throws and the countdown does not reach zero.
\<close>

theorem scheduled_events_run_in_order:
  assumes "fifo enq" "patient cd" "timer \<noteq> Some 0"
    and "\<And>e s. e \<in> set (q @ es) \<Longrightarrow> fst (run e s) = None"
  shows "single_threaded_wait cd run timer (fold (\<lambda>e q. snd (schedule_event enq e q)) es q) s =
    (Inr True, [], run_all run (q @ es) s)"
proof -
  have "fold (\<lambda>e q. snd (schedule_event enq e q)) es q = q @ es"
    using assms(1) by (induction es arbitrary: q) (auto simp: fifo_def schedule_event_def)
  moreover have "single_threaded_wait cd run timer (q @ es) s = (Inr True, [], run_all run (q @ es) s)"
    by (rule wait_runs_all [OF assms(2) assms(4) assms(3)])
  ultimately show ?thesis by simp
qed

theorem scheduled_events_run_in_order_witness:
  "single_threaded_wait (\<lambda>_ _ t. t) (\<lambda>e s. (None :: unit option, s @ [e])) (Some 5)
     (fold (\<lambda>e q. snd (schedule_event (\<lambda>e q. Some (q @ [e])) e q)) [2, 3] [1]) [] = (Inr True, [], [1, 2, 3 :: nat])"
  by (subst scheduled_events_run_in_order) (simp_all add: fifo_def patient_def run_all_def)

text \<open>
  However waiting ends, what is left in the queue is a suffix of what was there. Waiting returns
  true exactly when it leaves nothing: after a time-out, events of the phase stay in the queue.
\<close>

theorem wait_leaves_suffix:
  "case single_threaded_wait cd run timer q s of (res, q', s') \<Rightarrow>
    (\<exists>ran. q = ran @ q') \<and> (case res of Inl _ \<Rightarrow> q' \<noteq> q | Inr done_all \<Rightarrow> done_all = (q' = []))"
proof (induction q arbitrary: timer s)
  case (Cons e q)
  obtain x s' where run: "run e s = (x, s')" by (cases "run e s")
  show ?case
  proof (cases "timer = Some 0 \<or> x \<noteq> None")
    case False
    obtain res q' s'' where w: "single_threaded_wait cd run (map_option (cd s s') timer) q s' = (res, q', s'')"
      by (metis prod_cases3)
    with Cons [of "map_option (cd s s') timer" s'] obtain ran where "q = ran @ q'" by auto
    with w Cons [of "map_option (cd s s') timer" s'] run False show ?thesis
      by (auto simp: wait_Cons split: sum.splits intro: exI [of _ "e # ran"] dest: arg_cong [of _ _ length])
  qed (use run in \<open>auto simp: wait_Cons\<close>)
qed simp



text \<open>
  C36. No wake-up is lost: a thread is blocked only while a future is outstanding, and setting the last
  one, when the queue refused none, makes its wait return true.
\<close>

theorem no_lost_wakeup:
  assumes "reachable t" "waiter t = Blocked"
  shows "0 < pending t + lost t \<and> (pending t = 1 \<longrightarrow> lost t = 0 \<longrightarrow>
    woken (counter t) (update r (counter t)) (waiter t) = Returned True)"
  using threads_inv [OF assms(1)] assms(2)
  by (auto simp: threads_inv_def outstanding_def woken_def update_counter simp flip: unat_is_one)

definition one_blocked :: "nat threads" where
  "one_blocked = \<lparr>counter = accept None new_completion, pending = 1, lost = 0, dispatched = 1,
     waiter = Blocked\<rparr>"

theorem no_lost_wakeup_witness:
  "woken (counter one_blocked) (update 7 (counter one_blocked)) Blocked = Returned True"
proof -
  let ?a = "threads_start\<lparr>counter := accept None new_completion, dispatched := 1, waiter := Accepted\<rparr>"
  have "reachable ?a"
    using reachable.step [OF reachable.start thread_step.accept_future [of threads_start]]
    by (simp add: threads_start_def new_completion_def)
  then have "reachable (?a\<lparr>pending := 1, waiter := Dispatching\<rparr>)"
    using reachable.step [OF _ thread_step.scheduled [of ?a]] by (simp add: threads_start_def)
  then have "reachable one_blocked"
    using reachable.step [OF _ thread_step.wait_blocks [of "?a\<lparr>pending := 1, waiter := Dispatching\<rparr>"]]
    by (simp add: threads_start_def one_blocked_def all_completed_def new_completion_def)
  from no_lost_wakeup [OF this, of 7] show ?thesis by (simp add: one_blocked_def)
qed

text \<open>
  Accepting a future that is already set: it is attached, and so counted down, before it is counted
  up. The count comes out right, but the counter passes through the previous value less one, so all
  completed is announced while another future is still outstanding, and is not announced when there
  is none.
\<close>

theorem accept_set_future:
  "exec_count (accept (Some r) c) = exec_count c \<and> completed (accept (Some r) c) = completed c @ [r]
    \<and> broadcasts (accept (Some r) c) = broadcasts c + (if exec_count c = 1 then 1 else 0)"
  by (simp add: accept_def increment_exec_count_def update_counter)

end
