(* ===== verification/Locality.thy ===== *)
theory Locality
  imports Actions Scheduler
begin

text \<open>
  The locality manager, dancex11/locality_deployment_handler/dancex11_locality_manager_impl.cpp: it
  prepares a plan, and launches, starts, stops and removes its instances and connections. Every phase
  dispatches one event per instance or connection to the scheduler, waits for them and throws the first
  failure among the results.

  The scheduler of a locality manager has no threads of its own (activate_scheduler (0)), so the events
  of a phase run while it waits, and what they throw leaves the phase. A phase's completion lives as
  long as the phase. Each event carries the number of the completion its future is attached to, so that
  an event which outlives its phase is seen to notify an object that is gone, which is undefined
  behaviour in C++, like an index a plan does not have.

  The locals that only feed the log (the count of dispatched events) are left out.
\<close>

text \<open>
  How an operation ends when it does not return: with an exception, in undefined behaviour, or in a wait
  that nothing will end.
\<close>

datatype failure = Raised exn | Undefined | Hangs

record ('p, 'd, 'w) launch_env =
  le_enqueue :: "('d event \<times> nat) ace_queue"
  le_countdown :: "'w \<Rightarrow> 'w \<Rightarrow> nat \<Rightarrow> nat"
  le_duration :: "32 word \<Rightarrow> nat"
  as_handler :: "'p \<Rightarrow> ('d, 'w) handler"
  as_interceptor :: "'p \<Rightarrow> ('d, 'w) interceptor"
  le_configure :: "'p \<Rightarrow> 'd property \<Rightarrow> 'w \<Rightarrow> exn option \<times> 'w"

record ('p, 'd, 'w) locality =
  lm_plugins :: "('p, 'd) manager"
  lm_handlers :: "(string, nat list) smap"
  lm_order :: "string list"
  lm_plan :: "'d plan"
  lm_delay :: "32 word"
  lm_queue :: "('d event \<times> nat) list"
  lm_serial :: nat
  lm_world :: 'w

definition new_locality :: "('p, 'd) manager \<Rightarrow> 'w \<Rightarrow> ('p, 'd, 'w) locality" where
  "new_locality pm w = \<lparr>lm_plugins = pm, lm_handlers = [], lm_order = [], lm_plan = new_plan,
     lm_delay = 30, lm_queue = [], lm_serial = 0, lm_world = w\<rparr>"

text \<open>A connection as it is handed out and taken in: a name and the references of its endpoints.\<close>

record reference =
  rf_name :: string
  rf_endpoint :: "nat option list"

section \<open>Configuring and preparing\<close>

fun configure_each ::
  "('p, 'd, 'w) launch_env \<Rightarrow> ('p, 'd) manager \<Rightarrow> 'd properties \<Rightarrow> 'w \<Rightarrow> exn option \<times> 'w" where
  "configure_each env pm [] w = (None, w)"
| "configure_each env pm (p # ps) w =
     (case get_configuration_handler (pr_name p) pm of
        None \<Rightarrow> configure_each env pm ps w
      | Some c \<Rightarrow>
          (case le_configure env c p w of
             (Some e, w') \<Rightarrow> (Some e, w')
           | (None, w') \<Rightarrow> configure_each env pm ps w'))"

definition lm_configure ::
  "('p, 'd, 'w) launch_env \<Rightarrow> 'd properties \<Rightarrow> ('p, 'd, 'w) locality \<Rightarrow>
    (failure + unit) \<times> ('p, 'd, 'w) locality" where
  "lm_configure env props lm =
     (if props = [] then (Inr (), lm)
      else let lm = (case get_property_value as_uint32 LOCALITY_TIMEOUT props of
                 None \<Rightarrow> lm | Some d \<Rightarrow> lm\<lparr>lm_delay := d\<rparr>)
           in case configure_each env (lm_plugins lm) props (lm_world lm) of
             (Some e, w) \<Rightarrow> (Inl (Raised e), lm\<lparr>lm_world := w\<rparr>)
           | (None, w) \<Rightarrow> (Inr (), lm\<lparr>lm_world := w\<rparr>))"

fun preprocess ::
  "('d, 'w) interceptor list \<Rightarrow> 'd plan \<Rightarrow> 'w \<Rightarrow> exn option \<times> 'd plan \<times> 'w" where
  "preprocess [] plan w = (None, plan, w)"
| "preprocess (di # ds) plan w =
     (case preprocess_plan di plan w of
        (Some e, plan', w') \<Rightarrow> (Some e, plan', w')
      | (None, plan', w') \<Rightarrow> preprocess ds plan' w')"

text \<open>The type of an instance, None when the plan lacks the instance or its implementation.\<close>

definition instance_type_of :: "'d plan \<Rightarrow> nat \<Rightarrow> string option" where
  "instance_type_of plan i =
     (if i < length (pl_instance plan) then
        (let impl = id_implementationRef (pl_instance plan ! i)
         in if impl < length (pl_implementation plan)
            then Some (get_instance_type (md_execParameter (pl_implementation plan ! impl)))
            else None)
      else None)"

fun table_instances ::
  "'d plan \<Rightarrow> nat list \<Rightarrow> (string, nat list) smap \<Rightarrow> bool \<times> (string, nat list) smap" where
  "table_instances plan [] table = (True, table)"
| "table_instances plan (i # is) table =
     (case instance_type_of plan i of
        None \<Rightarrow> (False, table)
      | Some ty \<Rightarrow> table_instances plan is (map_modify [] (\<lambda>l. l @ [i]) ty table))"

definition lm_interceptors ::
  "('p, 'd, 'w) launch_env \<Rightarrow> ('p, 'd, 'w) locality \<Rightarrow> ('d, 'w) interceptor list" where
  "lm_interceptors env lm = map (as_interceptor env) (fetch_interceptors (lm_plugins lm))"

definition preparePlan ::
  "('p, 'd, 'w) launch_env \<Rightarrow> 'd plan \<Rightarrow> ('p, 'd, 'w) locality \<Rightarrow>
    (failure + unit) \<times> ('p, 'd, 'w) locality" where
  "preparePlan env plan lm =
     (case preprocess (lm_interceptors env lm) plan (lm_world lm) of
        (Some e, plan', w) \<Rightarrow> (Inl (Raised e), lm\<lparr>lm_plan := plan', lm_world := w\<rparr>)
      | (None, plan', w) \<Rightarrow>
          (case table_instances plan' [0..<length (pl_instance plan')] (lm_handlers lm) of
             (ok, table) \<Rightarrow>
               (if ok then Inr () else Inl Undefined,
                lm\<lparr>lm_plan := plan', lm_world := w, lm_handlers := table\<rparr>)))"

section \<open>Dispatching, waiting and checking\<close>

text \<open>A phase works on the manager and on its completion, with the number \<open>cur\<close>.\<close>

type_synonym ('p, 'd, 'w) phase = "('p, 'd, 'w) locality \<times> 'd event_result completion"

definition dispatch ::
  "('p, 'd, 'w) launch_env \<Rightarrow> nat \<Rightarrow> action \<Rightarrow> nat \<Rightarrow> 'd any \<Rightarrow> string \<Rightarrow> ('p, 'd, 'w) phase \<Rightarrow>
    bool \<times> ('p, 'd, 'w) phase" where
  "dispatch env cur a ref provided ty ph =
     (case ph of (lm, cmp) \<Rightarrow>
       (case new_event a (lm_plan lm) ref provided ty of
          None \<Rightarrow> (False, lm, accept None cmp)
        | Some ev \<Rightarrow>
            (True, lm\<lparr>lm_queue := snd (schedule_event (le_enqueue env) (ev, cur) (lm_queue lm))\<rparr>,
             accept None cmp)))"

fun dispatch_list ::
  "('p, 'd, 'w) launch_env \<Rightarrow> nat \<Rightarrow> action \<Rightarrow> string \<Rightarrow> nat list \<Rightarrow> ('p, 'd, 'w) phase \<Rightarrow>
    bool \<times> ('p, 'd, 'w) phase" where
  "dispatch_list env cur a ty [] ph = (True, ph)"
| "dispatch_list env cur a ty (i # is) ph =
     (case dispatch env cur a i NullAny ty ph of
        (False, ph') \<Rightarrow> (False, ph')
      | (True, ph') \<Rightarrow> dispatch_list env cur a ty is ph')"

text \<open>Reading \<open>instance_handlers_[order]\<close> enters an empty list for a type without instances.\<close>

fun dispatch_types ::
  "('p, 'd, 'w) launch_env \<Rightarrow> nat \<Rightarrow> action \<Rightarrow> string list \<Rightarrow> ('p, 'd, 'w) phase \<Rightarrow>
    bool \<times> ('p, 'd, 'w) phase" where
  "dispatch_types env cur a [] ph = (True, ph)"
| "dispatch_types env cur a (ty # tys) ph =
     (case ph of (lm, cmp) \<Rightarrow>
       (case dispatch_list env cur a ty (map_at [] (lm_handlers lm) ty)
          (lm\<lparr>lm_handlers := map_insert ty [] (lm_handlers lm)\<rparr>, cmp) of
          (False, ph') \<Rightarrow> (False, ph')
        | (True, ph') \<Rightarrow> dispatch_types env cur a tys ph'))"

text \<open>
  Running an event: its future is set to the result, which updates the completion it is attached to.
  The state an event reaches is the completion, the plan and the plugins.
\<close>

definition run_event ::
  "('d, 'w) interceptor list \<Rightarrow> (string \<Rightarrow> ('d, 'w) handler option) \<Rightarrow> nat \<Rightarrow>
    ('d event \<times> nat, 'd event_result completion \<times> 'd plan \<times> 'w, failure) runner" where
  "run_event ds fetch cur ev s =
     (case s of (cmp, plan, w) \<Rightarrow>
       (case action_call ds fetch (fst ev) plan w of
          (Inl e, plan', w') \<Rightarrow> (Some (Raised e), cmp, plan', w')
        | (Inr r, plan', w') \<Rightarrow>
            (if snd ev = cur then (None, update r cmp, plan', w')
             else (Some Undefined, cmp, plan', w'))))"

definition lm_fetch ::
  "('p, 'd, 'w) launch_env \<Rightarrow> ('p, 'd, 'w) locality \<Rightarrow> string \<Rightarrow> ('d, 'w) handler option" where
  "lm_fetch env lm ty = map_option (as_handler env) (fetch_installation_handler ty (lm_plugins lm))"

text \<open>
  The deadline is the time of the call and \<open>lm_delay\<close> seconds; the countdown starts from what is left of
  it, \<open>le_duration\<close> in the unit of ACE's clock. That it ran out is written to the log only, so the result is what was thrown.
\<close>

definition wait_on_completion ::
  "('p, 'd, 'w) launch_env \<Rightarrow> nat \<Rightarrow> ('p, 'd, 'w) phase \<Rightarrow> failure option \<times> ('p, 'd, 'w) phase" where
  "wait_on_completion env cur ph =
     (case ph of (lm, cmp) \<Rightarrow>
       (case single_threaded_wait (\<lambda>(_, _, w) (_, _, w'). le_countdown env w w')
          (run_event (lm_interceptors env lm) (lm_fetch env lm) cur)
          (Some (le_duration env (lm_delay lm))) (lm_queue lm) (cmp, lm_plan lm, lm_world lm) of
          (res, q, cmp', plan, w) \<Rightarrow>
            (case res of Inl f \<Rightarrow> Some f | Inr _ \<Rightarrow> None,
             lm\<lparr>lm_queue := q, lm_plan := plan, lm_world := w\<rparr>, cmp')))"

fun rethrow :: "user_kind list \<Rightarrow> 'd any \<Rightarrow> exn option" where
  "rethrow [] a = None"
| "rethrow (k # ks) a =
     (case extract_and_throw_exception k a of Inl e \<Rightarrow> Some e | Inr _ \<Rightarrow> rethrow ks a)"

definition check_result ::
  "user_kind list \<Rightarrow> user_kind \<Rightarrow> string \<Rightarrow> 'd event_result \<Rightarrow> exn option" where
  "check_result ks unknown reason r =
     (if er_exception r then
        (case rethrow ks (er_contents r) of
           Some e \<Rightarrow> Some e
         | None \<Rightarrow> Some (UserEx unknown (er_id r) reason))
      else None)"

fun check_results ::
  "user_kind list \<Rightarrow> user_kind \<Rightarrow> string \<Rightarrow> 'd event_result list \<Rightarrow> exn option" where
  "check_results ks unknown reason [] = None"
| "check_results ks unknown reason (r # rs) =
     (case check_result ks unknown reason r of
        Some e \<Rightarrow> Some e
      | None \<Rightarrow> check_results ks unknown reason rs)"

definition start_phase :: "('p, 'd, 'w) locality \<Rightarrow> ('p, 'd, 'w) phase" where
  "start_phase lm = (lm\<lparr>lm_serial := lm_serial lm + 1\<rparr>, new_completion)"

text \<open>
  The end of a phase that only checks its results, after a dispatch that went well or met an index the
  plan does not have.
\<close>

definition finish_phase ::
  "('p, 'd, 'w) launch_env \<Rightarrow> nat \<Rightarrow> user_kind list \<Rightarrow> user_kind \<Rightarrow> string \<Rightarrow>
    bool \<times> ('p, 'd, 'w) phase \<Rightarrow> (failure + 'd event_result list) \<times> ('p, 'd, 'w) phase" where
  "finish_phase env cur ks unknown reason d =
     (case d of
        (False, ph) \<Rightarrow> (Inl Undefined, ph)
      | (True, ph) \<Rightarrow>
          (case wait_on_completion env cur ph of
             (Some f, ph') \<Rightarrow> (Inl f, ph')
           | (None, lm, cmp) \<Rightarrow>
               (case completed_events cmp of
                  (evs, cmp') \<Rightarrow>
                    (case check_results ks unknown reason evs of
                       Some e \<Rightarrow> (Inl (Raised e), lm, cmp')
                     | None \<Rightarrow> (Inr evs, lm, cmp')))))"

definition ignore_value :: "(failure + 'a) \<times> ('p, 'd, 'w) phase \<Rightarrow> (failure + unit) \<times> ('p, 'd, 'w) locality" where
  "ignore_value r = (case r of (x, lm, _) \<Rightarrow> (map_sum id (\<lambda>_. ()) x, lm))"

section \<open>The phases\<close>

definition install_instances ::
  "('p, 'd, 'w) launch_env \<Rightarrow> ('p, 'd, 'w) locality \<Rightarrow> (failure + unit) \<times> ('p, 'd, 'w) locality" where
  "install_instances env lm =
     ignore_value (finish_phase env (lm_serial lm)
       [StartError, InvalidProperty, InvalidNodeExecParameter, InvalidComponentExecParameter]
       StartError ''Unknown exception''
       (dispatch_types env (lm_serial lm) Install_Instance (lm_order lm) (start_phase lm)))"

text \<open>Dispatching the endpoints of one connection that provide something.\<close>

fun dispatch_endpoints ::
  "('p, 'd, 'w) launch_env \<Rightarrow> nat \<Rightarrow> nat \<Rightarrow> endpoint list \<Rightarrow> ('p, 'd, 'w) phase \<Rightarrow>
    bool \<times> ('p, 'd, 'w) phase" where
  "dispatch_endpoints env cur i [] ph = (True, ph)"
| "dispatch_endpoints env cur i (ep # eps) ph =
     (if ep_provider ep then
        (case instance_type_of (lm_plan (fst ph)) (ep_instanceRef ep) of
           None \<Rightarrow> (False, ph)
         | Some ty \<Rightarrow>
             (case dispatch env cur Endpoint_Reference i NullAny ty ph of
                (False, ph') \<Rightarrow> (False, ph')
              | (True, ph') \<Rightarrow> dispatch_endpoints env cur i eps ph'))
      else dispatch_endpoints env cur i eps ph)"

definition external :: "'d connection \<Rightarrow> bool" where
  "external conn \<longleftrightarrow> cn_externalReference conn \<noteq> [] \<or> cn_externalEndpoint conn \<noteq> []"

fun dispatch_references ::
  "('p, 'd, 'w) launch_env \<Rightarrow> nat \<Rightarrow> (nat \<times> 'd connection) list \<Rightarrow> reference list \<Rightarrow> ('p, 'd, 'w) phase \<Rightarrow>
    reference list \<times> bool \<times> ('p, 'd, 'w) phase" where
  "dispatch_references env cur [] out ph = (out, True, ph)"
| "dispatch_references env cur ((i, conn) # cs) out ph =
     (if external conn then
        dispatch_references env cur cs (out @ [\<lparr>rf_name = cn_name conn, rf_endpoint = [None]\<rparr>]) ph
      else case dispatch_endpoints env cur i (cn_internalEndpoint conn) ph of
          (False, ph') \<Rightarrow> (out, False, ph')
        | (True, ph') \<Rightarrow> dispatch_references env cur cs out ph')"

text \<open>The reference in a result; nil when the result holds none or something else.\<close>

definition result_reference :: "'d event_result \<Rightarrow> reference" where
  "result_reference r =
     \<lparr>rf_name = er_id r, rf_endpoint = [case as_object (er_contents r) of Some obj \<Rightarrow> obj | None \<Rightarrow> None]\<rparr>"

definition collect_references ::
  "('p, 'd, 'w) launch_env \<Rightarrow> reference list \<Rightarrow> ('p, 'd, 'w) locality \<Rightarrow>
    (failure + reference list) \<times> ('p, 'd, 'w) locality" where
  "collect_references env out lm =
     (case dispatch_references env (lm_serial lm) (enumerate 0 (pl_connection (lm_plan lm))) out (start_phase lm) of
        (out', d) \<Rightarrow>
          (case finish_phase env (lm_serial lm) [StartError, InvalidProperty] StartError ''Unknown exception'' d of
             (res, lm', _) \<Rightarrow> (map_sum id (\<lambda>evs. out' @ map result_reference evs) res, lm')))"

definition startLaunch ::
  "('p, 'd, 'w) launch_env \<Rightarrow> reference list \<Rightarrow> ('p, 'd, 'w) locality \<Rightarrow>
    (failure + reference list) \<times> ('p, 'd, 'w) locality" where
  "startLaunch env out lm =
     (case get_installation_order (lm_plugins lm) (lm_order lm) of
        Inl e \<Rightarrow> (Inl (Raised ForeignEx), lm\<lparr>lm_order := ordered_so_far e\<rparr>)
      | Inr order \<Rightarrow>
          (case install_instances env (lm\<lparr>lm_order := order\<rparr>) of
             (Inl f, lm') \<Rightarrow> (Inl f, lm')
           | (Inr _, lm') \<Rightarrow> collect_references env out lm'))"

text \<open>
  Which endpoint of a connection is the receiving one: the second of two when it does not provide, the
  only one of a connection with at most one external end. A lone facet is left to others.
\<close>

definition connect_index :: "'d connection \<Rightarrow> nat option" where
  "connect_index conn =
     (let eps = cn_internalEndpoint conn;
          ext = length (cn_externalReference conn) + length (cn_externalEndpoint conn)
      in if length eps = 2 then Some (if \<not> ep_provider (eps ! 1) then 1 else 0)
         else if length eps = 1 \<and> ext = 0 \<and> ep_kind (eps ! 0) = Facet then None
         else if length eps \<noteq> 1 \<or> ext > 1 then None
         else Some 0)"

definition receiver_type :: "'d plan \<Rightarrow> 'd connection \<Rightarrow> nat \<Rightarrow> string option" where
  "receiver_type plan conn j = instance_type_of plan (ep_instanceRef (cn_internalEndpoint conn ! j))"

definition connection_map :: "'d plan \<Rightarrow> (string, nat) smap" where
  "connection_map plan = fold (\<lambda>(i, c). map_put (cn_name c) i) (enumerate 0 (pl_connection plan)) []"

fun dispatch_connects ::
  "('p, 'd, 'w) launch_env \<Rightarrow> nat \<Rightarrow> (string, nat) smap \<Rightarrow> reference list \<Rightarrow> ('p, 'd, 'w) phase \<Rightarrow>
    bool \<times> ('p, 'd, 'w) phase" where
  "dispatch_connects env cur conns [] ph = (True, ph)"
| "dispatch_connects env cur conns (r # rs) ph =
     (case map_get conns (rf_name r) of
        None \<Rightarrow> dispatch_connects env cur conns rs ph
      | Some i \<Rightarrow>
          (let plan = lm_plan (fst ph); conn = pl_connection plan ! i
           in case connect_index conn of
               None \<Rightarrow> dispatch_connects env cur conns rs ph
             | Some j \<Rightarrow>
                 (case (rf_endpoint r, receiver_type plan conn j) of
                    (obj # _, Some ty) \<Rightarrow>
                      (case dispatch env cur Connect_Instance i (ObjAny obj) ty ph of
                         (False, ph') \<Rightarrow> (False, ph')
                       | (True, ph') \<Rightarrow> dispatch_connects env cur conns rs ph')
                  | _ \<Rightarrow> (False, ph))))"

definition lm_start ::
  "('p, 'd, 'w) launch_env \<Rightarrow> ('p, 'd, 'w) locality \<Rightarrow> (failure + unit) \<times> ('p, 'd, 'w) locality" where
  "lm_start env lm =
     ignore_value (finish_phase env (lm_serial lm) [StartError] StartError ''Unknown exception''
       (dispatch_types env (lm_serial lm) Start_Instance (lm_order lm) (start_phase lm)))"

text \<open>Both halves of finishLaunch use one completion.\<close>

definition finishLaunch ::
  "('p, 'd, 'w) launch_env \<Rightarrow> reference list \<Rightarrow> bool \<Rightarrow> ('p, 'd, 'w) locality \<Rightarrow>
    (failure + unit) \<times> ('p, 'd, 'w) locality" where
  "finishLaunch env provided start lm =
     (let cur = lm_serial lm
      in case finish_phase env cur [StartError, InvalidConnection] StartError ''Unknown exception''
            (dispatch_connects env cur (connection_map (lm_plan lm)) provided (start_phase lm)) of
          (Inl f, lm', _) \<Rightarrow> (Inl f, lm')
        | (Inr _, lm', cmp) \<Rightarrow>
            (case finish_phase env cur [StartError] StartError ''Unknown exception from instance_configured''
               (dispatch_types env cur Instance_Configured (lm_order lm') (lm', cmp)) of
               (Inl f, lm'', _) \<Rightarrow> (Inl f, lm'')
             | (Inr _, lm'', _) \<Rightarrow> (if start then lm_start env lm'' else (Inr (), lm''))))"

fun dispatch_disconnects ::
  "('p, 'd, 'w) launch_env \<Rightarrow> nat \<Rightarrow> (nat \<times> 'd connection) list \<Rightarrow> ('p, 'd, 'w) phase \<Rightarrow>
    bool \<times> ('p, 'd, 'w) phase" where
  "dispatch_disconnects env cur [] ph = (True, ph)"
| "dispatch_disconnects env cur ((i, conn) # cs) ph =
     (case connect_index conn of
        None \<Rightarrow> dispatch_disconnects env cur cs ph
      | Some j \<Rightarrow>
          (case receiver_type (lm_plan (fst ph)) conn j of
             None \<Rightarrow> (False, ph)
           | Some ty \<Rightarrow>
               (case dispatch env cur Disconnect_Instance i NullAny ty ph of
                  (False, ph') \<Rightarrow> (False, ph')
                | (True, ph') \<Rightarrow> dispatch_disconnects env cur cs ph')))"

definition disconnect_connections ::
  "('p, 'd, 'w) launch_env \<Rightarrow> ('p, 'd, 'w) locality \<Rightarrow> (failure + unit) \<times> ('p, 'd, 'w) locality" where
  "disconnect_connections env lm =
     ignore_value (finish_phase env (lm_serial lm) [StartError, InvalidConnection] StartError ''Unknown exception''
       (dispatch_disconnects env (lm_serial lm) (enumerate 0 (pl_connection (lm_plan lm))) (start_phase lm)))"

definition lm_stop ::
  "('p, 'd, 'w) launch_env \<Rightarrow> ('p, 'd, 'w) locality \<Rightarrow> (failure + unit) \<times> ('p, 'd, 'w) locality" where
  "lm_stop env lm =
     ignore_value (finish_phase env (lm_serial lm) [StopError] StopError ''Unknown exception''
       (dispatch_types env (lm_serial lm) Passivate_Instance (rev (lm_order lm)) (start_phase lm)))"

text \<open>The completion for the removals is made before the connections are taken down.\<close>

definition destroyApplication ::
  "('p, 'd, 'w) launch_env \<Rightarrow> ('p, 'd, 'w) locality \<Rightarrow> (failure + unit) \<times> ('p, 'd, 'w) locality" where
  "destroyApplication env lm =
     (case start_phase lm of (lm', cmp) \<Rightarrow>
       (case disconnect_connections env lm' of
          (Inl f, lm'') \<Rightarrow> (Inl f, lm'')
        | (Inr _, lm'') \<Rightarrow>
            ignore_value (finish_phase env (lm_serial lm) [StopError] StopError ''Unknown exception''
              (dispatch_types env (lm_serial lm) Remove_Instance (rev (lm_order lm'')) (lm'', cmp)))))"

text \<open>The destructor: the scheduler is terminated with its events.\<close>

definition close_locality :: "('p, 'd, 'w) locality \<Rightarrow> ('p, 'd, 'w) locality" where
  "close_locality lm = lm\<lparr>lm_queue := terminate_scheduler (lm_queue lm)\<rparr>"

section \<open>The specification of a phase\<close>

text \<open>
  What a phase promises without interceptors: the handlers run one after the other on the events in
  their order, each on what the ones before it left, whatever they raise; the phase then throws the
  first failure, as it is when its kind is one the phase knows and as an unknown exception otherwise.
\<close>

definition world_after :: "('d, 'w) handler option \<Rightarrow> 'd event \<Rightarrow> 'd plan \<Rightarrow> 'w \<Rightarrow> 'w" where
  "world_after handler ev plan w =
     (case handler of
        None \<Rightarrow> w
      | Some h \<Rightarrow> snd (snd (h (handler_call_of (ev_action ev) (ev_ref ev) (ev_provided ev)) plan w)))"

fun run_handlers ::
  "(string \<Rightarrow> ('d, 'w) handler option) \<Rightarrow> 'd plan \<Rightarrow> 'd event list \<Rightarrow> 'w \<Rightarrow>
    (string \<times> (exn + 'd any)) list \<times> 'w" where
  "run_handlers fetch plan [] w = ([], w)"
| "run_handlers fetch plan (ev # evs) w =
     (case run_handlers fetch plan evs (world_after (fetch (ev_type ev)) ev plan w) of
        (os, w') \<Rightarrow> ((ev_name ev, outcome (fetch (ev_type ev)) ev plan w) # os, w'))"

fun reported :: "user_kind list \<Rightarrow> user_kind \<Rightarrow> string \<Rightarrow> string \<Rightarrow> exn \<Rightarrow> exn" where
  "reported ks unknown reason n (UserEx k m r) =
     (if k \<in> set ks then UserEx k m r else UserEx unknown n reason)"
| "reported ks unknown reason n _ = UserEx unknown n reason"

fun first_failure ::
  "user_kind list \<Rightarrow> user_kind \<Rightarrow> string \<Rightarrow> (string \<times> (exn + 'd any)) list \<Rightarrow> exn option" where
  "first_failure ks unknown reason [] = None"
| "first_failure ks unknown reason ((n, Inl e) # os) = Some (reported ks unknown reason n e)"
| "first_failure ks unknown reason ((n, Inr v) # os) = first_failure ks unknown reason os"

text \<open>The events of a phase over instance types, and the instances it visits.\<close>

definition mk_event :: "action \<Rightarrow> 'd plan \<Rightarrow> string \<Rightarrow> nat \<Rightarrow> 'd event" where
  "mk_event a plan ty i = \<lparr>ev_action = a, ev_ref = i, ev_name = id_name (pl_instance plan ! i),
     ev_type = ty, ev_provided = NullAny, ev_value = NullAny, ev_excep = NullAny\<rparr>"

definition type_events ::
  "action \<Rightarrow> 'd plan \<Rightarrow> (string, nat list) smap \<Rightarrow> string list \<Rightarrow> 'd event list" where
  "type_events a plan table tys = concat (map (\<lambda>ty. map (mk_event a plan ty) (map_at [] table ty)) tys)"

section \<open>A phase meets it\<close>

lemma map_at_insert: "map_ok m \<Longrightarrow> map_at d (map_insert k d m) j = map_at d m j"
  by (auto simp: map_at_def map_get_insert split: option.split)

lemma map_at_inserts: "map_ok m \<Longrightarrow> map_at d (fold (\<lambda>k. map_insert k d) ks m) j = map_at d m j"
  by (induction ks arbitrary: m) (simp_all add: map_at_insert map_ok_insert)

lemma new_event_mk:
  "\<not> on_connection a \<Longrightarrow> i < length (pl_instance plan) \<Longrightarrow>
    new_event a plan i NullAny ty = Some (mk_event a plan ty i)"
  by (simp add: new_event_def mk_event_def)

text \<open>Dispatching appends the events to the queue and adds no result to the completion.\<close>

lemma dispatch_list_ok:
  assumes "fifo (le_enqueue env)" "\<not> on_connection a"
  shows "\<forall>i \<in> set is. i < length (pl_instance (lm_plan lm)) \<Longrightarrow>
    \<exists>cmp'. completed cmp' = completed cmp \<and> dispatch_list env cur a ty is (lm, cmp) =
      (True, lm\<lparr>lm_queue := lm_queue lm @ map (\<lambda>i. (mk_event a (lm_plan lm) ty i, cur)) is\<rparr>, cmp')"
proof (induction "is" arbitrary: lm cmp)
  case (Cons i "is")
  let ?lm = "lm\<lparr>lm_queue := lm_queue lm @ [(mk_event a (lm_plan lm) ty i, cur)]\<rparr>"
  have "dispatch env cur a i NullAny ty (lm, cmp) = (True, ?lm, accept None cmp)"
    using assms Cons.prems by (simp add: dispatch_def new_event_mk schedule_event_def fifo_def)
  with Cons.IH [of ?lm "accept None cmp"] Cons.prems show ?case by simp
qed simp

lemma dispatch_types_ok:
  assumes "fifo (le_enqueue env)" "\<not> on_connection a"
  shows "map_ok (lm_handlers lm) \<Longrightarrow>
    \<forall>ty \<in> set tys. \<forall>i \<in> set (map_at [] (lm_handlers lm) ty). i < length (pl_instance (lm_plan lm)) \<Longrightarrow>
    \<exists>cmp'. completed cmp' = completed cmp \<and> dispatch_types env cur a tys (lm, cmp) =
      (True, lm\<lparr>lm_handlers := fold (\<lambda>ty. map_insert ty []) tys (lm_handlers lm),
         lm_queue := lm_queue lm @ map (\<lambda>ev. (ev, cur)) (type_events a (lm_plan lm) (lm_handlers lm) tys)\<rparr>, cmp')"
proof (induction tys arbitrary: lm cmp)
  case (Cons ty tys)
  let ?is = "map_at [] (lm_handlers lm) ty"
  let ?lm = "lm\<lparr>lm_handlers := map_insert ty [] (lm_handlers lm)\<rparr>"
  let ?lm' = "?lm\<lparr>lm_queue := lm_queue lm @ map (\<lambda>i. (mk_event a (lm_plan lm) ty i, cur)) ?is\<rparr>"
  obtain cmp' where "completed cmp' = completed cmp"
    and "dispatch_list env cur a ty ?is (?lm, cmp) = (True, ?lm', cmp')"
    using dispatch_list_ok [OF assms, of ?is ?lm cmp cur ty] Cons.prems by auto
  moreover have "\<exists>cmp''. completed cmp'' = completed cmp' \<and> dispatch_types env cur a tys (?lm', cmp') =
      (True, ?lm'\<lparr>lm_handlers := fold (\<lambda>ty. map_insert ty []) tys (lm_handlers ?lm'),
         lm_queue := lm_queue ?lm' @ map (\<lambda>ev. (ev, cur)) (type_events a (lm_plan ?lm') (lm_handlers ?lm') tys)\<rparr>, cmp'')"
    using Cons.prems by (intro Cons.IH) (simp_all add: map_ok_insert map_at_insert)
  ultimately show ?case
    using Cons.prems(1) by (auto simp: type_events_def map_at_insert comp_def cong: map_cong)
qed (auto simp: type_events_def)

text \<open>Without interceptors an event leaves the plan, never throws, and sets its future.\<close>

lemma call_plain_full:
  assumes "fresh ev"
  shows "action_call [] fetch ev plan w =
    (Inr (case outcome (fetch (ev_type ev)) ev plan w of
            Inl e \<Rightarrow> error_result (ev_name ev) e
          | Inr v \<Rightarrow> value_result (ev_name ev) v), plan, world_after (fetch (ev_type ev)) ev plan w)"
proof -
  have "snd (action_call [] fetch ev plan w) = (plan, world_after (fetch (ev_type ev)) ev plan w)"
    by (auto simp: action_call_def handle_def invoke_def world_after_def split: prod.splits option.splits)
  with call_plain [OF assms, of fetch plan w] show ?thesis
    by (metis prod.collapse)
qed

definition result_of :: "string \<times> (exn + 'd any) \<Rightarrow> 'd event_result" where
  "result_of x = (case x of (n, Inl e) \<Rightarrow> error_result n e | (n, Inr v) \<Rightarrow> value_result n v)"

lemma run_event_plain:
  "fresh ev \<Longrightarrow> run_event [] fetch cur (ev, cur) (cmp, plan, w) =
    (None, update (result_of (ev_name ev, outcome (fetch (ev_type ev)) ev plan w)) cmp, plan,
     world_after (fetch (ev_type ev)) ev plan w)"
  by (simp add: run_event_def call_plain_full result_of_def split: sum.split)

lemma run_events_plain:
  "\<forall>ev \<in> set evs. fresh ev \<Longrightarrow>
    \<exists>cmp'. run_all (run_event [] fetch cur) (map (\<lambda>ev. (ev, cur)) evs) (cmp, plan, w) =
      (cmp', plan, snd (run_handlers fetch plan evs w))
    \<and> completed cmp' = completed cmp @ map result_of (fst (run_handlers fetch plan evs w))"
proof (induction evs arbitrary: cmp w)
  case (Cons ev evs)
  let ?r = "result_of (ev_name ev, outcome (fetch (ev_type ev)) ev plan w)"
  from Cons.IH [of "update ?r cmp" "world_after (fetch (ev_type ev)) ev plan w"] Cons.prems
  show ?case
    by (auto simp: run_all_def run_event_plain update_counter split: prod.split)
qed (simp add: run_all_def)

lemma rethrow_exn:
  "(case rethrow ks (ExAny e) of Some e' \<Rightarrow> Some e' | None \<Rightarrow> Some (UserEx unknown n reason)) =
    Some (reported ks unknown reason n e)"
proof (induction ks)
  case Nil
  then show ?case by (cases e) auto
next
  case (Cons k ks)
  then show ?case by (cases e) (auto simp: extract_and_throw_exception_def split: option.splits)
qed

lemma check_results_outcomes:
  "check_results ks unknown reason (map result_of os) = first_failure ks unknown reason os"
proof (induction os)
  case (Cons p os)
  obtain n x where p: "p = (n, x)" by (cases p)
  show ?case
    using Cons by (cases x)
      (simp_all add: p result_of_def check_result_def error_result_def value_result_def rethrow_exn)
qed simp

definition patient_env :: "('p, 'd, 'w) launch_env \<Rightarrow> bool" where
  "patient_env env \<longleftrightarrow> fifo (le_enqueue env) \<and> patient (le_countdown env)
     \<and> (\<forall>d. d \<noteq> 0 \<longrightarrow> 0 < le_duration env d)"

lemma wait_plain:
  assumes "patient_env env" "lm_delay lm \<noteq> 0" "lm_interceptors env lm = []"
    and "lm_queue lm = map (\<lambda>ev. (ev, cur)) evs" "\<forall>ev \<in> set evs. fresh ev"
  shows "\<exists>cmp'. wait_on_completion env cur (lm, cmp) =
      (None, lm\<lparr>lm_queue := [], lm_world := snd (run_handlers (lm_fetch env lm) (lm_plan lm) evs (lm_world lm))\<rparr>, cmp')
    \<and> completed cmp' = completed cmp @ map result_of (fst (run_handlers (lm_fetch env lm) (lm_plan lm) evs (lm_world lm)))"
proof -
  let ?cd = "\<lambda>(_, _, w) (_, _, w'). le_countdown env w w'"
  let ?run = "run_event (lm_interceptors env lm) (lm_fetch env lm) cur"
  have "patient ?cd" using assms(1) by (auto simp: patient_env_def patient_def)
  moreover have "fst (?run e s) = None" if "e \<in> set (lm_queue lm)" for e s
    using that assms(3-5) by (cases s) (auto simp: run_event_plain)
  moreover have "Some (le_duration env (lm_delay lm)) \<noteq> Some 0"
    using assms(1,2) by (simp add: patient_env_def)
  ultimately have "single_threaded_wait ?cd ?run (Some (le_duration env (lm_delay lm))) (lm_queue lm) (cmp, lm_plan lm, lm_world lm)
      = (Inr True, [], run_all ?run (lm_queue lm) (cmp, lm_plan lm, lm_world lm))"
    by (intro wait_runs_all)
  moreover obtain cmp' where "run_all ?run (lm_queue lm) (cmp, lm_plan lm, lm_world lm) =
      (cmp', lm_plan lm, snd (run_handlers (lm_fetch env lm) (lm_plan lm) evs (lm_world lm)))"
    and "completed cmp' = completed cmp @ map result_of (fst (run_handlers (lm_fetch env lm) (lm_plan lm) evs (lm_world lm)))"
    using run_events_plain [OF assms(5), of "lm_fetch env lm" cur cmp "lm_plan lm" "lm_world lm"] assms(3,4) by auto
  ultimately show ?thesis by (auto simp: wait_on_completion_def)
qed

text \<open>What the phases need of the manager: time, an empty queue, and indices that the plan has.\<close>

definition table_ok :: "'d plan \<Rightarrow> (string, nat list) smap \<Rightarrow> bool" where
  "table_ok plan table \<longleftrightarrow> map_ok table \<and> (\<forall>ty. \<forall>i \<in> set (map_at [] table ty). i < length (pl_instance plan))"

definition ready :: "('p, 'd, 'w) launch_env \<Rightarrow> ('p, 'd, 'w) locality \<Rightarrow> bool" where
  "ready env lm \<longleftrightarrow> patient_env env \<and> lm_delay lm \<noteq> 0 \<and> lm_interceptors env lm = []
     \<and> lm_queue lm = [] \<and> table_ok (lm_plan lm) (lm_handlers lm)"

lemma plugins_frame [simp]:
  "lm_interceptors env (lm\<lparr>lm_handlers := h\<rparr>) = lm_interceptors env lm"
  "lm_interceptors env (lm\<lparr>lm_queue := q\<rparr>) = lm_interceptors env lm"
  "lm_interceptors env (lm\<lparr>lm_world := w\<rparr>) = lm_interceptors env lm"
  "lm_interceptors env (lm\<lparr>lm_serial := n\<rparr>) = lm_interceptors env lm"
  "lm_interceptors env (lm\<lparr>lm_order := ord\<rparr>) = lm_interceptors env lm"
  "lm_fetch env (lm\<lparr>lm_handlers := h\<rparr>) = lm_fetch env lm"
  "lm_fetch env (lm\<lparr>lm_queue := q\<rparr>) = lm_fetch env lm"
  "lm_fetch env (lm\<lparr>lm_world := w\<rparr>) = lm_fetch env lm"
  "lm_fetch env (lm\<lparr>lm_serial := n\<rparr>) = lm_fetch env lm"
  "lm_fetch env (lm\<lparr>lm_order := ord\<rparr>) = lm_fetch env lm"
  by (simp_all add: lm_interceptors_def lm_fetch_def fun_eq_iff)

lemma map_ok_inserts: "map_ok m \<Longrightarrow> map_ok (fold (\<lambda>k. map_insert k d) ks m)"
  by (induction ks arbitrary: m) (simp_all add: map_ok_insert)

lemma table_ok_inserts: "table_ok plan m \<Longrightarrow> table_ok plan (fold (\<lambda>k. map_insert k []) ks m)"
  by (simp add: table_ok_def map_ok_inserts map_at_inserts)

lemma fresh_events: "\<forall>ev \<in> set (type_events a plan table tys). fresh ev"
  by (auto simp: type_events_def mk_event_def fresh_def)

text \<open>What a phase over instance types does, as the specification says it.\<close>

definition phase_outcomes ::
  "('p, 'd, 'w) launch_env \<Rightarrow> action \<Rightarrow> string list \<Rightarrow> ('p, 'd, 'w) locality \<Rightarrow>
    (string \<times> (exn + 'd any)) list \<times> 'w" where
  "phase_outcomes env a tys lm =
     run_handlers (lm_fetch env lm) (lm_plan lm) (type_events a (lm_plan lm) (lm_handlers lm) tys) (lm_world lm)"

lemma types_phase:
  assumes "ready env lm" "\<not> on_connection a" "completed cmp = []"
  shows "\<exists>cmp'. finish_phase env cur ks unknown reason (dispatch_types env cur a tys (lm, cmp)) =
    ((case first_failure ks unknown reason (fst (phase_outcomes env a tys lm)) of
        Some e \<Rightarrow> Inl (Raised e)
      | None \<Rightarrow> Inr (map result_of (fst (phase_outcomes env a tys lm)))),
     lm\<lparr>lm_handlers := fold (\<lambda>ty. map_insert ty []) tys (lm_handlers lm), lm_queue := [],
       lm_world := snd (phase_outcomes env a tys lm)\<rparr>, cmp') \<and> completed cmp' = []"
proof -
  let ?evs = "type_events a (lm_plan lm) (lm_handlers lm) tys"
  let ?lm = "lm\<lparr>lm_handlers := fold (\<lambda>ty. map_insert ty []) tys (lm_handlers lm), lm_queue := map (\<lambda>ev. (ev, cur)) ?evs\<rparr>"
  obtain cmp1 where d: "dispatch_types env cur a tys (lm, cmp) = (True, ?lm, cmp1)" and c1: "completed cmp1 = []"
    using dispatch_types_ok [of env a lm tys cmp cur] assms
    by (auto simp: ready_def patient_env_def table_ok_def)
  obtain cmp2 where w: "wait_on_completion env cur (?lm, cmp1) =
      (None, ?lm\<lparr>lm_queue := [], lm_world := snd (phase_outcomes env a tys lm)\<rparr>, cmp2)"
    and c2: "completed cmp2 = map result_of (fst (phase_outcomes env a tys lm))"
    using wait_plain [of env ?lm cur ?evs cmp1] assms(1) c1
      fresh_events [of a "lm_plan lm" "lm_handlers lm" tys]
    by (auto simp: ready_def phase_outcomes_def)
  show ?thesis
    by (auto simp: finish_phase_def d w c2 completed_events_def check_results_outcomes split: option.split)
qed

lemma types_phase_result:
  fixes lm :: "('p, 'd, 'w) locality"
  assumes "ready env lm" "\<not> on_connection a"
    and res: "res = ignore_value (finish_phase env (lm_serial lm) ks unknown reason
    (dispatch_types env (lm_serial lm) a tys (start_phase lm)))"
  shows "case phase_outcomes env a tys lm of (os, w) \<Rightarrow>
    fst res = (case first_failure ks unknown reason os of Some e \<Rightarrow> Inl (Raised e) | None \<Rightarrow> Inr ())
    \<and> lm_world (snd res) = w \<and> ready env (snd res)"
proof -
  let ?lm = "lm\<lparr>lm_serial := lm_serial lm + 1\<rparr>"
  have "ready env ?lm" "phase_outcomes env a tys ?lm = phase_outcomes env a tys lm"
    using assms(1) by (simp_all add: ready_def phase_outcomes_def)
  with types_phase [OF this(1) assms(2), of new_completion "lm_serial lm" ks unknown reason tys]
  show ?thesis
    using assms(1)
    by (auto simp: res start_phase_def ignore_value_def ready_def table_ok_inserts new_completion_def
        split: option.split prod.split)
qed

section \<open>The table of instances\<close>

lemma table_instances_ok:
  "map_ok table \<Longrightarrow> table_instances plan is table = (ok, table') \<Longrightarrow>
    map_ok table' \<and> (ok \<longleftrightarrow> (\<forall>i \<in> set is. instance_type_of plan i \<noteq> None))
    \<and> (ok \<longrightarrow> map_at [] table' ty = map_at [] table ty @ filter (\<lambda>i. instance_type_of plan i = Some ty) is)"
proof (induction "is" arbitrary: table)
  case (Cons i "is")
  show ?case
  proof (cases "instance_type_of plan i")
    case (Some t)
    let ?t = "map_modify [] (\<lambda>l. l @ [i]) t table"
    have "map_at [] ?t ty = map_at [] table ty @ (if t = ty then [i] else [])"
      using Cons.prems(1) by (auto simp: map_at_def [of _ _ ty] map_get_modify)
    with Cons Some show ?thesis
      using Cons.IH [of ?t] by (auto simp: map_ok_modify)
  qed (use Cons.prems in auto)
qed auto

lemma preparePlan_table:
  assumes "map_ok (lm_handlers lm)" "preparePlan env plan lm = (Inr (), lm')"
  shows "map_ok (lm_handlers lm') \<and> map_at [] (lm_handlers lm') ty = map_at [] (lm_handlers lm) ty
      @ filter (\<lambda>i. instance_type_of (lm_plan lm') i = Some ty) [0..<length (pl_instance (lm_plan lm'))]
    \<and> (\<forall>i < length (pl_instance (lm_plan lm')). instance_type_of (lm_plan lm') i \<noteq> None)
    \<and> lm_plugins lm' = lm_plugins lm"
  using assms table_instances_ok [OF assms(1)]
  by (auto simp: preparePlan_def split: prod.splits option.splits if_splits) fastforce+

definition visits :: "('p, 'd, 'w) locality \<Rightarrow> string list \<Rightarrow> nat list" where
  "visits lm order = concat (map (map_at [] (lm_handlers lm)) order)"

lemma distinct_visits:
  assumes "distinct order" "\<And>ty. map_at [] (lm_handlers lm) ty = filter (\<lambda>i. t i = Some ty) [0..<n]"
  shows "distinct (visits lm order) \<and> set (visits lm order) = {i. i < n \<and> t i \<in> Some ` set order}"
  using assms by (induction order) (auto simp: visits_def)

section \<open>Properties\<close>

text \<open>
  Preparing a plan enters each of its instances once, in the order of the plan, in the list of the
  type its implementation gives it, after what the list held.
\<close>

theorem prepared_plan_table:
  assumes "map_ok (lm_handlers lm)" "preparePlan env plan lm = (Inr (), lm')"
  shows "map_at [] (lm_handlers lm') ty = map_at [] (lm_handlers lm) ty
      @ filter (\<lambda>i. instance_type_of (lm_plan lm') i = Some ty) [0..<length (pl_instance (lm_plan lm'))]
    \<and> (\<forall>i < length (pl_instance (lm_plan lm')). instance_type_of (lm_plan lm') i \<noteq> None)"
  using preparePlan_table [OF assms] by blast


text \<open>
  C2. Installing refines the specification of a phase: without interceptors, and with time enough, the
  handlers install the instances type by type in the handler order, all of them whatever fails; the
  first failure is thrown as it is for the four kinds a handler is declared to raise, and as an unknown
  StartError otherwise; nothing stays in the queue.
\<close>

theorem install_refines_phase:
  assumes "ready env lm"
  shows "case phase_outcomes env Install_Instance (lm_order lm) lm of (os, w) \<Rightarrow>
    fst (install_instances env lm) =
      (case first_failure [StartError, InvalidProperty, InvalidNodeExecParameter, InvalidComponentExecParameter]
          StartError ''Unknown exception'' os of
         Some e \<Rightarrow> Inl (Raised e) | None \<Rightarrow> Inr ())
    \<and> lm_world (snd (install_instances env lm)) = w \<and> ready env (snd (install_instances env lm))"
  unfolding install_instances_def by (rule types_phase_result [OF assms _ refl]) (simp add: on_connection_def)

text \<open>
  Stopping refines the same specification on the handler types in reverse: dependent types are
  passivated before the ones they depend on, the instances of one type in the order of installation.
\<close>

theorem stop_refines_phase:
  assumes "ready env lm"
  shows "case phase_outcomes env Passivate_Instance (rev (lm_order lm)) lm of (os, w) \<Rightarrow>
    fst (lm_stop env lm) =
      (case first_failure [StopError] StopError ''Unknown exception'' os of
         Some e \<Rightarrow> Inl (Raised e) | None \<Rightarrow> Inr ())
    \<and> lm_world (snd (lm_stop env lm)) = w \<and> ready env (snd (lm_stop env lm))"
  unfolding lm_stop_def by (rule types_phase_result [OF assms _ refl]) (simp add: on_connection_def)

definition demo_plan :: "int plan" where
  "demo_plan = new_plan\<lparr>
     pl_implementation := [new_mdd\<lparr>md_execParameter := [mk_prop IMPL_TYPE (PrimAny (VString ''T''))]\<rparr>],
     pl_instance := [new_idd\<lparr>id_name := ''i''\<rparr>, new_idd\<lparr>id_name := ''j''\<rparr>]\<rparr>"

definition demo_manager :: "nat list \<Rightarrow> (nat, int) manager" where
  "demo_manager ds = new_manager\<lparr>handler_map := [(''T'', 1)], ih_dep := [(''T'', {})], interceptors := ds\<rparr>"

definition demo_env :: "(nat \<Rightarrow> nat) \<Rightarrow> (int, nat) handler \<Rightarrow> (nat, int, nat) launch_env" where
  "demo_env cd h = \<lparr>le_enqueue = \<lambda>e q. Some (q @ [e]), le_countdown = \<lambda>_ _. cd,
     le_duration = \<lambda>d. if d = 0 then 0 else 1, as_handler = \<lambda>_. h,
     as_interceptor = \<lambda>_. standard_error (\<lambda>_. None), le_configure = \<lambda>_ _ w. (None, w)\<rparr>"

definition counting_handler :: "(int, nat) handler" where
  "counting_handler c plan w = (None, ObjAny (Some w), w + 1)"

definition rejecting_handler :: "(int, nat) handler" where
  "rejecting_handler c plan w = (Some (UserEx InvalidComponentExecParameter ''i'' ''r''), NullAny, w)"

definition prepared :: "nat list \<Rightarrow> (nat \<Rightarrow> nat) \<Rightarrow> (int, nat) handler \<Rightarrow> (nat, int, nat) locality" where
  "prepared ds cd h = snd (preparePlan (demo_env cd h) demo_plan (new_locality (demo_manager ds) 0))"

definition demo_locality :: "(nat, int, nat) locality" where
  "demo_locality = (new_locality (demo_manager []) 0)
     \<lparr>lm_handlers := [(''T'', [0, 1])], lm_order := [''T''], lm_plan := demo_plan\<rparr>"

lemma demo_ready: "ready (demo_env id h) demo_locality"
  by (auto simp: ready_def patient_env_def patient_def fifo_def demo_env_def demo_locality_def new_locality_def
      lm_interceptors_def fetch_interceptors_def demo_manager_def new_manager_def table_ok_def map_ok_def
      map_at_def map_get_def demo_plan_def)

theorem prepared_plan_table_witness:
  "map_at [] (lm_handlers (prepared [] id counting_handler)) ''T'' = [] @ [0, 1]"
proof -
  have "preparePlan (demo_env id counting_handler) demo_plan (new_locality (demo_manager []) 0)
      = (Inr (), prepared [] id counting_handler)"
    unfolding prepared_def by (rule prod_eqI; code_simp)
  from prepared_plan_table [OF _ this, of "''T''"]
  have "map_at [] (lm_handlers (prepared [] id counting_handler)) ''T'' =
      filter (\<lambda>i. instance_type_of (lm_plan (prepared [] id counting_handler)) i = Some ''T'')
        [0..<length (pl_instance (lm_plan (prepared [] id counting_handler)))]"
    by (simp add: new_locality_def map_at_def)
  also have "\<dots> = [0, 1]" by code_simp
  finally show ?thesis by simp
qed


theorem install_refines_phase_witness:
  "fst (install_instances (demo_env id rejecting_handler) demo_locality) =
    Inl (Raised (UserEx InvalidComponentExecParameter ''i'' ''r''))"
proof -
  have "phase_outcomes (demo_env id rejecting_handler) Install_Instance (lm_order demo_locality) demo_locality =
      ([(''i'', Inl (UserEx InvalidComponentExecParameter ''i'' ''r'')),
        (''j'', Inl (UserEx InvalidComponentExecParameter ''i'' ''r''))], 0)"
    by code_simp
  with install_refines_phase [OF demo_ready, of rejecting_handler] show ?thesis by simp
qed

theorem stop_refines_phase_witness:
  "lm_world (snd (lm_stop (demo_env id counting_handler) demo_locality)) = 2"
proof -
  have "snd (phase_outcomes (demo_env id counting_handler) Passivate_Instance (rev (lm_order demo_locality))
      demo_locality) = 2"
    by code_simp
  with stop_refines_phase [OF demo_ready, of counting_handler] show ?thesis
    by (auto split: prod.splits)
qed

text \<open>
  When the time of the installation phase runs out, the events it leaves in the queue run in the next
  phase and notify a completion that no longer exists: with two instances and a countdown at zero after
  the first, the launch ends in undefined behaviour.
\<close>

theorem timed_out_launch_undefined:
  "fst (startLaunch (demo_env (\<lambda>_. 0) counting_handler) [] (prepared [] (\<lambda>_. 0) counting_handler)) = Inl Undefined"
  by code_simp

text \<open>
  With the Standard_Error interceptor, an InvalidComponentExecParameter that a handler raises for an
  instance is thrown by the launch as an unknown StartError, although the phase knows the kind.
\<close>

theorem standard_error_loses_parameter_error:
  "fst (startLaunch (demo_env id rejecting_handler) [] (prepared [0] id rejecting_handler)) =
    Inl (Raised (UserEx StartError ''i'' ''Unknown exception''))
  \<and> fst (startLaunch (demo_env id rejecting_handler) [] (prepared [] id rejecting_handler)) =
    Inl (Raised (UserEx InvalidComponentExecParameter ''i'' ''r''))"
  by code_simp

lemma connection_map_fold:
  "map_ok m \<Longrightarrow> map_ok (fold (\<lambda>(i, c). map_put (cn_name c) i) ics m) \<and>
    (map_get (fold (\<lambda>(i, c). map_put (cn_name c) i) ics m) n = Some i \<longrightarrow>
      map_get m n = Some i \<or> (\<exists>c. (i, c) \<in> set ics \<and> cn_name c = n))"
proof (induction ics arbitrary: m)
  case (Cons ic ics)
  obtain j c where ic: "ic = (j, c)" by (cases ic)
  show ?case
    using Cons.IH [of "map_put (cn_name c) j m"] Cons.prems
    by (auto simp: ic smap.ok_put smap.get_put split: if_splits)
qed simp



end
