(* ===== verification/Async_Round.thy ===== *)
theory Async_Round
  imports Locality "HOL-Library.Multiset"
begin

text \<open>
  Rounds of asynchronous requests, which every operation of dancex11/domain_deployment_handler makes: a
  request to each object of a list, a wait for all replies with
  scheduler/deployment_orb_wait_strategy.cpp, and the results in the order the replies came in.

  The ORB is the environment: whether a request can be sent, and which of the outstanding replies comes
  next. What a remote object does takes effect when its reply arrives. A reply whose completion was
  destroyed in the meantime notifies an object that is gone; the number of such replies that are still
  to come is part of the state.

  What happens inside this process, activating reply handlers and narrowing references, is taken to
  succeed.
\<close>

record 'w orb =
  ob_orphans :: nat
  ob_world :: 'w

record ('r, 'w) request =
  aq_target :: nat
  aq_serve :: "'w \<Rightarrow> 'r \<times> 'w"
  aq_fail :: "exn \<Rightarrow> 'r"

record 'w orb_env =
  oe_send :: "nat \<Rightarrow> 'w \<Rightarrow> exn option"
  oe_pick :: "nat \<Rightarrow> 'w \<Rightarrow> nat"
  oe_show :: "exn \<Rightarrow> string"

section \<open>Sending\<close>

text \<open>
  The future of a request is accepted before the request is sent, and set at once when that fails. An
  item that is no request is an exception on the way to it, which leaves the loop.
\<close>

fun send_all ::
  "'w orb_env \<Rightarrow> 'w \<Rightarrow> (exn + ('r, 'w) request) list \<Rightarrow> 'r completion \<Rightarrow> ('r, 'w) request list \<Rightarrow>
    exn option \<times> 'r completion \<times> ('r, 'w) request list" where
  "send_all env w [] cmp out = (None, cmp, out)"
| "send_all env w (Inl e # qs) cmp out = (Some e, cmp, out)"
| "send_all env w (Inr q # qs) cmp out =
     (case oe_send env (aq_target q) w of
        None \<Rightarrow> send_all env w qs (accept None cmp) (out @ [q])
      | Some e \<Rightarrow> send_all env w qs (update (aq_fail q e) (accept None cmp)) out)"

section \<open>Waiting, single_threaded_wait_on_completion without a timeout\<close>

definition without :: "nat \<Rightarrow> 'a list \<Rightarrow> 'a list" where
  "without i xs = take i xs @ drop (Suc i) xs"

lemma length_without [simp]: "i < length xs \<Longrightarrow> length (without i xs) = length xs - 1"
  by (simp add: without_def)

lemma mset_without: "i < length xs \<Longrightarrow> add_mset (xs ! i) (mset (without i xs)) = mset xs"
  by (metis id_take_nth_drop mset.simps(2) mset_append union_mset_add_mset_right without_def)

text \<open>
  perform_work delivers one reply. With no reply outstanding and the completion still counting it waits
  for ever.
\<close>

function orb_wait ::
  "'w orb_env \<Rightarrow> 'r completion \<Rightarrow> ('r, 'w) request list \<Rightarrow> 'w orb \<Rightarrow> (failure + 'r completion) \<times> 'w orb" where
  "orb_wait env cmp out ob =
     (if all_completed cmp then (Inr cmp, ob\<lparr>ob_orphans := ob_orphans ob + length out\<rparr>)
      else let n = length out + ob_orphans ob
        in if n = 0 then (Inl Hangs, ob)
           else let i = oe_pick env n (ob_world ob) mod n
             in if i < length out then
                  (case aq_serve (out ! i) (ob_world ob) of
                     (r, w) \<Rightarrow> orb_wait env (update r cmp) (without i out) (ob\<lparr>ob_world := w\<rparr>))
                else (Inl Undefined, ob))"
  by pat_completeness auto
termination
  by (relation "measure (\<lambda>(_, _, out, _). length out)") auto

declare orb_wait.simps [simp del]

definition async_round ::
  "'w orb_env \<Rightarrow> (exn + ('r, 'w) request) list \<Rightarrow> 'w orb \<Rightarrow> (failure + 'r list) \<times> 'w orb" where
  "async_round env items ob =
     (case send_all env (ob_world ob) items new_completion [] of
        (Some e, cmp, out) \<Rightarrow> (Inl (Raised e), ob\<lparr>ob_orphans := ob_orphans ob + length out\<rparr>)
      | (None, cmp, out) \<Rightarrow>
          (case orb_wait env cmp out ob of
             (Inl f, ob') \<Rightarrow> (Inl f, ob')
           | (Inr cmp', ob') \<Rightarrow> (Inr (fst (completed_events cmp')), ob')))"

text \<open>The errs of a round, one to a line after a heading.\<close>

definition error_text :: "string \<Rightarrow> string list \<Rightarrow> string" where
  "error_text heading errs = heading @ concat (map (\<lambda>e. e @ [newline]) errs)"

section \<open>What a round promises\<close>

text \<open>The requests that were sent, and what became of the others.\<close>

definition sent :: "'w orb_env \<Rightarrow> 'w \<Rightarrow> ('r, 'w) request list \<Rightarrow> ('r, 'w) request list" where
  "sent env w qs = filter (\<lambda>q. oe_send env (aq_target q) w = None) qs"

definition unsent :: "'w orb_env \<Rightarrow> 'w \<Rightarrow> ('r, 'w) request list \<Rightarrow> 'r list" where
  "unsent env w qs =
     concat (map (\<lambda>q. case oe_send env (aq_target q) w of None \<Rightarrow> [] | Some e \<Rightarrow> [aq_fail q e]) qs)"

lemma length_sent: "length (unsent env w qs) + length (sent env w qs) = length qs"
  by (induction qs) (auto simp: unsent_def sent_def split: option.splits)

text \<open>The results of requests served one after the other.\<close>

fun serve_in_order :: "('r, 'w) request list \<Rightarrow> 'w \<Rightarrow> 'r list \<times> 'w" where
  "serve_in_order [] w = ([], w)"
| "serve_in_order (q # qs) w =
     (case aq_serve q w of (r, w') \<Rightarrow> (case serve_in_order qs w' of (rs, w'') \<Rightarrow> (r # rs, w'')))"

lemma send_all_requests:
  "\<exists>cmp'. send_all env w (map Inr qs) cmp out = (None, cmp', out @ sent env w qs)
    \<and> exec_count cmp' = exec_count cmp + of_nat (length (sent env w qs))
    \<and> completed cmp' = completed cmp @ unsent env w qs"
proof (induction qs arbitrary: cmp out)
  case (Cons q qs)
  show ?case
  proof (cases "oe_send env (aq_target q) w")
    case None
    with Cons [of "accept None cmp" "out @ [q]"] show ?thesis
      by (simp add: sent_def unsent_def add.assoc [symmetric])
  next
    case (Some e)
    with Cons [of "update (aq_fail q e) (accept None cmp)" out] show ?thesis
      by (simp add: sent_def unsent_def update_counter)
  qed
qed (auto simp: sent_def unsent_def)

text \<open>An item that is no request ends the loop after the requests before it.\<close>

lemma send_all_stops:
  "\<exists>cmp'. send_all env w (map Inr qs @ Inl e # items) cmp out = (Some e, cmp', out @ sent env w qs)"
proof (induction qs arbitrary: cmp out)
  case (Cons q qs)
  show ?case
    using Cons [of "accept None cmp" "out @ [q]"] Cons [of "update _ (accept None cmp)" out]
    by (cases "oe_send env (aq_target q) w") (simp_all add: sent_def)
qed (simp add: sent_def)

lemma async_round_stops:
  "async_round env (map Inr qs @ Inl e # items) ob =
    (Inl (Raised e), ob\<lparr>ob_orphans := ob_orphans ob + length (sent env (ob_world ob) qs)\<rparr>)"
  using send_all_stops [of env "ob_world ob" qs e items new_completion "[]"] by (auto simp: async_round_def)

lemma all_completed_count:
  assumes "n < 2 ^ 32" "exec_count cmp = of_nat n"
  shows "all_completed cmp \<longleftrightarrow> n = 0"
proof -
  have "unat (exec_count cmp) = n" using assms by (simp add: unat_of_nat take_bit_nat_eq_self)
  then show ?thesis by (metis all_completed_def unat_eq_0)
qed

lemma orb_wait_serves:
  "exec_count cmp = of_nat (length out) \<Longrightarrow> length out < 2 ^ 32 \<Longrightarrow> ob_orphans ob = 0 \<Longrightarrow>
    \<exists>order cmp'. mset order = mset out \<and> completed cmp' = completed cmp @ fst (serve_in_order order (ob_world ob))
      \<and> orb_wait env cmp out ob = (Inr cmp', ob\<lparr>ob_world := snd (serve_in_order order (ob_world ob))\<rparr>)"
proof (induction "length out" arbitrary: cmp out ob)
  case 0
  then have "orb_wait env cmp out ob = (Inr cmp, ob)"
    by (simp add: orb_wait.simps all_completed_def)
  with 0 show ?case by (intro exI [of _ "[]"] exI [of _ cmp]) simp
next
  case (Suc n)
  let ?i = "oe_pick env (length out) (ob_world ob) mod length out"
  obtain r w where rw: "aq_serve (out ! ?i) (ob_world ob) = (r, w)" by force
  have i: "?i < length out" by (rule mod_less_divisor) (use Suc.hyps(2) in linarith)
  let ?out = "without ?i out" and ?ob = "ob\<lparr>ob_world := w\<rparr>"
  have n: "n = length ?out" using Suc.hyps(2) i by simp
  have count: "exec_count (update r cmp) = of_nat (length ?out)"
    by (simp add: update_counter Suc.prems(1) flip: n Suc.hyps(2))
  have small: "length ?out < 2 ^ 32" using Suc.prems(2) n Suc.hyps(2) by linarith
  have "ob_orphans ?ob = 0" using Suc.prems(3) by simp
  from Suc.hyps(1) [OF n count small this] obtain order cmp' where
    o: "mset order = mset ?out" "completed cmp' = completed (update r cmp) @ fst (serve_in_order order w)"
      "orb_wait env (update r cmp) ?out ?ob = (Inr cmp', ?ob\<lparr>ob_world := snd (serve_in_order order w)\<rparr>)"
    by auto
  have "\<not> all_completed cmp"
    using all_completed_count [OF Suc.prems(2,1)] Suc.hyps(2) by linarith
  then have "orb_wait env cmp out ob = orb_wait env (update r cmp) ?out ?ob"
    using Suc.prems(3) i rw by (subst orb_wait.simps) (auto simp: Let_def)
  moreover have "mset (out ! ?i # order) = mset out" using mset_without [OF i] o(1) by simp
  ultimately show ?case
    using o(2,3) rw by (intro exI [of _ "out ! ?i # order"] exI [of _ cmp']) (simp add: update_counter split: prod.split)
qed

lemma async_round_requests:
  assumes "length qs < 2 ^ 32" "ob_orphans ob = 0"
  shows "\<exists>order. mset order = mset (sent env (ob_world ob) qs)
    \<and> async_round env (map Inr qs) ob =
      (Inr (unsent env (ob_world ob) qs @ fst (serve_in_order order (ob_world ob))),
       ob\<lparr>ob_world := snd (serve_in_order order (ob_world ob))\<rparr>)"
proof -
  let ?w = "ob_world ob" and ?out = "sent env (ob_world ob) qs"
  obtain cmp where s: "send_all env ?w (map Inr qs) new_completion [] = (None, cmp, ?out)"
    "exec_count cmp = of_nat (length ?out)" "completed cmp = unsent env ?w qs"
    using send_all_requests [of env ?w qs new_completion "[]"] by (auto simp: new_completion_def)
  have "length ?out < 2 ^ 32"
    unfolding sent_def by (rule le_less_trans [OF length_filter_le assms(1)])
  from orb_wait_serves [OF s(2) this assms(2), of env] s show ?thesis
    by (auto simp: async_round_def completed_events_def)
qed

lemma serve_in_order_all2:
  assumes "\<And>q w. q \<in> set qs \<Longrightarrow> P q (fst (aq_serve q w))"
  shows "list_all2 P qs (fst (serve_in_order qs w))"
  using assms
proof (induction qs arbitrary: w)
  case (Cons q qs)
  show ?case
    using Cons.IH [of "snd (aq_serve q w)"] Cons.prems
    by (auto split: prod.splits) (metis fst_conv)
qed simp

section \<open>Properties\<close>

text \<open>
  C29. A round ends whatever order the replies come in: each request that could be sent is served exactly
  once, the others report that they were not sent, and no reply is left over.
\<close>

theorem round_serves_every_request:
  assumes "length qs < 2 ^ 32" "ob_orphans ob = 0"
  shows "\<exists>order. mset order = mset (sent env (ob_world ob) qs)
    \<and> async_round env (map Inr qs) ob =
      (Inr (unsent env (ob_world ob) qs @ fst (serve_in_order order (ob_world ob))),
       ob\<lparr>ob_world := snd (serve_in_order order (ob_world ob))\<rparr>)"
  by (rule async_round_requests [OF assms])

definition counting_request :: "nat \<Rightarrow> (nat \<times> nat, nat) request" where
  "counting_request i = \<lparr>aq_target = i, aq_serve = (\<lambda>w. ((i, w), w + 1)), aq_fail = (\<lambda>_. (i, 0))\<rparr>"

definition last_first :: "nat orb_env" where
  "last_first = \<lparr>oe_send = (\<lambda>i w. if i = 2 then Some ForeignEx else None), oe_pick = (\<lambda>n w. n - 1),
     oe_show = (\<lambda>_. [])\<rparr>"

theorem round_serves_every_request_witness:
  "\<exists>order. mset order = {#counting_request 1, counting_request 3#}
    \<and> async_round last_first (map Inr [counting_request 1, counting_request 2, counting_request 3])
        \<lparr>ob_orphans = 0, ob_world = 0\<rparr> =
      (Inr ((2, 0) # fst (serve_in_order order 0)), \<lparr>ob_orphans = 0, ob_world = snd (serve_in_order order 0)\<rparr>)"
  using round_serves_every_request [of "[counting_request 1, counting_request 2, counting_request 3]"
      "\<lparr>ob_orphans = 0, ob_world = 0\<rparr>" last_first]
  by (simp add: sent_def unsent_def last_first_def counting_request_def)

end
