(* ===== verification/Domain_Application.thy ===== *)
theory Domain_Application
  imports Async_Round
begin

text \<open>
  The application of a domain, domain_deployment_handler/dancex11_ddh_application_impl.cpp: it launches,
  configures, starts, stops and destroys the applications of all nodes, each operation one round of
  asynchronous requests. The results of the nodes and the texts of their errors come from the reply
  handlers.

  References to application managers, applications and node managers are not nil; two references are
  equivalent when they are equal.
\<close>

record ('d, 'w) domain_env = "'w orb_env" +
  de_prepare :: "nat \<Rightarrow> 'd plan \<Rightarrow> 'w \<Rightarrow> (exn + nat option) \<times> 'w"
  de_destroy_manager :: "nat \<Rightarrow> nat \<Rightarrow> 'w \<Rightarrow> exn option \<times> 'w"
  de_launch :: "nat \<Rightarrow> 'd properties \<Rightarrow> 'w \<Rightarrow> (exn + nat option \<times> reference list) \<times> 'w"
  de_destroy_app :: "nat \<Rightarrow> nat \<Rightarrow> 'w \<Rightarrow> exn option \<times> 'w"
  de_finish :: "nat \<Rightarrow> reference list \<Rightarrow> bool \<Rightarrow> 'w \<Rightarrow> exn option \<times> 'w"
  de_start :: "nat \<Rightarrow> 'w \<Rightarrow> exn option \<times> 'w"
  de_stop :: "nat \<Rightarrow> 'w \<Rightarrow> exn option \<times> 'w"

abbreviation orb_of :: "('d, 'w) domain_env \<Rightarrow> 'w orb_env" where
  "orb_of env \<equiv> \<lparr>oe_send = oe_send env, oe_pick = oe_pick env, oe_show = oe_show env\<rparr>"

section \<open>Results and reply handlers\<close>

record nam_result =
  ar_nam :: "nat option"
  ar_node_id :: string
  ar_app :: "nat option"
  ar_provided :: "reference list"
  ar_error :: string

definition nam_error :: "string \<Rightarrow> nam_result" where
  "nam_error e = \<lparr>ar_nam = None, ar_node_id = [], ar_app = None, ar_provided = [], ar_error = e\<rparr>"

text \<open>The handlers for replies that are exceptions name the kinds the operation is declared to raise.\<close>

fun kind_name :: "user_kind \<Rightarrow> string" where
  "kind_name PlanError = ''PlanError''"
| "kind_name StartError = ''StartError''"
| "kind_name StopError = ''StopError''"
| "kind_name InvalidConnection = ''InvalidConnection''"
| "kind_name InvalidNodeExecParameter = ''InvalidNodeExecParameter''"
| "kind_name InvalidComponentExecParameter = ''InvalidComponentExecParameter''"
| "kind_name InvalidProperty = ''InvalidProperty''"

fun caught_kind :: "user_kind list \<Rightarrow> exn \<Rightarrow> user_kind option" where
  "caught_kind ks (UserEx k _ _) = (if k \<in> set ks then Some k else None)"
| "caught_kind ks _ = None"

definition executing_error ::
  "(exn \<Rightarrow> string) \<Rightarrow> user_kind list \<Rightarrow> string \<Rightarrow> string \<Rightarrow> string \<Rightarrow> exn \<Rightarrow> string" where
  "executing_error sh ks unknown operation node e =
     (case caught_kind ks e of
        Some k \<Rightarrow> kind_name k @ '' exception executing '' @ operation @ '' on node '' @ node @ '' : '' @ sh e
      | None \<Rightarrow>
          (if is_corba e then ''CORBA exception executing '' @ operation @ '' on node '' @ node @ '' : '' @ sh e
           else unknown @ '' exception executing '' @ operation @ '' on node '' @ node))"

text \<open>A request that could not be sent.\<close>

definition sending_error :: "(exn \<Rightarrow> string) \<Rightarrow> string \<Rightarrow> string \<Rightarrow> string \<Rightarrow> exn \<Rightarrow> string" where
  "sending_error sh corba unknown node e =
     (if is_corba e then node @ '' - CORBA exception '' @ corba @ '' : '' @ sh e
      else node @ '' - unknown '' @ unknown)"

definition launch_reply ::
  "(exn \<Rightarrow> string) \<Rightarrow> nat \<Rightarrow> string \<Rightarrow> exn + nat option \<times> reference list \<Rightarrow> nam_result" where
  "launch_reply sh nam node r =
     (case r of
        Inr (app, refs) \<Rightarrow> \<lparr>ar_nam = Some nam, ar_node_id = node, ar_app = app, ar_provided = refs, ar_error = []\<rparr>
      | Inl e \<Rightarrow> nam_error (executing_error sh [PlanError, StartError] ''caught a unknown C++'' ''startLaunch'' node e))"

definition destroy_reply :: "(exn \<Rightarrow> string) \<Rightarrow> nat \<Rightarrow> string \<Rightarrow> exn option \<Rightarrow> nam_result" where
  "destroy_reply sh nam node r =
     (case r of
        None \<Rightarrow> \<lparr>ar_nam = Some nam, ar_node_id = node, ar_app = None, ar_provided = [], ar_error = []\<rparr>
      | Some e \<Rightarrow> nam_error (executing_error sh [StopError] ''unknown'' ''destroyApplication'' node e))"

record na_result =
  nr_node_id :: string
  nr_failure :: string

definition na_reply ::
  "(exn \<Rightarrow> string) \<Rightarrow> user_kind list \<Rightarrow> string \<Rightarrow> string \<Rightarrow> exn option \<Rightarrow> na_result" where
  "na_reply sh ks operation node r =
     (case r of
        None \<Rightarrow> \<lparr>nr_node_id = node, nr_failure = []\<rparr>
      | Some e \<Rightarrow> \<lparr>nr_node_id = [], nr_failure = executing_error sh ks ''unknown'' operation node e\<rparr>)"

section \<open>The application\<close>

record domain_app =
  da_uuid :: string
  da_node_apps :: "(nat \<times> nat) list"
  da_app_ids :: "(nat \<times> string) list"
  da_nams :: "(nat \<times> nat) list"
  da_node_ids :: "(nat \<times> string) list"

definition new_domain_app :: "string \<Rightarrow> (nat \<times> nat) list \<Rightarrow> (nat \<times> string) list \<Rightarrow> domain_app" where
  "new_domain_app uuid nams ids =
     \<lparr>da_uuid = uuid, da_node_apps = [], da_app_ids = [], da_nams = nams, da_node_ids = ids\<rparr>"

definition findNodeTApp2Id :: "domain_app \<Rightarrow> nat \<Rightarrow> string" where
  "findNodeTApp2Id da app = (case map_of (da_app_ids da) app of Some n \<Rightarrow> n | None \<Rightarrow> [])"

text \<open>The loop of startLaunch goes on after a match, so the last one counts.\<close>

definition launch_node_id :: "domain_app \<Rightarrow> nat \<Rightarrow> string" where
  "launch_node_id da nm = fold (\<lambda>(m, n) acc. if m = nm then n else acc) (da_node_ids da) []"

fun collect_apps :: "nam_result list \<Rightarrow> domain_app \<Rightarrow> reference list \<Rightarrow> string list \<Rightarrow>
    domain_app \<times> reference list \<times> string list" where
  "collect_apps [] da out errs = (da, out, errs)"
| "collect_apps (r # rs) da out errs =
     (case ar_app r of
        Some app \<Rightarrow>
          collect_apps rs (da\<lparr>da_node_apps := da_node_apps da @ [(app, the (ar_nam r))],
            da_app_ids := da_app_ids da @ [(app, ar_node_id r)]\<rparr>) (out @ ar_provided r) errs
      | None \<Rightarrow> collect_apps rs da out (errs @ [ar_error r]))"

definition launch_requests ::
  "('d, 'w) domain_env \<Rightarrow> 'd properties \<Rightarrow> domain_app \<Rightarrow> (exn + (nam_result, 'w) request) list" where
  "launch_requests env props da =
     map (\<lambda>(nam, nm). let node = launch_node_id da nm in
       Inr \<lparr>aq_target = nam,
         aq_serve = (\<lambda>w. case de_launch env nam props w of (r, w') \<Rightarrow> (launch_reply (oe_show env) nam node r, w')),
         aq_fail = (\<lambda>e. nam_error (sending_error (oe_show env) ''starting startLaunch''
           ''C++ exception starting startLaunch'' node e))\<rparr>) (da_nams da)"

text \<open>
  An exception of the operation itself, the collected errors included, is caught and thrown again as a
  StartError or StopError of its own.
\<close>

definition rethrown :: "(exn \<Rightarrow> exn) \<Rightarrow> (exn \<Rightarrow> exn) \<Rightarrow> failure \<Rightarrow> failure" where
  "rethrown corba other f =
     (case f of Raised e \<Rightarrow> Raised (if is_corba e then corba e else other e) | _ \<Rightarrow> f)"

definition da_startLaunch ::
  "('d, 'w) domain_env \<Rightarrow> 'd properties \<Rightarrow> reference list \<Rightarrow> domain_app \<Rightarrow> 'w orb \<Rightarrow>
    (failure + reference list) \<times> domain_app \<times> 'w orb" where
  "da_startLaunch env props out da ob =
     (let wrap = rethrown
        (\<lambda>e. UserEx StartError (da_uuid da)
          (da_uuid da @ '' - CORBA exception handling startLaunch'' @ '' : '' @ oe_show env e))
        (\<lambda>_. UserEx StartError (da_uuid da) (da_uuid da @ '' - unknown exception handling startLaunch''))
      in case async_round (orb_of env) (launch_requests env props da) ob of
          (Inl f, ob') \<Rightarrow> (Inl (wrap f), da, ob')
        | (Inr results, ob') \<Rightarrow>
            (case collect_apps results da out [] of (da', out', errs) \<Rightarrow>
              (if errs \<noteq> [] then
                 (Inl (wrap (Raised (UserEx StartError (da_uuid da)
                    (error_text (''captured startLaunch errors:'' @ [newline]) errs)))), da', ob')
               else (Inr out', da', ob'))))"

text \<open>The rounds on the applications of the nodes.\<close>

definition app_requests ::
  "('d, 'w) domain_env \<Rightarrow> (nat \<Rightarrow> 'w \<Rightarrow> exn option \<times> 'w) \<Rightarrow> (string \<Rightarrow> exn option \<Rightarrow> na_result) \<Rightarrow>
    string \<Rightarrow> string \<Rightarrow> domain_app \<Rightarrow> (exn + (na_result, 'w) request) list" where
  "app_requests env call reply corba unknown da =
     map (\<lambda>(app, _). let node = findNodeTApp2Id da app in
       Inr \<lparr>aq_target = app,
         aq_serve = (\<lambda>w. case call app w of (r, w') \<Rightarrow> (reply node r, w')),
         aq_fail = (\<lambda>e. \<lparr>nr_node_id = [], nr_failure = sending_error (oe_show env) corba unknown node e\<rparr>)\<rparr>)
       (da_node_apps da)"

definition failures_of :: "na_result list \<Rightarrow> string list" where
  "failures_of rs = filter (\<lambda>e. e \<noteq> []) (map nr_failure rs)"

definition app_round ::
  "('d, 'w) domain_env \<Rightarrow> (exn + (na_result, 'w) request) list \<Rightarrow> (string list \<Rightarrow> exn) \<Rightarrow> 'w orb \<Rightarrow>
    (failure + unit) \<times> 'w orb" where
  "app_round env items captured ob =
     (case async_round (orb_of env) items ob of
        (Inl f, ob') \<Rightarrow> (Inl f, ob')
      | (Inr results, ob') \<Rightarrow>
          (if failures_of results \<noteq> [] then (Inl (Raised (captured (failures_of results))), ob')
           else (Inr (), ob')))"

text \<open>
  finishLaunch lets system exceptions and StartErrors out as they are; start and stop wrap all of them,
  the captured errors too.
\<close>

definition da_finishLaunch ::
  "('d, 'w) domain_env \<Rightarrow> reference list \<Rightarrow> bool \<Rightarrow> domain_app \<Rightarrow> 'w orb \<Rightarrow> (failure + unit) \<times> 'w orb" where
  "da_finishLaunch env provided start da ob =
     (case app_round env
        (app_requests env (\<lambda>app. de_finish env app provided start)
          (na_reply (oe_show env) [StartError, InvalidConnection] ''finishLaunch'')
          ''starting'' ''exception starting finishLaunch'' da)
        (\<lambda>errs. UserEx StartError (da_uuid da) (error_text ''Got the following finishLaunch errors: '' errs)) ob of
        (r, ob') \<Rightarrow>
          (map_sum (rethrown
             (\<lambda>e. if \<not> is_user e \<or> caught_kind [StartError] e \<noteq> None then e
                  else UserEx StartError ''DomainApplication_Impl'' (oe_show env e))
             (\<lambda>_. UserEx StartError ''DomainApplication_Impl'' ''Unknown C++ exception in finishLaunch'')) id r, ob'))"

definition da_start :: "('d, 'w) domain_env \<Rightarrow> domain_app \<Rightarrow> 'w orb \<Rightarrow> (failure + unit) \<times> 'w orb" where
  "da_start env da ob =
     (case app_round env
        (app_requests env (de_start env) (na_reply (oe_show env) [StartError] ''start'')
          ''starting'' ''exception starting'' da)
        (\<lambda>errs. UserEx StartError (da_uuid da) (error_text (''captured start errors:'' @ [newline]) errs)) ob of
        (r, ob') \<Rightarrow>
          (map_sum (rethrown (\<lambda>e. UserEx StartError ''DomainApplication_Impl'' (oe_show env e))
             (\<lambda>_. UserEx StartError (da_uuid da) ''unknown exception in start'')) id r, ob'))"

definition da_stop :: "('d, 'w) domain_env \<Rightarrow> domain_app \<Rightarrow> 'w orb \<Rightarrow> (failure + unit) \<times> 'w orb" where
  "da_stop env da ob =
     (case app_round env
        (app_requests env (de_stop env) (na_reply (oe_show env) [StopError] ''stop'')
          ''stopping'' ''exception stopping'' da)
        (\<lambda>errs. UserEx StopError (da_uuid da) (error_text (''captured stop errors:'' @ [newline]) errs)) ob of
        (r, ob') \<Rightarrow>
          (map_sum (rethrown (\<lambda>e. UserEx StopError ''DomainApplication_Impl'' (oe_show env e))
             (\<lambda>_. UserEx StopError (da_uuid da) ''unknown exception in stop'')) id r, ob'))"

text \<open>The requests go to the application managers, the texts are those of preparePlan.\<close>

definition destroy_requests ::
  "('d, 'w) domain_env \<Rightarrow> domain_app \<Rightarrow> (exn + (nam_result, 'w) request) list" where
  "destroy_requests env da =
     map (\<lambda>(app, nam). let node = findNodeTApp2Id da app in
       Inr \<lparr>aq_target = nam,
         aq_serve = (\<lambda>w. case de_destroy_app env nam app w of (r, w') \<Rightarrow> (destroy_reply (oe_show env) nam node r, w')),
         aq_fail = (\<lambda>e. nam_error (sending_error (oe_show env) ''starting preparePlan''
           ''exception starting preparePlan'' node e))\<rparr>) (da_node_apps da)"

definition da_destroyApplication ::
  "('d, 'w) domain_env \<Rightarrow> domain_app \<Rightarrow> 'w orb \<Rightarrow> (failure + unit) \<times> 'w orb" where
  "da_destroyApplication env da ob =
     (if da_node_apps da = [] then (Inr (), ob)
      else let wrap = rethrown
          (\<lambda>e. UserEx StopError (da_uuid da)
            (da_uuid da @ '' - CORBA exception handling destroyApplication'' @ '' : '' @ oe_show env e))
          (\<lambda>_. UserEx StopError (da_uuid da) (da_uuid da @ '' - unknown exception handling destroyApplication''))
        in case async_round (orb_of env) (destroy_requests env da) ob of
            (Inl f, ob') \<Rightarrow> (Inl (wrap f), ob')
          | (Inr results, ob') \<Rightarrow>
              (let errs = filter (\<lambda>e. e \<noteq> []) (map ar_error results)
               in if errs \<noteq> [] then
                    (Inl (wrap (Raised (UserEx StopError (da_uuid da)
                       (error_text (''captured destroyApplication errors:'' @ [newline]) errs)))), ob')
                  else (Inr (), ob')))"

section \<open>What a launch does\<close>

lemma collect_apps_result:
  "collect_apps rs da out errs = (da', out', errs') \<Longrightarrow>
    map snd (da_node_apps da') =
      map snd (da_node_apps da) @ map (\<lambda>r. the (ar_nam r)) (filter (\<lambda>r. ar_app r \<noteq> None) rs)
    \<and> errs' = errs @ map ar_error (filter (\<lambda>r. ar_app r = None) rs)
    \<and> out' = out @ concat (map ar_provided (filter (\<lambda>r. ar_app r \<noteq> None) rs))"
  by (induction rs da out errs rule: collect_apps.induct) (auto split: option.splits)

text \<open>The launch request of an application manager reports on that manager.\<close>

definition reports_on :: "(nam_result, 'w) request \<Rightarrow> nam_result \<Rightarrow> bool" where
  "reports_on q r \<longleftrightarrow> (ar_app r \<noteq> None \<longrightarrow> ar_nam r = Some (aq_target q))"

definition launch_requests_of ::
  "('d, 'w) domain_env \<Rightarrow> 'd properties \<Rightarrow> domain_app \<Rightarrow> (nam_result, 'w) request list" where
  "launch_requests_of env props da =
     map (\<lambda>(nam, nm). let node = launch_node_id da nm in
       \<lparr>aq_target = nam,
         aq_serve = (\<lambda>w. case de_launch env nam props w of (r, w') \<Rightarrow> (launch_reply (oe_show env) nam node r, w')),
         aq_fail = (\<lambda>e. nam_error (sending_error (oe_show env) ''starting startLaunch''
           ''C++ exception starting startLaunch'' node e))\<rparr>) (da_nams da)"

lemma launch_requests_map: "launch_requests env props da = map Inr (launch_requests_of env props da)"
  by (simp add: launch_requests_def launch_requests_of_def Let_def split_def)

lemma launch_targets [simp]: "map aq_target (launch_requests_of env props da) = map fst (da_nams da)"
  by (simp add: launch_requests_of_def Let_def split_def comp_def)

lemma length_launch_requests [simp]: "length (launch_requests_of env props da) = length (da_nams da)"
  by (simp add: launch_requests_of_def)

lemma launch_request_reports:
  "q \<in> set (launch_requests_of env props da) \<Longrightarrow>
    reports_on q (fst (aq_serve q w)) \<and> ar_app (aq_fail q e) = None"
  by (auto simp: launch_requests_of_def Let_def reports_on_def launch_reply_def nam_error_def
      split: prod.splits sum.splits)

lemma reported_targets:
  assumes "list_all2 reports_on qs rs"
  shows "mset (map (\<lambda>r. the (ar_nam r)) (filter (\<lambda>r. ar_app r \<noteq> None) rs)) \<subseteq># mset (map aq_target qs)"
    and "(\<forall>r \<in> set rs. ar_app r \<noteq> None) \<Longrightarrow> map (\<lambda>r. the (ar_nam r)) rs = map aq_target qs"
  using assms
proof (induction rule: list_all2_induct)
  case (Cons q qs r rs)
  {
    case 1
    show ?case using Cons by (auto simp: reports_on_def intro: subset_mset.order_trans)
  next
    case 2
    then show ?case using Cons by (auto simp: reports_on_def)
  }
qed auto

lemma filter_none_all: "filter P xs = [] \<longleftrightarrow> (\<forall>x \<in> set xs. \<not> P x)"
  by (simp add: filter_empty_conv)

lemma launch_results:
  assumes "mset order = mset (sent env w (launch_requests_of denv props da))"
    and "rs = unsent env w (launch_requests_of denv props da) @ fst (serve_in_order order w)"
  shows "mset (map (\<lambda>r. the (ar_nam r)) (filter (\<lambda>r. ar_app r \<noteq> None) rs)) \<subseteq># mset (map fst (da_nams da))"
    and "length rs = length (da_nams da)"
    and "(\<forall>r \<in> set rs. ar_app r \<noteq> None) \<Longrightarrow>
      mset (map (\<lambda>r. the (ar_nam r)) rs) = mset (map fst (da_nams da))"
proof -
  let ?qs = "launch_requests_of denv props da"
  have all2: "list_all2 reports_on order (fst (serve_in_order order w))"
  proof (rule serve_in_order_all2)
    fix q w assume "q \<in> set order"
    then have "q \<in> set ?qs" using assms(1) by (metis mset_eq_setD sent_def filter_is_subset subsetD)
    then show "reports_on q (fst (aq_serve q w))" using launch_request_reports [of q denv props da w] by simp
  qed
  have none: "\<forall>r \<in> set (unsent env w ?qs). ar_app r = None"
    using launch_request_reports by (fastforce simp: unsent_def split: option.splits)
  have sub: "mset (map aq_target order) \<subseteq># mset (map fst (da_nams da))"
  proof -
    have "mset order \<subseteq># mset ?qs" by (simp add: assms(1) sent_def multiset_filter_subset)
    then have "image_mset aq_target (mset order) \<subseteq># image_mset aq_target (mset ?qs)" by (rule image_mset_subseteq_mono)
    then show ?thesis by (simp only: mset_map [symmetric] launch_targets)
  qed
  have "filter (\<lambda>r. ar_app r \<noteq> None) rs = filter (\<lambda>r. ar_app r \<noteq> None) (fst (serve_in_order order w))"
    using none by (simp add: assms(2) filter_none_all)
  then show "mset (map (\<lambda>r. the (ar_nam r)) (filter (\<lambda>r. ar_app r \<noteq> None) rs)) \<subseteq># mset (map fst (da_nams da))"
    using subset_mset.order_trans [OF reported_targets(1) [OF all2] sub] by (simp only:)
  show "length rs = length (da_nams da)"
    using list_all2_lengthD [OF all2] mset_eq_length [OF assms(1)] length_sent [of env w ?qs]
    by (simp add: assms(2))
  assume ok: "\<forall>r \<in> set rs. ar_app r \<noteq> None"
  with none have e: "unsent env w ?qs = []" by (auto simp: assms(2))
  then have "sent env w ?qs = ?qs"
    by (auto simp: sent_def unsent_def filter_id_conv split: option.splits)
  moreover have "map (\<lambda>r. the (ar_nam r)) rs = map aq_target order"
    using reported_targets(2) [OF all2] ok by (simp add: assms(2) e)
  ultimately show "mset (map (\<lambda>r. the (ar_nam r)) rs) = mset (map fst (da_nams da))"
    using assms(1) by (metis launch_targets mset_map)
qed

section \<open>Properties\<close>


definition demo_domain :: "(int, nat) domain_env" where
  "demo_domain = \<lparr>oe_send = (\<lambda>i w. None), oe_pick = (\<lambda>n w. n - 1), oe_show = (\<lambda>e. ''e''),
     de_prepare = (\<lambda>nm plan w. (Inr (Some (10 + nm)), w + 1)),
     de_destroy_manager = (\<lambda>nm nam w. (None, w)),
     de_launch = (\<lambda>nam props w. if nam = 12 then (Inl (UserEx StartError ''n'' ''r''), w)
        else (Inr (Some (20 + nam), []), w + 1)),
     de_destroy_app = (\<lambda>nam app w. (None, w)), de_finish = (\<lambda>app refs start w. (None, w)),
     de_start = (\<lambda>app w. (None, w)), de_stop = (\<lambda>app w. (None, w))\<rparr>"

definition two_nodes :: domain_app where
  "two_nodes = new_domain_app ''u'' [(11, 1), (12, 2)] [(1, ''A''), (2, ''B'')]"


end
