(* ===== verification/Node_Locator.thy ===== *)
theory Node_Locator
  imports Utility
begin

text \<open>
  Where the node managers of a domain are, domain_deployment_handler/dancex11_node_locator.cpp. The ORB
  and the naming service are the environment: \<open>string_to_object\<close> with the narrowing of its result, which
  can raise, and resolving a node in a naming context. The domain description comes from the plan loader,
  None when it could not be read.
\<close>

record locator =
  lc_nodes :: "(string, string) smap"
  lc_nc :: "nat option"

record 'w locator_env =
  le_object :: "string \<Rightarrow> 'w \<Rightarrow> exn + nat option"
  le_resolve :: "nat \<Rightarrow> string \<Rightarrow> 'w \<Rightarrow> exn + nat option"

text \<open>Everything an unusable naming context raises is caught and leaves the locator without one.\<close>

definition new_locator :: "(string \<Rightarrow> exn + nat option) \<Rightarrow> string \<Rightarrow> exn + locator" where
  "new_locator narrow_nc nc =
     (if nc = [] then Inr \<lparr>lc_nodes = [], lc_nc = None\<rparr>
      else case narrow_nc nc of
          Inl e \<Rightarrow> (if is_corba e then Inr \<lparr>lc_nodes = [], lc_nc = None\<rparr> else Inl e)
        | Inr r \<Rightarrow> Inr \<lparr>lc_nodes = [], lc_nc = r\<rparr>)"

text \<open>Whatever the lookup raises is caught, and no node is found.\<close>

definition ns_lookup :: "'w locator_env \<Rightarrow> 'w \<Rightarrow> string \<Rightarrow> locator \<Rightarrow> nat option" where
  "ns_lookup env w node lc =
     (case lc_nc lc of
        None \<Rightarrow> None
      | Some nc \<Rightarrow> (case le_resolve env nc node w of Inl _ \<Rightarrow> None | Inr r \<Rightarrow> r))"

definition locate_node :: "'w locator_env \<Rightarrow> 'w \<Rightarrow> string \<Rightarrow> locator \<Rightarrow> exn + nat option" where
  "locate_node env w name lc =
     (case map_get (lc_nodes lc) name of
        Some ior \<Rightarrow> le_object env ior w
      | None \<Rightarrow> Inr (ns_lookup env w name lc))"

definition store_ior :: "string \<Rightarrow> string \<Rightarrow> locator \<Rightarrow> locator" where
  "store_ior name ior lc = lc\<lparr>lc_nodes := map_insert name ior (lc_nodes lc)\<rparr>"

definition find_resource :: "string \<Rightarrow> 'd resource list \<Rightarrow> 'd resource option" where
  "find_resource ty rs = find (\<lambda>r. ty \<in> set (rs_types r)) rs"

text \<open>The reference of a node: the one it gives, or a corbaloc made of its host and port.\<close>

definition node_ior :: "'d node \<Rightarrow> string option" where
  "node_ior nd =
     (case find_resource NODE_RESOURCE_TYPE (nd_resource nd) of
        None \<Rightarrow> None
      | Some res \<Rightarrow>
          (case get_satisfier_property_value as_string NODE_IOR (rs_property res) of
             Some ior \<Rightarrow>
               Some (if starts_with ''corbaloc:'' ior then ior @ ''/'' @ nd_name nd @ ''.NodeManager'' else ior)
           | None \<Rightarrow>
               (case get_satisfier_property_value as_uint16 NODE_PORT (rs_property res) of
                  None \<Rightarrow> None
                | Some port \<Rightarrow>
                    (let host = (case get_satisfier_property_value as_string NODE_HOST (rs_property res) of
                           Some h \<Rightarrow> h | None \<Rightarrow> nd_name nd)
                     in Some (''corbaloc:iiop:'' @ host @ '':'' @ decimal (unat port) @ ''/'' @ nd_name nd
                          @ ''.NodeManager'')))))"

text \<open>The nodes in their order; the first without an address ends the loop, with the ones before it entered.\<close>

fun enter_nodes :: "'d node list \<Rightarrow> locator \<Rightarrow> bool \<times> locator" where
  "enter_nodes [] lc = (True, lc)"
| "enter_nodes (nd # nds) lc =
     (case node_ior nd of
        None \<Rightarrow> (False, lc)
      | Some ior \<Rightarrow> enter_nodes nds (lc\<lparr>lc_nodes := map_put (nd_name nd) ior (lc_nodes lc)\<rparr>))"

definition process_cdd :: "string \<Rightarrow> 'd domain option \<Rightarrow> locator \<Rightarrow> bool \<times> locator" where
  "process_cdd filename dmn lc =
     (if filename = [] then (False, lc)
      else case dmn of None \<Rightarrow> (False, lc) | Some d \<Rightarrow> enter_nodes (dm_node d) lc)"

end
