(* ===== verification/Split_Plan.thy ===== *)
theory Split_Plan
  imports Utility
begin

text \<open>
  Splitting a deployment plan, tools/split_plan: the algorithm of split_plan.cpp, which is a template
  over a splitter and a generator of UUIDs, and its two instances, Node_Splitter and
  Locality_Splitter.

  A splitter is the record of its operations. Its keys order the map of sub plans; both kinds of key
  compare by a string, \<open>sp_id\<close>, so the map goes from that string to the key and the sub plan. Sizes and
  indices are natural numbers: a plan has fewer than 2^32 of everything (truncate_cast).
\<close>

section \<open>The algorithm\<close>

record ('k, 'f, 'd) splitter =
  sp_match_instance :: "'d plan \<Rightarrow> nat \<Rightarrow> 'f \<Rightarrow> bool"
  sp_match_sub_plan :: "'d plan \<Rightarrow> nat \<Rightarrow> 'k \<Rightarrow> bool"
  sp_prepare :: "'d plan \<Rightarrow> nat \<Rightarrow> 'd plan \<Rightarrow> 'k \<Rightarrow> 'd plan \<times> 'k"
  sp_finalize :: "'d plan \<Rightarrow> 'k \<Rightarrow> 'd plan \<times> 'k"
  sp_new_key :: 'k
  sp_id :: "'k \<Rightarrow> string"

type_synonym ('k, 'd) sub_plans = "(string, 'k \<times> 'd plan) smap"

text \<open>Assigning through a key that the map has already keeps the key object it has.\<close>

definition put_sub_plan ::
  "('k, 'f, 'd) splitter \<Rightarrow> 'k \<Rightarrow> 'd plan \<Rightarrow> ('k, 'd) sub_plans \<Rightarrow> ('k, 'd) sub_plans" where
  "put_sub_plan sp k p m =
     (case map_get m (sp_id sp k) of
        None \<Rightarrow> map_put (sp_id sp k) (k, p) m
      | Some (k0, _) \<Rightarrow> map_put (sp_id sp k) (k0, p) m)"

definition generate_sub_uuid :: "'d plan \<Rightarrow> 'd plan \<Rightarrow> nat \<Rightarrow> 'd plan" where
  "generate_sub_uuid parent sub n = sub\<lparr>pl_UUID := pl_UUID parent @ ''_'' @ decimal n\<rparr>"

definition new_sub_plan :: "'d plan \<Rightarrow> nat \<Rightarrow> 'd plan" where
  "new_sub_plan plan n =
     (generate_sub_uuid plan new_plan n)
       \<lparr>pl_infoProperty := pl_infoProperty plan @ [mk_prop PARENT_PLAN (PrimAny (VString (pl_UUID plan)))],
        pl_localityConstraint :=
          map (\<lambda>_. \<lparr>lo_constraint = PlanNoConstraint, lo_instanceRef = []\<rparr>) (pl_localityConstraint plan)\<rparr>"

fun find_sub_plan ::
  "('k, 'f, 'd) splitter \<Rightarrow> 'd plan \<Rightarrow> nat \<Rightarrow> ('k, 'd) sub_plans \<Rightarrow> ('k \<times> 'd plan) option" where
  "find_sub_plan sp plan i [] = None"
| "find_sub_plan sp plan i ((_, k, p) # m) =
     (if sp_match_sub_plan sp plan i k then Some (k, p) else find_sub_plan sp plan i m)"

text \<open>The first step: each instance goes to the first sub plan it matches, or to a new one.\<close>

definition assign_instance ::
  "('k, 'f, 'd) splitter \<Rightarrow> 'd plan \<Rightarrow> 'f \<Rightarrow> nat \<Rightarrow> ('k, 'd) sub_plans \<Rightarrow> ('k, 'd) sub_plans" where
  "assign_instance sp plan f i m =
     (if \<not> sp_match_instance sp plan i f then m
      else case find_sub_plan sp plan i m of
          None \<Rightarrow>
            (case sp_prepare sp plan i (new_sub_plan plan (length m)) (sp_new_key sp) of
               (p, k) \<Rightarrow> put_sub_plan sp k p m)
        | Some (k, p) \<Rightarrow>
            (case sp_prepare sp plan i p k of
               (p', k') \<Rightarrow> put_sub_plan sp k' p' (map_erase (sp_id sp k) m)))"

definition assign_instances ::
  "('k, 'f, 'd) splitter \<Rightarrow> 'd plan \<Rightarrow> 'f \<Rightarrow> ('k, 'd) sub_plans" where
  "assign_instances sp plan f = fold (assign_instance sp plan f) [0..<length (pl_instance plan)] []"

text \<open>The second step: the instances of each sub plan, looked up anew.\<close>

definition sub_instances :: "('k, 'f, 'd) splitter \<Rightarrow> 'd plan \<Rightarrow> 'k \<Rightarrow> nat list" where
  "sub_instances sp plan k = filter (\<lambda>i. sp_match_sub_plan sp plan i k) [0..<length (pl_instance plan)]"

text \<open>
  The third step: copying the instances with what refers to them. The artifacts of an implementation
  are copied once more for every instance; one that is bound to another node is left out. None is an
  index that the plan does not have.
\<close>

fun copy_artifacts ::
  "'d plan \<Rightarrow> string \<Rightarrow> nat list \<Rightarrow> 'd artifact list \<Rightarrow> nat list \<Rightarrow> ('d artifact list \<times> nat list) option" where
  "copy_artifacts plan node [] arts refs = Some (arts, refs)"
| "copy_artifacts plan node (r # rs) arts refs =
     (if r < length (pl_artifact plan) then
        (let a = pl_artifact plan ! r
         in if ar_node a = [] \<or> node = ar_node a
            then copy_artifacts plan node rs (arts @ [a]) (refs @ [length arts])
            else copy_artifacts plan node rs arts refs)
      else None)"

fun add_endpoint :: "'d connection \<Rightarrow> endpoint \<Rightarrow> 'd connection list \<Rightarrow> 'd connection list" where
  "add_endpoint conn ep [] = [conn\<lparr>cn_internalEndpoint := [ep]\<rparr>]"
| "add_endpoint conn ep (c # cs) =
     (if cn_name conn = cn_name c then c\<lparr>cn_internalEndpoint := cn_internalEndpoint c @ [ep]\<rparr> # cs
      else c # add_endpoint conn ep cs)"

definition copy_connection ::
  "nat \<Rightarrow> nat \<Rightarrow> 'd connection \<Rightarrow> 'd connection list \<Rightarrow> 'd connection list" where
  "copy_connection pos index conn cs =
     fold (\<lambda>ep cs. if pos = ep_instanceRef ep then add_endpoint conn (ep\<lparr>ep_instanceRef := index\<rparr>) cs else cs)
       (cn_internalEndpoint conn) cs"

definition copy_connections :: "'d plan \<Rightarrow> nat \<Rightarrow> nat \<Rightarrow> 'd connection list \<Rightarrow> 'd connection list" where
  "copy_connections plan pos index cs = fold (copy_connection pos index) (pl_connection plan) cs"

definition copy_locality :: "nat \<Rightarrow> nat \<Rightarrow> plan_locality \<Rightarrow> plan_locality \<Rightarrow> plan_locality" where
  "copy_locality pos index loc sub =
     fold (\<lambda>r s. if r = pos
                 then s\<lparr>lo_constraint := lo_constraint loc, lo_instanceRef := lo_instanceRef s @ [index]\<rparr> else s)
       (lo_instanceRef loc) sub"

definition copy_localities :: "'d plan \<Rightarrow> nat \<Rightarrow> nat \<Rightarrow> plan_locality list \<Rightarrow> plan_locality list" where
  "copy_localities plan pos index ls =
     fold (\<lambda>(j, loc). vec_upd j (copy_locality pos index loc)) (enumerate 0 (pl_localityConstraint plan)) ls"

definition copy_instance :: "'d plan \<Rightarrow> nat \<Rightarrow> 'd plan \<Rightarrow> 'd plan option" where
  "copy_instance plan pos sub =
     (let inst = pl_instance plan ! pos
      in if id_implementationRef inst < length (pl_implementation plan) then
           (let impl = pl_implementation plan ! id_implementationRef inst;
                index_imp = length (pl_implementation sub);
                index_ins = length (pl_instance sub)
            in case copy_artifacts plan (id_node inst) (md_artifactRef impl) (pl_artifact sub) [] of
                None \<Rightarrow> None
              | Some (arts, refs) \<Rightarrow>
                  Some (sub
                    \<lparr>pl_implementation := pl_implementation sub @ [impl\<lparr>md_artifactRef := refs\<rparr>],
                     pl_artifact := arts,
                     pl_instance := pl_instance sub @ [inst\<lparr>id_implementationRef := index_imp\<rparr>],
                     pl_connection := copy_connections plan pos index_ins (pl_connection sub),
                     pl_localityConstraint := copy_localities plan pos index_ins (pl_localityConstraint sub)\<rparr>))
         else None)"

fun copy_instances :: "'d plan \<Rightarrow> nat list \<Rightarrow> 'd plan \<Rightarrow> 'd plan option" where
  "copy_instances plan [] sub = Some sub"
| "copy_instances plan (i # is) sub =
     (case copy_instance plan i sub of None \<Rightarrow> None | Some sub' \<Rightarrow> copy_instances plan is sub')"

fun fill_sub_plans ::
  "('k, 'f, 'd) splitter \<Rightarrow> 'd plan \<Rightarrow> ('k, 'd) sub_plans \<Rightarrow> ('k, 'd) sub_plans option" where
  "fill_sub_plans sp plan [] = Some []"
| "fill_sub_plans sp plan ((n, k, p) # m) =
     (case copy_instances plan (sub_instances sp plan k) p of
        None \<Rightarrow> None
      | Some p' \<Rightarrow> map_option (Cons (n, k, p')) (fill_sub_plans sp plan m))"

definition finalize_sub_plans :: "('k, 'f, 'd) splitter \<Rightarrow> ('k, 'd) sub_plans \<Rightarrow> ('k, 'd) sub_plans" where
  "finalize_sub_plans sp m =
     map (\<lambda>(n, k, p). case sp_finalize sp p k of (p', k') \<Rightarrow> (n, k', p')) m"

definition split_plan ::
  "('k, 'f, 'd) splitter \<Rightarrow> 'd plan \<Rightarrow> 'f \<Rightarrow> ('k, 'd) sub_plans option" where
  "split_plan sp plan f = map_option (finalize_sub_plans sp) (fill_sub_plans sp plan (assign_instances sp plan f))"

section \<open>Node_Splitter\<close>

definition node_of :: "'d plan \<Rightarrow> nat \<Rightarrow> string" where
  "node_of plan i = id_node (pl_instance plan ! i)"

definition label_for :: "'d plan \<Rightarrow> string \<Rightarrow> string \<Rightarrow> 'd plan \<Rightarrow> 'd plan" where
  "label_for plan middle node sub =
     (if pl_label sub = []
      then sub\<lparr>pl_label := ''Split plan from '' @ (if pl_label plan \<noteq> [] then pl_label plan else pl_UUID plan)
        @ middle @ node\<rparr>
      else sub)"

definition node_match_instance :: "'d plan \<Rightarrow> nat \<Rightarrow> string \<Rightarrow> bool" where
  "node_match_instance plan i f \<longleftrightarrow> f = [] \<or> f = node_of plan i"

definition node_match_sub_plan :: "'d plan \<Rightarrow> nat \<Rightarrow> string \<Rightarrow> bool" where
  "node_match_sub_plan plan i k \<longleftrightarrow> k = node_of plan i"

definition node_prepare :: "'d plan \<Rightarrow> nat \<Rightarrow> 'd plan \<Rightarrow> string \<Rightarrow> 'd plan \<times> string" where
  "node_prepare plan i sub k = (label_for plan '' for Node '' (node_of plan i) sub, node_of plan i)"

definition node_splitter :: "(string, string, 'd) splitter" where
  "node_splitter = \<lparr>sp_match_instance = node_match_instance, sp_match_sub_plan = node_match_sub_plan,
     sp_prepare = node_prepare, sp_finalize = Pair, sp_new_key = [], sp_id = id\<rparr>"

section \<open>Locality_Splitter\<close>

record locality_key =
  lk_uuid :: string
  lk_node :: string
  lk_instances :: "nat list"
  lk_manager :: "32 word"
  lk_implicit :: bool

definition new_locality_key :: locality_key where
  "new_locality_key = \<lparr>lk_uuid = [], lk_node = [], lk_instances = [], lk_manager = - 1, lk_implicit = True\<rparr>"

definition has_instance :: "locality_key \<Rightarrow> nat \<Rightarrow> bool" where
  "has_instance k i \<longleftrightarrow> i \<in> set (lk_instances k)"

definition add_instance :: "nat \<Rightarrow> locality_key \<Rightarrow> locality_key" where
  "add_instance i k = k\<lparr>lk_instances := lk_instances k @ [i]\<rparr>"

definition has_locality_manager :: "locality_key \<Rightarrow> bool" where
  "has_locality_manager k \<longleftrightarrow> uint (lk_manager k) < int (length (lk_instances k))"

definition locality_manager_instance :: "locality_key \<Rightarrow> nat" where
  "locality_manager_instance k = (if has_locality_manager k then unat (lk_manager k) else 0)"

definition set_locality_manager :: "nat \<Rightarrow> bool \<Rightarrow> locality_key \<Rightarrow> locality_key" where
  "set_locality_manager n implicit k =
     (if n < length (lk_instances k) then k\<lparr>lk_manager := word_of_nat n, lk_implicit := implicit\<rparr> else k)"

record locality_filter =
  lf_node :: string
  lf_included :: "string list"

text \<open>The filter compares its names of instances with the node of the instance.\<close>

definition locality_match_instance :: "'d plan \<Rightarrow> nat \<Rightarrow> locality_filter \<Rightarrow> bool" where
  "locality_match_instance plan i f \<longleftrightarrow>
     (lf_node f = [] \<or> lf_node f = node_of plan i)
     \<and> (lf_included f = [] \<or> node_of plan i \<in> set (lf_included f))"

text \<open>Whether one locality constraint lets the instance into the sub plan.\<close>

definition locality_allows :: "nat \<Rightarrow> locality_key \<Rightarrow> plan_locality \<Rightarrow> bool" where
  "locality_allows i k loc =
     (let applies = i \<in> set (lo_instanceRef loc)
      in case lo_constraint loc of
          PlanNoConstraint \<Rightarrow> True
        | PlanDifferentProcess \<Rightarrow>
            \<not> applies \<or> list_all (\<lambda>j. j = i \<or> \<not> has_instance k j) (lo_instanceRef loc)
        | PlanSameProcess \<Rightarrow>
            (case lk_instances k of
               [] \<Rightarrow> True
             | first # _ \<Rightarrow> (first \<in> set (lo_instanceRef loc)) = applies))"

definition locality_match_sub_plan :: "'d plan \<Rightarrow> nat \<Rightarrow> locality_key \<Rightarrow> bool" where
  "locality_match_sub_plan plan i k \<longleftrightarrow>
     lk_node k = node_of plan i
     \<and> (has_instance k i \<or> list_all (locality_allows i k) (pl_localityConstraint plan))"

definition is_locality_manager :: "'d plan \<Rightarrow> nat \<Rightarrow> bool" where
  "is_locality_manager plan i =
     (let impl = id_implementationRef (pl_instance plan ! i)
      in impl < length (pl_implementation plan)
         \<and> get_instance_type (md_execParameter (pl_implementation plan ! impl)) = DANCE_LOCALITYMANAGER)"

definition enter_instance :: "'d plan \<Rightarrow> nat \<Rightarrow> locality_key \<Rightarrow> locality_key" where
  "enter_instance plan i k =
     (if has_instance k i then k
      else let k = add_instance i k
           in if \<not> has_locality_manager k \<and> is_locality_manager plan i
              then set_locality_manager (length (lk_instances k) - 1) False k else k)"

definition locality_prepare ::
  "'d plan \<Rightarrow> nat \<Rightarrow> 'd plan \<Rightarrow> locality_key \<Rightarrow> 'd plan \<times> locality_key" where
  "locality_prepare plan i sub k =
     (let k = (if lk_uuid k = [] then k\<lparr>lk_uuid := pl_UUID sub\<rparr> else k);
          k = k\<lparr>lk_node := node_of plan i\<rparr>;
          k = enter_instance plan i k
      in (label_for plan '' for a Locality on Node '' (lk_node k) sub, k))"

text \<open>
  A sub plan without a locality manager gets one, with an implementation of its own. Its name holds a
  UUID of ACE's generator, the parameter \<open>fresh\<close>, here a function of the sub plan.
\<close>

definition locality_finalize ::
  "(string \<Rightarrow> string) \<Rightarrow> 'd plan \<Rightarrow> locality_key \<Rightarrow> 'd plan \<times> locality_key" where
  "locality_finalize fresh sub k =
     (if has_locality_manager k then (sub, k)
      else let impl_index = length (pl_implementation sub);
               inst_index = length (pl_instance sub);
               k' = add_instance inst_index k
           in (sub\<lparr>pl_implementation := pl_implementation sub
                     @ [new_mdd\<lparr>md_execParameter := [mk_prop IMPL_TYPE (PrimAny (VString DANCE_LOCALITYMANAGER))]\<rparr>],
                   pl_instance := pl_instance sub
                     @ [new_idd\<lparr>id_implementationRef := impl_index,
                         id_name := ''Locality Manager ['' @ fresh (lk_uuid k) @ '']''\<rparr>]\<rparr>,
               set_locality_manager (length (lk_instances k') - 1) True k'))"

definition locality_splitter :: "(string \<Rightarrow> string) \<Rightarrow> (locality_key, locality_filter, 'd) splitter" where
  "locality_splitter fresh = \<lparr>sp_match_instance = locality_match_instance,
     sp_match_sub_plan = locality_match_sub_plan, sp_prepare = locality_prepare,
     sp_finalize = locality_finalize fresh, sp_new_key = new_locality_key, sp_id = lk_uuid\<rparr>"

definition no_filter :: locality_filter where
  "no_filter = \<lparr>lf_node = [], lf_included = []\<rparr>"

section \<open>References inside a sub plan\<close>

text \<open>
  Every index a sub plan holds is one of its own: an instance's implementation, an implementation's
  artifacts, an endpoint's instance, a locality's instances. The instances of a sub plan that is being
  filled each have an implementation of their own, at the same index.
\<close>

definition refs_ok :: "'d plan \<Rightarrow> bool" where
  "refs_ok p \<longleftrightarrow>
     (\<forall>x \<in> set (pl_instance p). id_implementationRef x < length (pl_implementation p))
     \<and> (\<forall>x \<in> set (pl_implementation p). \<forall>r \<in> set (md_artifactRef x). r < length (pl_artifact p))
     \<and> (\<forall>c \<in> set (pl_connection p). \<forall>ep \<in> set (cn_internalEndpoint c). ep_instanceRef ep < length (pl_instance p))
     \<and> (\<forall>l \<in> set (pl_localityConstraint p). \<forall>r \<in> set (lo_instanceRef l). r < length (pl_instance p))"

definition in_step :: "'d plan \<Rightarrow> bool" where
  "in_step p \<longleftrightarrow> map id_implementationRef (pl_instance p) = [0..<length (pl_implementation p)]"

definition endpoints_below :: "nat \<Rightarrow> 'd connection list \<Rightarrow> bool" where
  "endpoints_below n cs \<longleftrightarrow> (\<forall>c \<in> set cs. \<forall>ep \<in> set (cn_internalEndpoint c). ep_instanceRef ep < n)"

definition localities_below :: "nat \<Rightarrow> plan_locality list \<Rightarrow> bool" where
  "localities_below n ls \<longleftrightarrow> (\<forall>l \<in> set ls. \<forall>r \<in> set (lo_instanceRef l). r < n)"

lemma in_step_length: "in_step p \<Longrightarrow> length (pl_instance p) = length (pl_implementation p)"
  by (metis in_step_def length_map length_upt minus_nat.diff_0)

lemma copy_artifacts_ok:
  "copy_artifacts plan node rs arts refs = Some (arts', refs') \<Longrightarrow> \<forall>r \<in> set refs. r < length arts \<Longrightarrow>
    length arts \<le> length arts' \<and> (\<forall>r \<in> set refs'. r < length arts')"
proof (induction rs arbitrary: arts refs)
  case (Cons r rs)
  have "\<forall>x \<in> set (refs @ [length arts]). x < length (arts @ [a])" for a
    using Cons.prems(2) by (auto simp: less_Suc_eq)
  with Cons show ?case by (fastforce simp: Let_def split: if_splits)
qed simp

lemma add_endpoint_below:
  "endpoints_below n cs \<Longrightarrow> ep_instanceRef ep < n \<Longrightarrow> endpoints_below n (add_endpoint conn ep cs)"
  by (induction conn ep cs rule: add_endpoint.induct) (auto simp: endpoints_below_def)

lemma copy_connections_below:
  assumes "endpoints_below n cs" "index < n"
  shows "endpoints_below n (copy_connections plan pos index cs)"
proof -
  have one: "endpoints_below n (copy_connection pos index conn ds)" if "endpoints_below n ds" for conn and ds :: "'a connection list"
    unfolding copy_connection_def using that assms(2)
    by (intro fold_invariant [where P = "endpoints_below n" and Q = "\<lambda>_. True"]) (auto simp: add_endpoint_below)
  show ?thesis
    unfolding copy_connections_def using assms(1) one
    by (intro fold_invariant [where P = "endpoints_below n" and Q = "\<lambda>_. True"]) auto
qed

lemma copy_localities_below:
  assumes "localities_below n ls" "index < n"
  shows "localities_below n (copy_localities plan pos index ls)"
proof -
  have one: "\<forall>r \<in> set (lo_instanceRef (copy_locality pos index loc l)). r < n"
    if "\<forall>r \<in> set (lo_instanceRef l). r < n" for loc l
    unfolding copy_locality_def using that assms(2)
    by (intro fold_invariant [where P = "\<lambda>l. \<forall>r \<in> set (lo_instanceRef l). r < n" and Q = "\<lambda>_. True"]) auto
  have "localities_below n (vec_upd j (copy_locality pos index loc) ls)" if "localities_below n ls" for j loc ls
    using that one [of "ls ! j" loc] unfolding localities_below_def all_set_conv_all_nth
    by (auto simp: nth_vec_upd)
  then show ?thesis
    unfolding copy_localities_def using assms(1)
    by (intro fold_invariant [where P = "localities_below n" and Q = "\<lambda>_. True"]) auto
qed

lemma copy_instance_ok:
  assumes "copy_instance plan i sub = Some sub'" "refs_ok sub" "in_step sub"
  shows "refs_ok sub' \<and> in_step sub'"
proof -
  let ?n = "length (pl_instance sub)"
  obtain arts refs where arts: "copy_artifacts plan (id_node (pl_instance plan ! i))
      (md_artifactRef (pl_implementation plan ! id_implementationRef (pl_instance plan ! i))) (pl_artifact sub) []
      = Some (arts, refs)"
    and sub': "sub' = sub
      \<lparr>pl_implementation := pl_implementation sub
         @ [(pl_implementation plan ! id_implementationRef (pl_instance plan ! i))\<lparr>md_artifactRef := refs\<rparr>],
       pl_artifact := arts,
       pl_instance := pl_instance sub @ [(pl_instance plan ! i)\<lparr>id_implementationRef := length (pl_implementation sub)\<rparr>],
       pl_connection := copy_connections plan i ?n (pl_connection sub),
       pl_localityConstraint := copy_localities plan i ?n (pl_localityConstraint sub)\<rparr>"
    using assms(1) by (auto simp: copy_instance_def Let_def split: if_splits option.splits)
  have "endpoints_below (Suc ?n) (pl_connection sub)" "localities_below (Suc ?n) (pl_localityConstraint sub)"
    using assms(2) by (auto simp: refs_ok_def endpoints_below_def localities_below_def intro: less_SucI)
  then have "endpoints_below (Suc ?n) (pl_connection sub')" "localities_below (Suc ?n) (pl_localityConstraint sub')"
    by (simp_all add: sub' copy_connections_below copy_localities_below)
  moreover have "length (pl_artifact sub) \<le> length arts" "\<forall>r \<in> set refs. r < length arts"
    using copy_artifacts_ok [OF arts] by auto
  ultimately show ?thesis
    using assms(2,3) in_step_length [OF assms(3)]
    by (fastforce simp: refs_ok_def in_step_def endpoints_below_def localities_below_def sub')
qed

text \<open>What a copied instance keeps: all but the index of its implementation.\<close>

definition strip :: "'d idd \<Rightarrow> 'd idd" where
  "strip x = x\<lparr>id_implementationRef := 0\<rparr>"

lemma copy_instances_ok:
  "copy_instances plan is sub = Some sub' \<Longrightarrow> refs_ok sub \<Longrightarrow> in_step sub \<Longrightarrow>
    refs_ok sub' \<and> in_step sub'
    \<and> map strip (pl_instance sub') = map strip (pl_instance sub) @ map (\<lambda>i. strip (pl_instance plan ! i)) is"
proof (induction "is" arbitrary: sub)
  case (Cons i "is")
  then obtain sub1 where sub1: "copy_instance plan i sub = Some sub1" "copy_instances plan is sub1 = Some sub'"
    by (auto split: option.splits)
  have "map strip (pl_instance sub1) = map strip (pl_instance sub) @ [strip (pl_instance plan ! i)]"
    using sub1(1) by (auto simp: copy_instance_def Let_def strip_def split: if_splits option.splits)
  with Cons.IH [OF sub1(2)] copy_instance_ok [OF sub1(1) Cons.prems(2,3)] show ?case by simp
qed simp

section \<open>What splitters promise\<close>

text \<open>
  The contract between split_plan and its splitter. \<open>holds\<close> is what a key records of the instances
  assigned to it, \<open>ids_ok\<close> what makes a new key new.
\<close>

definition empty_body :: "'d plan \<Rightarrow> 'd plan \<Rightarrow> bool" where
  "empty_body plan p \<longleftrightarrow> pl_instance p = [] \<and> pl_implementation p = [] \<and> pl_connection p = []
     \<and> pl_artifact p = [] \<and> localities_below 0 (pl_localityConstraint p)"

locale plan_splitter =
  fixes sp :: "('k, 'f, 'd) splitter" and plan :: "'d plan"
    and holds :: "'k \<Rightarrow> nat \<Rightarrow> bool" and ids_ok :: "('k, 'd) sub_plans \<Rightarrow> bool"
  assumes holds_match: "holds k i \<Longrightarrow> sp_match_sub_plan sp plan i k"
    and prepare_holds: "holds (snd (sp_prepare sp plan i p k)) i"
    and prepare_keeps: "sp_match_sub_plan sp plan i k \<Longrightarrow> holds k j \<Longrightarrow> holds (snd (sp_prepare sp plan i p k)) j"
    and prepare_body: "empty_body plan p \<Longrightarrow> empty_body plan (fst (sp_prepare sp plan i p k))"
    and ids_start: "ids_ok []"
    and ids_new: "ids_ok m \<Longrightarrow> map_ok m \<Longrightarrow> find_sub_plan sp plan i m = None \<Longrightarrow>
      sp_prepare sp plan i (new_sub_plan plan (length m)) (sp_new_key sp) = (p, k) \<Longrightarrow>
      map_get m (sp_id sp k) = None \<and> ids_ok (map_put (sp_id sp k) (k, p) m)"
    and ids_found: "ids_ok m \<Longrightarrow> map_ok m \<Longrightarrow> map_get m (sp_id sp k) = Some (k, p) \<Longrightarrow>
      sp_match_sub_plan sp plan i k \<Longrightarrow> sp_prepare sp plan i p k = (p', k') \<Longrightarrow>
      sp_id sp k' = sp_id sp k \<and> ids_ok (map_put (sp_id sp k) (k', p') (map_erase (sp_id sp k) m))"
begin

definition assigned :: "nat set \<Rightarrow> ('k, 'd) sub_plans \<Rightarrow> bool" where
  "assigned I m \<longleftrightarrow> map_ok m \<and> ids_ok m
     \<and> (\<forall>n k p. map_get m n = Some (k, p) \<longrightarrow> n = sp_id sp k \<and> empty_body plan p)
     \<and> (\<forall>i \<in> I. \<exists>n k p. map_get m n = Some (k, p) \<and> holds k i)"

lemma empty_new: "empty_body plan (new_sub_plan plan n)"
  by (auto simp: empty_body_def new_sub_plan_def generate_sub_uuid_def new_plan_def localities_below_def)

lemma find_get: "map_ok m \<Longrightarrow> find_sub_plan sp plan i m = Some (k, p) \<Longrightarrow>
    (\<exists>n. map_get m n = Some (k, p)) \<and> sp_match_sub_plan sp plan i k"
proof -
  assume ok: "map_ok m" and find: "find_sub_plan sp plan i m = Some (k, p)"
  from find have "(\<exists>n. (n, k, p) \<in> set m) \<and> sp_match_sub_plan sp plan i k"
    by (induction sp plan i m rule: find_sub_plan.induct) (auto split: if_splits)
  with ok show ?thesis by (simp add: set_map_get)
qed

lemma assigned_step:
  assumes m: "assigned I m"
  shows "assigned (if sp_match_instance sp plan i f then insert i I else I) (assign_instance sp plan f i m)"
proof (cases "sp_match_instance sp plan i f")
  case True
  have ok: "map_ok m" "ids_ok m" using m by (auto simp: assigned_def)
  show ?thesis
  proof (cases "find_sub_plan sp plan i m")
    case None
    obtain p k where pk: "sp_prepare sp plan i (new_sub_plan plan (length m)) (sp_new_key sp) = (p, k)" by force
    have "holds k i" "empty_body plan p"
      using prepare_holds [of i "new_sub_plan plan (length m)" "sp_new_key sp"] prepare_body [OF empty_new] pk
      by (metis snd_conv, metis fst_conv)
    with True None m ids_new [OF ok(2,1) None pk] pk show ?thesis
      by (auto simp: assign_instance_def put_sub_plan_def assigned_def smap.get_put smap.ok_put)
        (metis option.distinct(1))
  next
    case (Some kp)
    obtain k p where kp: "kp = (k, p)" by (cases kp)
    obtain p' k' where pk: "sp_prepare sp plan i p k = (p', k')" by force
    obtain n where n: "map_get m n = Some (k, p)" and match: "sp_match_sub_plan sp plan i k"
      using find_get [OF ok(1)] Some kp by blast
    then have old: "map_get m (sp_id sp k) = Some (k, p)" "sp_match_sub_plan sp plan i k"
      using m by (auto simp: assigned_def)
    note ids = ids_found [OF ok(2,1) old pk]
    have res: "assign_instance sp plan f i m = map_put (sp_id sp k) (k', p') (map_erase (sp_id sp k) m)"
      using True Some kp pk ids by (simp add: assign_instance_def put_sub_plan_def smap.get_del ok)
    have new: "holds k' i" "\<And>j. holds k j \<Longrightarrow> holds k' j" "empty_body plan p'"
      using prepare_holds [of i p k] prepare_keeps [OF old(2), of _ p] prepare_body [of p i k] pk old(1) m
      by (auto simp: assigned_def)
    let ?m = "map_put (sp_id sp k) (k', p') (map_erase (sp_id sp k) m)"
    have get: "map_get ?m j = (if j = sp_id sp k then Some (k', p') else map_get m j)" for j
      using ok by (simp add: smap.get_put smap.get_del smap.ok_del)
    have "\<exists>n k p. map_get ?m n = Some (k, p) \<and> holds k j" if "j \<in> insert i I" for j
    proof (cases "j = i")
      case False
      with that m obtain n0 k0 p0 where "map_get m n0 = Some (k0, p0)" "holds k0 j" by (auto simp: assigned_def)
      with new(2) old(1) get [of n0] get [of "sp_id sp k"] show ?thesis by (cases "n0 = sp_id sp k") auto
    qed (use get [of "sp_id sp k"] new(1) in auto)
    moreover have "n = sp_id sp k1 \<and> empty_body plan p1" if "map_get ?m n = Some (k1, p1)" for n k1 p1
      using that ids new(3) m [unfolded assigned_def]
      by (cases "n = sp_id sp k") (simp add: get, metis get)
    moreover have "map_ok ?m" "ids_ok ?m" using ids ok by (simp_all add: smap.ok_put smap.ok_del)
    ultimately have "assigned (insert i I) ?m" unfolding assigned_def by blast
    then show ?thesis by (simp add: res True)
  qed
qed (use m in \<open>simp add: assign_instance_def\<close>)

lemma assigned_fold:
  "assigned I m \<Longrightarrow> assigned (I \<union> {i \<in> set is. sp_match_instance sp plan i f}) (fold (assign_instance sp plan f) is m)"
proof (induction "is" arbitrary: I m)
  case (Cons i "is")
  let ?I = "if sp_match_instance sp plan i f then insert i I else I"
  have "?I \<union> {j \<in> set is. sp_match_instance sp plan j f} = I \<union> {j \<in> set (i # is). sp_match_instance sp plan j f}"
    by auto
  with Cons.IH [OF assigned_step [OF Cons.prems, of i f]] show ?case by simp
qed simp

lemma assigned_all:
  "assigned {i. i < length (pl_instance plan) \<and> sp_match_instance sp plan i f} (assign_instances sp plan f)"
proof -
  have "assigned {} []" by (simp add: assigned_def ids_start)
  from assigned_fold [OF this, of "[0..<length (pl_instance plan)]" f] show ?thesis
    by (simp add: assign_instances_def)
qed

end

section \<open>The splitters keep the contract\<close>

lemma find_none: "find_sub_plan sp plan i m = None \<longleftrightarrow> (\<forall>(n, k, p) \<in> set m. \<not> sp_match_sub_plan sp plan i k)"
  by (induction sp plan i m rule: find_sub_plan.induct) auto

lemma find_some: "find_sub_plan sp plan i m = Some (k, p) \<Longrightarrow>
    \<exists>n. (n, k, p) \<in> set m \<and> sp_match_sub_plan sp plan i k"
  by (induction sp plan i m rule: find_sub_plan.induct) (auto split: if_splits)

lemma length_keys: "map_ok m \<Longrightarrow> length m = card (map_keys m)"
  by (metis distinct_card length_map list.set_map map_keys_def map_ok_distinct)

lemma finite_map_keys: "finite (map_keys m)"
  by (simp add: map_keys_def)

lemma label_body [simp]:
  "empty_body plan (label_for plan' mid node p) = empty_body plan p" "pl_UUID (label_for plan' mid node p) = pl_UUID p"
  by (simp_all add: label_for_def empty_body_def)

definition nodes_ok :: "(string, 'd) sub_plans \<Rightarrow> bool" where
  "nodes_ok m \<longleftrightarrow> (\<forall>n k p. map_get m n = Some (k, p) \<longrightarrow> n = k)"

lemma nodes_ok_put: "map_ok m \<Longrightarrow> nodes_ok m \<Longrightarrow> nodes_ok (map_put k (k, p) m)"
  unfolding nodes_ok_def by (metis smap.get_put option.inject prod.inject)

lemma nodes_ok_erase: "map_ok m \<Longrightarrow> nodes_ok m \<Longrightarrow> nodes_ok (map_erase k m)"
  unfolding nodes_ok_def by (metis smap.get_del option.distinct(1))

interpretation node: plan_splitter node_splitter plan "\<lambda>k i. k = node_of plan i" nodes_ok for plan
proof (unfold_locales, goal_cases)
  case (6 m i p k)
  then have "k = node_of plan i" by (simp add: node_splitter_def node_prepare_def)
  moreover have "map_get m (node_of plan i) = None"
  proof (rule ccontr)
    assume "map_get m (node_of plan i) \<noteq> None"
    then obtain k' p' where get: "map_get m (node_of plan i) = Some (k', p')" by auto
    with 6(1) have "node_of plan i = k'" unfolding nodes_ok_def by blast
    with map_of_set [OF get] 6(3) show False
      by (auto simp: find_none node_splitter_def node_match_sub_plan_def)
  qed
  ultimately show ?case using 6 by (simp add: node_splitter_def nodes_ok_put)
next
  case (7 m k p i p' k')
  then show ?case
    by (auto simp: node_splitter_def node_prepare_def node_match_sub_plan_def nodes_ok_put nodes_ok_erase smap.ok_del)
qed (simp_all add: node_splitter_def node_match_sub_plan_def node_prepare_def nodes_ok_def)

definition sub_uuid :: "'d plan \<Rightarrow> nat \<Rightarrow> string" where
  "sub_uuid plan n = pl_UUID plan @ ''_'' @ decimal n"

lemma new_sub_plan_uuid [simp]: "pl_UUID (new_sub_plan plan n) = sub_uuid plan n"
  by (simp add: new_sub_plan_def generate_sub_uuid_def sub_uuid_def)

lemma sub_uuid_inject [simp]: "sub_uuid plan i = sub_uuid plan j \<longleftrightarrow> i = j" "sub_uuid plan i \<noteq> []"
    "[] \<noteq> sub_uuid plan i"
  by (simp_all add: sub_uuid_def)

lemma enter_instance_fields [simp]:
  "lk_uuid (enter_instance plan i k) = lk_uuid k" "lk_node (enter_instance plan i k) = lk_node k"
  "lk_instances (enter_instance plan i k) = (if has_instance k i then lk_instances k else lk_instances k @ [i])"
  by (simp_all add: enter_instance_def add_instance_def set_locality_manager_def Let_def)

lemma locality_prepare_fields [simp]:
  "lk_uuid (snd (locality_prepare plan i p k)) = (if lk_uuid k = [] then pl_UUID p else lk_uuid k)"
  "lk_node (snd (locality_prepare plan i p k)) = node_of plan i"
  "lk_instances (snd (locality_prepare plan i p k)) =
    (if i \<in> set (lk_instances k) then lk_instances k else lk_instances k @ [i])"
  "empty_body plan' (fst (locality_prepare plan i p k)) = empty_body plan' p"
  by (simp_all add: locality_prepare_def Let_def has_instance_def)

definition uuids_ok :: "'d plan \<Rightarrow> (locality_key, 'd) sub_plans \<Rightarrow> bool" where
  "uuids_ok plan m \<longleftrightarrow> map_keys m = sub_uuid plan ` {..<length m}
     \<and> (\<forall>n k p. map_get m n = Some (k, p) \<longrightarrow> lk_uuid k = n)"

interpretation locality: plan_splitter "locality_splitter fresh" plan
    "\<lambda>k i. has_instance k i \<and> lk_node k = node_of plan i" "uuids_ok plan" for fresh plan
proof (unfold_locales, goal_cases)
  case (1 k i)
  then show ?case by (simp add: locality_splitter_def locality_match_sub_plan_def)
next
  case (2 i p k)
  then show ?case by (simp add: locality_splitter_def has_instance_def)
next
  case (3 i k j p)
  then show ?case by (simp add: locality_splitter_def has_instance_def locality_match_sub_plan_def)
next
  case (4 p i k)
  then show ?case by (simp add: locality_splitter_def)
next
  case 5
  then show ?case by (simp add: uuids_ok_def map_keys_def)
next
  case (6 m i p k)
  have "k = snd (locality_prepare plan i (new_sub_plan plan (length m)) new_locality_key)"
    using 6(4) by (simp add: locality_splitter_def)
  then have id: "lk_uuid k = sub_uuid plan (length m)" by (simp add: new_locality_key_def)
  then have new: "lk_uuid k \<notin> map_keys m" using 6(1) by (auto simp: uuids_ok_def)
  then have none: "map_get m (lk_uuid k) = None" using map_get_dom [of "lk_uuid k" m] by metis
  then have "length (map_put (lk_uuid k) (k, p) m) = Suc (length m)"
    using 6(2) new by (simp add: length_keys smap.ok_put smap.keys_put finite_map_keys)
  with none 6(1,2) id show ?case
    by (auto simp: locality_splitter_def uuids_ok_def smap.keys_put smap.get_put lessThan_Suc)
next
  case (7 m k p i p' k')
  have k: "lk_uuid k \<in> sub_uuid plan ` {..<length m}"
    using 7(1,3) map_get_dom [of _ m] by (force simp: locality_splitter_def uuids_ok_def)
  moreover have "k' = snd (locality_prepare plan i p k)"
    using 7(5) by (simp add: locality_splitter_def)
  ultimately have id: "lk_uuid k' = lk_uuid k" by auto
  have "length (map_put (lk_uuid k) (k', p') (map_erase (lk_uuid k) m)) = length m"
    using 7(1,2) k by (simp add: length_keys smap.ok_put smap.keys_put smap.ok_del smap.keys_del insert_absorb uuids_ok_def)
  with 7(1,2) id k show ?case
    by (auto simp: locality_splitter_def uuids_ok_def smap.keys_put smap.keys_del smap.get_put smap.get_del
        smap.ok_del)
qed

section \<open>From the assignment to the sub plans\<close>

lemma list_all2_left: "list_all2 R xs ys \<Longrightarrow> x \<in> set xs \<Longrightarrow> \<exists>y \<in> set ys. R x y"
  by (induction rule: list_all2_induct) auto

lemma list_all2_right: "list_all2 R xs ys \<Longrightarrow> y \<in> set ys \<Longrightarrow> \<exists>x \<in> set xs. R x y"
  by (induction rule: list_all2_induct) auto

lemma fill_rel:
  "fill_sub_plans sp plan m = Some m' \<Longrightarrow> list_all2 (\<lambda>(n, k, p) (n', k', p'). n' = n \<and> k' = k
    \<and> copy_instances plan (sub_instances sp plan k) p = Some p') m m'"
proof (induction m arbitrary: m')
  case (Cons e m)
  obtain n k p where "e = (n, k, p)" by (cases e)
  with Cons show ?case by (auto split: option.splits)
qed simp

lemma fill_entry:
  assumes "fill_sub_plans sp plan m = Some m'" "(n, k, p) \<in> set m"
  shows "\<exists>p'. (n, k, p') \<in> set m' \<and> copy_instances plan (sub_instances sp plan k) p = Some p'"
  using list_all2_left [OF fill_rel [OF assms(1)] assms(2)] by auto

lemma fill_origin:
  assumes "fill_sub_plans sp plan m = Some m'" "(n, k, p') \<in> set m'"
  shows "\<exists>p. (n, k, p) \<in> set m \<and> copy_instances plan (sub_instances sp plan k) p = Some p'"
  using list_all2_right [OF fill_rel [OF assms(1)] assms(2)] by auto

lemma split_entry:
  assumes "split_plan sp plan f = Some m" "(n, k, p) \<in> set (assign_instances sp plan f)"
  shows "\<exists>p'. copy_instances plan (sub_instances sp plan k) p = Some p'
    \<and> (n, snd (sp_finalize sp p' k), fst (sp_finalize sp p' k)) \<in> set m"
proof -
  obtain m' where m': "fill_sub_plans sp plan (assign_instances sp plan f) = Some m'" "m = finalize_sub_plans sp m'"
    using assms(1) by (auto simp: split_plan_def)
  from fill_entry [OF m'(1) assms(2)] show ?thesis
    by (force simp: m'(2) finalize_sub_plans_def split: prod.splits)
qed

lemma split_origin:
  assumes "split_plan sp plan f = Some m" "(n, k', p') \<in> set m"
  shows "\<exists>k p0 p. (n, k, p0) \<in> set (assign_instances sp plan f)
    \<and> copy_instances plan (sub_instances sp plan k) p0 = Some p \<and> sp_finalize sp p k = (p', k')"
proof -
  obtain m' where m': "fill_sub_plans sp plan (assign_instances sp plan f) = Some m'" "m = finalize_sub_plans sp m'"
    using assms(1) by (auto simp: split_plan_def)
  then obtain k p where "(n, k, p) \<in> set m'" "sp_finalize sp p k = (p', k')"
    using assms(2) by (auto simp: finalize_sub_plans_def split: prod.splits)
  with fill_origin [OF m'(1)] show ?thesis by blast
qed

lemma empty_body_ok: "empty_body plan p \<Longrightarrow> refs_ok p \<and> in_step p \<and> pl_instance p = []"
  by (auto simp: empty_body_def refs_ok_def in_step_def localities_below_def)

context plan_splitter
begin

lemma assigned_entry:
  "(n, k, p) \<in> set (assign_instances sp plan f) \<Longrightarrow> n = sp_id sp k \<and> empty_body plan p"
  using assigned_all [of f] by (simp add: assigned_def set_map_get)

lemma filled:
  assumes "(n, k, p) \<in> set (assign_instances sp plan f)" "copy_instances plan (sub_instances sp plan k) p = Some p'"
  shows "refs_ok p' \<and> in_step p' \<and>
    map strip (pl_instance p') = map (\<lambda>i. strip (pl_instance plan ! i)) (sub_instances sp plan k)"
  using copy_instances_ok [OF assms(2)] empty_body_ok [of plan p] assigned_entry [OF assms(1)] by simp

lemma instance_in_sub_plan:
  assumes "split_plan sp plan f = Some m" "i < length (pl_instance plan)" "sp_match_instance sp plan i f"
  shows "\<exists>k p. (sp_id sp k, snd (sp_finalize sp p k), fst (sp_finalize sp p k)) \<in> set m \<and> holds k i
    \<and> strip (pl_instance plan ! i) \<in> strip ` set (pl_instance p)"
proof -
  have "\<exists>n k p. map_get (assign_instances sp plan f) n = Some (k, p) \<and> holds k i"
    using assigned_all [of f, unfolded assigned_def] assms(2,3) by blast
  then obtain n k p where e: "(n, k, p) \<in> set (assign_instances sp plan f)" "holds k i"
    using map_of_set by metis
  obtain p' where p': "copy_instances plan (sub_instances sp plan k) p = Some p'"
    "(n, snd (sp_finalize sp p' k), fst (sp_finalize sp p' k)) \<in> set m"
    using split_entry [OF assms(1) e(1)] by blast
  have "i \<in> set (sub_instances sp plan k)"
    using assms(2) holds_match [OF e(2)] by (simp add: sub_instances_def)
  then have "strip (pl_instance plan ! i) \<in> set (map strip (pl_instance p'))"
    using filled [OF e(1) p'(1)] by simp
  moreover have "n = sp_id sp k" using assigned_entry [OF e(1)] by blast
  ultimately show ?thesis using p'(2) e(2) unfolding set_map by blast
qed

end

lemma locality_finalize_refs:
  assumes "refs_ok p" "in_step p"
  shows "refs_ok (fst (locality_finalize fresh p k))"
  using assms in_step_length [OF assms(2)]
  by (fastforce simp: locality_finalize_def refs_ok_def Let_def new_mdd_def)

section \<open>Different processes\<close>

definition kept_apart :: "'d plan \<Rightarrow> locality_key \<Rightarrow> bool" where
  "kept_apart plan k \<longleftrightarrow> (\<forall>loc \<in> set (pl_localityConstraint plan). lo_constraint loc = PlanDifferentProcess \<longrightarrow>
     (\<forall>i \<in> set (lk_instances k). \<forall>j \<in> set (lk_instances k).
       i \<in> set (lo_instanceRef loc) \<longrightarrow> j \<in> set (lo_instanceRef loc) \<longrightarrow> i = j))"

lemma kept_apart_prepare:
  assumes "kept_apart plan k" "lk_instances k = [] \<or> locality_match_sub_plan plan i k"
  shows "kept_apart plan (snd (locality_prepare plan i p k))"
proof (cases "has_instance k i \<or> lk_instances k = []")
  case False
  then have "list_all (locality_allows i k) (pl_localityConstraint plan)"
    using assms(2) by (simp add: locality_match_sub_plan_def)
  then have "j = i \<or> j \<notin> set (lk_instances k)"
    if "loc \<in> set (pl_localityConstraint plan)" "lo_constraint loc = PlanDifferentProcess"
      "i \<in> set (lo_instanceRef loc)" "j \<in> set (lo_instanceRef loc)" for loc j
    using that by (fastforce simp: list_all_iff locality_allows_def has_instance_def)
  with assms(1) show ?thesis
    by (auto simp: kept_apart_def)
qed (use assms(1) in \<open>auto simp: kept_apart_def has_instance_def\<close>)

lemma set_map_put_subset: "set (map_put k v m) \<subseteq> insert (k, v) (set m)"
  by (induction k v m rule: map_put.induct) auto

definition key_set :: "('k, 'd) sub_plans \<Rightarrow> 'k set" where
  "key_set m = (\<lambda>e. fst (snd e)) ` set m"

lemma key_set_find: "find_sub_plan sp plan i m = Some (k, p) \<Longrightarrow> k \<in> key_set m \<and> sp_match_sub_plan sp plan i k"
  using find_some [of sp plan i m k p] by (force simp: key_set_def)

lemma key_set_erase: "key_set (map_erase n m) \<subseteq> key_set m"
  by (auto simp: key_set_def map_erase_def)

lemma key_set_map_put: "key_set (map_put n (k, p) m) \<subseteq> insert k (key_set m)"
  using set_map_put_subset [of n "(k, p)" m] by (force simp: key_set_def)

lemma key_set_put: "key_set (put_sub_plan sp k p m) \<subseteq> insert k (key_set m)"
proof (cases "map_get m (sp_id sp k)")
  case (Some kp)
  then have "fst kp \<in> key_set m"
    using map_of_set [OF Some] by (force simp: key_set_def)
  with Some key_set_map_put [of "sp_id sp k" "fst kp" p m] show ?thesis
    by (auto simp: put_sub_plan_def split: prod.splits)
qed (use key_set_map_put [of "sp_id sp k" k p m] in \<open>simp add: put_sub_plan_def\<close>)

lemma kept_apart_assign:
  fixes plan :: "'d plan"
  assumes "\<forall>k \<in> key_set m. kept_apart plan k"
  shows "\<forall>k \<in> key_set (assign_instance (locality_splitter fresh) plan f i m). kept_apart plan k"
proof -
  let ?sp = "locality_splitter fresh :: (locality_key, locality_filter, 'd) splitter"
  have prep: "sp_prepare ?sp = locality_prepare" by (simp add: locality_splitter_def)
  have new: "kept_apart plan (snd (locality_prepare plan i q new_locality_key))" for q
    by (rule kept_apart_prepare) (simp_all add: kept_apart_def new_locality_key_def)
  show ?thesis
  proof (cases "find_sub_plan ?sp plan i m")
    case None
    obtain p k where pk: "locality_prepare plan i (new_sub_plan plan (length m)) (sp_new_key ?sp) = (p, k)" by force
    then have "kept_apart plan k"
      using new [of "new_sub_plan plan (length m)"] by (simp add: locality_splitter_def)
    with assms None pk key_set_put [of ?sp k p m] show ?thesis
      by (auto simp: assign_instance_def prep)
  next
    case (Some kp)
    obtain k p where kp: "kp = (k, p)" by (cases kp)
    obtain p' k' where pk: "locality_prepare plan i p k = (p', k')" by force
    have "kept_apart plan k" "locality_match_sub_plan plan i k"
      using key_set_find [OF Some [unfolded kp]] assms by (auto simp: locality_splitter_def)
    then have "kept_apart plan k'" using kept_apart_prepare [of plan k i p] pk by simp
    with assms Some kp pk key_set_put [of ?sp k' p' "map_erase (sp_id ?sp k) m"] key_set_erase [of "sp_id ?sp k" m]
    show ?thesis by (auto simp: assign_instance_def prep)
  qed
qed

lemma kept_apart_all: "\<forall>k \<in> key_set (assign_instances (locality_splitter fresh) plan f). kept_apart plan k"
proof -
  have "\<forall>k \<in> key_set m. kept_apart plan k \<Longrightarrow>
      \<forall>k \<in> key_set (fold (assign_instance (locality_splitter fresh) plan f) is m). kept_apart plan k" for "is" m
    by (induction "is" arbitrary: m) (simp, metis kept_apart_assign fold_simps(2))
  from this [of "[]"] show ?thesis by (simp add: assign_instances_def key_set_def)
qed

section \<open>Plans whose localities decide\<close>

text \<open>
  Two instances in the same groups are told apart by no constraint on the same process. A plan is
  separable when every two instances of a node that are to be in different processes are told apart:
  then the second step finds the instances of a key again, and no others.
\<close>

definition same_groups :: "'d plan \<Rightarrow> nat \<Rightarrow> nat \<Rightarrow> bool" where
  "same_groups plan i j \<longleftrightarrow> list_all (\<lambda>loc. lo_constraint loc = PlanSameProcess \<longrightarrow>
     (i \<in> set (lo_instanceRef loc)) = (j \<in> set (lo_instanceRef loc))) (pl_localityConstraint plan)"

definition separable :: "'d plan \<Rightarrow> bool" where
  "separable plan \<longleftrightarrow> list_all (\<lambda>loc. lo_constraint loc = PlanDifferentProcess \<longrightarrow>
     list_all (\<lambda>i. list_all (\<lambda>j. i \<noteq> j \<and> node_of plan i = node_of plan j \<longrightarrow> \<not> same_groups plan i j)
       (lo_instanceRef loc)) (lo_instanceRef loc)) (pl_localityConstraint plan)"

definition key_matches :: "'d plan \<Rightarrow> nat \<Rightarrow> locality_key \<Rightarrow> bool" where
  "key_matches plan i k \<longleftrightarrow> lk_node k = node_of plan i \<and> same_groups plan i (hd (lk_instances k))"

text \<open>What the keys are after the instances below \<open>n\<close>.\<close>

definition key_ok :: "'d plan \<Rightarrow> nat \<Rightarrow> locality_key \<Rightarrow> bool" where
  "key_ok plan n k \<longleftrightarrow> lk_instances k \<noteq> [] \<and> sorted_wrt (<) (lk_instances k)
     \<and> (\<forall>i \<in> set (lk_instances k). i < n \<and> key_matches plan i k)
     \<and> (has_locality_manager k \<or> lk_manager k = - 1)
     \<and> (has_locality_manager k \<longrightarrow> is_locality_manager plan (lk_instances k ! locality_manager_instance k))"

definition keys_apart :: "'d plan \<Rightarrow> locality_key set \<Rightarrow> bool" where
  "keys_apart plan K \<longleftrightarrow> (\<forall>k \<in> K. \<forall>k' \<in> K. k \<noteq> k' \<longrightarrow> \<not> key_matches plan (hd (lk_instances k)) k')"

lemma same_groups_refl [simp]: "same_groups plan i i"
  by (simp add: same_groups_def list_all_iff)

lemma same_groups_sym: "same_groups plan i j \<Longrightarrow> same_groups plan j i"
  by (auto simp: same_groups_def list_all_iff)

lemma same_groups_trans: "same_groups plan i j \<Longrightarrow> same_groups plan j l \<Longrightarrow> same_groups plan i l"
  by (auto simp: same_groups_def list_all_iff)

lemma match_new_instance:
  assumes "locality_match_sub_plan plan i k" "\<not> has_instance k i" "lk_instances k \<noteq> []"
  shows "key_matches plan i k"
proof -
  obtain x xs where "lk_instances k = x # xs" using assms(3) by (cases "lk_instances k") auto
  with assms(1,2) show ?thesis
    by (fastforce simp: locality_match_sub_plan_def key_matches_def same_groups_def list_all_iff locality_allows_def Let_def)
qed

lemma matches_key:
  assumes "separable plan" "key_ok plan n k" "key_matches plan i k"
  shows "locality_match_sub_plan plan i k"
proof -
  have node: "lk_node k = node_of plan i" and groups: "same_groups plan i (hd (lk_instances k))"
    using assms(3) by (simp_all add: key_matches_def)
  obtain x xs where inst: "lk_instances k = x # xs" using assms(2) by (cases "lk_instances k") (auto simp: key_ok_def)
  have "locality_allows i k loc" if loc: "loc \<in> set (pl_localityConstraint plan)" for loc
  proof (cases "lo_constraint loc")
    case PlanSameProcess
    with groups loc inst show ?thesis by (auto simp: locality_allows_def same_groups_def list_all_iff Let_def)
  next
    case PlanDifferentProcess
    have "j = i \<or> \<not> has_instance k j" if "i \<in> set (lo_instanceRef loc)" "j \<in> set (lo_instanceRef loc)" for j
    proof (rule ccontr)
      assume "\<not> (j = i \<or> \<not> has_instance k j)"
      then have "j \<noteq> i" "key_matches plan j k" using assms(2) by (auto simp: key_ok_def has_instance_def)
      then have "node_of plan i = node_of plan j" "same_groups plan i j"
        using node groups by (auto simp: key_matches_def intro: same_groups_trans same_groups_sym)
      with assms(1) loc PlanDifferentProcess that \<open>j \<noteq> i\<close> show False
        by (fastforce simp: separable_def list_all_iff)
    qed
    with PlanDifferentProcess show ?thesis by (auto simp: locality_allows_def list_all_iff Let_def)
  qed (simp add: locality_allows_def)
  with node show ?thesis by (simp add: locality_match_sub_plan_def list_all_iff)
qed

lemma manager_below: "has_locality_manager k \<longleftrightarrow> unat (lk_manager k) < length (lk_instances k)"
  unfolding has_locality_manager_def by (metis of_nat_less_iff uint_nat)

lemma prepare_manager:
  "i \<notin> set (lk_instances k) \<Longrightarrow> lk_manager (snd (locality_prepare plan i p k)) =
    (if \<not> unat (lk_manager k) < Suc (length (lk_instances k)) \<and> is_locality_manager plan i
     then word_of_nat (length (lk_instances k)) else lk_manager k)"
  by (simp add: locality_prepare_def Let_def enter_instance_def add_instance_def has_instance_def
      manager_below set_locality_manager_def)

lemma key_ok_prepare:
  assumes "key_ok plan i k \<or> k = new_locality_key" "Suc i < 2 ^ 32"
    and "k = new_locality_key \<or> locality_match_sub_plan plan i k"
  shows "key_ok plan (Suc i) (snd (locality_prepare plan i p k))"
proof -
  let ?k = "snd (locality_prepare plan i p k)"
  have below: "\<forall>j \<in> set (lk_instances k). j < i" and sorted: "sorted_wrt (<) (lk_instances k)"
    using assms(1) by (auto simp: key_ok_def new_locality_key_def)
  then have i: "i \<notin> set (lk_instances k)" by auto
  have inst: "lk_instances ?k = lk_instances k @ [i]" using i by simp
  have "distinct (lk_instances k)" using sorted strict_sorted_iff by blast
  then have "length (lk_instances k) \<le> i"
    using below card_mono [of "{..<i}" "set (lk_instances k)"] by (auto simp: distinct_card)
  then have len: "length (lk_instances k) < 2 ^ 32" "Suc (length (lk_instances k)) < 2 ^ 32" using assms(2) by auto
  have "lk_node k = node_of plan i \<or> lk_instances k = []"
    using assms(1,3) by (auto simp: locality_match_sub_plan_def new_locality_key_def)
  then have matches: "key_matches plan j ?k" if "j = i \<or> j \<in> set (lk_instances k)" for j
  proof (cases "lk_instances k = []")
    case False
    then have "key_matches plan i k" "j \<in> set (lk_instances k) \<Longrightarrow> key_matches plan j k"
      using assms(1,3) i match_new_instance [of plan i k]
      by (auto simp: key_ok_def has_instance_def new_locality_key_def)
    with that False show ?thesis by (auto simp: key_matches_def inst)
  qed (use that i in \<open>simp add: key_matches_def inst\<close>)
  have manager: "(has_locality_manager ?k \<or> lk_manager ?k = - 1)
      \<and> (has_locality_manager ?k \<longrightarrow> is_locality_manager plan (lk_instances ?k ! locality_manager_instance ?k))"
  proof (cases "has_locality_manager k")
    case True
    then have "unat (lk_manager k) < length (lk_instances k)" by (simp add: manager_below)
    moreover from this have "lk_manager ?k = lk_manager k" using prepare_manager [OF i] by simp
    moreover have "is_locality_manager plan (lk_instances k ! unat (lk_manager k))"
      using True assms(1) by (auto simp: key_ok_def locality_manager_instance_def manager_below new_locality_key_def)
    ultimately show ?thesis by (simp add: manager_below locality_manager_instance_def inst nth_append)
  next
    case False
    then have "lk_manager k = - 1" using assms(1) by (auto simp: key_ok_def new_locality_key_def)
    then have "lk_manager ?k = (if is_locality_manager plan i then word_of_nat (length (lk_instances k)) else - 1)"
      "unat (- 1 :: 32 word) = 2 ^ 32 - 1"
      using prepare_manager [OF i, of plan p] len by (simp_all add: unsigned_minus_1_eq_mask mask_eq_exp_minus_1)
    moreover have "unat (word_of_nat (length (lk_instances k)) :: 32 word) = length (lk_instances k)"
      using len by (simp add: unsigned_of_nat take_bit_nat_eq_self)
    ultimately show ?thesis
      using len i by (auto simp: manager_below locality_manager_instance_def inst nth_append)
  qed
  show ?thesis
    using below sorted matches manager by (auto simp: key_ok_def inst sorted_wrt_append less_Suc_eq)
qed

lemma keys_apart_replace:
  assumes "keys_apart plan K" "k \<in> K" "k' \<noteq> k" "hd (lk_instances k') = hd (lk_instances k)" "lk_node k' = lk_node k"
  shows "keys_apart plan (insert k' (K - {k}))"
  using assms by (auto simp: keys_apart_def key_matches_def)

text \<open>The state after the instances below \<open>n\<close>, as a set of keys.\<close>

definition keys_inv :: "'d plan \<Rightarrow> nat \<Rightarrow> locality_key set \<Rightarrow> bool" where
  "keys_inv plan n K \<longleftrightarrow> (\<forall>k \<in> K. key_ok plan n k) \<and> keys_apart plan K"

lemma key_ok_mono: "key_ok plan n k \<Longrightarrow> key_ok plan (Suc n) k"
  by (auto simp: key_ok_def)

lemma keys_inv_new:
  assumes "separable plan" "keys_inv plan i K" "Suc i < 2 ^ 32" "\<forall>k \<in> K. \<not> locality_match_sub_plan plan i k"
  shows "keys_inv plan (Suc i) (insert (snd (locality_prepare plan i p new_locality_key)) K)"
proof -
  let ?k = "snd (locality_prepare plan i p new_locality_key)"
  have inst: "lk_instances ?k = [i]" "lk_node ?k = node_of plan i" by (simp_all add: new_locality_key_def)
  have "key_ok plan (Suc i) ?k" using key_ok_prepare assms(3) by blast
  moreover have apart: "\<not> key_matches plan i k" if "k \<in> K" for k
    using that assms(2,4) matches_key [OF assms(1), of i k i] by (auto simp: keys_inv_def)
  moreover have "\<not> key_matches plan (hd (lk_instances k)) ?k" if "k \<in> K" for k
  proof
    assume m: "key_matches plan (hd (lk_instances k)) ?k"
    have "key_matches plan (hd (lk_instances k)) k"
      using that assms(2) by (auto simp: keys_inv_def key_ok_def)
    with m have "key_matches plan i k"
      by (auto simp: key_matches_def new_locality_key_def intro: same_groups_sym)
    with apart [OF that] show False ..
  qed
  ultimately show ?thesis
    using assms(2) by (auto simp: keys_inv_def keys_apart_def new_locality_key_def key_ok_mono)
qed

lemma keys_inv_found:
  assumes "keys_inv plan i K" "Suc i < 2 ^ 32" "k \<in> K" "locality_match_sub_plan plan i k"
  shows "keys_inv plan (Suc i) (insert (snd (locality_prepare plan i p k)) (K - {k}))"
proof -
  let ?k = "snd (locality_prepare plan i p k)"
  have k: "key_ok plan i k" using assms(1,3) by (simp add: keys_inv_def)
  then have "i \<notin> set (lk_instances k)" "lk_instances k \<noteq> []" by (auto simp: key_ok_def)
  moreover have "lk_node k = node_of plan i" using assms(4) by (simp add: locality_match_sub_plan_def)
  ultimately have same: "hd (lk_instances ?k) = hd (lk_instances k)" "lk_node ?k = lk_node k" "?k \<noteq> k"
    by (auto dest: arg_cong [of _ _ lk_instances])
  have "key_ok plan (Suc i) ?k" using key_ok_prepare k assms(2,4) by blast
  with keys_apart_replace [OF _ assms(3) same(3,1,2)] assms(1) show ?thesis
    by (auto simp: keys_inv_def key_ok_mono)
qed

text \<open>The assignment keeps it: the keys of the map are replaced as those of the set.\<close>

lemma key_set_ok: "map_ok m \<Longrightarrow> k \<in> key_set m \<longleftrightarrow> (\<exists>n p. map_get m n = Some (k, p))"
  by (force simp: key_set_def simp flip: set_map_get)

lemma set_map_put_new: "k \<notin> map_keys m \<Longrightarrow> set (map_put k v m) = insert (k, v) (set m)"
  by (induction k v m rule: map_put.induct) (auto simp: map_keys_def)

lemma key_set_put_new: "map_get m n = None \<Longrightarrow> key_set (map_put n (k, p) m) = insert k (key_set m)"
  using set_map_put_new [of n m "(k, p)"] map_get_dom [of n m] by (simp add: key_set_def)

lemma key_set_iff: "x \<in> key_set m \<longleftrightarrow> (\<exists>j q. (j, x, q) \<in> set m)"
  by (force simp: key_set_def)

lemma map_erase_iff: "(j, v) \<in> set (map_erase n m) \<longleftrightarrow> (j, v) \<in> set m \<and> j \<noteq> n"
  by (auto simp: map_erase_def)

lemma key_set_replace:
  assumes "map_ok m" "map_get m n = Some (k, p)" "\<And>j q. map_get m j = Some (k, q) \<Longrightarrow> j = n"
  shows "key_set (map_put n (k', p') (map_erase n m)) = insert k' (key_set m - {k})"
proof -
  have "k1 \<noteq> k \<longleftrightarrow> j \<noteq> n" if "(j, k1, q) \<in> set m" for j k1 q
    using that [unfolded set_map_get [OF assms(1)]] assms(2,3) by (metis option.inject prod.inject)
  then have eq: "(j, x, q) \<in> set m \<and> j \<noteq> n \<longleftrightarrow> (j, x, q) \<in> set m \<and> x \<noteq> k" for j x q by metis
  have "x \<in> key_set (map_erase n m) \<longleftrightarrow> x \<in> key_set m - {k}" for x
    by (simp add: key_set_iff map_erase_iff eq)
  then have "key_set (map_erase n m) = key_set m - {k}" by blast
  moreover have "map_get (map_erase n m) n = None" using assms(1) by (simp add: smap.get_del)
  ultimately show ?thesis by (simp add: key_set_put_new)
qed

lemma keys_inv_step:
  fixes plan :: "'d plan"
  assumes "separable plan" "keys_inv plan i (key_set m)" "Suc i < 2 ^ 32"
    and "plan_splitter.assigned (locality_splitter fresh) plan
      (\<lambda>k i. has_instance k i \<and> lk_node k = node_of plan i) (uuids_ok plan) I m"
  shows "keys_inv plan (Suc i) (key_set (assign_instance (locality_splitter fresh) plan no_filter i m))"
proof -
  let ?sp = "locality_splitter fresh :: (locality_key, locality_filter, 'd) splitter"
  have ops: "sp_prepare ?sp = locality_prepare" "sp_new_key ?sp = new_locality_key" "sp_id ?sp = lk_uuid"
    "sp_match_instance ?sp plan i no_filter" "sp_match_sub_plan ?sp = locality_match_sub_plan"
    by (simp_all add: locality_splitter_def locality_match_instance_def no_filter_def)
  have m: "map_ok m" "uuids_ok plan m" "\<And>n k p. map_get m n = Some (k, p) \<Longrightarrow> n = lk_uuid k"
    using assms(4) by (auto simp: locality.assigned_def ops(3))
  show ?thesis
  proof (cases "find_sub_plan ?sp plan i m")
    case None
    obtain p k where pk: "locality_prepare plan i (new_sub_plan plan (length m)) new_locality_key = (p, k)" by force
    then have new: "map_get m (lk_uuid k) = None"
      using locality.ids_new [OF m(2,1) None] by (simp add: ops)
    then have "key_set (put_sub_plan ?sp k p m) = insert k (key_set m)"
      by (simp add: put_sub_plan_def ops key_set_put_new)
    moreover have "\<forall>k \<in> key_set m. \<not> locality_match_sub_plan plan i k"
      using None by (force simp: find_none ops key_set_def)
    ultimately show ?thesis
      using keys_inv_new [OF assms(1-3), of "new_sub_plan plan (length m)"] None pk
      by (simp add: assign_instance_def ops)
  next
    case (Some kp)
    obtain k p where kp: "kp = (k, p)" by (cases kp)
    obtain p' k' where pk: "locality_prepare plan i p k = (p', k')" by force
    obtain n where "map_get m n = Some (k, p)" and match: "locality_match_sub_plan plan i k"
      using locality.find_get [OF m(1)] Some kp by (force simp: ops)
    then have get: "map_get m (lk_uuid k) = Some (k, p)" using m(3) by blast
    have id: "lk_uuid k' = lk_uuid k"
      using locality.ids_found [OF m(2,1), where k = k and p = p and i = i and fresh = fresh] get match pk
      by (simp add: ops)
    have "key_set (put_sub_plan ?sp k' p' (map_erase (lk_uuid k) m)) = insert k' (key_set m - {k})"
      using key_set_replace [OF m(1) get m(3)] m(1) id
      by (simp add: put_sub_plan_def ops smap.get_del)
    moreover have "k \<in> key_set m" using get m(1) by (auto simp: key_set_ok)
    ultimately show ?thesis
      using keys_inv_found [OF assms(2,3) _ match, of p] Some kp pk by (simp add: assign_instance_def ops)
  qed
qed

lemma keys_inv_all:
  assumes "separable plan" "length (pl_instance plan) < 2 ^ 32"
  shows "keys_inv plan (length (pl_instance plan)) (key_set (assign_instances (locality_splitter fresh) plan no_filter))"
proof -
  let ?step = "assign_instance (locality_splitter fresh) plan no_filter"
  let ?assigned = "plan_splitter.assigned (locality_splitter fresh) plan
      (\<lambda>k i. has_instance k i \<and> lk_node k = node_of plan i) (uuids_ok plan)"
  have "keys_inv plan n (key_set (fold ?step [0..<n] [])) \<and> (\<exists>I. ?assigned I (fold ?step [0..<n] []))"
    if "n < 2 ^ 32" for n
    using that
  proof (induction n)
    case 0
    have "?assigned {} []" by (simp add: locality.assigned_def locality.ids_start)
    then show ?case by (auto simp: keys_inv_def key_set_def keys_apart_def)
  next
    case (Suc n)
    then obtain I where inv: "keys_inv plan n (key_set (fold ?step [0..<n] []))" "?assigned I (fold ?step [0..<n] [])"
      by auto
    from keys_inv_step [OF assms(1) inv(1) Suc.prems inv(2)] locality.assigned_step [OF inv(2), of n no_filter]
    show ?case by auto
  qed
  from this [OF assms(2)] show ?thesis by (simp add: assign_instances_def)
qed

lemma every_instance_assigned:
  assumes "i < length (pl_instance plan)"
  shows "\<exists>k \<in> key_set (assign_instances (locality_splitter fresh) plan no_filter). has_instance k i"
proof -
  have "sp_match_instance (locality_splitter fresh) plan i no_filter"
    by (simp add: locality_splitter_def locality_match_instance_def no_filter_def)
  then have "\<exists>n k p. map_get (assign_instances (locality_splitter fresh) plan no_filter) n = Some (k, p) \<and> has_instance k i"
    using locality.assigned_all [of fresh plan no_filter, unfolded locality.assigned_def] assms by blast
  then show ?thesis using map_of_set by (fastforce simp: key_set_iff)
qed

lemma same_key:
  assumes "keys_inv plan n K" "k \<in> K" "k' \<in> K" "key_matches plan i k" "has_instance k' i"
  shows "k = k'"
proof (rule ccontr)
  assume "k \<noteq> k'"
  have ok: "key_ok plan n k" "key_ok plan n k'" using assms(1-3) by (auto simp: keys_inv_def)
  then have "key_matches plan i k'" "key_matches plan (hd (lk_instances k)) k"
    using assms(5) by (auto simp: key_ok_def has_instance_def)
  then have "key_matches plan (hd (lk_instances k)) k'"
    using assms(4) by (auto simp: key_matches_def intro: same_groups_trans same_groups_sym)
  with \<open>k \<noteq> k'\<close> assms(1-3) show False by (auto simp: keys_inv_def keys_apart_def)
qed

lemma filter_strict_sorted:
  assumes "sorted_wrt (<) (xs :: nat list)" "\<forall>x \<in> set xs. x < n"
  shows "filter (\<lambda>i. i \<in> set xs) [0..<n] = xs"
proof (rule sorted_distinct_set_unique)
  show "sorted (filter (\<lambda>i. i \<in> set xs) [0..<n])" by (simp add: sorted_wrt_filter)
  show "sorted xs" "distinct xs" using assms(1) strict_sorted_iff by blast+
  show "set (filter (\<lambda>i. i \<in> set xs) [0..<n]) = set xs" using assms(2) by auto
qed simp

lemma sub_instances_assigned:
  assumes "separable plan" "length (pl_instance plan) < 2 ^ 32"
    and k: "k \<in> key_set (assign_instances (locality_splitter fresh) plan no_filter)"
  shows "sub_instances (locality_splitter fresh) plan k = lk_instances k"
proof -
  let ?n = "length (pl_instance plan)" and ?K = "key_set (assign_instances (locality_splitter fresh) plan no_filter)"
  have inv: "keys_inv plan ?n ?K" by (rule keys_inv_all [OF assms(1,2)])
  then have ok: "key_ok plan ?n k" using k by (simp add: keys_inv_def)
  have "locality_match_sub_plan plan i k \<longleftrightarrow> i \<in> set (lk_instances k)" if i: "i < ?n" for i
  proof
    assume match: "locality_match_sub_plan plan i k"
    show "i \<in> set (lk_instances k)"
    proof (rule ccontr)
      assume new: "i \<notin> set (lk_instances k)"
      then have "key_matches plan i k"
        using match_new_instance [OF match] ok by (simp add: has_instance_def key_ok_def)
      moreover obtain k' where "k' \<in> ?K" "has_instance k' i" using every_instance_assigned [OF i] by blast
      ultimately have "k = k'" using same_key [OF inv k] by blast
      with new \<open>has_instance k' i\<close> show False by (simp add: has_instance_def)
    qed
  next
    assume "i \<in> set (lk_instances k)"
    with ok show "locality_match_sub_plan plan i k"
      by (auto simp: key_ok_def key_matches_def locality_match_sub_plan_def has_instance_def)
  qed
  then have "sub_instances (locality_splitter fresh) plan k = filter (\<lambda>i. i \<in> set (lk_instances k)) [0..<?n]"
    by (auto simp: sub_instances_def locality_splitter_def intro: filter_cong)
  also have "\<dots> = lk_instances k"
    using ok by (intro filter_strict_sorted) (auto simp: key_ok_def)
  finally show ?thesis .
qed

text \<open>What copying keeps of the types of the instances.\<close>

definition exec_parameters :: "'d plan \<Rightarrow> 'd properties list" where
  "exec_parameters p = map (\<lambda>x. md_execParameter (pl_implementation p ! id_implementationRef x)) (pl_instance p)"

lemma copy_instances_parameters:
  "copy_instances plan is sub = Some sub' \<Longrightarrow> refs_ok sub \<Longrightarrow> in_step sub \<Longrightarrow>
    exec_parameters sub' = exec_parameters sub
      @ map (\<lambda>i. md_execParameter (pl_implementation plan ! id_implementationRef (pl_instance plan ! i))) is"
proof (induction "is" arbitrary: sub)
  case (Cons i "is")
  then obtain sub1 where sub1: "copy_instance plan i sub = Some sub1" "copy_instances plan is sub1 = Some sub'"
    by (auto split: option.splits)
  have "exec_parameters sub1 = exec_parameters sub
      @ [md_execParameter (pl_implementation plan ! id_implementationRef (pl_instance plan ! i))]"
    using sub1(1) Cons.prems(2)
    by (auto simp: copy_instance_def Let_def exec_parameters_def refs_ok_def nth_append split: if_splits option.splits)
  with Cons.IH [OF sub1(2)] copy_instance_ok [OF sub1(1) Cons.prems(2,3)] show ?case by simp
qed simp

lemma is_locality_manager_parameters:
  "refs_ok p \<Longrightarrow> i < length (pl_instance p) \<Longrightarrow>
    is_locality_manager p i \<longleftrightarrow> get_instance_type (exec_parameters p ! i) = DANCE_LOCALITYMANAGER"
  by (auto simp: is_locality_manager_def exec_parameters_def refs_ok_def Let_def)

lemma filled_parameters:
  assumes "(n, k, p) \<in> set (assign_instances (locality_splitter fresh) plan f)"
    and "copy_instances plan (sub_instances (locality_splitter fresh) plan k) p = Some p'"
  shows "exec_parameters p' = map (\<lambda>i. md_execParameter (pl_implementation plan ! id_implementationRef (pl_instance plan ! i)))
      (sub_instances (locality_splitter fresh) plan k)"
  using copy_instances_parameters [OF assms(2)] empty_body_ok [of plan p] locality.assigned_entry [OF assms(1)]
  by (simp add: exec_parameters_def)

lemma added_manager:
  assumes "refs_ok p" "in_step p" "length (pl_instance p) = length (lk_instances k)" "\<not> has_locality_manager k"
    and "length (pl_instance p) < 2 ^ 32" "locality_finalize fresh p k = (p', k')"
  shows "locality_manager_instance k' < length (pl_instance p') \<and> is_locality_manager p' (locality_manager_instance k')"
proof -
  have "unat (word_of_nat (length (lk_instances k)) :: 32 word) = length (lk_instances k)"
    using assms(3,5) by (simp add: unsigned_of_nat take_bit_nat_eq_self)
  then show ?thesis
    using assms
    by (auto simp: locality_finalize_def Let_def set_locality_manager_def add_instance_def locality_manager_instance_def
        manager_below is_locality_manager_def nth_append new_mdd_def get_instance_type_def)
qed

section \<open>A plan to split\<close>

definition three_instances :: "int plan" where
  "three_instances = new_plan
     \<lparr>pl_UUID := ''u'', pl_implementation := [new_mdd],
      pl_instance := map (\<lambda>n. new_idd\<lparr>id_name := n, id_node := ''N''\<rparr>) [''a'', ''b'', ''c''],
      pl_localityConstraint := [\<lparr>lo_constraint = PlanDifferentProcess, lo_instanceRef = [0, 1]\<rparr>]\<rparr>"

definition split_summary :: "(locality_key, 'd) sub_plans option \<Rightarrow> (nat list \<times> nat \<times> string list) list" where
  "split_summary m = (case m of None \<Rightarrow> [] | Some m \<Rightarrow>
     map (\<lambda>(n, k, p). (lk_instances k, locality_manager_instance k, map id_name (pl_instance p))) m)"

lemma filter_nodes:
  "map (\<lambda>i. strip (pl_instance plan ! i)) (sub_instances node_splitter plan n)
    = map strip (filter (\<lambda>x. id_node x = n) (pl_instance plan))"
proof -
  have "map (nth (pl_instance plan)) (filter (\<lambda>i. n = node_of plan i) [0..<length (pl_instance plan)])
      = filter (\<lambda>x. n = id_node x) (map (nth (pl_instance plan)) [0..<length (pl_instance plan)])"
    by (simp add: filter_map comp_def node_of_def)
  moreover have "filter (\<lambda>x. n = id_node x) (pl_instance plan) = filter (\<lambda>x. id_node x = n) (pl_instance plan)"
    by (rule filter_cong) auto
  ultimately have "map (nth (pl_instance plan)) (sub_instances node_splitter plan n) = filter (\<lambda>x. id_node x = n) (pl_instance plan)"
    by (simp add: sub_instances_def node_splitter_def node_match_sub_plan_def map_nth)
  from arg_cong [OF this, of "map strip"] show ?thesis by (simp add: comp_def)
qed

section \<open>Properties\<close>

text \<open>
  C7. A plan split by node has a sub plan for the node of every instance, and the sub plan of a node
  holds exactly the instances on that node, in the order of the plan and unchanged but for the index
  of their implementation; every index inside a sub plan is one of that sub plan.
\<close>

theorem split_by_node:
  assumes "split_plan node_splitter plan [] = Some m"
  shows "(\<forall>i < length (pl_instance plan). \<exists>p. (node_of plan i, node_of plan i, p) \<in> set m)
    \<and> (\<forall>(n, k, p) \<in> set m. k = n \<and> refs_ok p
        \<and> map strip (pl_instance p) = map strip (filter (\<lambda>x. id_node x = n) (pl_instance plan)))"
proof (intro conjI allI impI ballI)
  fix i assume "i < length (pl_instance plan)"
  from node.instance_in_sub_plan [OF assms this] show "\<exists>p. (node_of plan i, node_of plan i, p) \<in> set m"
    by (auto simp: node_splitter_def node_match_instance_def)
next
  fix e assume "e \<in> set m"
  obtain n k p where e: "e = (n, k, p)" by (cases e)
  then obtain k0 p0 p1 where a: "(n, k0, p0) \<in> set (assign_instances node_splitter plan [])"
    "copy_instances plan (sub_instances node_splitter plan k0) p0 = Some p1" "sp_finalize node_splitter p1 k0 = (p, k)"
    using split_origin [OF assms, of n k p] \<open>e \<in> set m\<close> by blast
  then have "k0 = k" "p1 = p" "n = k" using node.assigned_entry [OF a(1)] by (simp_all add: node_splitter_def)
  with node.filled [OF a(1,2)] show "case e of (n, k, p) \<Rightarrow> k = n \<and> refs_ok p
      \<and> map strip (pl_instance p) = map strip (filter (\<lambda>x. id_node x = n) (pl_instance plan))"
    by (simp add: e filter_nodes)
qed

theorem split_by_node_witness:
  "\<exists>m p. split_plan node_splitter three_instances [] = Some m \<and> (''N'', ''N'', p) \<in> set m"
proof -
  have "case split_plan node_splitter three_instances [] of None \<Rightarrow> False | Some _ \<Rightarrow> True" by code_simp
  then obtain m where m: "split_plan node_splitter three_instances [] = Some m" by (auto split: option.splits)
  have "0 < length (pl_instance three_instances)" "node_of three_instances 0 = ''N''" by code_simp+
  with split_by_node [OF m] m show ?thesis by metis
qed

text \<open>
  A plan split by locality loses no instance: each is in a sub plan for its node; and every index
  inside a sub plan is one of that sub plan, the locality manager that was added included.
\<close>

theorem split_by_locality_complete:
  assumes "split_plan (locality_splitter fresh) plan no_filter = Some m"
  shows "(\<forall>i < length (pl_instance plan). \<exists>n k p. (n, k, p) \<in> set m \<and> lk_node k = node_of plan i
      \<and> strip (pl_instance plan ! i) \<in> strip ` set (pl_instance p))
    \<and> (\<forall>(n, k, p) \<in> set m. refs_ok p)"
proof (intro conjI allI impI ballI)
  fix i assume i: "i < length (pl_instance plan)"
  have "sp_match_instance (locality_splitter fresh) plan i no_filter"
    by (simp add: locality_splitter_def locality_match_instance_def no_filter_def)
  from locality.instance_in_sub_plan [OF assms i this] obtain k p where
    kp: "(lk_uuid k, snd (locality_finalize fresh p k), fst (locality_finalize fresh p k)) \<in> set m"
    "lk_node k = node_of plan i" "strip (pl_instance plan ! i) \<in> strip ` set (pl_instance p)"
    by (auto simp: locality_splitter_def)
  moreover have "lk_node (snd (locality_finalize fresh p k)) = lk_node k"
    by (simp add: locality_finalize_def Let_def set_locality_manager_def add_instance_def)
  moreover have "set (pl_instance p) \<subseteq> set (pl_instance (fst (locality_finalize fresh p k)))"
    by (auto simp: locality_finalize_def Let_def)
  ultimately show "\<exists>n k p. (n, k, p) \<in> set m \<and> lk_node k = node_of plan i
      \<and> strip (pl_instance plan ! i) \<in> strip ` set (pl_instance p)"
    by (metis image_mono subsetD)
next
  fix e assume "e \<in> set m"
  obtain n k p where e: "e = (n, k, p)" by (cases e)
  then obtain k0 p0 p1 where a: "(n, k0, p0) \<in> set (assign_instances (locality_splitter fresh) plan no_filter)"
    "copy_instances plan (sub_instances (locality_splitter fresh) plan k0) p0 = Some p1"
    "sp_finalize (locality_splitter fresh) p1 k0 = (p, k)"
    using split_origin [OF assms, of n k p] \<open>e \<in> set m\<close> by blast
  then have "locality_finalize fresh p1 k0 = (p, k)" by (simp add: locality_splitter_def)
  with locality_finalize_refs [of p1 fresh k0] locality.filled [OF a(1,2)]
  show "case e of (n, k, p) \<Rightarrow> refs_ok p" by (simp add: e)
qed

theorem split_by_locality_complete_witness:
  "\<exists>m n k p. split_plan (locality_splitter (\<lambda>_. [])) three_instances no_filter = Some m
    \<and> (n, k, p) \<in> set m \<and> lk_node k = ''N'' \<and> refs_ok p"
proof -
  let ?s = "split_plan (locality_splitter (\<lambda>_. [])) three_instances no_filter"
  have "case ?s of None \<Rightarrow> False | Some _ \<Rightarrow> True" by code_simp
  then obtain m where m: "?s = Some m" by (auto split: option.splits)
  have "0 < length (pl_instance three_instances)" "node_of three_instances 0 = ''N''" by code_simp+
  with split_by_locality_complete [OF m] m show ?thesis by fastforce
qed

text \<open>
  No key is assigned two instances that a constraint wants in different processes.
\<close>

theorem different_processes_assigned_apart:
  assumes "(n, k, p) \<in> set (assign_instances (locality_splitter fresh) plan f)"
    and "loc \<in> set (pl_localityConstraint plan)" "lo_constraint loc = PlanDifferentProcess"
    and "i \<in> set (lo_instanceRef loc)" "j \<in> set (lo_instanceRef loc)" "i \<noteq> j" "has_instance k i"
  shows "\<not> has_instance k j"
proof -
  have "k \<in> key_set (assign_instances (locality_splitter fresh) plan f)"
    using assms(1) by (force simp: key_set_def)
  with kept_apart_all [of fresh plan f] have "kept_apart plan k" by blast
  with assms(2-) show ?thesis by (auto simp: kept_apart_def has_instance_def)
qed

lemma first_assigned:
  "assign_instances (locality_splitter (\<lambda>_. [])) three_instances no_filter \<noteq> []
    \<and> has_instance (fst (snd (hd (assign_instances (locality_splitter (\<lambda>_. [])) three_instances no_filter)))) 0"
  by code_simp

theorem different_processes_assigned_apart_witness:
  "\<not> has_instance (fst (snd (hd (assign_instances (locality_splitter (\<lambda>_. [])) three_instances no_filter)))) 1"
proof -
  let ?m = "assign_instances (locality_splitter (\<lambda>_. [])) three_instances no_filter"
  obtain n k p where e: "hd ?m = (n, k, p)" by (cases "hd ?m")
  then have "(n, k, p) \<in> set ?m" "has_instance k 0" using first_assigned by (metis hd_in_set, simp)
  from different_processes_assigned_apart [OF this(1), of "\<lparr>lo_constraint = PlanDifferentProcess, lo_instanceRef = [0, 1]\<rparr>" 0 1]
    this(2)
  have "\<not> has_instance k 1" by (simp add: three_instances_def)
  then show ?thesis by (simp only: e fst_conv snd_conv not_False_eq_True)
qed

text \<open>
  The second step matches the instances against the keys once more, and an instance that no
  constraint keeps out matches every key of its node. With instances a and b in different processes
  and c on the same node, c is in both sub plans; and the index of the locality manager that is added to
  the second, which counts the assigned instances, is the index of c.
\<close>

theorem split_duplicates_instance:
  "split_summary (split_plan (locality_splitter (\<lambda>_. [])) three_instances no_filter) =
    [([0, 2, 2], 2, [''a'', ''c'', ''Locality Manager []'']),
     ([1, 2], 1, [''b'', ''c'', ''Locality Manager []''])]"
  by code_simp

text \<open>
  C3. In a separable plan the sub plan of a locality holds exactly the instances assigned to its key, and
  each instance is assigned to exactly one key.
\<close>

theorem split_by_locality_exact:
  assumes "separable plan" "length (pl_instance plan) < 2 ^ 32"
  shows "(\<forall>k \<in> key_set (assign_instances (locality_splitter fresh) plan no_filter).
      sub_instances (locality_splitter fresh) plan k = lk_instances k)
    \<and> (\<forall>i < length (pl_instance plan).
      \<exists>!k. k \<in> key_set (assign_instances (locality_splitter fresh) plan no_filter) \<and> has_instance k i)"
proof (intro conjI ballI allI impI)
  let ?K = "key_set (assign_instances (locality_splitter fresh) plan no_filter)"
  have inv: "keys_inv plan (length (pl_instance plan)) ?K" by (rule keys_inv_all [OF assms])
  fix i assume i: "i < length (pl_instance plan)"
  obtain k where k: "k \<in> ?K" "has_instance k i" using every_instance_assigned [OF i] by blast
  show "\<exists>!k. k \<in> ?K \<and> has_instance k i"
  proof (rule ex1I [of _ k])
    fix k' assume k': "k' \<in> ?K \<and> has_instance k' i"
    then have "key_matches plan i k'" using inv by (auto simp: keys_inv_def key_ok_def has_instance_def)
    with same_key [OF inv, of k' k i] k k' show "k' = k" by blast
  qed (use k in simp)
qed (rule sub_instances_assigned [OF assms])

definition separable_plan :: "int plan" where
  "separable_plan = three_instances\<lparr>pl_localityConstraint := pl_localityConstraint three_instances
     @ [\<lparr>lo_constraint = PlanSameProcess, lo_instanceRef = [0]\<rparr>,
        \<lparr>lo_constraint = PlanSameProcess, lo_instanceRef = [1, 2]\<rparr>]\<rparr>"

lemma separable_example: "separable separable_plan" "length (pl_instance separable_plan) = 3"
  by code_simp+

theorem split_by_locality_exact_witness:
  "\<exists>!k. k \<in> key_set (assign_instances (locality_splitter (\<lambda>_. [])) separable_plan no_filter) \<and> has_instance k 2"
  using split_by_locality_exact [of separable_plan "\<lambda>_. []"] by (simp add: separable_example)

lemma manager_in_sub_plan:
  assumes "separable plan" "length (pl_instance plan) < 2 ^ 32"
    and "split_plan (locality_splitter fresh) plan no_filter = Some m" "(n, k, p) \<in> set m"
  shows "locality_manager_instance k < length (pl_instance p) \<and> is_locality_manager p (locality_manager_instance k)"
proof -
  let ?N = "length (pl_instance plan)" and ?sp = "locality_splitter fresh"
  obtain k0 p0 p1 where a: "(n, k0, p0) \<in> set (assign_instances ?sp plan no_filter)"
    and p1: "copy_instances plan (sub_instances ?sp plan k0) p0 = Some p1" and fin: "sp_finalize ?sp p1 k0 = (p, k)"
    using split_origin [OF assms(3,4)] by blast
  have k0: "k0 \<in> key_set (assign_instances ?sp plan no_filter)" using a by (auto simp: key_set_iff)
  have subs: "sub_instances ?sp plan k0 = lk_instances k0" by (rule sub_instances_assigned [OF assms(1,2) k0])
  note filled = locality.filled [OF a p1]
  then have len: "length (pl_instance p1) = length (lk_instances k0)"
    by (metis length_map subs)
  have ok: "key_ok plan ?N k0" using keys_inv_all [OF assms(1,2), of fresh] k0 by (simp add: keys_inv_def)
  have fin': "locality_finalize fresh p1 k0 = (p, k)" using fin by (simp add: locality_splitter_def)
  show ?thesis
  proof (cases "has_locality_manager k0")
    case True
    then have kp: "k = k0" "p = p1" using fin' by (simp_all add: locality_finalize_def)
    let ?j = "locality_manager_instance k0"
    have j: "?j < length (lk_instances k0)" using True by (simp add: locality_manager_instance_def manager_below)
    have "is_locality_manager plan (lk_instances k0 ! ?j)" using True ok by (simp add: key_ok_def)
    then have "get_instance_type (exec_parameters p1 ! ?j) = DANCE_LOCALITYMANAGER"
      using filled_parameters [OF a p1] j by (simp add: subs is_locality_manager_def Let_def)
    then show ?thesis using is_locality_manager_parameters [of p1 ?j] filled j len by (simp add: kp)
  next
    case False
    have "sub_instances ?sp plan k0 = filter (\<lambda>i. sp_match_sub_plan ?sp plan i k0) [0..<?N]"
      by (simp add: sub_instances_def)
    then have "length (lk_instances k0) \<le> ?N" using length_filter_le [of _ "[0..<?N]"] by (metis subs length_upt minus_nat.diff_0)
    with False added_manager [OF _ _ len False _ fin'] filled assms(2) len show ?thesis by simp
  qed
qed

text \<open>
  C12. In a separable plan the index that the key of a sub plan has for the locality manager, which the
  node manager installs first, is that of an instance of the sub plan whose type is locality manager.
\<close>

theorem locality_manager_found:
  assumes "separable plan" "length (pl_instance plan) < 2 ^ 32"
    and "split_plan (locality_splitter fresh) plan no_filter = Some m" "(n, k, p) \<in> set m"
  shows "locality_manager_instance k < length (pl_instance p) \<and> is_locality_manager p (locality_manager_instance k)"
  by (rule manager_in_sub_plan [OF assms])

theorem locality_manager_found_witness:
  "\<exists>n k p. split_plan (locality_splitter (\<lambda>_. [])) separable_plan no_filter \<noteq> None
    \<and> (n, k, p) \<in> set (the (split_plan (locality_splitter (\<lambda>_. [])) separable_plan no_filter))
    \<and> is_locality_manager p (locality_manager_instance k)"
proof -
  let ?s = "split_plan (locality_splitter (\<lambda>_. [])) separable_plan no_filter"
  have "case ?s of None \<Rightarrow> False | Some m \<Rightarrow> m \<noteq> []" by code_simp
  then obtain m where m: "?s = Some m" "m \<noteq> []" by (auto split: option.splits)
  obtain n k p where e: "(n, k, p) \<in> set m" using m(2) by (cases m) auto
  have "is_locality_manager p (locality_manager_instance k)"
    using locality_manager_found [OF _ _ m(1) e] separable_example by simp
  with m(1) e show ?thesis by fastforce
qed

end
