(* ===== verification/Domain_Manager.thy ===== *)
theory Domain_Manager
  imports Domain_Application Node_Locator Split_Plan
begin

text \<open>
  The managers of a domain, dancex11/domain_deployment_handler: the application manager of a plan
  (dancex11_ddh_application_manager_impl.cpp), which splits the plan by node and has the node manager of
  each node prepare its part, and the execution manager (dancex11_execution_manager_impl.cpp), which keeps
  one application manager per plan.

  A new object gets the reference \<open>ref\<close>, chosen by the POA.
\<close>

section \<open>Results and reply handlers\<close>

record nm_result =
  nr_nm :: "nat option"
  nr_node :: string
  nr_am :: "nat option"
  nr_error :: string

definition nm_error :: "string \<Rightarrow> nm_result" where
  "nm_error e = \<lparr>nr_nm = None, nr_node = [], nr_am = None, nr_error = e\<rparr>"

definition prepare_error :: "(exn \<Rightarrow> string) \<Rightarrow> string \<Rightarrow> exn \<Rightarrow> string" where
  "prepare_error sh node e =
     (case e of
        UserEx PlanError n r \<Rightarrow> node @ '' - PlanError exception starting preparePlan : '' @ n @ '', '' @ r
      | UserEx StartError _ _ \<Rightarrow> node @ '' - StartError exception starting preparePlan : '' @ sh e
      | _ \<Rightarrow> sending_error sh ''starting preparePlan'' ''exception starting preparePlan'' node e)"

definition prepare_reply :: "(exn \<Rightarrow> string) \<Rightarrow> nat \<Rightarrow> string \<Rightarrow> exn + nat option \<Rightarrow> nm_result" where
  "prepare_reply sh nm node r =
     (case r of
        Inr am \<Rightarrow> \<lparr>nr_nm = Some nm, nr_node = node, nr_am = am, nr_error = []\<rparr>
      | Inl e \<Rightarrow> nm_error (prepare_error sh node e))"

definition destroy_manager_reply :: "(exn \<Rightarrow> string) \<Rightarrow> string \<Rightarrow> exn option \<Rightarrow> nm_result" where
  "destroy_manager_reply sh node r =
     (case r of
        None \<Rightarrow> \<lparr>nr_nm = None, nr_node = node, nr_am = None, nr_error = []\<rparr>
      | Some e \<Rightarrow> nm_error
          (if is_stop_error e then node @ '' - StopError exception executing destroyManager : '' @ sh e
           else sending_error sh ''executing destroyManager'' ''exception executing destroyManager'' node e))"

section \<open>The application manager of a plan\<close>

record 'd domain_manager =
  am_plan :: "'d plan"
  am_nams :: "(nat \<times> nat) list"
  am_node_ids :: "(nat \<times> string) list"
  am_running :: "(nat \<times> domain_app) list"

definition new_domain_manager :: "'d plan \<Rightarrow> 'd domain_manager" where
  "new_domain_manager plan = \<lparr>am_plan = plan, am_nams = [], am_node_ids = [], am_running = []\<rparr>"

definition getPlanUUID :: "'d domain_manager \<Rightarrow> string" where
  "getPlanUUID am = pl_UUID (am_plan am)"

definition getApplications :: "'d domain_manager \<Rightarrow> nat list" where
  "getApplications am = map fst (am_running am)"

definition findNode4NM :: "'d domain_manager \<Rightarrow> nat \<Rightarrow> string" where
  "findNode4NM am nm = (case map_of (am_node_ids am) nm of Some n \<Rightarrow> n | None \<Rightarrow> [])"

text \<open>One request for each sub plan; a node that cannot be located is an exception on the way to it.\<close>

definition prepare_request ::
  "('d, 'w) domain_env \<Rightarrow> 'w locator_env \<Rightarrow> locator \<Rightarrow> 'w \<Rightarrow> string \<times> string \<times> 'd plan \<Rightarrow>
    exn + (nm_result, 'w) request" where
  "prepare_request env lenv lc w = (\<lambda>(_, node, sub).
     case locate_node lenv w node lc of
       Inl e \<Rightarrow> Inl e
     | Inr None \<Rightarrow> Inl (UserEx StartError node ''NodeManager not found'')
     | Inr (Some nm) \<Rightarrow>
         Inr \<lparr>aq_target = nm,
           aq_serve = (\<lambda>w. case de_prepare env nm sub w of (r, w') \<Rightarrow> (prepare_reply (oe_show env) nm node r, w')),
           aq_fail = (\<lambda>e. nm_error (sending_error (oe_show env) ''starting preparePlan''
             ''exception starting preparePlan'' node e))\<rparr>)"

fun collect_managers :: "nm_result list \<Rightarrow> 'd domain_manager \<Rightarrow> string list \<Rightarrow> 'd domain_manager \<times> string list" where
  "collect_managers [] am errs = (am, errs)"
| "collect_managers (r # rs) am errs =
     (case nr_am r of
        Some nam \<Rightarrow>
          collect_managers rs (am\<lparr>am_nams := am_nams am @ [(nam, the (nr_nm r))],
            am_node_ids := am_node_ids am @ [(the (nr_nm r), nr_node r)]\<rparr>) errs
      | None \<Rightarrow> collect_managers rs am (errs @ [nr_error r]))"

definition as_start_error :: "string \<Rightarrow> (exn \<Rightarrow> string) \<Rightarrow> failure \<Rightarrow> failure" where
  "as_start_error uuid sh =
     rethrown (\<lambda>e. if caught_kind [StartError] e \<noteq> None then e else UserEx StartError uuid (sh e))
       (\<lambda>_. UserEx StartError uuid ''Unknown C++ exception'')"

definition dam_preparePlan ::
  "('d, 'w) domain_env \<Rightarrow> 'w locator_env \<Rightarrow> locator \<Rightarrow> 'd domain_manager \<Rightarrow> 'w orb \<Rightarrow>
    (failure + unit) \<times> 'd domain_manager \<times> 'w orb" where
  "dam_preparePlan env lenv lc am ob =
     (case split_plan node_splitter (am_plan am) [] of
        None \<Rightarrow> (Inl Undefined, am, ob)
      | Some m \<Rightarrow>
          (case async_round (orb_of env) (map (prepare_request env lenv lc (ob_world ob)) m) ob of
             (Inl f, ob') \<Rightarrow> (Inl (as_start_error (getPlanUUID am) (oe_show env) f), am, ob')
           | (Inr results, ob') \<Rightarrow>
               (case collect_managers results am [] of (am', errs) \<Rightarrow>
                 (if errs \<noteq> [] then
                    (Inl (Raised (UserEx StartError (getPlanUUID am)
                       (error_text (''captured preparePlan errors:'' @ [newline]) errs))), am', ob')
                  else (Inr (), am', ob')))))"

text \<open>The application is entered before it is launched, and stays when the launch fails.\<close>

definition dam_startLaunch ::
  "('d, 'w) domain_env \<Rightarrow> nat \<Rightarrow> 'd properties \<Rightarrow> reference list \<Rightarrow> 'd domain_manager \<Rightarrow> 'w orb \<Rightarrow>
    (failure + nat \<times> reference list) \<times> 'd domain_manager \<times> 'w orb" where
  "dam_startLaunch env ref props out am ob =
     (case da_startLaunch env props out
         (new_domain_app (getPlanUUID am) (am_nams am) (am_node_ids am)) ob of
        (r, da, ob') \<Rightarrow>
          (map_sum (rethrown (\<lambda>e. UserEx StartError (getPlanUUID am) (oe_show env e))
               (\<lambda>_. UserEx StartError (getPlanUUID am) ''Unknown C++ exception'')) (Pair ref) r,
           am\<lparr>am_running := am_running am @ [(ref, da)]\<rparr>, ob'))"

definition dam_destroyApplication ::
  "('d, 'w) domain_env \<Rightarrow> nat \<Rightarrow> 'd domain_manager \<Rightarrow> 'w orb \<Rightarrow>
    (failure + unit) \<times> 'd domain_manager \<times> 'w orb" where
  "dam_destroyApplication env app am ob =
     (case find (\<lambda>(r, _). r = app) (am_running am) of
        None \<Rightarrow> (Inr (), am, ob)
      | Some (_, da) \<Rightarrow>
          (case da_destroyApplication env da ob of
             (Inl f, ob') \<Rightarrow>
               (Inl (rethrown
                  (\<lambda>e. if \<not> is_user e \<or> is_stop_error e then e
                       else UserEx StopError ''DomainApplicatoinManager'' (oe_show env e))
                  (\<lambda>_. UserEx StopError ''DomainApplicatoinManager'' ''Unknown C++ exception in destroyApplication'') f),
                am, ob')
           | (Inr _, ob') \<Rightarrow> (Inr (), am\<lparr>am_running := remove1 (app, da) (am_running am)\<rparr>, ob')))"

lemma destroyed_application_gone:
  assumes "dam_destroyApplication env (fst x) (am\<lparr>am_running := x # xs\<rparr>) ob = (Inr u, am', ob')"
  shows "am' = am\<lparr>am_running := xs\<rparr>"
  using assms by (cases x) (auto simp: dam_destroyApplication_def split: sum.splits prod.splits)

text \<open>Destroying what runs, from the front; what is thrown ends it and is not let out.\<close>

fun destroy_running ::
  "('d, 'w) domain_env \<Rightarrow> (nat \<times> domain_app) list \<Rightarrow> 'd domain_manager \<Rightarrow> 'w orb \<Rightarrow>
    failure option \<times> 'd domain_manager \<times> 'w orb" where
  "destroy_running env [] am ob = (None, am\<lparr>am_running := []\<rparr>, ob)"
| "destroy_running env (x # xs) am ob =
     (case dam_destroyApplication env (fst x) (am\<lparr>am_running := x # xs\<rparr>) ob of
        (Inr _, am', ob') \<Rightarrow> destroy_running env xs am' ob'
      | (Inl (Raised _), am', ob') \<Rightarrow> (None, am', ob')
      | (Inl f, am', ob') \<Rightarrow> (Some f, am', ob'))"

definition destroy_manager_requests ::
  "('d, 'w) domain_env \<Rightarrow> 'd domain_manager \<Rightarrow> (exn + (nm_result, 'w) request) list" where
  "destroy_manager_requests env am =
     map (\<lambda>(nam, nm). let node = findNode4NM am nm in
       Inr \<lparr>aq_target = nm,
         aq_serve = (\<lambda>w. case de_destroy_manager env nm nam w of
            (r, w') \<Rightarrow> (destroy_manager_reply (oe_show env) node r, w')),
         aq_fail = (\<lambda>e. nm_error (sending_error (oe_show env) ''starting destroyManager''
           ''exception starting destroyManager'' node e))\<rparr>) (am_nams am)"

definition dam_destroyManager ::
  "('d, 'w) domain_env \<Rightarrow> 'd domain_manager \<Rightarrow> 'w orb \<Rightarrow> (failure + unit) \<times> 'd domain_manager \<times> 'w orb" where
  "dam_destroyManager env am ob =
     (case destroy_running env (am_running am) am ob of
        (Some f, am', ob') \<Rightarrow> (Inl f, am', ob')
      | (None, am', ob') \<Rightarrow>
          (case async_round (orb_of env) (destroy_manager_requests env am') ob' of
             (Inl f, ob'') \<Rightarrow>
               (Inl (rethrown
                  (\<lambda>e. if is_stop_error e then e else UserEx StopError (getPlanUUID am) (oe_show env e))
                  (\<lambda>_. UserEx StopError (getPlanUUID am) ''Unknown C++ exception'') f), am', ob'')
           | (Inr results, ob'') \<Rightarrow>
               (let errs = filter (\<lambda>e. e \<noteq> []) (map nr_error results)
                in if errs \<noteq> [] then
                     (Inl (Raised (UserEx StopError (getPlanUUID am)
                        (error_text (''captured destroyManager errors:'' @ [newline]) errs))), am', ob'')
                   else (Inr (), am', ob''))))"

section \<open>The execution manager\<close>

record 'd execution_manager =
  em_managers :: "(string, nat \<times> 'd domain_manager) smap"
  em_locator :: locator

text \<open>
  Whatever preparing raises is written to the log; the caller gets a nil reference and the manager is
  dropped as it is.
\<close>

definition em_preparePlan ::
  "('d, 'w) domain_env \<Rightarrow> 'w locator_env \<Rightarrow> nat \<Rightarrow> 'd plan \<Rightarrow> 'd execution_manager \<Rightarrow> 'w orb \<Rightarrow>
    (failure + nat option) \<times> 'd execution_manager \<times> 'w orb" where
  "em_preparePlan env lenv ref plan em ob =
     (if map_has (em_managers em) (pl_UUID plan) then
        (Inl (Raised (UserEx PlanError (pl_UUID plan) ''Plan with same UUID already exists'')), em, ob)
      else case dam_preparePlan env lenv (em_locator em) (new_domain_manager plan) ob of
          (Inr _, am, ob') \<Rightarrow>
            (Inr (Some ref), em\<lparr>em_managers := map_put (pl_UUID plan) (ref, am) (em_managers em)\<rparr>, ob')
        | (Inl (Raised _), _, ob') \<Rightarrow> (Inr None, em, ob')
        | (Inl f, _, ob') \<Rightarrow> (Inl f, em, ob'))"

definition getManagers :: "'d execution_manager \<Rightarrow> nat list" where
  "getManagers em = map (\<lambda>(_, r, _). r) (em_managers em)"

definition em_destroyManager ::
  "('d, 'w) domain_env \<Rightarrow> nat \<Rightarrow> 'd execution_manager \<Rightarrow> 'w orb \<Rightarrow>
    (failure + unit) \<times> 'd execution_manager \<times> 'w orb" where
  "em_destroyManager env ref em ob =
     (case find (\<lambda>(_, r, _). r = ref) (em_managers em) of
        None \<Rightarrow> (Inl (Raised (OtherUser ''IDL:Deployment/InvalidReference:1.0'')), em, ob)
      | Some (uuid, _, am) \<Rightarrow>
          (case dam_destroyManager env am ob of
             (Inl f, am', ob') \<Rightarrow>
               (Inl f, em\<lparr>em_managers := map_put uuid (ref, am') (em_managers em)\<rparr>, ob')
           | (Inr _, _, ob') \<Rightarrow> (Inr (), em\<lparr>em_managers := map_erase uuid (em_managers em)\<rparr>, ob')))"

definition add_node_manager :: "string \<Rightarrow> string \<Rightarrow> 'd execution_manager \<Rightarrow> 'd execution_manager" where
  "add_node_manager name ior em = em\<lparr>em_locator := store_ior name ior (em_locator em)\<rparr>"

definition load_cdd ::
  "string \<Rightarrow> 'd domain option \<Rightarrow> 'd execution_manager \<Rightarrow> exn option \<times> 'd execution_manager" where
  "load_cdd filename dmn em =
     (case process_cdd filename dmn (em_locator em) of (ok, lc) \<Rightarrow>
       (if ok then None else Some (UserEx StartError ''ExecutionManager_Impl'' ''Error loading cdd file''),
        em\<lparr>em_locator := lc\<rparr>))"

section \<open>Node managers that remember their plans\<close>

text \<open>
  The contract of a node manager that the domain meets with: it rejects some plans, those whose UUID it
  knows; it knows a plan it has prepared, and forgets none by preparing another.
\<close>

locale node_service =
  fixes prepare :: "nat \<Rightarrow> 'd plan \<Rightarrow> 'w \<Rightarrow> (exn + nat option) \<times> 'w"
    and rejected :: "nat \<Rightarrow> 'w \<Rightarrow> string set"
  assumes prepare_keeps: "prepare nm plan w = (r, w') \<Longrightarrow> rejected n w \<subseteq> rejected n w'"
    and prepare_rejects: "pl_UUID plan \<in> rejected nm w \<Longrightarrow> \<exists>e. fst (prepare nm plan w) = Inl e"
    and prepare_enters: "prepare nm plan w = (Inr am, w') \<Longrightarrow> pl_UUID plan \<in> rejected nm w'"
begin

definition prepares :: "('d, 'w) domain_env \<Rightarrow> (nm_result, 'w) request \<Rightarrow> bool" where
  "prepares env q \<longleftrightarrow> (\<exists>node sub. aq_serve q =
     (\<lambda>w. case prepare (aq_target q) sub w of (r, w') \<Rightarrow> (prepare_reply (oe_show env) (aq_target q) node r, w')))"

lemma serve_keeps:
  "\<forall>q \<in> set qs. prepares env q \<Longrightarrow> rejected n w \<subseteq> rejected n (snd (serve_in_order qs w))"
proof (induction qs arbitrary: w)
  case (Cons q qs)
  obtain node sub where q: "aq_serve q =
      (\<lambda>w. case prepare (aq_target q) sub w of (r, w') \<Rightarrow> (prepare_reply (oe_show env) (aq_target q) node r, w'))"
    using Cons.prems by (auto simp: prepares_def)
  obtain r w' where p: "prepare (aq_target q) sub w = (r, w')" by force
  show ?case
    using Cons.IH [of w'] Cons.prems prepare_keeps [OF p, of n] by (auto simp: q p split: prod.split)
qed simp

text \<open>A request to prepare a plan its node rejects fails, wherever it comes in the round.\<close>

lemma rejected_fails:
  "\<forall>q \<in> set qs. prepares env q \<Longrightarrow> q \<in> set qs \<Longrightarrow> aq_serve q =
      (\<lambda>w. case prepare nm sub w of (r, w') \<Rightarrow> (prepare_reply (oe_show env) nm node r, w')) \<Longrightarrow>
    pl_UUID sub \<in> rejected nm w \<Longrightarrow> \<exists>r \<in> set (fst (serve_in_order qs w)). nr_am r = None"
proof (induction qs arbitrary: w)
  case (Cons p qs)
  show ?case
  proof (cases "p = q")
    case True
    obtain e where "fst (prepare nm sub w) = Inl e" using prepare_rejects [OF Cons.prems(4)] by blast
    with True Cons.prems(3) show ?thesis
      by (cases "prepare nm sub w") (auto simp: prepare_reply_def nm_error_def split: prod.split)
  next
    case False
    have "pl_UUID sub \<in> rejected nm (snd (aq_serve p w))"
      using serve_keeps [of "[p]" env nm w] Cons.prems(1,4) by (auto split: prod.splits)
    with False Cons have "\<exists>r \<in> set (fst (serve_in_order qs (snd (aq_serve p w)))). nr_am r = None" by auto
    then show ?thesis by (auto split: prod.splits)
  qed
qed simp

lemma rejected_round:
  assumes "length qs < 2 ^ 32" "ob_orphans ob = 0" "\<forall>q \<in> set qs. prepares env q \<and> (\<forall>e. nr_am (aq_fail q e) = None)"
    and "q \<in> set qs" "aq_serve q = (\<lambda>w. case prepare nm sub w of (r, w') \<Rightarrow> (prepare_reply (oe_show env) nm node r, w'))"
    and "pl_UUID sub \<in> rejected nm (ob_world ob)"
  shows "\<exists>rs ob'. async_round oenv (map Inr qs) ob = (Inr rs, ob') \<and> (\<exists>r \<in> set rs. nr_am r = None)"
proof -
  let ?w = "ob_world ob"
  obtain order where o: "mset order = mset (sent oenv ?w qs)"
    and round: "async_round oenv (map Inr qs) ob =
      (Inr (unsent oenv ?w qs @ fst (serve_in_order order ?w)), ob\<lparr>ob_world := snd (serve_in_order order ?w)\<rparr>)"
    using async_round_requests [OF assms(1,2)] by blast
  have mem: "set order = set (sent oenv ?w qs)" using o by (rule mset_eq_setD)
  show ?thesis
  proof (cases "oe_send oenv (aq_target q) ?w")
    case None
    then have "q \<in> set order" using assms(4) by (simp add: mem sent_def)
    then have "\<exists>r \<in> set (fst (serve_in_order order ?w)). nr_am r = None"
      using rejected_fails [OF _ _ assms(5,6)] assms(3) by (simp add: mem sent_def)
    with round show ?thesis by auto
  next
    case (Some e)
    then have "aq_fail q e \<in> set (unsent oenv ?w qs)" using assms(4) by (force simp: unsent_def)
    with round assms(3,4) show ?thesis by auto
  qed
qed

lemma send_stops: "\<exists>q \<in> set qs. isl q \<Longrightarrow> \<exists>e cmp' out'. send_all oenv w qs cmp out = (Some e, cmp', out')"
  by (induction oenv w qs cmp out rule: send_all.induct) (auto split: option.splits)

lemma collect_managers_errors:
  "snd (collect_managers rs am errs) = errs @ map nr_error (filter (\<lambda>r. nr_am r = None) rs)"
  by (induction rs am errs rule: collect_managers.induct) (auto split: option.splits)

text \<open>A plan that the node manager of one of its nodes rejects is not prepared.\<close>

lemma rejected_plan:
  assumes env: "de_prepare env = prepare" and m: "split_plan node_splitter plan [] = Some m" "length m < 2 ^ 32"
    and sub: "(n, node, sub) \<in> set m" "locate_node lenv (ob_world ob) node (em_locator em) = Inr (Some nm)"
      "pl_UUID sub \<in> rejected nm (ob_world ob)"
    and ob: "ob_orphans ob = 0" and new: "\<not> map_has (em_managers em) (pl_UUID plan)"
  shows "\<exists>ob'. em_preparePlan env lenv ref plan em ob = (Inr None, em, ob')"
proof -
  let ?item = "prepare_request env lenv (em_locator em) (ob_world ob)"
  let ?am = "new_domain_manager plan"
  have "\<exists>f am ob'. dam_preparePlan env lenv (em_locator em) ?am ob = (Inl (Raised f), am, ob')"
  proof (cases "\<exists>x \<in> set m. isl (?item x)")
    case True
    then obtain e cmp out where "send_all (orb_of env) (ob_world ob) (map ?item m) new_completion [] = (Some e, cmp, out)"
      using send_stops [of "map ?item m" "orb_of env" "ob_world ob" new_completion "[]"] by auto
    then show ?thesis
      by (simp add: dam_preparePlan_def new_domain_manager_def m async_round_def as_start_error_def rethrown_def)
  next
    case False
    define qs where "qs = map (projr \<circ> ?item) m"
    have items: "map ?item m = map Inr qs" using False by (simp add: qs_def sum.expand)
    have "\<forall>q \<in> set qs. prepares env q \<and> (\<forall>e. nr_am (aq_fail q e) = None)"
    proof
      fix q assume "q \<in> set qs"
      then obtain x where x: "x \<in> set m" "?item x = Inr q" using False by (auto simp: qs_def sum.expand)
      obtain n' node' sub' where "x = (n', node', sub')" by (cases x)
      with x show "prepares env q \<and> (\<forall>e. nr_am (aq_fail q e) = None)"
        by (auto simp: prepares_def prepare_request_def nm_error_def env split: sum.splits option.splits) blast
    qed
    moreover have "projr (?item (n, node, sub)) \<in> set qs" using sub(1) by (force simp: qs_def)
    moreover have "length qs < 2 ^ 32" using m(2) by (simp add: qs_def)
    ultimately obtain rs ob' where "async_round (orb_of env) (map Inr qs) ob = (Inr rs, ob')" "\<exists>r \<in> set rs. nr_am r = None"
      using rejected_round [of qs ob env "projr (?item (n, node, sub))" nm node sub "orb_of env"] ob sub(2,3)
      by (auto simp: prepare_request_def env)
    moreover from this have "snd (collect_managers rs ?am []) \<noteq> []"
      by (auto simp: collect_managers_errors filter_empty_conv)
    ultimately show ?thesis
      by (auto simp: dam_preparePlan_def new_domain_manager_def m items split: prod.split)
  qed
  with new show ?thesis by (auto simp: em_preparePlan_def)
qed

end

section \<open>Properties\<close>

text \<open>
  A node without a node manager ends the loop that sends the requests, after the requests to the
  nodes before it have gone out. Their completion is destroyed with the loop, so as many replies as were
  sent will notify an object that is gone, and the caller is only told that there is no manager.
\<close>

theorem missing_node_leaves_replies:
  assumes "split_plan node_splitter plan [] = Some (pre @ (n, node, sub) # post)"
    and "\<not> map_has (em_managers em) (pl_UUID plan)"
    and "\<forall>(n, k, p) \<in> set pre. \<exists>nm. locate_node lenv (ob_world ob) k (em_locator em) = Inr (Some nm)"
    and "\<forall>nm. oe_send env nm (ob_world ob) = None"
    and "locate_node lenv (ob_world ob) node (em_locator em) = Inr None"
  shows "em_preparePlan env lenv ref plan em ob =
    (Inr None, em, ob\<lparr>ob_orphans := ob_orphans ob + length pre\<rparr>)"
proof -
  let ?item = "prepare_request env lenv (em_locator em) (ob_world ob)"
  define qs where "qs = map (projr \<circ> ?item) pre"
  have "isl (?item x) = False" if "x \<in> set pre" for x
    using assms(3) that by (cases x) (auto simp: prepare_request_def split: sum.splits option.splits)
  then have "map ?item pre = map Inr qs" by (simp add: qs_def sum.expand)
  moreover have "?item (n, node, sub) = Inl (UserEx StartError node ''NodeManager not found'')"
    using assms(5) by (simp add: prepare_request_def)
  ultimately have items: "map ?item (pre @ (n, node, sub) # post) =
      map Inr qs @ Inl (UserEx StartError node ''NodeManager not found'') # map ?item post" by simp
  have "sent (orb_of env) (ob_world ob) qs = qs" "length qs = length pre"
    using assms(4) by (simp_all add: sent_def qs_def)
  then have "async_round (orb_of env) (map ?item (pre @ (n, node, sub) # post)) ob =
      (Inl (Raised (UserEx StartError node ''NodeManager not found'')), ob\<lparr>ob_orphans := ob_orphans ob + length pre\<rparr>)"
    unfolding items async_round_stops by simp
  then show ?thesis
    using assms(1,2)
    by (simp add: em_preparePlan_def dam_preparePlan_def new_domain_manager_def as_start_error_def rethrown_def)
qed

definition missing_locator :: "nat locator_env" where
  "missing_locator = \<lparr>le_object = (\<lambda>ior w. Inr (if ior = ''x'' then Some 1 else None)), le_resolve = (\<lambda>_ _ _. Inr None)\<rparr>"

definition two_node_plan :: "int plan" where
  "two_node_plan = new_plan\<lparr>pl_UUID := ''u'', pl_implementation := [new_mdd],
     pl_instance := [new_idd\<lparr>id_name := ''a'', id_node := ''A''\<rparr>, new_idd\<lparr>id_name := ''b'', id_node := ''B''\<rparr>]\<rparr>"

definition demo_execution :: "int execution_manager" where
  "demo_execution = \<lparr>em_managers = [], em_locator = \<lparr>lc_nodes = [(''A'', ''x''), (''B'', ''xx'')], lc_nc = None\<rparr>\<rparr>"

lemma two_node_split:
  "map (\<lambda>(n, k, p). (k, pl_UUID p)) (case split_plan node_splitter two_node_plan [] of Some m \<Rightarrow> m | None \<Rightarrow> [])
    = [(''A'', ''u_0''), (''B'', ''u_1'')]"
  by code_simp

lemma two_node_split_ex:
  "\<exists>n A n' B. split_plan node_splitter two_node_plan [] = Some [(n, ''A'', A), (n', ''B'', B)]
    \<and> pl_UUID A = ''u_0'' \<and> pl_UUID B = ''u_1''"
  using two_node_split by (cases "split_plan node_splitter two_node_plan []") (auto simp: map_eq_Cons_conv)

theorem missing_node_leaves_replies_witness:
  "em_preparePlan demo_domain missing_locator 7 two_node_plan demo_execution \<lparr>ob_orphans = 0, ob_world = 0\<rparr> =
    (Inr None, demo_execution, \<lparr>ob_orphans = 1, ob_world = 0\<rparr>)"
proof -
  obtain n A n' B where m: "split_plan node_splitter two_node_plan [] = Some [(n, ''A'', A), (n', ''B'', B)]"
    using two_node_split_ex by blast
  from missing_node_leaves_replies [of two_node_plan "[(n, ''A'', A)]" n' "''B''" B "[]" demo_execution missing_locator
      "\<lparr>ob_orphans = 0, ob_world = 0\<rparr>" demo_domain 7] m
  show ?thesis
    by (simp add: locate_node_def missing_locator_def demo_execution_def demo_domain_def map_has_def map_get_def)
qed

end
