(* ===== verification/Node_Application.thy ===== *)
theory Node_Application
  imports Locality Split_Plan
begin

text \<open>
  The application of one node, dancex11/node_deployment_handler/dancex11_ndh_application_impl.cpp: it
  installs a locality manager for every sub plan of the node through the events of the scheduler,
  prepares each with its sub plan, and passes the calls of its own interface on to all of them.

  A locality manager is a remote object. What its operations do is part of the environment: a function
  of the reference and of the state of everything outside the node manager, \<open>'w\<close>. Queued events hold
  C++ references to plans, so plans live in a store, under the place where the code keeps them, and an
  event holds the place. As in a locality manager the scheduler has no threads, and an event carries the
  number of the completion its future is attached to; here it carries the number of the future as well,
  since futures are also looked at one by one.
\<close>

datatype place = Sub_Plan nat | Locality_Plan string

record 'd queued =
  qd_place :: place
  qd_event :: "'d event"
  qd_completion :: nat
  qd_future :: nat

record ('p, 'd, 'w) node_env =
  ne_enqueue :: "'d queued ace_queue"
  ne_countdown :: "'w \<Rightarrow> 'w \<Rightarrow> nat \<Rightarrow> nat"
  ne_duration :: "32 word \<Rightarrow> nat"
  ne_handler :: "'p \<Rightarrow> ('d, 'w) handler"
  ne_interceptor :: "'p \<Rightarrow> ('d, 'w) interceptor"
  ne_locality :: "'d any \<Rightarrow> nat option"
  ne_sysx :: "'d any \<Rightarrow> exn option"
  ne_show :: "exn \<Rightarrow> string"
  ne_no_servant :: exn
  lm_prepare_call :: "nat \<Rightarrow> 'd plan \<Rightarrow> 'w \<Rightarrow> exn option \<times> 'w"
  lm_launch_call :: "nat \<Rightarrow> 'd properties \<Rightarrow> 'w \<Rightarrow> (exn + reference list) \<times> 'w"
  lm_finish_call :: "nat \<Rightarrow> reference list \<Rightarrow> bool \<Rightarrow> 'w \<Rightarrow> exn option \<times> 'w"
  lm_start_call :: "nat \<Rightarrow> 'w \<Rightarrow> exn option \<times> 'w"
  lm_stop_call :: "nat \<Rightarrow> 'w \<Rightarrow> exn option \<times> 'w"
  lm_destroy_call :: "nat \<Rightarrow> 'w \<Rightarrow> exn option \<times> 'w"
  lm_shutdown_call :: "nat \<Rightarrow> 'w \<Rightarrow> exn option \<times> 'w"

text \<open>The scheduler with the plugins, and the store of the plans its events refer to.\<close>

record ('p, 'd, 'w) scheduler_state =
  sc_plugins :: "('p, 'd) manager"
  sc_queue :: "'d queued list"
  sc_plans :: "place \<Rightarrow> 'd plan option"
  sc_serial :: nat
  sc_world :: 'w

record node_app =
  na_sub_plans :: "(string, nat) smap"
  na_localities :: "(string, nat) smap"
  na_delay :: "32 word"

definition new_node_app :: node_app where
  "new_node_app = \<lparr>na_sub_plans = [], na_localities = [], na_delay = 30\<rparr>"

definition put_plan :: "place \<Rightarrow> 'd plan \<Rightarrow> ('p, 'd, 'w) scheduler_state \<Rightarrow> ('p, 'd, 'w) scheduler_state" where
  "put_plan pl plan sc = sc\<lparr>sc_plans := (sc_plans sc)(pl := Some plan)\<rparr>"

section \<open>Scheduling and waiting\<close>

text \<open>
  A round of events: the scheduler, the completion, whose list holds the futures that were set with
  their numbers, and how many futures the round has made so far.
\<close>

type_synonym ('p, 'd, 'w) round =
  "('p, 'd, 'w) scheduler_state \<times> (nat \<times> 'd event_result) completion \<times> nat"

definition start_round :: "('p, 'd, 'w) scheduler_state \<Rightarrow> ('p, 'd, 'w) round" where
  "start_round sc = (sc\<lparr>sc_serial := sc_serial sc + 1\<rparr>, new_completion, 0)"

text \<open>
  A new event on the plan at a place; False is an index the plan does not have, read by the constructor
  of the event. The caller makes a future, lets the completion accept it, and schedules the event.
\<close>

definition schedule_at ::
  "('p, 'd, 'w) node_env \<Rightarrow> nat \<Rightarrow> action \<Rightarrow> place \<Rightarrow> nat \<Rightarrow> string \<Rightarrow> ('p, 'd, 'w) round \<Rightarrow>
    bool \<times> ('p, 'd, 'w) round" where
  "schedule_at env cur a pl ref ty rd =
     (case rd of (sc, cmp, n) \<Rightarrow>
       (case Option.bind (sc_plans sc pl) (\<lambda>plan. new_event a plan ref NullAny ty) of
          None \<Rightarrow> (False, rd)
        | Some ev \<Rightarrow>
            (True,
             sc\<lparr>sc_queue := snd (schedule_event (ne_enqueue env)
                 \<lparr>qd_place = pl, qd_event = ev, qd_completion = cur, qd_future = n\<rparr> (sc_queue sc))\<rparr>,
             accept None cmp, n + 1)))"

definition sc_interceptors ::
  "('p, 'd, 'w) node_env \<Rightarrow> ('p, 'd, 'w) scheduler_state \<Rightarrow> ('d, 'w) interceptor list" where
  "sc_interceptors env sc = map (ne_interceptor env) (fetch_interceptors (sc_plugins sc))"

definition sc_fetch ::
  "('p, 'd, 'w) node_env \<Rightarrow> ('p, 'd, 'w) scheduler_state \<Rightarrow> string \<Rightarrow> ('d, 'w) handler option" where
  "sc_fetch env sc ty = map_option (ne_handler env) (fetch_installation_handler ty (sc_plugins sc))"

definition run_queued ::
  "('d, 'w) interceptor list \<Rightarrow> (string \<Rightarrow> ('d, 'w) handler option) \<Rightarrow> nat \<Rightarrow>
    ('d queued, (nat \<times> 'd event_result) completion \<times> (place \<Rightarrow> 'd plan option) \<times> 'w, failure) runner" where
  "run_queued ds fetch cur qd s =
     (case s of (cmp, plans, w) \<Rightarrow>
       (case plans (qd_place qd) of
          None \<Rightarrow> (Some Undefined, cmp, plans, w)
        | Some plan \<Rightarrow>
            (case action_call ds fetch (qd_event qd) plan w of
               (Inl e, plan', w') \<Rightarrow> (Some (Raised e), cmp, plans(qd_place qd := Some plan'), w')
             | (Inr r, plan', w') \<Rightarrow>
                 (if qd_completion qd = cur
                  then (None, update (qd_future qd, r) cmp, plans(qd_place qd := Some plan'), w')
                  else (Some Undefined, cmp, plans(qd_place qd := Some plan'), w')))))"

text \<open>Waiting for \<open>secs\<close> seconds: whether all work was done, or what an event threw.\<close>

definition wait_round ::
  "('p, 'd, 'w) node_env \<Rightarrow> nat \<Rightarrow> 32 word \<Rightarrow> ('p, 'd, 'w) round \<Rightarrow> (failure + bool) \<times> ('p, 'd, 'w) round" where
  "wait_round env cur secs rd =
     (case rd of (sc, cmp, n) \<Rightarrow>
       (case single_threaded_wait (\<lambda>(_, _, w) (_, _, w'). ne_countdown env w w')
          (run_queued (sc_interceptors env sc) (sc_fetch env sc) cur)
          (Some (ne_duration env secs)) (sc_queue sc) (cmp, sc_plans sc, sc_world sc) of
          (res, q, cmp', plans, w) \<Rightarrow> (res, sc\<lparr>sc_queue := q, sc_plans := plans, sc_world := w\<rparr>, cmp', n)))"

text \<open>
  A property of the locality manager of a sub plan: of its instance if that has it, of its implementation
  otherwise. None is an index the plan does not have.
\<close>

definition manager_property ::
  "('d any \<Rightarrow> 'a option) \<Rightarrow> string \<Rightarrow> 'd plan \<Rightarrow> 'd idd \<Rightarrow> 'a option option" where
  "manager_property extract name plan inst =
     (case get_property_value extract name (id_configProperty inst) of
        Some v \<Rightarrow> Some (Some v)
      | None \<Rightarrow>
          (if id_implementationRef inst < length (pl_implementation plan) then
             Some (get_property_value extract name
               (md_execParameter (pl_implementation plan ! id_implementationRef inst)))
           else None))"

definition manager_instance :: "'d plan \<Rightarrow> locality_key \<Rightarrow> 'd idd option" where
  "manager_instance plan k =
     (if locality_manager_instance k < length (pl_instance plan)
      then Some (pl_instance plan ! locality_manager_instance k) else None)"

section \<open>Preparing the localities\<close>

text \<open>
  The sub plans of the node are at the places \<open>Sub_Plan i\<close>, their keys in the list. Each is copied into
  \<open>sub_plans_\<close> under the name of its locality manager, and its event refers to the copy.
\<close>

fun dispatch_localities ::
  "('p, 'd, 'w) node_env \<Rightarrow> nat \<Rightarrow> (nat \<times> locality_key) list \<Rightarrow> node_app \<Rightarrow> ('p, 'd, 'w) round \<Rightarrow>
    bool \<times> node_app \<times> ('p, 'd, 'w) round" where
  "dispatch_localities env cur [] na rd = (True, na, rd)"
| "dispatch_localities env cur ((i, k) # ks) na rd =
     (case rd of (sc, cmp, n) \<Rightarrow>
       (case sc_plans sc (Sub_Plan i) of
          None \<Rightarrow> (False, na, rd)
        | Some plan \<Rightarrow>
            (case manager_instance plan k of
               None \<Rightarrow> (False, na, rd)
             | Some inst \<Rightarrow>
                 (case manager_property as_uint32 LOCALITY_TIMEOUT plan inst of
                    None \<Rightarrow> (False, na, rd)
                  | Some d \<Rightarrow>
                      (let na' = na\<lparr>na_delay := (case d of Some v \<Rightarrow> v | None \<Rightarrow> na_delay na),
                             na_sub_plans := map_put (id_name inst) (locality_manager_instance k) (na_sub_plans na)\<rparr>;
                           sc' = put_plan (Locality_Plan (id_name inst)) plan sc
                       in case schedule_at env cur Install_Instance (Locality_Plan (id_name inst))
                            (locality_manager_instance k) DANCE_LOCALITYMANAGER (sc', cmp, n) of
                            (False, rd') \<Rightarrow> (False, na', rd')
                          | (True, rd') \<Rightarrow> dispatch_localities env cur ks na' rd')))))"

text \<open>A CORBA exception of the locality manager is written to the log, and that is all.\<close>

definition prepare_instance ::
  "('p, 'd, 'w) node_env \<Rightarrow> nat \<Rightarrow> 'd plan \<Rightarrow> 'w \<Rightarrow> failure option \<times> 'w" where
  "prepare_instance env lm plan w =
     (case lm_prepare_call env lm plan w of
        (None, w') \<Rightarrow> (None, w')
      | (Some e, w') \<Rightarrow> (if is_corba e then None else Some (Raised e), w'))"

text \<open>
  The futures in the order they were made; one that was not set is skipped. Reading \<open>sub_plans_\<close> enters a
  default for a name it does not have.
\<close>

fun collect_localities ::
  "('p, 'd, 'w) node_env \<Rightarrow> (nat \<times> 'd event_result) list \<Rightarrow> nat list \<Rightarrow>
    node_app \<times> ('p, 'd, 'w) scheduler_state \<Rightarrow> (failure + unit) \<times> node_app \<times> ('p, 'd, 'w) scheduler_state" where
  "collect_localities env results [] s = (Inr (), s)"
| "collect_localities env results (f # fs) (na, sc) =
     (case map_of results f of
        None \<Rightarrow> collect_localities env results fs (na, sc)
      | Some r \<Rightarrow>
          (if er_exception r then (Inl (Raised (throw_exception_from_any (ne_sysx env) (er_contents r))), na, sc)
           else case ne_locality env (er_contents r) of
               None \<Rightarrow> (Inl (Raised (UserEx StartError (er_id r)
                 ''Unable to resolve LocalityManager object ref'')), na, sc)
             | Some lm \<Rightarrow>
                 (let plan = (case sc_plans sc (Locality_Plan (er_id r)) of Some p \<Rightarrow> p | None \<Rightarrow> new_plan);
                      na' = na\<lparr>na_localities := map_put (er_id r) lm (na_localities na),
                        na_sub_plans := map_insert (er_id r) 0 (na_sub_plans na)\<rparr>
                  in case prepare_instance env lm plan (sc_world sc) of
                       (Some x, w) \<Rightarrow> (Inl x, na', (put_plan (Locality_Plan (er_id r)) plan sc)\<lparr>sc_world := w\<rparr>)
                     | (None, w) \<Rightarrow> collect_localities env results fs
                         (na', (put_plan (Locality_Plan (er_id r)) plan sc)\<lparr>sc_world := w\<rparr>))))"

text \<open>That the time ran out is only written to the log.\<close>

definition prepare_instances ::
  "('p, 'd, 'w) node_env \<Rightarrow> locality_key list \<Rightarrow> node_app \<times> ('p, 'd, 'w) scheduler_state \<Rightarrow>
    (failure + unit) \<times> node_app \<times> ('p, 'd, 'w) scheduler_state" where
  "prepare_instances env keys s =
     (case s of (na, sc) \<Rightarrow>
       (case dispatch_localities env (sc_serial sc) (enumerate 0 keys) na (start_round sc) of
          (False, na', sc', _) \<Rightarrow> (Inl Undefined, na', sc')
        | (True, na', rd) \<Rightarrow>
            (case wait_round env (sc_serial sc) (na_delay na') rd of
               (Inl f, sc', _) \<Rightarrow> (Inl f, na', sc')
             | (Inr _, sc', cmp, n) \<Rightarrow> collect_localities env (completed cmp) [0..<n] (na', sc'))))"

section \<open>Calls passed on to the localities\<close>

fun launch_localities ::
  "('p, 'd, 'w) node_env \<Rightarrow> 'd properties \<Rightarrow> (string, nat) smap \<Rightarrow> reference list \<Rightarrow> 'w \<Rightarrow>
    (exn + reference list) \<times> 'w" where
  "launch_localities env props [] out w = (Inr out, w)"
| "launch_localities env props ((_, lm) # ls) out w =
     (case lm_launch_call env lm props w of
        (Inl e, w') \<Rightarrow> (Inl e, w')
      | (Inr refs, w') \<Rightarrow> launch_localities env props ls (out @ refs) w')"

definition start_launch_instances ::
  "('p, 'd, 'w) node_env \<Rightarrow> 'd properties \<Rightarrow> reference list \<Rightarrow> node_app \<Rightarrow> 'w \<Rightarrow>
    (exn + reference list) \<times> 'w" where
  "start_launch_instances env props out na w = launch_localities env props (na_localities na) out w"

text \<open>The loop of the other calls: the first exception leaves it.\<close>

fun each_locality ::
  "(nat \<Rightarrow> 'w \<Rightarrow> exn option \<times> 'w) \<Rightarrow> (string, nat) smap \<Rightarrow> 'w \<Rightarrow> exn option \<times> 'w" where
  "each_locality f [] w = (None, w)"
| "each_locality f ((_, lm) # ls) w =
     (case f lm w of (Some e, w') \<Rightarrow> (Some e, w') | (None, w') \<Rightarrow> each_locality f ls w')"

definition na_finishLaunch ::
  "('p, 'd, 'w) node_env \<Rightarrow> reference list \<Rightarrow> bool \<Rightarrow> node_app \<Rightarrow> 'w \<Rightarrow> exn option \<times> 'w" where
  "na_finishLaunch env provided start na w =
     each_locality (\<lambda>lm. lm_finish_call env lm provided start) (na_localities na) w"

definition na_start :: "('p, 'd, 'w) node_env \<Rightarrow> node_app \<Rightarrow> 'w \<Rightarrow> exn option \<times> 'w" where
  "na_start env na w = each_locality (lm_start_call env) (na_localities na) w"

definition na_stop :: "('p, 'd, 'w) node_env \<Rightarrow> node_app \<Rightarrow> 'w \<Rightarrow> exn option \<times> 'w" where
  "na_stop env na w = each_locality (lm_stop_call env) (na_localities na) w"

text \<open>CORBA exceptions are written to the log and the loop goes on.\<close>

fun shutdown_localities ::
  "('p, 'd, 'w) node_env \<Rightarrow> (string, nat) smap \<Rightarrow> 'w \<Rightarrow> exn option \<times> 'w" where
  "shutdown_localities env [] w = (None, w)"
| "shutdown_localities env ((_, lm) # ls) w =
     (case lm_shutdown_call env lm w of
        (Some e, w') \<Rightarrow> (if is_corba e then shutdown_localities env ls w' else (Some e, w'))
      | (None, w') \<Rightarrow> shutdown_localities env ls w')"

definition shutdown_instances :: "('p, 'd, 'w) node_env \<Rightarrow> node_app \<Rightarrow> 'w \<Rightarrow> exn option \<times> 'w" where
  "shutdown_instances env na w = shutdown_localities env (na_localities na) w"

section \<open>Removing the localities\<close>

type_synonym first_exception = "bool \<times> string \<times> string"

text \<open>The two handlers of remove_instances; None when the exception is no CORBA exception.\<close>

fun note_exception :: "(exn \<Rightarrow> string) \<Rightarrow> exn \<Rightarrow> first_exception \<Rightarrow> first_exception option" where
  "note_exception sh e (flag, ex) =
     (if is_stop_error e then Some (test_and_set_exception flag ex (ex_name e) (ex_reason e))
      else if is_corba e then Some (test_and_set_exception flag ex ''Unknown CORBA Final_Exception'' (sh e))
      else None)"

fun destroy_localities ::
  "('p, 'd, 'w) node_env \<Rightarrow> nat \<Rightarrow> (string, nat) smap \<Rightarrow> (string, nat) smap \<Rightarrow> first_exception \<Rightarrow>
    ('p, 'd, 'w) round \<Rightarrow> (failure + first_exception) \<times> ('p, 'd, 'w) round" where
  "destroy_localities env cur subs [] fx rd = (Inr fx, rd)"
| "destroy_localities env cur subs ((name, lm) # ls) fx (sc, cmp, n) =
     (case lm_destroy_call env lm (sc_world sc) of
        (Some e, w) \<Rightarrow>
          (case note_exception (ne_show env) e fx of
             None \<Rightarrow> (Inl (Raised e), sc\<lparr>sc_world := w\<rparr>, cmp, n)
           | Some fx' \<Rightarrow> destroy_localities env cur subs ls fx' (sc\<lparr>sc_world := w\<rparr>, cmp, n))
      | (None, w) \<Rightarrow>
          (case map_get subs name of
             None \<Rightarrow> destroy_localities env cur subs ls fx (sc\<lparr>sc_world := w\<rparr>, cmp, n)
           | Some ref \<Rightarrow>
               (case schedule_at env cur Remove_Instance (Locality_Plan name) ref DANCE_LOCALITYMANAGER
                   (sc\<lparr>sc_world := w\<rparr>, cmp, n) of
                  (False, rd) \<Rightarrow> (Inl Undefined, rd)
                | (True, rd) \<Rightarrow> destroy_localities env cur subs ls fx rd)))"

definition removal_exception :: "'d event_result \<Rightarrow> exn option" where
  "removal_exception r =
     (if er_exception r then
        (case extract_and_throw_exception StopError (er_contents r) of
           Inl e \<Rightarrow> Some e
         | Inr _ \<Rightarrow> Some (UserEx StopError (er_id r) ''Unknown exception thrown from remove_instance''))
      else None)"

fun collect_removals ::
  "(nat \<times> 'd event_result) list \<Rightarrow> nat list \<Rightarrow> first_exception \<Rightarrow> first_exception" where
  "collect_removals results [] fx = fx"
| "collect_removals results (f # fs) fx =
     (case Option.bind (map_of results f) removal_exception of
        None \<Rightarrow> collect_removals results fs fx
      | Some e \<Rightarrow>
          collect_removals results fs (test_and_set_exception (fst fx) (snd fx) (ex_name e) (ex_reason e)))"

definition remove_instances ::
  "('p, 'd, 'w) node_env \<Rightarrow> node_app \<Rightarrow> ('p, 'd, 'w) scheduler_state \<Rightarrow>
    (failure + unit) \<times> ('p, 'd, 'w) scheduler_state" where
  "remove_instances env na sc =
     (case destroy_localities env (sc_serial sc) (na_sub_plans na) (na_localities na) (False, [], [])
         (start_round sc) of
        (Inl f, sc', _) \<Rightarrow> (Inl f, sc')
      | (Inr fx, rd) \<Rightarrow>
          (case wait_round env (sc_serial sc) (na_delay na) rd of
             (Inl f, sc', _) \<Rightarrow> (Inl f, sc')
           | (Inr _, sc', cmp, n) \<Rightarrow>
               (case collect_removals (completed cmp) [0..<n] fx of
                  (flag, name, reason) \<Rightarrow>
                    (if flag then Inl (Raised (UserEx StopError name reason)) else Inr (), sc'))))"

end
