(* ===== verification/Node_Manager.thy ===== *)
theory Node_Manager
  imports Node_Application
begin

text \<open>
  The managers of one node, dancex11/node_deployment_handler: the application manager of a plan
  (dancex11_ndh_application_manager_impl.cpp), which splits the plan by locality, has its artifacts
  installed and launches and destroys its application, and the node manager
  (dancex11_ndh_manager_impl.cpp), which keeps one application manager per plan.

  The search path separator is the one of a POSIX system, and the branch for the library path is the
  one taken there. A new object gets the reference \<open>ref\<close>, chosen by the POA. Launching a manager twice,
  which no caller does, would leave the first application to the POA; that object is not modelled. The
  operations that only raise NO_IMPLEMENT and shutdown, which ends the process, are left out.
\<close>

section \<open>Artifacts\<close>

abbreviation LOCALITY_AM_REMOTE :: "32 word" where
  "LOCALITY_AM_REMOTE \<equiv> 1"

text \<open>One event for each instance of a sub plan.\<close>

fun schedule_instances ::
  "('p, 'd, 'w) node_env \<Rightarrow> nat \<Rightarrow> action \<Rightarrow> nat \<Rightarrow> nat list \<Rightarrow> ('p, 'd, 'w) round \<Rightarrow>
    bool \<times> ('p, 'd, 'w) round" where
  "schedule_instances env cur a i [] rd = (True, rd)"
| "schedule_instances env cur a i (r # rs) rd =
     (case schedule_at env cur a (Sub_Plan i) r DANCE_ARTIFACT rd of
        (False, rd') \<Rightarrow> (False, rd')
      | (True, rd') \<Rightarrow> schedule_instances env cur a i rs rd')"

text \<open>
  Which implementation the search path of an instance goes to: \<open>instance_localities\<close> with its pointers
  as the number of the sub plan and the index of the implementation.
\<close>

type_synonym localities_table = "(string, nat \<times> nat) smap"

fun schedule_artifacts ::
  "('p, 'd, 'w) node_env \<Rightarrow> nat \<Rightarrow> (nat \<times> locality_key) list \<Rightarrow> localities_table \<Rightarrow> ('p, 'd, 'w) round \<Rightarrow>
    (failure + localities_table) \<times> ('p, 'd, 'w) round" where
  "schedule_artifacts env cur [] table rd = (Inr table, rd)"
| "schedule_artifacts env cur ((i, k) # ks) table rd =
     (case rd of (sc, cmp, n) \<Rightarrow>
       (case sc_plans sc (Sub_Plan i) of
          None \<Rightarrow> (Inl Undefined, rd)
        | Some plan0 \<Rightarrow>
            (case preprocess (sc_interceptors env sc) plan0 (sc_world sc) of (x, plan, w) \<Rightarrow>
              (let sc' = (put_plan (Sub_Plan i) plan sc)\<lparr>sc_world := w\<rparr> in
               case x of
                 Some e \<Rightarrow> (Inl (Raised e), sc', cmp, n)
               | None \<Rightarrow>
                   (case manager_instance plan k of
                      None \<Rightarrow> (Inl Undefined, sc', cmp, n)
                    | Some inst \<Rightarrow>
                        (case manager_property as_uint32 LOCALITY_ACTIVATION_MODE plan inst of
                           None \<Rightarrow> (Inl Undefined, sc', cmp, n)
                         | Some am \<Rightarrow>
                             (if am = Some LOCALITY_AM_REMOTE
                              then schedule_artifacts env cur ks table (sc', cmp, n)
                              else if length (pl_implementation plan) \<le> id_implementationRef inst
                              then (Inl Undefined, sc', cmp, n)
                              else case schedule_instances env cur Install_Instance i
                                  [0..<length (pl_instance plan)] (sc', cmp, n) of
                                  (False, rd') \<Rightarrow> (Inl Undefined, rd')
                                | (True, rd') \<Rightarrow>
                                    schedule_artifacts env cur ks
                                      (fold (\<lambda>x. map_put (id_name x) (i, id_implementationRef inst))
                                        (pl_instance plan) table) rd')))))))"

fun schedule_removals ::
  "('p, 'd, 'w) node_env \<Rightarrow> nat \<Rightarrow> (nat \<times> locality_key) list \<Rightarrow> ('p, 'd, 'w) round \<Rightarrow>
    bool \<times> ('p, 'd, 'w) round" where
  "schedule_removals env cur [] rd = (True, rd)"
| "schedule_removals env cur ((i, k) # ks) rd =
     (case rd of (sc, cmp, n) \<Rightarrow>
       (case sc_plans sc (Sub_Plan i) of
          None \<Rightarrow> (False, rd)
        | Some plan \<Rightarrow>
            (case manager_instance plan k of
               None \<Rightarrow> (False, rd)
             | Some inst \<Rightarrow>
                 (case manager_property as_uint32 LOCALITY_ACTIVATION_MODE plan inst of
                    None \<Rightarrow> (False, rd)
                  | Some am \<Rightarrow>
                      (if am = Some LOCALITY_AM_REMOTE then schedule_removals env cur ks rd
                       else case schedule_instances env cur Remove_Instance i
                           [0..<length (pl_instance plan)] rd of
                           (False, rd') \<Rightarrow> (False, rd')
                         | (True, rd') \<Rightarrow> schedule_removals env cur ks rd')))))"

text \<open>Looking at the completed events of one wait, in the order they were set.\<close>

type_synonym 'd plan_store = "place \<Rightarrow> 'd plan option"

type_synonym 'd examiner = "'d event_result \<Rightarrow> 'd plan_store \<Rightarrow> failure option \<times> 'd plan_store"

fun examine_all :: "'d examiner \<Rightarrow> 'd event_result list \<Rightarrow> 'd plan_store \<Rightarrow> failure option \<times> 'd plan_store" where
  "examine_all ex [] plans = (None, plans)"
| "examine_all ex (r # rs) plans =
     (case ex r plans of (Some f, plans') \<Rightarrow> (Some f, plans') | (None, plans') \<Rightarrow> examine_all ex rs plans')"

lemma wait_progress:
  "single_threaded_wait cd run timer q s = (res, q', s') \<Longrightarrow>
    length q' \<le> length q \<and> (length q' = length q \<longrightarrow> s' = s)"
proof (induction q arbitrary: timer s)
  case (Cons e q)
  show ?case
    using Cons.prems Cons.IH [of "map_option (cd s (snd (run e s))) timer" "snd (run e s)"]
    by (auto simp: wait_Cons split: if_splits prod.splits option.splits)
qed simp

lemma wait_round_progress:
  assumes "wait_round env cur secs (sc, cmp, n) = (res, sc', cmp', n')"
  shows "length (sc_queue sc') \<le> length (sc_queue sc)
    \<and> (length (sc_queue sc') = length (sc_queue sc) \<longrightarrow> cmp' = cmp)"
  using assms by (auto simp: wait_round_def split: prod.splits dest!: wait_progress)

text \<open>
  The loop of both operations: wait for thirty seconds at a time until all is done, at most nine times
  in vain, and look at what was completed after each wait.
\<close>

function artifact_rounds ::
  "('p, 'd, 'w) node_env \<Rightarrow> nat \<Rightarrow> exn \<Rightarrow> 'd examiner \<Rightarrow> nat \<Rightarrow> ('p, 'd, 'w) round \<Rightarrow>
    (failure + unit) \<times> ('p, 'd, 'w) scheduler_state" where
  "artifact_rounds env cur late ex timeouts rd =
     (case wait_round env cur 30 rd of
        (Inl f, sc, _) \<Rightarrow> (Inl f, sc)
      | (Inr finished, sc, cmp, n) \<Rightarrow>
          (case completed_events cmp of (evs, cmp') \<Rightarrow>
            (let timeouts' = (if evs = [] \<and> \<not> finished then timeouts + 1 else timeouts)
             in if evs = [] \<and> \<not> finished \<and> 9 < timeouts' then (Inl (Raised late), sc)
                else case examine_all ex (map snd evs) (sc_plans sc) of
                    (Some f, plans) \<Rightarrow> (Inl f, sc\<lparr>sc_plans := plans\<rparr>)
                  | (None, plans) \<Rightarrow>
                      (if finished then (Inr (), sc\<lparr>sc_plans := plans\<rparr>)
                       else artifact_rounds env cur late ex timeouts' (sc\<lparr>sc_plans := plans\<rparr>, cmp', n)))))"
  by pat_completeness auto
termination
proof (relation "measures [\<lambda>(_, _, _, _, _, sc, _, _). length (sc_queue sc),
    \<lambda>(_, _, _, _, _, _, cmp, _). length (completed cmp), \<lambda>(_, _, _, _, t, _). 10 - t]", simp)
  fix env :: "('p, 'd, 'w) node_env" and cur timeouts timeouts' n :: nat and late :: exn
    and ex :: "'d examiner" and rd :: "('p, 'd, 'w) round" and sc :: "('p, 'd, 'w) scheduler_state"
    and cmp cmp' :: "(nat \<times> 'd event_result) completion" and plans :: "'d plan_store"
    and f :: "failure option" and res x finished y evs
  assume w: "(res, x) = wait_round env cur 30 rd" "res = Inr finished" "(sc, y) = x" "(cmp, n) = y"
    and evs: "(evs, cmp') = completed_events cmp"
    and t: "timeouts' = (if evs = [] \<and> \<not> finished then timeouts + 1 else timeouts)"
    and more: "\<not> (evs = [] \<and> \<not> finished \<and> 9 < timeouts')" "\<not> finished"
    and z: "(f, plans) = examine_all ex (map snd evs) (sc_plans sc)" "f = None"
  obtain sc0 cmp0 n0 where rd: "rd = (sc0, cmp0, n0)" by (cases rd)
  have p: "length (sc_queue sc) \<le> length (sc_queue sc0)
      \<and> (length (sc_queue sc) = length (sc_queue sc0) \<longrightarrow> cmp = cmp0)"
    using wait_round_progress w by (metis rd)
  have c: "completed cmp' = []" "evs = completed cmp" using evs by (simp_all add: completed_events_def)
  show "((env, cur, late, ex, timeouts', sc\<lparr>sc_plans := plans\<rparr>, cmp', n), env, cur, late, ex, timeouts, rd)
      \<in> measures [\<lambda>(_, _, _, _, _, sc, _, _). length (sc_queue sc),
        \<lambda>(_, _, _, _, _, _, cmp, _). length (completed cmp), \<lambda>(_, _, _, _, t, _). 10 - t]"
    using p c t more by (cases "completed cmp0") (auto simp: rd)
qed

declare artifact_rounds.simps [simp del]

text \<open>What the installation of artifacts does with a result: append the paths to the search paths.\<close>

definition search_path :: "string list \<Rightarrow> string" where
  "search_path paths = foldl (\<lambda>sp p. (if sp \<noteq> [] then sp @ '':'' else sp) @ p) [] paths"

definition extend_path :: "string \<Rightarrow> string list \<Rightarrow> 'd properties \<Rightarrow> 'd properties" where
  "extend_path name paths params =
     (let new_path =
        (case get_property_value as_string name params of
           Some v \<Rightarrow> (if v \<noteq> [] then v @ '':'' @ search_path paths else v)
         | None \<Rightarrow> [])
      in update_property_value name (PrimAny (VString new_path)) params)"

definition extend_paths :: "string list \<Rightarrow> nat \<Rightarrow> 'd plan \<Rightarrow> 'd plan" where
  "extend_paths paths m plan =
     (let impl = pl_implementation plan ! m
      in plan\<lparr>pl_implementation := (pl_implementation plan)[m := impl\<lparr>md_execParameter :=
           extend_path DANCE_LM_LIBPATH paths (extend_path DANCE_LM_PATH paths (md_execParameter impl))\<rparr>]\<rparr>)"

definition installed_artifact ::
  "('p, 'd, 'w) node_env \<Rightarrow> localities_table \<Rightarrow> 'd examiner" where
  "installed_artifact env table r plans =
     (if er_exception r then (Some (Raised (throw_exception_from_any (ne_sysx env) (er_contents r))), plans)
      else case (as_strings (er_contents r), map_get table (er_id r)) of
          (Some (p # ps), Some (i, m)) \<Rightarrow>
            (case plans (Sub_Plan i) of
               None \<Rightarrow> (Some Undefined, plans)
             | Some plan \<Rightarrow>
                 (if m < length (pl_implementation plan)
                  then (None, plans(Sub_Plan i := Some (extend_paths (p # ps) m plan)))
                  else (Some Undefined, plans)))
        | _ \<Rightarrow> (None, plans))"

definition removed_artifact :: "('p, 'd, 'w) node_env \<Rightarrow> 'd examiner" where
  "removed_artifact env r plans =
     (if er_exception r then Some (Raised (throw_exception_from_any (ne_sysx env) (er_contents r))) else None, plans)"

definition installArtifacts ::
  "('p, 'd, 'w) node_env \<Rightarrow> locality_key list \<Rightarrow> ('p, 'd, 'w) scheduler_state \<Rightarrow>
    (failure + unit) \<times> ('p, 'd, 'w) scheduler_state" where
  "installArtifacts env keys sc =
     (case schedule_artifacts env (sc_serial sc) (enumerate 0 keys) [] (start_round sc) of
        (Inl f, sc', _) \<Rightarrow> (Inl f, sc')
      | (Inr table, rd) \<Rightarrow>
          artifact_rounds env (sc_serial sc)
            (UserEx StartError ''NodeApplicationManager''
              ''Timed out while waiting on completion of artifact installations'')
            (installed_artifact env table) 0 rd)"

definition removeArtifacts ::
  "('p, 'd, 'w) node_env \<Rightarrow> locality_key list \<Rightarrow> ('p, 'd, 'w) scheduler_state \<Rightarrow>
    (failure + unit) \<times> ('p, 'd, 'w) scheduler_state" where
  "removeArtifacts env keys sc =
     (case schedule_removals env (sc_serial sc) (enumerate 0 keys) (start_round sc) of
        (False, sc', _) \<Rightarrow> (Inl Undefined, sc')
      | (True, rd) \<Rightarrow>
          artifact_rounds env (sc_serial sc)
            (UserEx StopError ''NodeApplicationManager''
              ''Timed out while waiting on completion of artifact removals'')
            (removed_artifact env) 0 rd)"

section \<open>The application manager of a plan\<close>

record ('p, 'd, 'w) node_manager =
  nm_domain_nc :: string
  nm_keys :: "locality_key list"
  nm_app :: "(nat \<times> node_app) option"
  nm_sched :: "('p, 'd, 'w) scheduler_state"

definition new_node_manager :: "('p, 'd) manager \<Rightarrow> string \<Rightarrow> 'w \<Rightarrow> ('p, 'd, 'w) node_manager" where
  "new_node_manager pm nc w = \<lparr>nm_domain_nc = nc, nm_keys = [], nm_app = None,
     nm_sched = \<lparr>sc_plugins = pm, sc_queue = [], sc_plans = (\<lambda>_. None), sc_serial = 0, sc_world = w\<rparr>\<rparr>"

definition has_artifact_handler :: "('p, 'd, 'w) scheduler_state \<Rightarrow> bool" where
  "has_artifact_handler sc \<longleftrightarrow> fetch_installation_handler DANCE_ARTIFACT (sc_plugins sc) \<noteq> None"

text \<open>The naming context of the domain, for the locality manager of each sub plan.\<close>

fun put_domain_nc :: "string \<Rightarrow> (nat \<times> locality_key) list \<Rightarrow> 'd plan_store \<Rightarrow> bool \<times> 'd plan_store" where
  "put_domain_nc nc [] plans = (True, plans)"
| "put_domain_nc nc ((i, k) # ks) plans =
     (case plans (Sub_Plan i) of
        None \<Rightarrow> (False, plans)
      | Some plan \<Rightarrow>
          (case manager_instance plan k of
             None \<Rightarrow> (False, plans)
           | Some inst \<Rightarrow>
               (let m = id_implementationRef inst; impl = pl_implementation plan ! m
                in if m < length (pl_implementation plan)
                   then put_domain_nc nc ks (plans(Sub_Plan i := Some (plan\<lparr>pl_implementation :=
                     (pl_implementation plan)[m := impl\<lparr>md_execParameter :=
                       update_property_value DOMAIN_NC (PrimAny (VString nc)) (md_execParameter impl)\<rparr>]\<rparr>)))
                   else (False, plans))))"

definition store_plans :: "'d plan list \<Rightarrow> 'd plan_store" where
  "store_plans ps = (\<lambda>pl. case pl of Sub_Plan i \<Rightarrow> (if i < length ps then Some (ps ! i) else None) | _ \<Rightarrow> None)"

definition nam_preparePlan ::
  "('p, 'd, 'w) node_env \<Rightarrow> (string \<Rightarrow> string) \<Rightarrow> 'd plan \<Rightarrow> ('p, 'd, 'w) node_manager \<Rightarrow>
    (failure + unit) \<times> ('p, 'd, 'w) node_manager" where
  "nam_preparePlan env gen plan nm =
     (case split_plan (locality_splitter gen) plan no_filter of
        None \<Rightarrow> (Inl Undefined, nm)
      | Some m \<Rightarrow>
          (let keys = map (\<lambda>(_, k, _). k) m;
               sc = (nm_sched nm)\<lparr>sc_plans := store_plans (map (\<lambda>(_, _, p). p) m)\<rparr>
           in case (if has_artifact_handler sc then installArtifacts env keys sc else (Inr (), sc)) of
                (Inl f, sc') \<Rightarrow> (Inl f, nm\<lparr>nm_keys := keys, nm_sched := sc'\<rparr>)
              | (Inr _, sc') \<Rightarrow>
                  (case put_domain_nc (nm_domain_nc nm) (enumerate 0 keys) (sc_plans sc') of
                     (ok, plans) \<Rightarrow>
                       (if ok then Inr () else Inl Undefined,
                        nm\<lparr>nm_keys := keys, nm_sched := sc'\<lparr>sc_plans := plans\<rparr>\<rparr>))))"

text \<open>
  When the launch of a locality fails, all localities are shut down and the application is dropped;
  what the shutdown throws is not let out. Preparing them is outside the try block.
\<close>

definition nam_startLaunch ::
  "('p, 'd, 'w) node_env \<Rightarrow> nat \<Rightarrow> 'd properties \<Rightarrow> reference list \<Rightarrow> ('p, 'd, 'w) node_manager \<Rightarrow>
    (failure + nat \<times> reference list) \<times> ('p, 'd, 'w) node_manager" where
  "nam_startLaunch env ref props out nm =
     (case prepare_instances env (nm_keys nm) (new_node_app, nm_sched nm) of
        (Inl f, na, sc) \<Rightarrow> (Inl f, nm\<lparr>nm_app := Some (ref, na), nm_sched := sc\<rparr>)
      | (Inr _, na, sc) \<Rightarrow>
          (case start_launch_instances env props out na (sc_world sc) of
             (Inr refs, w) \<Rightarrow>
               (Inr (ref, refs), nm\<lparr>nm_app := Some (ref, na), nm_sched := sc\<lparr>sc_world := w\<rparr>\<rparr>)
           | (Inl e, w) \<Rightarrow>
               (if is_corba e then
                  (case shutdown_instances env na w of (x, w') \<Rightarrow>
                    (Inl (Raised e), nm\<lparr>nm_app := (if x = None then None else Some (ref, na)),
                       nm_sched := sc\<lparr>sc_world := w'\<rparr>\<rparr>))
                else (Inl (Raised e), nm\<lparr>nm_app := Some (ref, na), nm_sched := sc\<lparr>sc_world := w\<rparr>\<rparr>))))"

text \<open>The handlers of destroyApplication; the misspelt name is the code's.\<close>

definition destroy_exception :: "(exn \<Rightarrow> string) \<Rightarrow> exn \<Rightarrow> exn" where
  "destroy_exception sh e =
     (if is_corba e \<and> \<not> is_user e \<or> is_stop_error e then e
      else if is_user e then UserEx StopError ''NodeApplicationManager'' (sh e)
      else UserEx StopError ''NodeApplicatoinManager'' ''Unknown C++ exception in destroyApplication'')"

definition nam_destroyApplication ::
  "('p, 'd, 'w) node_env \<Rightarrow> nat \<Rightarrow> ('p, 'd, 'w) node_manager \<Rightarrow>
    (failure + unit) \<times> ('p, 'd, 'w) node_manager" where
  "nam_destroyApplication env app nm =
     (case (case nm_app nm of
          None \<Rightarrow> (Inl (Raised (ne_no_servant env)), nm)
        | Some (ref, na) \<Rightarrow>
            (if ref \<noteq> app then
               (Inl (Raised (UserEx StopError ''NodeApplicationManager''
                 ''Wrong application passed to destroyApplication'')), nm)
             else case remove_instances env na (nm_sched nm) of
                 (Inl f, sc) \<Rightarrow> (Inl f, nm\<lparr>nm_sched := sc\<rparr>)
               | (Inr _, sc) \<Rightarrow> (Inr (), nm\<lparr>nm_app := None, nm_sched := sc\<rparr>))) of
        (Inl (Raised e), nm') \<Rightarrow> (Inl (Raised (destroy_exception (ne_show env) e)), nm')
      | (Inl f, nm') \<Rightarrow> (Inl f, nm')
      | (Inr _, nm') \<Rightarrow>
          (if has_artifact_handler (nm_sched nm') then
             (case removeArtifacts env (nm_keys nm') (nm_sched nm') of (res, sc) \<Rightarrow> (res, nm'\<lparr>nm_sched := sc\<rparr>))
           else (Inr (), nm')))"

section \<open>The node manager\<close>

record ('p, 'd, 'w) node_process =
  np_managers :: "(string, nat \<times> ('p, 'd, 'w) node_manager) smap"
  np_plugins :: "('p, 'd) manager"
  np_domain_nc :: string
  np_world :: 'w

text \<open>The managers of a process share what is outside it; a manager works on the current state of that.\<close>

definition in_world :: "'w \<Rightarrow> ('p, 'd, 'w) node_manager \<Rightarrow> ('p, 'd, 'w) node_manager" where
  "in_world w nm = nm\<lparr>nm_sched := (nm_sched nm)\<lparr>sc_world := w\<rparr>\<rparr>"

definition np_preparePlan ::
  "('p, 'd, 'w) node_env \<Rightarrow> (string \<Rightarrow> string) \<Rightarrow> nat \<Rightarrow> 'd plan \<Rightarrow> ('p, 'd, 'w) node_process \<Rightarrow>
    (failure + nat) \<times> ('p, 'd, 'w) node_process" where
  "np_preparePlan env gen ref plan np =
     (if map_has (np_managers np) (pl_UUID plan) then
        (Inl (Raised (UserEx PlanError (pl_UUID plan) ''Plan with same UUID already exists'')), np)
      else case nam_preparePlan env gen plan
          (new_node_manager (np_plugins np) (np_domain_nc np) (np_world np)) of
          (Inl f, nm) \<Rightarrow> (Inl f, np\<lparr>np_world := sc_world (nm_sched nm)\<rparr>)
        | (Inr _, nm) \<Rightarrow>
            (Inr ref, np\<lparr>np_managers := map_put (pl_UUID plan) (ref, nm) (np_managers np),
               np_world := sc_world (nm_sched nm)\<rparr>))"

text \<open>A call on an application manager, by its reference; None when there is none.\<close>

definition on_manager ::
  "nat \<Rightarrow> (('p, 'd, 'w) node_manager \<Rightarrow> (failure + 'a) \<times> ('p, 'd, 'w) node_manager) \<Rightarrow>
    ('p, 'd, 'w) node_process \<Rightarrow> ((failure + 'a) \<times> ('p, 'd, 'w) node_process) option" where
  "on_manager ref f np =
     map_option (\<lambda>(uuid, _, nm). case f (in_world (np_world np) nm) of (res, nm') \<Rightarrow>
        (res, np\<lparr>np_managers := map_put uuid (ref, nm') (np_managers np), np_world := sc_world (nm_sched nm')\<rparr>))
       (find (\<lambda>(_, r, _). r = ref) (np_managers np))"

definition np_destroyManager ::
  "nat \<Rightarrow> ('p, 'd, 'w) node_process \<Rightarrow> exn option \<times> ('p, 'd, 'w) node_process" where
  "np_destroyManager ref np =
     (case find (\<lambda>(_, r, _). r = ref) (np_managers np) of
        None \<Rightarrow> (Some (OtherUser ''IDL:Deployment/InvalidReference:1.0''), np)
      | Some (uuid, _) \<Rightarrow> (None, np\<lparr>np_managers := map_erase uuid (np_managers np)\<rparr>))"

end
