(* ===== verification/Node_Launch.thy ===== *)
theory Node_Launch
  imports Node_Manager
begin

text \<open>
  What the managers of one node promise: preparing its localities installs and prepares one locality
  manager for each sub plan, removing them visits every locality whatever fails, a launch that fails
  shuts all of them down, and what the installation of artifacts does to the search paths.
\<close>

section \<open>A round of events without interceptors\<close>

definition patient_node :: "('p, 'd, 'w) node_env \<Rightarrow> bool" where
  "patient_node env \<longleftrightarrow> fifo (ne_enqueue env) \<and> patient (ne_countdown env)
     \<and> (\<forall>d. d \<noteq> 0 \<longrightarrow> 0 < ne_duration env d)"

text \<open>The outcomes of queued events, each run on its plan, with the numbers of their futures.\<close>

fun run_queue ::
  "(string \<Rightarrow> ('d, 'w) handler option) \<Rightarrow> 'd plan_store \<Rightarrow> 'd queued list \<Rightarrow> 'w \<Rightarrow>
    (nat \<times> 'd event_result) list \<times> 'w" where
  "run_queue fetch plans [] w = ([], w)"
| "run_queue fetch plans (qd # qs) w =
     (case qd_event qd of ev \<Rightarrow>
       (case the (plans (qd_place qd)) of plan \<Rightarrow>
         (case run_queue fetch plans qs (world_after (fetch (ev_type ev)) ev plan w) of
            (rs, w') \<Rightarrow>
              ((qd_future qd, result_of (ev_name ev, outcome (fetch (ev_type ev)) ev plan w)) # rs, w'))))"

definition runnable :: "nat \<Rightarrow> 'd plan_store \<Rightarrow> 'd queued \<Rightarrow> bool" where
  "runnable cur plans qd \<longleftrightarrow> qd_completion qd = cur \<and> fresh (qd_event qd) \<and> plans (qd_place qd) \<noteq> None"

lemma run_queued_plain:
  assumes "runnable cur plans qd"
  shows "run_queued [] fetch cur qd (cmp, plans, w) =
    (None, update (qd_future qd, result_of (ev_name (qd_event qd),
        outcome (fetch (ev_type (qd_event qd))) (qd_event qd) (the (plans (qd_place qd))) w)) cmp, plans,
     world_after (fetch (ev_type (qd_event qd))) (qd_event qd) (the (plans (qd_place qd))) w)"
  using assms
  by (auto simp: runnable_def run_queued_def call_plain_full result_of_def fun_upd_idem split: sum.split)

lemma run_all_plain:
  "\<forall>qd \<in> set qs. runnable cur plans qd \<Longrightarrow>
    \<exists>cmp'. run_all (run_queued [] fetch cur) qs (cmp, plans, w) = (cmp', plans, snd (run_queue fetch plans qs w))
    \<and> completed cmp' = completed cmp @ fst (run_queue fetch plans qs w)"
proof (induction qs arbitrary: cmp w)
  case (Cons qd qs)
  then show ?case
    using Cons.IH [of "update (qd_future qd, result_of (ev_name (qd_event qd),
        outcome (fetch (ev_type (qd_event qd))) (qd_event qd) (the (plans (qd_place qd))) w)) cmp"
      "world_after (fetch (ev_type (qd_event qd))) (qd_event qd) (the (plans (qd_place qd))) w"]
    by (auto simp: run_all_def run_queued_plain update_counter split: prod.split)
qed (simp add: run_all_def)

lemma wait_runs_queue:
  assumes "single_threaded_wait cd (run_queued [] fetch cur) (Some t) q (cmp, plans, w) = res"
    and "patient cd" "0 < t" "\<forall>qd \<in> set q. runnable cur plans qd"
  shows "\<exists>cmp'. res = (Inr True, [], cmp', plans, snd (run_queue fetch plans q w))
    \<and> completed cmp' = completed cmp @ fst (run_queue fetch plans q w)"
proof -
  have "single_threaded_wait cd (run_queued [] fetch cur) timer q (cmp, plans, w)
      = (Inr True, [], run_all (run_queued [] fetch cur) q (cmp, plans, w))"
    if "timer \<noteq> Some 0" "\<forall>qd \<in> set q. runnable cur plans qd" for timer q cmp w
    using that
  proof (induction q arbitrary: timer cmp w)
    case (Cons qd q)
    obtain cmp1 w1 where s: "run_queued [] fetch cur qd (cmp, plans, w) = (None, cmp1, plans, w1)"
      using run_queued_plain Cons.prems(2) by fastforce
    have "map_option (cd (cmp, plans, w) (cmp1, plans, w1)) timer \<noteq> Some 0"
      using Cons.prems(1) assms(2) by (cases timer) (auto simp: patient_def dest: gr0I)
    with Cons s show ?case by (simp add: wait_Cons run_all_def)
  qed (simp add: run_all_def)
  with run_all_plain [OF assms(4), of fetch cmp w] assms(1,3,4) show ?thesis by auto
qed

text \<open>So a wait with time enough runs the whole queue.\<close>

lemma wait_round_plain:
  assumes "patient_node env" "secs \<noteq> 0" "sc_interceptors env sc = []"
    and "\<forall>qd \<in> set (sc_queue sc). runnable cur (sc_plans sc) qd"
    and "run_queue (sc_fetch env sc) (sc_plans sc) (sc_queue sc) (sc_world sc) = (rs, w')"
  shows "\<exists>cmp'. wait_round env cur secs (sc, cmp, n) =
      (Inr True, sc\<lparr>sc_queue := [], sc_world := w'\<rparr>, cmp', n)
    \<and> completed cmp' = completed cmp @ rs"
proof -
  let ?cd = "\<lambda>(_, _, w) (_, _, w'). ne_countdown env w w'"
  have "patient ?cd" using assms(1) by (auto simp: patient_node_def patient_def)
  moreover have "0 < ne_duration env secs" using assms(1,2) by (simp add: patient_node_def)
  ultimately obtain cmp' where "single_threaded_wait ?cd (run_queued [] (sc_fetch env sc) cur)
      (Some (ne_duration env secs)) (sc_queue sc) (cmp, sc_plans sc, sc_world sc) = (Inr True, [], cmp', sc_plans sc, w')"
    and "completed cmp' = completed cmp @ rs"
    using wait_runs_queue [OF refl _ _ assms(4), of ?cd "ne_duration env secs" "sc_fetch env sc" cmp "sc_world sc"] assms(5)
    by auto
  then show ?thesis using assms(3) by (cases sc) (simp add: wait_round_def)
qed

section \<open>Preparing the localities: the specification\<close>

text \<open>A sub plan with the index of the instance that is its locality manager.\<close>

type_synonym 'd job = "'d plan \<times> nat"

definition job_name :: "'d job \<Rightarrow> string" where
  "job_name j = id_name (pl_instance (fst j) ! snd j)"

definition job_event :: "action \<Rightarrow> 'd job \<Rightarrow> 'd event" where
  "job_event a j = mk_event a (fst j) DANCE_LOCALITYMANAGER (snd j)"

text \<open>The handler runs for every locality manager, whatever happens to the ones before it.\<close>

fun run_managers ::
  "action \<Rightarrow> ('d, 'w) handler option \<Rightarrow> 'd job list \<Rightarrow> 'w \<Rightarrow> ('d job \<times> (exn + 'd any)) list \<times> 'w" where
  "run_managers a h [] w = ([], w)"
| "run_managers a h (j # js) w =
     (case run_managers a h js (world_after h (job_event a j) (fst j) w) of
        (os, w') \<Rightarrow> ((j, outcome h (job_event a j) (fst j) w) # os, w'))"

text \<open>After the installation each is prepared with its own sub plan, up to the first that is not there.\<close>

fun prepare_managers ::
  "('p, 'd, 'w) node_env \<Rightarrow> ('d job \<times> (exn + 'd any)) list \<Rightarrow> 'w \<Rightarrow> exn option \<times> (string \<times> nat) list \<times> 'w" where
  "prepare_managers env [] w = (None, [], w)"
| "prepare_managers env ((j, Inl e) # os) w = (Some (throw_exception_from_any (ne_sysx env) (ExAny e)), [], w)"
| "prepare_managers env ((j, Inr v) # os) w =
     (case ne_locality env v of
        None \<Rightarrow> (Some (UserEx StartError (job_name j) ''Unable to resolve LocalityManager object ref''), [], w)
      | Some lm \<Rightarrow>
          (case lm_prepare_call env lm (fst j) w of (x, w') \<Rightarrow>
             (if case x of None \<Rightarrow> True | Some e \<Rightarrow> is_corba e
              then case prepare_managers env os w' of (y, ls, w'') \<Rightarrow> (y, (job_name j, lm) # ls, w'')
              else (x, [(job_name j, lm)], w'))))"

text \<open>The sub plans that the node application finds, with a valid index and a timeout that is not zero.\<close>

definition is_job :: "'d plan_store \<Rightarrow> nat \<times> locality_key \<Rightarrow> 'd job \<Rightarrow> bool" where
  "is_job plans x j \<longleftrightarrow>
     plans (Sub_Plan (fst x)) = Some (fst j) \<and> snd j = locality_manager_instance (snd x)
     \<and> snd j < length (pl_instance (fst j))
     \<and> id_implementationRef (pl_instance (fst j) ! snd j) < length (pl_implementation (fst j))
     \<and> manager_property as_uint32 LOCALITY_TIMEOUT (fst j) (pl_instance (fst j) ! snd j) \<noteq> Some (Some 0)"

definition job_queue :: "action \<Rightarrow> nat \<Rightarrow> nat \<Rightarrow> 'd job list \<Rightarrow> 'd queued list" where
  "job_queue a cur n js = map (\<lambda>(i, j). \<lparr>qd_place = Locality_Plan (job_name j),
     qd_event = job_event a j, qd_completion = cur, qd_future = i\<rparr>) (enumerate n js)"

definition put_jobs :: "'d job list \<Rightarrow> 'd plan_store \<Rightarrow> 'd plan_store" where
  "put_jobs js plans = fold (\<lambda>j plans. plans(Locality_Plan (job_name j) := Some (fst j))) js plans"

lemma put_jobs_simps [simp]:
  "put_jobs [] plans = plans"
  "put_jobs (j # js) plans = put_jobs js (plans(Locality_Plan (job_name j) := Some (fst j)))"
  by (simp_all add: put_jobs_def)

lemma put_jobs_other: "pl \<notin> (\<lambda>j. Locality_Plan (job_name j)) ` set js \<Longrightarrow> put_jobs js plans pl = plans pl"
  by (induction js arbitrary: plans) auto

lemma put_jobs_own:
  "distinct (map job_name js) \<Longrightarrow> j \<in> set js \<Longrightarrow> put_jobs js plans (Locality_Plan (job_name j)) = Some (fst j)"
proof (induction js arbitrary: plans)
  case (Cons j' js)
  show ?case
  proof (cases "j' = j")
    case True
    then have "Locality_Plan (job_name j) \<notin> (\<lambda>j. Locality_Plan (job_name j)) ` set js" using Cons.prems by auto
    then show ?thesis using True by (simp add: put_jobs_other)
  qed (use Cons in auto)
qed simp

section \<open>The code meets it\<close>

lemma manager_property_some:
  "id_implementationRef inst < length (pl_implementation plan) \<Longrightarrow> manager_property ex name plan inst \<noteq> None"
  by (simp add: manager_property_def split: option.split)

lemma schedule_at_ok:
  assumes "fifo (ne_enqueue env)" "sc_plans sc pl = Some plan" "r < length (pl_instance plan)" "\<not> on_connection a"
  shows "schedule_at env cur a pl r ty (sc, cmp, n) =
    (True, sc\<lparr>sc_queue := sc_queue sc @ [\<lparr>qd_place = pl, qd_event = mk_event a plan ty r,
       qd_completion = cur, qd_future = n\<rparr>]\<rparr>, accept None cmp, Suc n)"
  using assms by (simp add: schedule_at_def new_event_mk schedule_event_def fifo_def)

lemma dispatch_localities_ok:
  assumes "fifo (ne_enqueue env)"
  shows "list_all2 (is_job (sc_plans sc)) ks js \<Longrightarrow> na_delay na \<noteq> 0 \<Longrightarrow>
    \<exists>na' cmp'. dispatch_localities env cur ks na (sc, cmp, n) =
        (True, na', sc\<lparr>sc_queue := sc_queue sc @ job_queue Install_Instance cur n js, sc_plans := put_jobs js (sc_plans sc)\<rparr>,
         cmp', n + length js)
      \<and> completed cmp' = completed cmp \<and> na_localities na' = na_localities na \<and> na_delay na' \<noteq> 0"
proof (induction ks arbitrary: js na sc cmp n)
  case Nil
  then show ?case by (cases sc) (auto simp: job_queue_def)
next
  case (Cons x ks)
  obtain i k where x: "x = (i, k)" by (cases x)
  obtain j js' where js: "js = j # js'" and j: "is_job (sc_plans sc) x j"
    and js': "list_all2 (is_job (sc_plans sc)) ks js'"
    using Cons.prems(1) by (auto simp: list_all2_Cons1)
  let ?sc = "sc\<lparr>sc_queue := sc_queue sc @ job_queue Install_Instance cur n [j],
    sc_plans := (sc_plans sc)(Locality_Plan (job_name j) := Some (fst j))\<rparr>"
  let ?inst = "pl_instance (fst j) ! snd j"
  obtain d where d: "manager_property as_uint32 LOCALITY_TIMEOUT (fst j) ?inst = Some d" "d \<noteq> Some 0"
    using j manager_property_some [of ?inst "fst j" as_uint32 LOCALITY_TIMEOUT] by (auto simp: is_job_def)
  let ?na = "na\<lparr>na_delay := (case d of Some v \<Rightarrow> v | None \<Rightarrow> na_delay na),
    na_sub_plans := map_put (job_name j) (snd j) (na_sub_plans na)\<rparr>"
  have "dispatch_localities env cur (x # ks) na (sc, cmp, n) =
      dispatch_localities env cur ks ?na (?sc, accept None cmp, Suc n)"
    using assms j d(1)
      schedule_at_ok [OF assms, of "put_plan (Locality_Plan (job_name j)) (fst j) sc" "Locality_Plan (job_name j)"
        "fst j" "snd j" Install_Instance cur DANCE_LOCALITYMANAGER cmp n]
    by (cases sc) (auto simp: x is_job_def manager_instance_def put_plan_def job_queue_def job_event_def job_name_def
        on_connection_def Let_def)
  moreover have "list_all2 (is_job (sc_plans ?sc)) ks js'"
    using js' by (rule list_all2_mono) (auto simp: is_job_def)
  moreover have "na_delay ?na \<noteq> 0" using Cons.prems(2) d(2) by (auto split: option.split)
  ultimately obtain na' cmp' where "dispatch_localities env cur (x # ks) na (sc, cmp, n) =
      (True, na', ?sc\<lparr>sc_queue := sc_queue ?sc @ job_queue Install_Instance cur (Suc n) js', sc_plans := put_jobs js' (sc_plans ?sc)\<rparr>,
       cmp', Suc n + length js')"
    and "completed cmp' = completed (accept None cmp)" "na_localities na' = na_localities ?na" "na_delay na' \<noteq> 0"
    using Cons.IH [of ?sc js' ?na "accept None cmp" "Suc n"] by metis
  then show ?case by (simp add: js job_queue_def)
qed

lemma run_job_queue:
  assumes "\<forall>j \<in> set js. plans (Locality_Plan (job_name j)) = Some (fst j)"
  shows "run_queue fetch plans (job_queue a cur n js) w =
    (case run_managers a (fetch DANCE_LOCALITYMANAGER) js w of
       (os, w') \<Rightarrow> (enumerate n (map (\<lambda>(j, x). result_of (job_name j, x)) os), w'))"
  using assms
proof (induction js arbitrary: n w)
  case (Cons j js)
  have ev: "ev_type (job_event a j) = DANCE_LOCALITYMANAGER"
    "ev_name (job_event a j) = job_name j"
    by (simp_all add: job_event_def mk_event_def job_name_def)
  have q: "job_queue a cur n (j # js) = \<lparr>qd_place = Locality_Plan (job_name j),
      qd_event = job_event a j, qd_completion = cur, qd_future = n\<rparr> # job_queue a cur (Suc n) js"
    by (simp add: job_queue_def)
  show ?case using Cons by (simp add: q ev split: prod.split)
qed (simp add: job_queue_def)

lemma run_managers_jobs: "map fst (fst (run_managers a h js w)) = js"
  by (induction a h js w rule: run_managers.induct) (auto split: prod.splits)

lemma put_plan_same: "sc_plans sc pl = Some plan \<Longrightarrow> put_plan pl plan sc = sc"
  by (cases sc) (auto simp: put_plan_def)

lemma collect_prepares:
  assumes "\<forall>i < length os. map_of results (n + i) = Some (result_of (job_name (fst (os ! i)), snd (os ! i)))"
    and "\<forall>j \<in> fst ` set os. sc_plans sc (Locality_Plan (job_name j)) = Some (fst j)"
  shows "case prepare_managers env os (sc_world sc) of (x, ls, w) \<Rightarrow>
    \<exists>na'. collect_localities env results [n..<n + length os] (na, sc) =
      (case x of None \<Rightarrow> Inr () | Some e \<Rightarrow> Inl (Raised e), na', sc\<lparr>sc_world := w\<rparr>)
      \<and> na_localities na' = fold (\<lambda>(name, lm). map_put name lm) ls (na_localities na)"
  using assms
proof (induction os arbitrary: n na sc)
  case (Cons o' os)
  obtain j x where o': "o' = (j, x)" by (cases o')
  have r: "map_of results n = Some (result_of (job_name j, x))" using Cons.prems(1) by (auto simp: o')
  have rs: "\<forall>i < length os. map_of results (Suc n + i) = Some (result_of (job_name (fst (os ! i)), snd (os ! i)))"
    using Cons.prems(1) by auto
  have own: "sc_plans sc (Locality_Plan (job_name j)) = Some (fst j)" using Cons.prems(2) by (simp add: o')
  have upt: "[n..<n + length (o' # os)] = n # [Suc n..<Suc n + length os]" by (simp add: upt_rec)
  show ?case
  proof (cases x)
    case (Inl e)
    then show ?thesis unfolding upt by (simp add: o' r result_of_def error_result_def)
  next
    case (Inr v)
    show ?thesis
    proof (cases "ne_locality env v")
      case None
      then show ?thesis unfolding upt by (simp add: o' r Inr result_of_def value_result_def)
    next
      case (Some lm)
      obtain x w' where c: "lm_prepare_call env lm (fst j) (sc_world sc) = (x, w')" by force
      define y where "y = (case x of None \<Rightarrow> None | Some e \<Rightarrow> if is_corba e then None else Some (Raised e))"
      have p: "prepare_instance env lm (fst j) (sc_world sc) = (y, w')"
        by (simp add: prepare_instance_def c y_def split: option.split)
      let ?na = "na\<lparr>na_localities := map_put (job_name j) lm (na_localities na),
        na_sub_plans := map_insert (job_name j) 0 (na_sub_plans na)\<rparr>"
      let ?sc = "sc\<lparr>sc_world := w'\<rparr>"
      have step: "collect_localities env results [n..<n + length (o' # os)] (na, sc) =
          (case y of Some x \<Rightarrow> (Inl x, ?na, ?sc)
           | None \<Rightarrow> collect_localities env results [Suc n..<Suc n + length os] (?na, ?sc))"
        unfolding upt
        by (simp add: r Inr Some own p put_plan_same result_of_def value_result_def split: option.split)
      show ?thesis
        using Cons.IH [of "Suc n" ?sc ?na] rs Cons.prems(2)
        unfolding step by (auto simp: o' Inr Some c y_def split: prod.splits option.splits)
    qed
  qed
qed simp

lemma sc_frame [simp]:
  "sc_interceptors env (sc\<lparr>sc_queue := q\<rparr>) = sc_interceptors env sc"
  "sc_interceptors env (sc\<lparr>sc_plans := p\<rparr>) = sc_interceptors env sc"
  "sc_interceptors env (sc\<lparr>sc_serial := n\<rparr>) = sc_interceptors env sc"
  "sc_interceptors env (sc\<lparr>sc_world := w\<rparr>) = sc_interceptors env sc"
  "sc_fetch env (sc\<lparr>sc_queue := q\<rparr>) = sc_fetch env sc"
  "sc_fetch env (sc\<lparr>sc_plans := p\<rparr>) = sc_fetch env sc"
  "sc_fetch env (sc\<lparr>sc_serial := n\<rparr>) = sc_fetch env sc"
  "sc_fetch env (sc\<lparr>sc_world := w\<rparr>) = sc_fetch env sc"
  by (simp_all add: sc_interceptors_def sc_fetch_def fun_eq_iff)

lemma map_of_enumerate: "i < length xs \<Longrightarrow> map_of (enumerate n xs) (n + i) = Some (xs ! i)"
  using map_of_zip_nth [of "[n..<n + length xs]" xs i] by (simp add: enumerate_eq_zip)

lemma list_all2_jobs_start:
  "list_all2 (is_job (sc_plans sc)) ks js \<Longrightarrow> list_all2 (is_job (sc_plans (sc\<lparr>sc_serial := n\<rparr>))) ks js"
  by simp

lemma job_queue_runnable:
  "\<forall>j \<in> set js. plans (Locality_Plan (job_name j)) \<noteq> None \<Longrightarrow>
    \<forall>qd \<in> set (job_queue a cur n js). runnable cur plans qd"
  by (auto simp: job_queue_def runnable_def job_event_def mk_event_def fresh_def enumerate_eq_zip dest!: set_zip_rightD)

section \<open>Removing the localities: the specification\<close>

text \<open>
  Every locality is destroyed; the ones for which that succeeds are removed by their handler afterwards.
  A failure has a name and a reason.
\<close>

definition destroy_failure :: "(exn \<Rightarrow> string) \<Rightarrow> exn \<Rightarrow> string \<times> string" where
  "destroy_failure sh e =
     (if is_stop_error e then (ex_name e, ex_reason e) else (''Unknown CORBA Final_Exception'', sh e))"

fun destroy_managers ::
  "('p, 'd, 'w) node_env \<Rightarrow> (nat \<times> 'd job) list \<Rightarrow> 'w \<Rightarrow> (string \<times> string) list \<times> 'd job list \<times> 'w" where
  "destroy_managers env [] w = ([], [], w)"
| "destroy_managers env ((lm, j) # ls) w =
     (case lm_destroy_call env lm w of (x, w') \<Rightarrow>
       (case destroy_managers env ls w' of (fs, js, w'') \<Rightarrow>
         (case x of Some e \<Rightarrow> (destroy_failure (ne_show env) e # fs, js, w'') | None \<Rightarrow> (fs, j # js, w''))))"

definition removal_failure :: "string \<Rightarrow> exn \<Rightarrow> string \<times> string" where
  "removal_failure name e =
     (case reported [StopError] StopError ''Unknown exception thrown from remove_instance'' name e of
        e' \<Rightarrow> (ex_name e', ex_reason e'))"

definition removal_failures :: "('d job \<times> (exn + 'd any)) list \<Rightarrow> (string \<times> string) list" where
  "removal_failures os =
     concat (map (\<lambda>(j, x). case x of Inl e \<Rightarrow> [removal_failure (job_name j) e] | Inr _ \<Rightarrow> []) os)"

text \<open>A locality of an application, with its sub plan and its index in it.\<close>

definition removable :: "(string, nat) smap \<Rightarrow> 'd plan_store \<Rightarrow> string \<times> nat \<Rightarrow> nat \<times> 'd job \<Rightarrow> bool" where
  "removable subs plans x y \<longleftrightarrow>
     snd x = fst y \<and> job_name (snd y) = fst x \<and> map_get subs (fst x) = Some (snd (snd y))
     \<and> plans (Locality_Plan (fst x)) = Some (fst (snd y)) \<and> snd (snd y) < length (pl_instance (fst (snd y)))"

fun first_of :: "first_exception \<Rightarrow> (string \<times> string) list \<Rightarrow> first_exception" where
  "first_of fx [] = fx"
| "first_of fx (f # fs) = first_of (test_and_set_exception (fst fx) (snd fx) (fst f) (snd f)) fs"

lemma first_of_append: "first_of fx (fs @ gs) = first_of (first_of fx fs) gs"
  by (induction fs arbitrary: fx) simp_all

lemma first_of_set: "first_of (True, ex) fs = (True, ex)"
  by (induction fs) (simp_all add: test_and_set_exception_def)

lemma first_of_start: "first_of (False, [], []) fs = (case fs of [] \<Rightarrow> (False, [], []) | f # _ \<Rightarrow> (True, f))"
  by (cases fs) (simp_all add: test_and_set_exception_def first_of_set)

lemma note_exception_corba:
  "is_corba e \<Longrightarrow> note_exception sh e fx = Some (first_of fx [destroy_failure sh e])"
  by (cases fx) (simp add: destroy_failure_def)

section \<open>The code meets it\<close>

definition corba_only :: "(nat \<Rightarrow> 'w \<Rightarrow> exn option \<times> 'w) \<Rightarrow> bool" where
  "corba_only f \<longleftrightarrow> (\<forall>lm w e. fst (f lm w) = Some e \<longrightarrow> is_corba e)"

lemma corba_only_some: "corba_only f \<Longrightarrow> f lm w = (Some e, w') \<Longrightarrow> is_corba e"
  by (metis corba_only_def fst_conv)

lemma destroy_localities_ok:
  assumes "fifo (ne_enqueue env)" "corba_only (lm_destroy_call env)"
  shows "list_all2 (removable subs (sc_plans sc)) ls ys \<Longrightarrow>
    destroy_managers env ys (sc_world sc) = (fs, js, w) \<Longrightarrow>
    \<exists>cmp'. destroy_localities env cur subs ls fx (sc, cmp, n) =
        (Inr (first_of fx fs), sc\<lparr>sc_queue := sc_queue sc @ job_queue Remove_Instance cur n js, sc_world := w\<rparr>,
         cmp', n + length js)
      \<and> completed cmp' = completed cmp"
proof (induction ls arbitrary: ys fx sc cmp n fs js)
  case Nil
  then show ?case by (cases sc) (auto simp: job_queue_def)
next
  case (Cons x ls)
  obtain name lm where x: "x = (name, lm)" by (cases x)
  obtain z ys' where z: "ys = z # ys'" "removable subs (sc_plans sc) (name, lm) z"
    and ys': "list_all2 (removable subs (sc_plans sc)) ls ys'"
    using Cons.prems(1) by (auto simp: list_all2_Cons1 x)
  then obtain j where ys: "ys = (lm, j) # ys'" and j: "removable subs (sc_plans sc) (name, lm) (lm, j)"
    by (cases z) (auto simp: removable_def)
  obtain y w1 where c: "lm_destroy_call env lm (sc_world sc) = (y, w1)" by force
  obtain fs' js' where d: "destroy_managers env ys' w1 = (fs', js', w)"
    and fs: "fs = (case y of Some e \<Rightarrow> destroy_failure (ne_show env) e # fs' | None \<Rightarrow> fs')"
    and js: "js = (case y of Some e \<Rightarrow> js' | None \<Rightarrow> j # js')"
    using Cons.prems(2) by (auto simp: ys c split: prod.splits option.splits)
  show ?case
  proof (cases y)
    case (Some e)
    let ?sc = "sc\<lparr>sc_world := w1\<rparr>"
    have "destroy_localities env cur subs (x # ls) fx (sc, cmp, n) =
        destroy_localities env cur subs ls (first_of fx [destroy_failure (ne_show env) e]) (?sc, cmp, n)"
      using assms(2) c Some by (simp add: x note_exception_corba corba_only_some del: note_exception.simps)
    then show ?thesis
      using Cons.IH [of ?sc ys' fs' js' "first_of fx [destroy_failure (ne_show env) e]" cmp n] ys' d
      by (cases sc) (auto simp: fs js Some)
  next
    case None
    let ?sc = "sc\<lparr>sc_queue := sc_queue sc @ job_queue Remove_Instance cur n [j], sc_world := w1\<rparr>"
    have "destroy_localities env cur subs (x # ls) fx (sc, cmp, n) =
        destroy_localities env cur subs ls fx (?sc, accept None cmp, Suc n)"
      using assms(1) j c None
        schedule_at_ok [OF assms(1), of "sc\<lparr>sc_world := w1\<rparr>" "Locality_Plan name" "fst j" "snd j" Remove_Instance
          cur DANCE_LOCALITYMANAGER cmp n]
      by (cases sc) (auto simp: x removable_def job_queue_def job_event_def on_connection_def)
    moreover obtain cmp' where "destroy_localities env cur subs ls fx (?sc, accept None cmp, Suc n) =
        (Inr (first_of fx fs'), ?sc\<lparr>sc_queue := sc_queue ?sc @ job_queue Remove_Instance cur (Suc n) js', sc_world := w\<rparr>,
         cmp', Suc n + length js')"
      and "completed cmp' = completed (accept None cmp)"
      using Cons.IH [of ?sc ys' fs' js' fx "accept None cmp" "Suc n"] ys' d by auto
    ultimately show ?thesis by (cases sc) (simp add: fs js None job_queue_def)
  qed
qed

lemma destroy_managers_jobs: "destroy_managers env ys w = (fs, js, w') \<Longrightarrow> set js \<subseteq> snd ` set ys"
  by (induction env ys w arbitrary: fs js w' rule: destroy_managers.induct) (force split: prod.splits option.splits)+

lemma removal_exception_error:
  "removal_exception (error_result name e) =
    Some (reported [StopError] StopError ''Unknown exception thrown from remove_instance'' name e)"
  by (cases e) (auto simp: removal_exception_def error_result_def extract_and_throw_exception_def split: option.splits)

lemma collect_removals_ok:
  assumes "\<forall>i < length os. map_of results (n + i) = Some (result_of (job_name (fst (os ! i)), snd (os ! i)))"
  shows "collect_removals results [n..<n + length os] fx = first_of fx (removal_failures os)"
  using assms
proof (induction os arbitrary: n fx)
  case (Cons o' os)
  obtain j x where o': "o' = (j, x)" by (cases o')
  have r: "map_of results n = Some (result_of (job_name j, x))" using Cons.prems by (auto simp: o')
  have rs: "\<forall>i < length os. map_of results (Suc n + i) = Some (result_of (job_name (fst (os ! i)), snd (os ! i)))"
    using Cons.prems by auto
  have upt: "[n..<n + length (o' # os)] = n # [Suc n..<Suc n + length os]" by (simp add: upt_rec)
  show ?case
  proof (cases x)
    case (Inl e)
    then show ?thesis
      unfolding upt collect_removals.simps Cons.IH [OF rs]
      by (simp add: o' r result_of_def removal_exception_error removal_failures_def removal_failure_def)
  next
    case (Inr v)
    then show ?thesis
      unfolding upt collect_removals.simps Cons.IH [OF rs]
      by (simp add: o' r result_of_def value_result_def removal_exception_def removal_failures_def)
  qed
qed (simp add: removal_failures_def)

section \<open>Properties\<close>

text \<open>
  C6. Preparing the localities of a node refines its specification: with time enough and no
  interceptors, every locality manager is installed whatever happens to the others, and then each is
  prepared with its own sub plan, in the order of the keys, up to the first whose installation failed,
  which is what is thrown. The application knows exactly the localities that were reached.
\<close>

theorem prepare_instances_refines:
  assumes "patient_node env" "sc_interceptors env sc = []" "sc_queue sc = []"
    and "list_all2 (is_job (sc_plans sc)) (enumerate 0 keys) jobs" "distinct (map job_name jobs)"
  shows "case run_managers Install_Instance (sc_fetch env sc DANCE_LOCALITYMANAGER) jobs (sc_world sc) of (os, w) \<Rightarrow>
    case prepare_managers env os w of (x, ls, w') \<Rightarrow>
      \<exists>na' sc'. prepare_instances env keys (new_node_app, sc) =
          (case x of None \<Rightarrow> Inr () | Some e \<Rightarrow> Inl (Raised e), na', sc')
        \<and> na_localities na' = fold (\<lambda>(name, lm). map_put name lm) ls []
        \<and> sc_world sc' = w' \<and> sc_queue sc' = []"
proof -
  let ?sc = "sc\<lparr>sc_serial := Suc (sc_serial sc)\<rparr>"
  obtain os w where i: "run_managers Install_Instance (sc_fetch env sc DANCE_LOCALITYMANAGER) jobs (sc_world sc) = (os, w)"
    by force
  have os: "map fst os = jobs" using run_managers_jobs i by (metis fst_conv)
  obtain na1 cmp1 where d: "dispatch_localities env (sc_serial sc) (enumerate 0 keys) new_node_app (start_round sc) =
      (True, na1, ?sc\<lparr>sc_queue := job_queue Install_Instance (sc_serial sc) 0 jobs, sc_plans := put_jobs jobs (sc_plans sc)\<rparr>,
       cmp1, length jobs)"
    and c1: "completed cmp1 = []" and na1: "na_localities na1 = []" "na_delay na1 \<noteq> 0"
    using dispatch_localities_ok [of env ?sc "enumerate 0 keys" jobs new_node_app "sc_serial sc" new_completion 0] assms
    by (auto simp: patient_node_def start_round_def new_node_app_def new_completion_def)
  let ?sc1 = "?sc\<lparr>sc_queue := job_queue Install_Instance (sc_serial sc) 0 jobs, sc_plans := put_jobs jobs (sc_plans sc)\<rparr>"
  let ?rs = "enumerate 0 (map (\<lambda>(j, x). result_of (job_name j, x)) os)"
  have own: "\<forall>j \<in> set jobs. put_jobs jobs (sc_plans sc) (Locality_Plan (job_name j)) = Some (fst j)"
    using assms(5) by (simp add: put_jobs_own)
  have q: "run_queue (sc_fetch env ?sc1) (sc_plans ?sc1) (sc_queue ?sc1) (sc_world ?sc1) = (?rs, w)"
    using run_job_queue [OF own, of "sc_fetch env sc" Install_Instance "sc_serial sc" 0 "sc_world sc"] by (simp add: i)
  have runnable: "\<forall>qd \<in> set (sc_queue ?sc1). runnable (sc_serial sc) (sc_plans ?sc1) qd"
    using job_queue_runnable own by fastforce
  obtain cmp2 where w: "wait_round env (sc_serial sc) (na_delay na1) (?sc1, cmp1, length jobs) =
      (Inr True, ?sc1\<lparr>sc_queue := [], sc_world := w\<rparr>, cmp2, length jobs)"
    and c2: "completed cmp2 = ?rs"
    using wait_round_plain [OF assms(1) na1(2) _ runnable q, of cmp1 "length jobs"] assms(2) c1 by auto
  let ?sc2 = "?sc1\<lparr>sc_queue := [], sc_world := w\<rparr>"
  have "length os = length jobs" using os by (metis length_map)
  moreover have "map_of ?rs (0 + k) = Some (result_of (job_name (fst (os ! k)), snd (os ! k)))" if "k < length os" for k
    using that by (subst map_of_enumerate) (auto split: prod.split)
  moreover have "\<forall>j \<in> fst ` set os. sc_plans ?sc2 (Locality_Plan (job_name j)) = Some (fst j)"
    using own by (simp add: os [symmetric])
  ultimately show ?thesis
    using collect_prepares [of os ?rs 0 ?sc2 env na1] na1(1)
    by (auto simp: i prepare_instances_def d w c2 split: prod.splits)
qed

text \<open>A node with two sub plans; a handler that refuses the second.\<close>

definition demo_node_env :: "(unit, int, nat) node_env" where
  "demo_node_env = \<lparr>ne_enqueue = (\<lambda>e q. Some (q @ [e])), ne_countdown = (\<lambda>_ _ t. t), ne_duration = (\<lambda>_. 1),
     ne_handler = (\<lambda>_ _ _ w. (None, ObjAny (Some w), w + 1)), ne_interceptor = (\<lambda>_. interceptor_base),
     ne_locality = (\<lambda>a. case as_object a of Some r \<Rightarrow> r | None \<Rightarrow> None), ne_sysx = (\<lambda>_. None),
     ne_show = (\<lambda>_. ''e''), ne_no_servant = SysEx ''s'',
     lm_prepare_call = (\<lambda>_ _ w. (None, w)), lm_launch_call = (\<lambda>_ _ w. (Inr [], w)),
     lm_finish_call = (\<lambda>_ _ _ w. (None, w)), lm_start_call = (\<lambda>_ w. (None, w)), lm_stop_call = (\<lambda>_ w. (None, w)),
     lm_destroy_call = (\<lambda>_ w. (None, w)), lm_shutdown_call = (\<lambda>_ w. (None, w))\<rparr>"

definition node_plan :: "string \<Rightarrow> int plan" where
  "node_plan name = new_plan\<lparr>pl_implementation := [new_mdd], pl_instance := [new_idd\<lparr>id_name := name\<rparr>]\<rparr>"

definition demo_scheduler :: "(unit, int, nat) scheduler_state" where
  "demo_scheduler = \<lparr>sc_plugins = new_manager\<lparr>handler_map := [(DANCE_LOCALITYMANAGER, ())]\<rparr>, sc_queue = [],
     sc_plans = store_plans [node_plan ''L'', node_plan ''M''], sc_serial = 0, sc_world = 0\<rparr>"

definition refusing :: "(int, nat) handler" where
  "refusing = (\<lambda>_ plan w. (if id_name (pl_instance plan ! 0) = ''M'' then Some (UserEx StartError ''M'' ''no'') else None,
     ObjAny (Some w), w + 1))"

lemma demo_patient:
  "patient_node demo_node_env" "patient_node (demo_node_env\<lparr>ne_handler := h\<rparr>)"
  "patient_node (demo_node_env\<lparr>lm_destroy_call := f\<rparr>)"
  by (auto simp: patient_node_def demo_node_env_def fifo_def patient_def)

lemma demo_interceptors: "sc_interceptors env demo_scheduler = []"
  by (simp add: sc_interceptors_def demo_scheduler_def fetch_interceptors_def new_manager_def)

lemma demo_queue: "sc_queue demo_scheduler = []"
  by (simp add: demo_scheduler_def)

abbreviation "demo_jobs \<equiv> [(node_plan ''L'', 0), (node_plan ''M'', 0)]"

lemma demo_jobs_ok:
  "list_all2 (is_job (sc_plans demo_scheduler)) (enumerate 0 [new_locality_key, new_locality_key]) demo_jobs"
  "distinct (map job_name demo_jobs)"
  by (simp_all add: is_job_def demo_scheduler_def store_plans_def locality_manager_instance_def
      has_locality_manager_def new_locality_key_def node_plan_def job_name_def manager_property_def
      new_idd_def new_mdd_def new_plan_def)

theorem prepare_instances_refines_witness:
  "\<exists>na sc. prepare_instances (demo_node_env\<lparr>ne_handler := \<lambda>_. refusing\<rparr>) [new_locality_key, new_locality_key]
      (new_node_app, demo_scheduler) = (Inl (Raised (UserEx StartError ''M'' ''no'')), na, sc)
    \<and> na_localities na = [(''L'', 0)]"
proof -
  let ?env = "demo_node_env\<lparr>ne_handler := \<lambda>_. refusing\<rparr>"
  let ?run = "run_managers Install_Instance (sc_fetch ?env demo_scheduler DANCE_LOCALITYMANAGER) demo_jobs
    (sc_world demo_scheduler)"
  have "(case ?run of (os, w) \<Rightarrow> prepare_managers ?env os w)
      = (Some (UserEx StartError ''M'' ''no''), [(''L'', 0)], 2)"
    by code_simp
  moreover obtain os w where "?run = (os, w)" by force
  ultimately show ?thesis
    using prepare_instances_refines [OF demo_patient(2) demo_interceptors demo_queue demo_jobs_ok, of "\<lambda>_. refusing"]
    by auto
qed


definition demo_app :: node_app where
  "demo_app = \<lparr>na_sub_plans = [(''L'', 0), (''M'', 0)], na_localities = [(''L'', 0), (''M'', 1)], na_delay = 30\<rparr>"

definition installed_scheduler :: "(unit, int, nat) scheduler_state" where
  "installed_scheduler = demo_scheduler\<lparr>sc_plans :=
     [Locality_Plan ''L'' \<mapsto> node_plan ''L'', Locality_Plan ''M'' \<mapsto> node_plan ''M'']\<rparr>"

lemma installed_ready: "sc_interceptors env installed_scheduler = []" "sc_queue installed_scheduler = []"
  by (simp_all add: installed_scheduler_def demo_interceptors demo_queue)


lemma shutdown_all:
  "corba_only (lm_shutdown_call env) \<Longrightarrow>
    shutdown_localities env ls w = (None, fold (\<lambda>(_, lm) w. snd (lm_shutdown_call env lm w)) ls w)"
  by (induction env ls w rule: shutdown_localities.induct)
    (auto dest: corba_only_some split: prod.split option.split)

text \<open>
  A launch that fails on one locality shuts every locality of the node down and drops the
  application; what the shutdown raises is not let out, and the exception of the launch is.
\<close>

theorem failed_launch_shuts_down:
  assumes "prepare_instances env (nm_keys nm) (new_node_app, nm_sched nm) = (Inr (), na, sc)"
    and "start_launch_instances env props out na (sc_world sc) = (Inl e, w)" "is_corba e"
    and "corba_only (lm_shutdown_call env)"
  shows "nam_startLaunch env ref props out nm =
    (Inl (Raised e), nm\<lparr>nm_app := None, nm_sched := sc\<lparr>sc_world :=
       fold (\<lambda>(_, lm) w. snd (lm_shutdown_call env lm w)) (na_localities na) w\<rparr>\<rparr>)"
  using assms by (simp add: nam_startLaunch_def shutdown_instances_def shutdown_all)

theorem failed_launch_shuts_down_witness:
  "case nam_startLaunch (demo_node_env\<lparr>lm_launch_call := \<lambda>_ _ w. (Inl (UserEx StartError ''L'' ''no''), w),
      lm_shutdown_call := \<lambda>lm w. (Some (SysEx ''c''), w + 10)\<rparr>) 7 [] []
      ((new_node_manager new_manager [] 0)\<lparr>nm_keys := [new_locality_key, new_locality_key], nm_sched := demo_scheduler\<rparr>) of
    (r, nm) \<Rightarrow> r = Inl (Raised (UserEx StartError ''L'' ''no'')) \<and> nm_app nm = None \<and> sc_world (nm_sched nm) = 22"
proof -
  let ?env = "demo_node_env\<lparr>lm_launch_call := \<lambda>_ _ w. (Inl (UserEx StartError ''L'' ''no''), w),
    lm_shutdown_call := \<lambda>lm w. (Some (SysEx ''c''), w + 10)\<rparr>"
  let ?keys = "[new_locality_key, new_locality_key]"
  let ?nm = "(new_node_manager new_manager [] 0)\<lparr>nm_keys := ?keys, nm_sched := demo_scheduler\<rparr>"
  have "case prepare_instances ?env ?keys (new_node_app, demo_scheduler) of (r, na, sc) \<Rightarrow>
      r = Inr () \<and> na_localities na = [(''L'', 0), (''M'', 1)] \<and> sc_world sc = 2"
    by code_simp
  then obtain na sc where p: "prepare_instances ?env ?keys (new_node_app, demo_scheduler) = (Inr (), na, sc)"
    and na: "na_localities na = [(''L'', 0), (''M'', 1)]" "sc_world sc = 2"
    by (auto split: prod.splits)
  then have l: "start_launch_instances ?env [] [] na (sc_world sc) = (Inl (UserEx StartError ''L'' ''no''), 2)"
    by (simp add: start_launch_instances_def)
  have "corba_only (lm_shutdown_call ?env)" by (simp add: corba_only_def)
  from failed_launch_shuts_down [OF _ l _ this, of ?nm 7] p na show ?thesis by simp
qed

lemma extend_path_lost: "extend_path name paths params = extend_path name paths' params"
proof (cases "get_property_value as_string name params")
  case (Some v)
  have "\<exists>p \<in> set params. pr_name p = name"
    using Some by (induction params) (auto split: if_splits)
  then show ?thesis by (simp add: extend_path_def update_property_value_def)
qed (simp add: extend_path_def)

lemma extend_paths_lost: "extend_paths paths m plan = extend_paths paths' m plan"
  unfolding extend_paths_def Let_def
  by (metis extend_path_lost)

text \<open>
  The paths at which artifacts were installed never reach a locality: whatever the paths are, the
  search paths of the implementations of the node come out the same.
\<close>

theorem installed_paths_lost:
  assumes "\<not> er_exception r" "as_strings a \<noteq> None" "as_strings a \<noteq> Some []"
    and "as_strings b \<noteq> None" "as_strings b \<noteq> Some []"
  shows "installed_artifact env table (r\<lparr>er_contents := a\<rparr>) plans =
    installed_artifact env table (r\<lparr>er_contents := b\<rparr>) plans"
proof -
  obtain p ps q qs where "as_strings a = Some (p # ps)" "as_strings b = Some (q # qs)"
    using assms by (metis list.exhaust option.exhaust)
  then show ?thesis
    using assms(1)
    by (auto simp: installed_artifact_def extend_paths_lost [of "p # ps" _ _ "q # qs"] split: option.split)
qed

theorem installed_paths_lost_witness:
  "fst (installed_artifact demo_node_env [(''a'', 0, 0)] (value_result ''a'' (SeqAny TString [VString ''/lib'']))
      (store_plans [node_plan ''a''])) =
   fst (installed_artifact demo_node_env [(''a'', 0, 0)] (value_result ''a'' (SeqAny TString [VString ''/opt'']))
      (store_plans [node_plan ''a'']))"
  using installed_paths_lost [of "value_result ''a'' (SeqAny TString [VString ''/lib''])"
      "SeqAny TString [VString ''/lib'']" "SeqAny TString [VString ''/opt'']" demo_node_env "[(''a'', 0, 0)]"
      "store_plans [node_plan ''a'']"]
  by (simp add: value_result_def as_strings_def)

definition sub_plan_ok :: "'d plan_store \<Rightarrow> nat \<times> locality_key \<Rightarrow> bool" where
  "sub_plan_ok plans x \<longleftrightarrow>
     (\<exists>p. plans (Sub_Plan (fst x)) = Some p \<and> locality_manager_instance (snd x) < length (pl_instance p)
        \<and> is_locality_manager p (locality_manager_instance (snd x)))"

lemma get_property_value_append:
  "p \<in> set ps \<Longrightarrow> pr_name p = name \<Longrightarrow> get_property_value ex name (ps @ qs) = get_property_value ex name ps"
  by (induction ps) auto

lemma instance_type_loop_append:
  "set ps \<subseteq> set all \<Longrightarrow> instance_type_loop all ps \<noteq> [] \<Longrightarrow>
    instance_type_loop (all @ qs) (ps @ qs') = instance_type_loop all ps"
  by (induction all ps rule: instance_type_loop.induct)
    (auto simp: get_property_value_append split: option.splits)

lemma get_instance_type_update:
  "get_instance_type ps \<noteq> [] \<Longrightarrow> get_instance_type (update_property_value name v ps) = get_instance_type ps"
  using instance_type_loop_append [of ps ps "[mk_prop name v]" "[mk_prop name v]"]
  by (auto simp: get_instance_type_def update_property_value_def)

lemma sub_plan_ok_update:
  assumes "sub_plan_ok plans x" "plans (Sub_Plan i) = Some plan"
    and "plan' = plan\<lparr>pl_implementation := (pl_implementation plan)[m := (pl_implementation plan ! m)
      \<lparr>md_execParameter := update_property_value name v (md_execParameter (pl_implementation plan ! m))\<rparr>]\<rparr>"
  shows "sub_plan_ok (plans(Sub_Plan i := Some plan')) x"
  using assms
  by (cases "m < length (pl_implementation plan)")
    (auto simp: sub_plan_ok_def is_locality_manager_def Let_def nth_list_update get_instance_type_update)

lemma put_domain_nc_ok:
  "\<forall>x \<in> set (ks @ js). sub_plan_ok plans x \<Longrightarrow>
    \<exists>plans'. put_domain_nc nc ks plans = (True, plans') \<and> (\<forall>x \<in> set (ks @ js). sub_plan_ok plans' x)"
proof (induction ks arbitrary: plans js)
  case (Cons x ks)
  obtain i k where x: "x = (i, k)" by (cases x)
  obtain p where p: "plans (Sub_Plan i) = Some p" "locality_manager_instance k < length (pl_instance p)"
    "is_locality_manager p (locality_manager_instance k)"
    using Cons.prems by (auto simp: x sub_plan_ok_def)
  let ?m = "id_implementationRef (pl_instance p ! locality_manager_instance k)"
  let ?p = "p\<lparr>pl_implementation := (pl_implementation p)[?m := (pl_implementation p ! ?m)
      \<lparr>md_execParameter := update_property_value DOMAIN_NC (PrimAny (VString nc))
        (md_execParameter (pl_implementation p ! ?m))\<rparr>]\<rparr>"
  have step: "put_domain_nc nc (x # ks) plans = put_domain_nc nc ks (plans(Sub_Plan i := Some ?p))"
    using p by (simp add: x manager_instance_def is_locality_manager_def Let_def)
  have "\<forall>y \<in> set (ks @ x # js). sub_plan_ok (plans(Sub_Plan i := Some ?p)) y"
    using Cons.prems sub_plan_ok_update [where plans = plans and i = i and plan = p and plan' = ?p and m = ?m
        and name = DOMAIN_NC and v = "PrimAny (VString nc)"] p(1)
    by auto
  then obtain plans' where a: "put_domain_nc nc ks (plans(Sub_Plan i := Some ?p)) = (True, plans')"
    and b: "\<forall>y \<in> set (ks @ x # js). sub_plan_ok plans' y"
    using Cons.IH by blast
  have "put_domain_nc nc (x # ks) plans = (True, plans')" unfolding step by (rule a)
  then show ?case using b by auto
qed auto



end
