(* ===== verification/Deployment_Network.thy ===== *)
theory Deployment_Network
  imports Domain_Manager Node_Launch
begin

text \<open>
  The tiers together: the domain deployment handler with the node managers of a network as the remote
  objects its requests go to. A node is a process with its node manager; one that ended in undefined
  behaviour is gone, and calls on it fail with COMM_FAILURE. An exception an operation does not declare
  reaches the caller as CORBA::UNKNOWN, as the CORBA specification says.

  This is the provider of the interface the domain was verified against, \<open>node_service\<close>.
\<close>

section \<open>The network\<close>

record ('p, 'd, 'w) network =
  nw_nodes :: "nat \<Rightarrow> ('p, 'd, 'w) node_process option"
  nw_hosts :: "nat list"
  nw_next :: nat
  nw_world :: 'w

abbreviation COMM_FAILURE :: exn where
  "COMM_FAILURE \<equiv> SysEx ''IDL:omg.org/CORBA/COMM_FAILURE:1.0''"

definition remote_exn :: "user_kind list \<Rightarrow> exn \<Rightarrow> exn" where
  "remote_exn ks e = (if caught_kind ks e \<noteq> None \<or> (is_corba e \<and> \<not> is_user e) then e else CORBA_UNKNOWN)"

text \<open>A call on the node manager process of a node, with the exceptions its operation declares.\<close>

definition on_node ::
  "user_kind list \<Rightarrow> nat \<Rightarrow>
    (('p, 'd, 'w) node_process \<Rightarrow> (failure + 'a) \<times> ('p, 'd, 'w) node_process) \<Rightarrow>
    ('p, 'd, 'w) network \<Rightarrow> (exn + 'a) \<times> ('p, 'd, 'w) network" where
  "on_node ks nm f nw =
     (case nw_nodes nw nm of
        None \<Rightarrow> (Inl COMM_FAILURE, nw)
      | Some np \<Rightarrow>
          (case f (np\<lparr>np_world := nw_world nw\<rparr>) of (res, np') \<Rightarrow>
            (let gone = nw\<lparr>nw_nodes := (nw_nodes nw)(nm := None), nw_world := np_world np'\<rparr>;
                 on = nw\<lparr>nw_nodes := (nw_nodes nw)(nm := Some np'), nw_world := np_world np'\<rparr>
             in case res of
                  Inr v \<Rightarrow> (Inr v, on)
                | Inl (Raised e) \<Rightarrow> (Inl (remote_exn ks e), on)
                | Inl _ \<Rightarrow> (Inl COMM_FAILURE, gone))))"

definition net_prepare ::
  "('p, 'd, 'w) node_env \<Rightarrow> (string \<Rightarrow> string) \<Rightarrow> nat \<Rightarrow> 'd plan \<Rightarrow> ('p, 'd, 'w) network \<Rightarrow>
    (exn + nat option) \<times> ('p, 'd, 'w) network" where
  "net_prepare env gen nm plan nw =
     (case on_node [PlanError, StartError] nm (np_preparePlan env gen (nw_next nw) plan) nw of
        (r, nw') \<Rightarrow> (map_sum id Some r, nw'\<lparr>nw_next := nw_next nw' + 1\<rparr>))"

definition net_destroy_manager ::
  "nat \<Rightarrow> nat \<Rightarrow> ('p, 'd, 'w) network \<Rightarrow> exn option \<times> ('p, 'd, 'w) network" where
  "net_destroy_manager nm nam nw =
     (case on_node [StopError] nm
        (\<lambda>np. case np_destroyManager nam np of
           (None, np') \<Rightarrow> (Inr (), np') | (Some e, np') \<Rightarrow> (Inl (Raised e), np')) nw of
        (Inl e, nw') \<Rightarrow> (Some e, nw') | (Inr _, nw') \<Rightarrow> (None, nw'))"

text \<open>Which node the object with a reference is on.\<close>

definition manager_host :: "nat \<Rightarrow> ('p, 'd, 'w) network \<Rightarrow> nat option" where
  "manager_host nam nw =
     find (\<lambda>nm. case nw_nodes nw nm of
         None \<Rightarrow> False | Some np \<Rightarrow> find (\<lambda>(_, r, _). r = nam) (np_managers np) \<noteq> None) (nw_hosts nw)"

definition on_network_manager ::
  "user_kind list \<Rightarrow> nat \<Rightarrow>
    (('p, 'd, 'w) node_manager \<Rightarrow> (failure + 'a) \<times> ('p, 'd, 'w) node_manager) \<Rightarrow>
    ('p, 'd, 'w) network \<Rightarrow> (exn + 'a) \<times> ('p, 'd, 'w) network" where
  "on_network_manager ks nam f nw =
     (case manager_host nam nw of
        None \<Rightarrow> (Inl COMM_FAILURE, nw)
      | Some nm \<Rightarrow>
          on_node ks nm (\<lambda>np. case on_manager nam f np of None \<Rightarrow> (Inl (Raised COMM_FAILURE), np) | Some x \<Rightarrow> x) nw)"

definition net_launch ::
  "('p, 'd, 'w) node_env \<Rightarrow> nat \<Rightarrow> 'd properties \<Rightarrow> ('p, 'd, 'w) network \<Rightarrow>
    (exn + nat option \<times> reference list) \<times> ('p, 'd, 'w) network" where
  "net_launch env nam props nw =
     (case on_network_manager [StartError, InvalidProperty, InvalidNodeExecParameter, InvalidComponentExecParameter] nam
        (nam_startLaunch env (nw_next nw) props []) nw of
        (r, nw') \<Rightarrow> (map_sum id (map_prod Some id) r, nw'\<lparr>nw_next := nw_next nw' + 1\<rparr>))"

definition net_destroy_app ::
  "('p, 'd, 'w) node_env \<Rightarrow> nat \<Rightarrow> nat \<Rightarrow> ('p, 'd, 'w) network \<Rightarrow> exn option \<times> ('p, 'd, 'w) network" where
  "net_destroy_app env nam app nw =
     (case on_network_manager [StopError] nam (nam_destroyApplication env app) nw of
        (Inl e, nw') \<Rightarrow> (Some e, nw') | (Inr _, nw') \<Rightarrow> (None, nw'))"

text \<open>A call on the application with a reference.\<close>

definition has_app :: "nat \<Rightarrow> string \<times> nat \<times> ('p, 'd, 'w) node_manager \<Rightarrow> bool" where
  "has_app app = (\<lambda>(_, _, nm). case nm_app nm of None \<Rightarrow> False | Some (r, _) \<Rightarrow> r = app)"

definition app_manager :: "nat \<Rightarrow> ('p, 'd, 'w) network \<Rightarrow> nat option" where
  "app_manager app nw =
     Option.bind
       (find (\<lambda>nm. case nw_nodes nw nm of None \<Rightarrow> False | Some np \<Rightarrow> find (has_app app) (np_managers np) \<noteq> None)
         (nw_hosts nw))
       (\<lambda>nm. Option.bind (nw_nodes nw nm) (\<lambda>np. map_option (fst \<circ> snd) (find (has_app app) (np_managers np))))"

definition on_network_app ::
  "user_kind list \<Rightarrow> nat \<Rightarrow> (node_app \<Rightarrow> 'w \<Rightarrow> exn option \<times> 'w) \<Rightarrow> ('p, 'd, 'w) network \<Rightarrow>
    exn option \<times> ('p, 'd, 'w) network" where
  "on_network_app ks app f nw =
     (case app_manager app nw of
        None \<Rightarrow> (Some COMM_FAILURE, nw)
      | Some nam \<Rightarrow>
          (case on_network_manager ks nam
             (\<lambda>nm. case nm_app nm of
                None \<Rightarrow> (Inl (Raised COMM_FAILURE), nm)
              | Some (_, na) \<Rightarrow>
                  (case f na (sc_world (nm_sched nm)) of
                     (x, w) \<Rightarrow> (case x of None \<Rightarrow> Inr () | Some e \<Rightarrow> Inl (Raised e), in_world w nm))) nw of
             (Inl e, nw') \<Rightarrow> (Some e, nw') | (Inr _, nw') \<Rightarrow> (None, nw')))"

definition network_env ::
  "('p, 'd, 'w) network orb_env \<Rightarrow> ('p, 'd, 'w) node_env \<Rightarrow> (string \<Rightarrow> string) \<Rightarrow>
    ('d, ('p, 'd, 'w) network) domain_env" where
  "network_env oenv env gen =
     \<lparr>oe_send = oe_send oenv, oe_pick = oe_pick oenv, oe_show = oe_show oenv,
      de_prepare = net_prepare env gen, de_destroy_manager = net_destroy_manager,
      de_launch = net_launch env, de_destroy_app = net_destroy_app env,
      de_finish = (\<lambda>app refs start. on_network_app [StartError, InvalidConnection] app (na_finishLaunch env refs start)),
      de_start = (\<lambda>app. on_network_app [StartError] app (na_start env)),
      de_stop = (\<lambda>app. on_network_app [StopError] app (na_stop env))\<rparr>"

section \<open>The node managers keep the contract\<close>

definition net_rejected :: "nat \<Rightarrow> ('p, 'd, 'w) network \<Rightarrow> string set" where
  "net_rejected nm nw =
     (case nw_nodes nw nm of None \<Rightarrow> UNIV | Some np \<Rightarrow> {u. map_has (np_managers np) u})"

lemma map_has_put [simp]: "map_has (map_put k v m) u \<longleftrightarrow> u = k \<or> map_has m u"
  unfolding map_has_def map_get_dom [symmetric] map_keys_def fst_set_map_put by simp

lemma np_preparePlan_managers:
  assumes "np_preparePlan env gen ref plan np = (r, np')"
  shows "np_managers np' = np_managers np \<and> isl r \<or>
    (\<exists>nm. r = Inr ref \<and> np_managers np' = map_put (pl_UUID plan) (ref, nm) (np_managers np))
      \<and> \<not> map_has (np_managers np) (pl_UUID plan)"
  using assms by (auto simp: np_preparePlan_def split: if_splits sum.splits prod.splits)

interpretation network: node_service "net_prepare env gen" net_rejected for env gen
proof unfold_locales
  fix env :: "('p, 'd, 'w) node_env" and gen nm plan r n and nw nw' :: "('p, 'd, 'w) network"
  show "net_rejected n nw \<subseteq> net_rejected n nw'" if "net_prepare env gen nm plan nw = (r, nw')"
    using that
    by (auto simp: net_prepare_def on_node_def net_rejected_def Let_def
        split: option.splits prod.splits sum.splits failure.splits if_splits
        dest!: np_preparePlan_managers)
  show "pl_UUID plan \<in> net_rejected nm nw \<Longrightarrow> \<exists>e. fst (net_prepare env gen nm plan nw) = Inl e"
    by (auto simp: net_prepare_def on_node_def net_rejected_def Let_def np_preparePlan_def
        split: option.splits prod.splits)
  fix am
  show "pl_UUID plan \<in> net_rejected nm nw'" if "net_prepare env gen nm plan nw = (Inr am, nw')"
    using that
    by (auto simp: net_prepare_def on_node_def net_rejected_def Let_def
        split: option.splits prod.splits sum.splits failure.splits if_splits
        dest!: np_preparePlan_managers)
qed

section \<open>Properties\<close>


text \<open>Two nodes, of which the second is down.\<close>

definition demo_orb :: "(unit, int, nat) network orb_env" where
  "demo_orb = \<lparr>oe_send = (\<lambda>_ _. None), oe_pick = (\<lambda>n _. n - 1), oe_show = (\<lambda>_. ''e'')\<rparr>"

definition demo_locator :: "(unit, int, nat) network locator_env" where
  "demo_locator = \<lparr>le_object = (\<lambda>ior _. Inr (Some (length ior))), le_resolve = (\<lambda>_ _ _. Inr None)\<rparr>"

definition demo_network :: "(unit, int, nat) network" where
  "demo_network = \<lparr>nw_nodes = (\<lambda>nm. if nm = 1 then Some \<lparr>np_managers = [], np_plugins = new_manager,
        np_domain_nc = [], np_world = 0\<rparr> else None),
     nw_hosts = [1, 2], nw_next = 10, nw_world = 0\<rparr>"

abbreviation "demo_prepare \<equiv> em_preparePlan (network_env demo_orb demo_node_env (\<lambda>_. [])) demo_locator 7 two_node_plan"

lemma demo_prepare_fails:
  "case demo_prepare demo_execution \<lparr>ob_orphans = 0, ob_world = demo_network\<rparr> of (r, em, ob) \<Rightarrow>
     r = Inr None \<and> em_managers em = [] \<and> ob_orphans ob = 0
     \<and> (case nw_nodes (ob_world ob) 1 of None \<Rightarrow> False | Some np \<Rightarrow> map_has (np_managers np) ''u_0'')"
  by code_simp


end
