(* ===== verification/Installation_Repository.thy ===== *)
theory Installation_Repository
  imports Utility "HOL-Library.Sublist"
begin

text \<open>
  The repositories installed artifacts are kept in,
  tools/artifact_installation/installation_repository_manager.cpp and
  installation_repository_manager_impl.cpp: a folder per plan below a base folder, with the operations
  on the artifacts and folders in it. The file system is a parameter: a record of the system calls and
  streams the code uses, over a state of any type. \<open>None\<close> as the outcome of an operation means that it
  has no defined one: it never returns, or the code reads what is not there.
\<close>

section \<open>The file system\<close>

text \<open>
  access (F_OK), the file type stat reports, mkdir, unlink, rmdir, the names ACE_Dirent lists, opening
  a file for writing (which creates or empties it), its content when it can be opened for reading, and
  writing to an open file. The flag tells whether a call succeeded.
\<close>

record 'f file_system =
  fs_exists :: "string \<Rightarrow> 'f \<Rightarrow> bool"
  fs_is_file :: "string \<Rightarrow> 'f \<Rightarrow> bool"
  fs_is_dir :: "string \<Rightarrow> 'f \<Rightarrow> bool"
  fs_mkdir :: "string \<Rightarrow> 'f \<Rightarrow> bool \<times> 'f"
  fs_unlink :: "string \<Rightarrow> 'f \<Rightarrow> bool \<times> 'f"
  fs_rmdir :: "string \<Rightarrow> 'f \<Rightarrow> bool \<times> 'f"
  fs_entries :: "string \<Rightarrow> 'f \<Rightarrow> string list"
  fs_open_out :: "string \<Rightarrow> 'f \<Rightarrow> bool \<times> 'f"
  fs_content :: "string \<Rightarrow> 'f \<Rightarrow> string option"
  fs_write :: "string \<Rightarrow> string \<Rightarrow> 'f \<Rightarrow> bool \<times> 'f"

section \<open>Paths\<close>

abbreviation path_separator :: char where "path_separator \<equiv> CHR ''/''"

definition join_path :: "string \<Rightarrow> string \<Rightarrow> string" where
  "join_path base location = (if location = [] then base else base @ [path_separator] @ location)"

definition normalize_path :: "string \<Rightarrow> string \<Rightarrow> string" where
  "normalize_path repo location = (if prefix repo location then location else join_path repo location)"

text \<open>What precedes, and what follows, the last occurrence of a character (rfind).\<close>

definition before_last :: "char \<Rightarrow> string \<Rightarrow> string option" where
  "before_last c s = (if c \<in> set s then Some (rev (tl (dropWhile (\<lambda>x. x \<noteq> c) (rev s)))) else None)"

definition get_folder :: "string \<Rightarrow> string" where
  "get_folder location = (case before_last path_separator location of Some p \<Rightarrow> p | None \<Rightarrow> [])"

definition base_name :: "char \<Rightarrow> string \<Rightarrow> string" where
  "base_name sep location = rev (takeWhile (\<lambda>x. x \<noteq> sep) (rev location))"

section \<open>A repository\<close>

definition has_artifact :: "'f file_system \<Rightarrow> string \<Rightarrow> string \<Rightarrow> 'f \<Rightarrow> bool" where
  "has_artifact fs repo location f = fs_is_file fs (normalize_path repo location) f"

definition has_folder :: "'f file_system \<Rightarrow> string \<Rightarrow> string \<Rightarrow> 'f \<Rightarrow> bool" where
  "has_folder fs repo location f = fs_is_dir fs (normalize_path repo location) f"

definition artifacts_in :: "'f file_system \<Rightarrow> string \<Rightarrow> string \<Rightarrow> 'f \<Rightarrow> string list" where
  "artifacts_in fs repo folder f =
     (let path = normalize_path repo folder in
      filter (\<lambda>e. has_artifact fs repo e f) (map (join_path path) (fs_entries fs path f)))"

definition folders_in :: "'f file_system \<Rightarrow> string \<Rightarrow> string \<Rightarrow> 'f \<Rightarrow> string list" where
  "folders_in fs repo folder f =
     (let path = normalize_path repo folder in
      filter (\<lambda>e. has_folder fs repo e f) (map (join_path path) (fs_entries fs path f)))"

text \<open>Creating a folder creates its parents first; the path it has is stored in the argument.\<close>

partial_function (option) create_folder ::
  "'f file_system \<Rightarrow> string \<Rightarrow> string \<Rightarrow> bool \<Rightarrow> 'f \<Rightarrow> (string option \<times> 'f) option" where
  "create_folder fs repo location exclusive f =
     (let path = normalize_path repo location in
      if \<not> fs_exists fs path f then
        let folder = get_folder path in
        Option.bind
          (if has_folder fs repo folder f then Some (Some folder, f) else create_folder fs repo folder False f)
          (\<lambda>(parent, f1).
             if parent = None then Some (None, f1)
             else let (ok, f2) = fs_mkdir fs path f1 in Some (if ok then Some path else None, f2))
      else if exclusive \<or> \<not> has_folder fs repo path f then Some (None, f)
      else Some (Some path, f))"

text \<open>An artifact that could be opened for writing, and its path.\<close>

definition create_artifact ::
  "'f file_system \<Rightarrow> string \<Rightarrow> string \<Rightarrow> bool \<Rightarrow> 'f \<Rightarrow> (string option \<times> 'f) option" where
  "create_artifact fs repo location exclusive f =
     (let path = normalize_path repo location;
          open_it = \<lambda>g. let (ok, g') = fs_open_out fs path g in Some (if ok then Some path else None, g') in
      if \<not> fs_exists fs path f then
        let folder = get_folder path in
        if has_folder fs repo folder f then open_it f
        else case create_folder fs repo folder False f of
               None \<Rightarrow> None
             | Some (None, f1) \<Rightarrow> Some (None, f1)
             | Some (Some _, f1) \<Rightarrow> open_it f1
      else if exclusive \<or> \<not> has_artifact fs repo path f then Some (None, f)
      else open_it f)"

definition remove_artifact :: "'f file_system \<Rightarrow> string \<Rightarrow> string \<Rightarrow> 'f \<Rightarrow> bool \<times> 'f" where
  "remove_artifact fs repo location f = fs_unlink fs (normalize_path repo location) f"

text \<open>A loop that removes what a list names, up to the first failure.\<close>

fun remove_each :: "(string \<Rightarrow> 'f \<Rightarrow> (bool \<times> 'f) option) \<Rightarrow> string list \<Rightarrow> 'f \<Rightarrow> (bool \<times> 'f) option" where
  "remove_each rm [] f = Some (True, f)"
| "remove_each rm (l # ls) f =
     (case rm l f of
        None \<Rightarrow> None
      | Some (ok, f') \<Rightarrow> if ok then remove_each rm ls f' else Some (False, f'))"

lemma remove_each_mono [partial_function_mono]:
  assumes "\<And>l f. mono_option (\<lambda>r. rm r l f)"
  shows "mono_option (\<lambda>r. remove_each (rm r) ls f)"
proof (induction ls arbitrary: f)
  case Nil
  then show ?case by (simp add: partial_function_mono)
next
  case (Cons l ls)
  have "mono_option (\<lambda>r. Option.bind (rm r l f)
      (\<lambda>(ok, f'). if ok then remove_each (rm r) ls f' else Some (False, f')))"
    using assms Cons.IH
    by (intro bind_mono) (auto simp: split_beta intro!: partial_function_mono)
  moreover have "remove_each (rm r) (l # ls) f = Option.bind (rm r l f)
      (\<lambda>(ok, f'). if ok then remove_each (rm r) ls f' else Some (False, f'))" for r
    by (cases "rm r l f") auto
  ultimately show ?case by simp
qed

partial_function (option) remove_folder ::
  "'f file_system \<Rightarrow> string \<Rightarrow> string \<Rightarrow> 'f \<Rightarrow> (bool \<times> 'f) option" where
  "remove_folder fs repo location f =
     (let path = normalize_path repo location in
      if has_folder fs repo path f then
        Option.bind (remove_each (\<lambda>l g. Some (remove_artifact fs repo l g)) (artifacts_in fs repo path f) f)
          (\<lambda>(ok, f1). if \<not> ok then Some (False, f1)
             else Option.bind (remove_each (remove_folder fs repo) (folders_in fs repo path f1) f1)
               (\<lambda>(ok2, f2). if \<not> ok2 then Some (False, f2) else Some (fs_rmdir fs path f2)))
      else Some (False, f))"

declare create_folder.simps [code] remove_folder.simps [code]

section \<open>The manager\<close>

text \<open>A repository has the uuid of its plan and the folder it is kept in; the manager is one itself.\<close>

record repository =
  rp_plan :: string
  rp_location :: string

record repo_manager =
  rm_location :: string
  rm_map :: "(string, string) smap"

definition map_repository :: "string \<Rightarrow> string \<Rightarrow> repo_manager \<Rightarrow> repo_manager" where
  "map_repository plan folder m =
     (if folder = [] then m\<lparr>rm_map := map_erase plan (rm_map m)\<rparr>
      else m\<lparr>rm_map := map_put plan folder (rm_map m)\<rparr>)"

definition repository_path :: "repo_manager \<Rightarrow> string \<Rightarrow> string" where
  "repository_path m plan = (case map_get (rm_map m) plan of Some p \<Rightarrow> p | None \<Rightarrow> plan)"

definition open_repository ::
  "'f file_system \<Rightarrow> repo_manager \<Rightarrow> string \<Rightarrow> 'f \<Rightarrow> (repository option \<times> 'f) option" where
  "open_repository fs m plan f =
     (let path = repository_path m plan in
      if \<not> has_folder fs (rm_location m) path f then
        case create_folder fs (rm_location m) path False f of
          None \<Rightarrow> None
        | Some (None, f1) \<Rightarrow> Some (None, f1)
        | Some (Some p, f1) \<Rightarrow> Some (Some \<lparr>rp_plan = plan, rp_location = p\<rparr>, f1)
      else Some (Some \<lparr>rp_plan = plan, rp_location = normalize_path (rm_location m) path\<rparr>, f))"

definition remove_repository ::
  "'f file_system \<Rightarrow> repo_manager \<Rightarrow> string \<Rightarrow> 'f \<Rightarrow> (bool \<times> 'f) option" where
  "remove_repository fs m plan f = remove_folder fs (rm_location m) (repository_path m plan) f"

definition repositories :: "'f file_system \<Rightarrow> repo_manager \<Rightarrow> 'f \<Rightarrow> string list" where
  "repositories fs m f = folders_in fs (rm_location m) [] f"


text \<open>
  Making the manager: the base folder comes from the environment or is the default; one that is not there
  is made (without its parents), and is kept as the real path of it, which has to exist.
\<close>

definition new_repo_manager ::
  "'f file_system \<Rightarrow> (string \<Rightarrow> 'f \<Rightarrow> string option) \<Rightarrow> string option \<Rightarrow> string \<Rightarrow> 'f \<Rightarrow> (repo_manager \<times> 'f) option" where
  "new_repo_manager fs realpath env_basedir default_basedir f =
     (let base = (case env_basedir of Some d \<Rightarrow> d | None \<Rightarrow> default_basedir);
          f1 = (if fs_exists fs base f then f else snd (fs_mkdir fs base f)) in
      map_option (\<lambda>p. (\<lparr>rm_location = p, rm_map = []\<rparr>, f1)) (realpath base f1))"

text \<open>The whole repository, and the content of an artifact that can be opened.\<close>

definition remove_whole :: "'f file_system \<Rightarrow> repository \<Rightarrow> 'f \<Rightarrow> (bool \<times> 'f) option" where
  "remove_whole fs r f = remove_folder fs (rp_location r) (rp_location r) f"

definition open_artifact :: "'f file_system \<Rightarrow> string \<Rightarrow> string \<Rightarrow> 'f \<Rightarrow> string option" where
  "open_artifact fs repo location f =
     (let path = normalize_path repo location in
      if has_artifact fs repo path f then fs_content fs path f else None)"

section \<open>Creating folders\<close>

lemma before_last_split: "before_last c s = Some p \<longleftrightarrow> (\<exists>q. s = p @ c # q \<and> c \<notin> set q)"
proof
  assume *: "before_last c s = Some p"
  then have "c \<in> set (rev s)" by (simp add: before_last_def split: if_splits)
  then obtain u v where uv: "rev s = u @ c # v" "c \<notin> set u" by (meson split_list_first)
  then have "dropWhile (\<lambda>x. x \<noteq> c) (rev s) = c # v" by (induction u arbitrary: s) (auto simp: dropWhile_append)
  with * have "p = rev v" by (simp add: before_last_def split: if_splits)
  with uv show "\<exists>q. s = p @ c # q \<and> c \<notin> set q"
    by (metis append_assoc append_Cons append_Nil rev_append rev.simps(2) rev_rev_ident set_rev)
next
  assume "\<exists>q. s = p @ c # q \<and> c \<notin> set q"
  then obtain q where "s = p @ c # q" "c \<notin> set q" by blast
  then show "before_last c s = Some p"
    by (auto simp: before_last_def dropWhile_append dropWhile_eq_Nil_conv)
qed

lemma before_last_None: "before_last c s = None \<longleftrightarrow> c \<notin> set s"
  by (simp add: before_last_def)

lemma normalize_path_prefix: "prefix repo (normalize_path repo l)"
  by (auto simp: normalize_path_def join_path_def)

lemma normalize_idem [simp]: "normalize_path repo (normalize_path repo l) = normalize_path repo l"
  by (simp add: normalize_path_prefix normalize_path_def [of repo "normalize_path repo l"])

lemma normalize_self [simp]: "normalize_path repo repo = repo"
  by (simp add: normalize_path_def)

lemma get_folder_below: "get_folder (repo @ [path_separator] @ s) = repo \<or>
    (\<exists>s'. get_folder (repo @ [path_separator] @ s) = repo @ [path_separator] @ s' \<and> length s' < length s)"
proof (cases "before_last path_separator s")
  case None
  then have "before_last path_separator (repo @ [path_separator] @ s) = Some repo"
    by (simp add: before_last_split before_last_None)
  then show ?thesis by (simp add: get_folder_def)
next
  case (Some p)
  then obtain q where q: "s = p @ path_separator # q" "path_separator \<notin> set q"
    by (auto simp: before_last_split)
  then have "before_last path_separator (repo @ [path_separator] @ s) = Some (repo @ [path_separator] @ p)"
    by (simp add: before_last_split)
  with q show ?thesis by (simp add: get_folder_def)
qed

lemma get_folder_shorter: "l \<noteq> [] \<Longrightarrow> length (get_folder l) < length l"
  by (cases "before_last path_separator l") (auto simp: get_folder_def dest: iffD1 [OF before_last_split])

lemma create_folder_step:
  assumes "has_folder fs repo (get_folder (normalize_path repo l)) f \<or>
    create_folder fs repo (get_folder (normalize_path repo l)) False f \<noteq> None"
  shows "create_folder fs repo l excl f \<noteq> None"
  using assms by (subst create_folder.simps) (auto simp: Let_def bind_eq_None_conv split: prod.splits)

lemma create_folder_below:
  assumes "fs_is_dir fs repo f"
  shows "create_folder fs repo (repo @ [path_separator] @ s) excl f \<noteq> None"
proof (induction s arbitrary: excl rule: length_induct)
  case (1 s)
  let ?p = "repo @ [path_separator] @ s"
  have n: "normalize_path repo ?p = ?p" by (simp add: normalize_path_def)
  have "has_folder fs repo (get_folder ?p) f \<or> create_folder fs repo (get_folder ?p) False f \<noteq> None"
    using get_folder_below [of repo s] 1 assms by (auto simp: has_folder_def)
  then show ?case by (intro create_folder_step) (simp only: n)
qed

lemma create_folder_total:
  assumes "fs_is_dir fs repo f"
  shows "create_folder fs repo location excl f \<noteq> None"
proof -
  have n: "create_folder fs repo l excl f = create_folder fs repo (normalize_path repo l) excl f" for l excl
    by (subst (1 2) create_folder.simps) simp
  have rel: "has_folder fs repo l f \<or> create_folder fs repo l False f \<noteq> None" if "\<not> prefix repo l" for l
    using that create_folder_below [OF assms, of l] assms n [of l False]
    by (cases "l = []") (auto simp: normalize_path_def join_path_def has_folder_def)
  have down: "has_folder fs repo l f \<or> create_folder fs repo l False f \<noteq> None" for l
  proof (induction l rule: length_induct)
    case (1 l)
    show ?case
    proof (cases "prefix repo l \<and> l \<noteq> []")
      case True
      then have "normalize_path repo l = l" by (simp add: normalize_path_def)
      moreover have "length (get_folder l) < length l" using True by (simp add: get_folder_shorter)
      ultimately show ?thesis using 1 create_folder_step [of fs repo l f False] by metis
    next
      case False
      then show ?thesis using rel [of l] assms by (auto simp: has_folder_def normalize_path_def)
    qed
  qed
  show ?thesis by (rule create_folder_step) (rule down)
qed

text \<open>
  C38. Creating a folder, an artifact or the repository of a plan comes to an end as long as the base
  folder of the repository exists, whatever path is asked for.
\<close>
theorem folders_end_at_base:
  assumes "fs_is_dir fs (rm_location m) f"
  shows "(\<exists>r. create_folder fs (rm_location m) location excl f = Some r) \<and>
    (\<exists>r. create_artifact fs (rm_location m) location excl f = Some r) \<and>
    (\<exists>r. open_repository fs m plan f = Some r)"
proof (intro conjI)
  note total = create_folder_total [OF assms]
  show "\<exists>r. create_folder fs (rm_location m) location excl f = Some r"
    using total [of location excl] by auto
  show "\<exists>r. create_artifact fs (rm_location m) location excl f = Some r"
    using total [of "get_folder (normalize_path (rm_location m) location)" False]
    by (auto simp: create_artifact_def Let_def split: option.splits prod.splits)
  show "\<exists>r. open_repository fs m plan f = Some r"
    using total [of "repository_path m plan" False]
    by (auto simp: open_repository_def Let_def split: option.splits prod.splits)
qed

text \<open>Without it, the search for an existing parent goes round in a circle for ever.\<close>

lemma missing_base_never_returns:
  fixes fs :: "'f file_system"
  assumes none: "\<And>p. \<not> fs_exists fs p f \<and> \<not> fs_is_dir fs p f"
  shows "create_folder fs repo location excl f = None"
proof -
  have False if "create_folder fs repo location excl f = Some r" for r
  proof -
    have "(\<forall>p. \<not> fs_exists fs p f \<and> \<not> fs_is_dir fs p f) \<longrightarrow> False"
    proof (rule create_folder.raw_induct [where P = "\<lambda>fs repo location excl f r.
        (\<forall>p. \<not> fs_exists fs p f \<and> \<not> fs_is_dir fs p f) \<longrightarrow> False", OF _ that], intro impI)
      fix cf :: "'f file_system \<Rightarrow> string \<Rightarrow> string \<Rightarrow> bool \<Rightarrow> 'f \<Rightarrow> (string option \<times> 'f) option"
        and fs :: "'f file_system" and repo l e f r
      assume IH: "\<And>fs repo l e f r. cf fs repo l e f = Some r \<Longrightarrow>
          (\<forall>p. \<not> fs_exists fs p f \<and> \<not> fs_is_dir fs p f) \<longrightarrow> False"
        and eq: "(let path = normalize_path repo l in
          if \<not> fs_exists fs path f then let folder = get_folder path in
            Option.bind (if has_folder fs repo folder f then Some (Some folder, f) else cf fs repo folder False f)
              (\<lambda>(parent, f1). if parent = None then Some (None, f1)
                 else let (ok, f2) = fs_mkdir fs path f1 in Some (if ok then Some path else None, f2))
          else if e \<or> \<not> has_folder fs repo path f then Some (None, f) else Some (Some path, f)) = Some r"
        and n: "\<forall>p. \<not> fs_exists fs p f \<and> \<not> fs_is_dir fs p f"
      then have "cf fs repo (get_folder (normalize_path repo l)) False f \<noteq> None"
        by (auto simp: Let_def has_folder_def split: bind_splits)
      with IH n show False by blast
    qed
    with none show False by blast
  qed
  then show ?thesis by (cases "create_folder fs repo location excl f") auto
qed

section \<open>Removing folders\<close>

text \<open>
  What POSIX says of folders: one lists itself as ., is found under that name unless the path gets
  longer than a limit, cannot be removed under it, and removing a file leaves folders alone.
\<close>

definition posix_folders :: "'f file_system \<Rightarrow> nat \<Rightarrow> bool" where
  "posix_folders fs limit \<longleftrightarrow>
     (\<forall>p f. fs_is_dir fs p f \<longrightarrow> length p \<le> limit \<and> ''.'' \<in> set (fs_entries fs p f)) \<and>
     (\<forall>p f. fs_is_dir fs p f \<and> length p + 2 \<le> limit \<longrightarrow> fs_is_dir fs (p @ ''/.'') f) \<and>
     (\<forall>p f. [] \<notin> set (fs_entries fs p f)) \<and>
     (\<forall>p f. \<not> fst (fs_rmdir fs (p @ ''/.'') f)) \<and>
     (\<forall>p q f. fs_is_dir fs p (snd (fs_unlink fs q f)) = fs_is_dir fs p f)"

lemma remove_each_total:
  "(\<And>l g. l \<in> set ls \<Longrightarrow> rm l g \<noteq> None) \<Longrightarrow> remove_each rm ls f \<noteq> None"
proof (induction ls arbitrary: f)
  case (Cons l ls)
  obtain ok f' where "rm l f = Some (ok, f')" using Cons.prems [of l f] by auto
  moreover have "remove_each rm ls f' \<noteq> None" using Cons.prems by (intro Cons.IH) simp
  ultimately show ?case by (cases ok) simp_all
qed simp

lemma remove_each_stops:
  "l \<in> set ls \<Longrightarrow> (\<And>g h. rm l g \<noteq> Some (True, h)) \<Longrightarrow> remove_each rm ls f \<noteq> Some (True, h)"
proof (induction ls arbitrary: f)
  case (Cons a ls)
  then show ?case by (auto split: option.splits)
qed simp

lemma remove_each_keeps:
  "remove_each rm ls f = Some (ok, f') \<Longrightarrow> (\<And>l g b g'. rm l g = Some (b, g') \<Longrightarrow> P g \<Longrightarrow> P g') \<Longrightarrow> P f \<Longrightarrow> P f'"
  by (induction rm ls f rule: remove_each.induct) (auto split: option.splits prod.splits if_splits)


lemma remove_folder_dot:
  assumes "posix_folders fs limit" and "normalize_path repo l = p @ ''/.''"
  shows "remove_folder fs repo l f \<noteq> Some (True, g)"
  using assms unfolding posix_folders_def
  by (subst remove_folder.simps) (auto simp: Let_def split: bind_splits if_splits, (metis fst_conv)+)

lemma normalize_join: "normalize_path repo (join_path (normalize_path repo l) e) = join_path (normalize_path repo l) e"
  using normalize_path_prefix [of repo l] by (auto simp: normalize_path_def join_path_def)

lemma remove_folder_total:
  assumes fs: "posix_folders fs limit"
  shows "remove_folder fs repo l f \<noteq> None"
proof (induction "limit - length (normalize_path repo l)" arbitrary: l f rule: less_induct)
  case less
  let ?p = "normalize_path repo l"
  show ?case
  proof (cases "has_folder fs repo ?p f")
    case False
    then show ?thesis by (subst remove_folder.simps) (simp add: Let_def)
  next
    case True
    obtain ok f1 where arts:
      "remove_each (\<lambda>l g. Some (remove_artifact fs repo l g)) (artifacts_in fs repo ?p f) f = Some (ok, f1)"
      using remove_each_total [of _ "\<lambda>l g. Some (remove_artifact fs repo l g)"] by fastforce
    have "remove_folder fs repo e g \<noteq> None" if e: "e \<in> set (folders_in fs repo ?p f1)" for e g
    proof (rule less)
      from e obtain n where n: "e = join_path ?p n" "n \<in> set (fs_entries fs ?p f1)" "fs_is_dir fs e f1"
        by (auto simp: folders_in_def has_folder_def normalize_join Let_def)
      with fs have "n \<noteq> []" "length e \<le> limit" unfolding posix_folders_def by metis+
      with n show "limit - length (normalize_path repo e) < limit - length ?p"
        by (simp add: normalize_join) (simp add: join_path_def)
    qed
    then obtain ok2 f2 where "remove_each (remove_folder fs repo) (folders_in fs repo ?p f1) f1 = Some (ok2, f2)"
      using remove_each_total [of "folders_in fs repo ?p f1" "remove_folder fs repo" f1] by fastforce
    with arts True show ?thesis
      by (subst remove_folder.simps) (cases ok; cases ok2; simp add: Let_def)
  qed
qed



section \<open>Concrete inputs\<close>

text \<open>One folder, whose paths are limited to six characters.\<close>

definition demo_folders :: "unit file_system" where
  "demo_folders = \<lparr>fs_exists = (\<lambda>p f. p \<in> {''/r'', ''/r/.'', ''/r/./.''}), fs_is_file = (\<lambda>p f. False),
     fs_is_dir = (\<lambda>p f. p \<in> {''/r'', ''/r/.'', ''/r/./.''}), fs_mkdir = (\<lambda>p f. (True, f)),
     fs_unlink = (\<lambda>p f. (False, f)), fs_rmdir = (\<lambda>p f. (p = ''/r'', f)), fs_entries = (\<lambda>p f. [''.'', ''..'']),
     fs_open_out = (\<lambda>p f. (True, f)), fs_content = (\<lambda>p f. None), fs_write = (\<lambda>p c f. (True, f))\<rparr>"

lemma demo_folders_posix: "posix_folders demo_folders 6"
  by (auto simp: posix_folders_def demo_folders_def)

lemma folders_end_at_base_witness:
  "(\<exists>r. create_folder demo_folders ''/r'' ''a/b'' True () = Some r) \<and>
    (\<exists>r. create_artifact demo_folders ''/r'' ''a/b'' True () = Some r) \<and>
    (\<exists>r. open_repository demo_folders \<lparr>rm_location = ''/r'', rm_map = []\<rparr> ''plan'' () = Some r)"
  using folders_end_at_base [of demo_folders "\<lparr>rm_location = ''/r'', rm_map = []\<rparr>" "()" "''a/b''" True "''plan''"]
  by (simp add: demo_folders_def)


end
