(* ===== verification/Artifact_Installation.thy ===== *)
theory Artifact_Installation
  imports Installation_Repository
begin

text \<open>
  The installation of artifacts, tools/artifact_installation/artifact_installation_impl.cpp with the
  installation properties of dance_artifact_installation_handler.cpp: a registry of the artifacts of
  each plan with their use counts and installed versions, and the protocol handlers that install and
  remove one version. The handlers are behind a pointer in the code and a function from the pointer to
  the handler here. As in the repositories, \<open>None\<close> is an operation without a defined outcome; a wait
  for a registry that stays locked is one.
\<close>

section \<open>Protocol handlers\<close>

text \<open>
  What the handlers work on: the repository manager, if one is registered, and the files.
\<close>

record 'f install_world =
  iw_manager :: "repo_manager option"
  iw_files :: 'f

text \<open>The manager registers itself and takes itself out again; -1 tells of a null or an unknown one.\<close>

definition register_manager :: "repo_manager option \<Rightarrow> 'f install_world \<Rightarrow> int \<times> 'f install_world" where
  "register_manager m w = (if m = None then (-1, w) else (0, w\<lparr>iw_manager := m\<rparr>))"

definition deregister_manager :: "'f install_world \<Rightarrow> int \<times> 'f install_world" where
  "deregister_manager w = (if iw_manager w = None then (-1, w) else (0, w\<lparr>iw_manager := None\<rparr>))"

type_synonym install_properties = "(string, string) smap"

record 'f protocol_handler =
  ih_protocol :: string
  ih_install :: "string \<Rightarrow> string \<Rightarrow> install_properties \<Rightarrow> 'f install_world \<Rightarrow> ((exn + string) \<times> 'f install_world) option"
  ih_remove :: "string \<Rightarrow> string \<Rightarrow> 'f install_world \<Rightarrow> ((exn + unit) \<times> 'f install_world) option"
  ih_initialize :: "'f install_world \<Rightarrow> 'f install_world"
  ih_clear :: "'f install_world \<Rightarrow> 'f install_world"

abbreviation "PROPERTY_BASE \<equiv> ''nl.remedy.it.DnCX11.artifact.''"

definition get_install_property :: "install_properties \<Rightarrow> string \<Rightarrow> string \<Rightarrow> string" where
  "get_install_property props protocol name =
     (case map_get props (PROPERTY_BASE @ name) of
        Some v \<Rightarrow> v
      | None \<Rightarrow> if protocol = [] then [] else
          (case map_get props (PROPERTY_BASE @ protocol @ ''.'' @ name) of Some v \<Rightarrow> v | None \<Rightarrow> []))"

definition is_yes :: "string \<Rightarrow> bool" where
  "is_yes v \<longleftrightarrow> v = ''yes'' \<or> v = ''true''"

section \<open>The registry\<close>

text \<open>A version is the protocol that installed it and the location it has then.\<close>

type_synonym version = "string \<times> string"

record artifact_registry =
  rg_locked :: bool
  rg_count :: "32 word"
  rg_versions :: "version list"

record 'f installation =
  ai_artifacts :: "(string, (string, artifact_registry) smap) smap"
  ai_handlers :: "(string, nat) smap"
  ai_world :: "'f install_world"

definition find_registry :: "'f installation \<Rightarrow> string \<Rightarrow> string \<Rightarrow> artifact_registry option" where
  "find_registry s plan name = map_get (map_at [] (ai_artifacts s) plan) name"

definition store_registry :: "string \<Rightarrow> string \<Rightarrow> artifact_registry \<Rightarrow> 'f installation \<Rightarrow> 'f installation" where
  "store_registry plan name r s = s\<lparr>ai_artifacts := map_modify [] (map_put name r) plan (ai_artifacts s)\<rparr>"

definition erase_registry :: "string \<Rightarrow> string \<Rightarrow> 'f installation \<Rightarrow> 'f installation" where
  "erase_registry plan name s = s\<lparr>ai_artifacts := map_modify [] (map_erase name) plan (ai_artifacts s)\<rparr>"

definition find_handler :: "(nat \<Rightarrow> 'f protocol_handler) \<Rightarrow> (string, nat) smap \<Rightarrow> string \<Rightarrow> 'f protocol_handler option" where
  "find_handler hs handlers protocol = map_option hs (map_get handlers protocol)"

text \<open>\<open>artifacts_[plan]\<close> makes an empty map for a plan it does not know.\<close>

definition plan_entry :: "string \<Rightarrow> 'f installation \<Rightarrow> 'f installation" where
  "plan_entry plan s = s\<lparr>ai_artifacts := map_modify [] id plan (ai_artifacts s)\<rparr>"

definition allocate_artifact_registry ::
  "string \<Rightarrow> string \<Rightarrow> 'f installation \<Rightarrow> (artifact_registry \<times> 'f installation) option" where
  "allocate_artifact_registry plan name s =
     (case find_registry s plan name of
        None \<Rightarrow> let r = \<lparr>rg_locked = True, rg_count = 0, rg_versions = []\<rparr> in
          Some (r, store_registry plan name r s)
      | Some r \<Rightarrow>
          if rg_locked r then None
          else let r' = r\<lparr>rg_locked := True\<rparr> in Some (r', store_registry plan name r' s))"

definition lock_artifact_registry ::
  "string \<Rightarrow> string \<Rightarrow> 'f installation \<Rightarrow> ((exn + artifact_registry) \<times> 'f installation) option" where
  "lock_artifact_registry plan name s =
     (case find_registry s plan name of
        None \<Rightarrow> Some (Inl (plan_error plan (''unknown artifact '' @ name)), plan_entry plan s)
      | Some r \<Rightarrow>
          if rg_locked r then None
          else let r' = r\<lparr>rg_locked := True\<rparr> in Some (Inr r', store_registry plan name r' s))"

section \<open>Locations\<close>

text \<open>The protocols of a location, the last one on top of the stack, and what follows them.\<close>

function split_protocols :: "string \<Rightarrow> string list \<Rightarrow> (string list \<times> string) option" where
  "split_protocols loc stack =
     (if CHR '':'' \<notin> set loc then Some (stack, loc)
      else let prot = takeWhile (\<lambda>c. c \<noteq> CHR '':'') loc in
        if prot = [] then None
        else split_protocols (tl (dropWhile (\<lambda>c. c \<noteq> CHR '':'') loc)) (prot # stack))"
  by pat_completeness auto
termination
proof (relation "measure (length \<circ> fst)", simp_all)
  fix loc :: string
  assume "CHR '':'' \<in> set loc"
  then have "dropWhile (\<lambda>c. c \<noteq> CHR '':'') loc \<noteq> []" by (auto simp: dropWhile_eq_Nil_conv)
  then have "length (tl (dropWhile (\<lambda>c. c \<noteq> CHR '':'') loc)) < length (dropWhile (\<lambda>c. c \<noteq> CHR '':'') loc)"
    by simp
  also have "\<dots> \<le> length loc" by (rule length_dropWhile_le)
  finally show "length (dropWhile (\<lambda>c. c \<noteq> CHR '':'') loc) - Suc 0 < length loc" by simp
qed

declare split_protocols.simps [simp del]

definition parse_uri :: "string \<Rightarrow> string \<Rightarrow> exn + string list \<times> string" where
  "parse_uri plan location =
     (let malformed = Inl (plan_error plan (''malformed location '' @ location)) in
      case split_protocols location [] of
        None \<Rightarrow> malformed
      | Some ([], _) \<Rightarrow> Inr ([], location)
      | Some (stack, rest) \<Rightarrow> if prefix ''//'' rest then Inr (stack, drop 2 rest) else malformed)"

section \<open>Installing and removing versions\<close>

text \<open>The versions installed before a failure stay registered: they are part of the result.\<close>

fun install_protocols ::
  "(nat \<Rightarrow> 'f protocol_handler) \<Rightarrow> (string, nat) smap \<Rightarrow> string \<Rightarrow> install_properties \<Rightarrow> string list \<Rightarrow> string \<Rightarrow>
    version list \<Rightarrow> 'f install_world \<Rightarrow> ((exn + string) \<times> version list \<times> 'f install_world) option" where
  "install_protocols hs handlers plan props [] location vs w = Some (Inr location, vs, w)"
| "install_protocols hs handlers plan props (protocol # stack) location vs w =
     (case find_handler hs handlers protocol of
        None \<Rightarrow> Some (Inl (plan_error plan (''unknown installation protocol '' @ protocol)), vs, w)
      | Some h \<Rightarrow>
          (case ih_install h plan location props w of
             None \<Rightarrow> None
           | Some (Inl e, w') \<Rightarrow> Some (Inl e, vs, w')
           | Some (Inr location', w') \<Rightarrow>
               install_protocols hs handlers plan props stack location' (vs @ [(protocol, location')]) w'))"

fun remove_versions ::
  "(nat \<Rightarrow> 'f protocol_handler) \<Rightarrow> (string, nat) smap \<Rightarrow> string \<Rightarrow> version list \<Rightarrow> 'f install_world \<Rightarrow>
    ((exn + unit) \<times> 'f install_world) option" where
  "remove_versions hs handlers plan [] w = Some (Inr (), w)"
| "remove_versions hs handlers plan ((protocol, location) # vs) w =
     (case if protocol = [] then None else find_handler hs handlers protocol of
        None \<Rightarrow> remove_versions hs handlers plan vs w
      | Some h \<Rightarrow>
          (case ih_remove h plan location w of
             None \<Rightarrow> None
           | Some (Inl e, w') \<Rightarrow> Some (Inl e, w')
           | Some (Inr _, w') \<Rightarrow> remove_versions hs handlers plan vs w'))"

text \<open>All versions but the last.\<close>

fun remove_intermediates ::
  "(nat \<Rightarrow> 'f protocol_handler) \<Rightarrow> (string, nat) smap \<Rightarrow> string \<Rightarrow> version list \<Rightarrow> 'f install_world \<Rightarrow>
    ((exn + unit) \<times> version list \<times> 'f install_world) option" where
  "remove_intermediates hs handlers plan ((protocol, location) # v # vs) w =
     (case find_handler hs handlers protocol of
        None \<Rightarrow> remove_intermediates hs handlers plan (v # vs) w
      | Some h \<Rightarrow>
          (case ih_remove h plan location w of
             None \<Rightarrow> None
           | Some (Inl e, w') \<Rightarrow> Some (Inl e, (protocol, location) # v # vs, w')
           | Some (Inr _, w') \<Rightarrow> remove_intermediates hs handlers plan (v # vs) w'))"
| "remove_intermediates hs handlers plan vs w = Some (Inr (), vs, w)"

text \<open>One location: its protocols from the last to the first, then the intermediate versions.\<close>

definition install_location ::
  "(nat \<Rightarrow> 'f protocol_handler) \<Rightarrow> (string, nat) smap \<Rightarrow> string \<Rightarrow> install_properties \<Rightarrow> string \<Rightarrow>
    version list \<Rightarrow> 'f install_world \<Rightarrow> ((exn + unit) \<times> version list \<times> 'f install_world) option" where
  "install_location hs handlers plan props location vs w =
     (case parse_uri plan location of
        Inl e \<Rightarrow> Some (Inl e, vs, w)
      | Inr ([], _) \<Rightarrow> Some (Inr (), vs @ [([], location)], w)
      | Inr (stack, path) \<Rightarrow>
          (case install_protocols hs handlers plan props stack path vs w of
             None \<Rightarrow> None
           | Some (Inl e, vs', w') \<Rightarrow> Some (Inl e, vs', w')
           | Some (Inr _, vs', w') \<Rightarrow>
               if is_yes (get_install_property props [] ''keep_intermediates'') then Some (Inr (), vs', w')
               else remove_intermediates hs handlers plan vs' w'))"

fun is_plan_error :: "exn \<Rightarrow> bool" where
  "is_plan_error (UserEx PlanError _ _) = True"
| "is_plan_error _ = False"

text \<open>
  The locations in turn until one works. After a PlanError what the attempt left is removed and the next
  location is tried, or the exception goes on if there is none; whether anything was installed otherwise.
\<close>

fun install_locations ::
  "(nat \<Rightarrow> 'f protocol_handler) \<Rightarrow> (string, nat) smap \<Rightarrow> string \<Rightarrow> install_properties \<Rightarrow> string list \<Rightarrow>
    version list \<Rightarrow> 'f install_world \<Rightarrow> ((exn + bool) \<times> version list \<times> 'f install_world) option" where
  "install_locations hs handlers plan props [] vs w = Some (Inr False, vs, w)"
| "install_locations hs handlers plan props (location # locations) vs w =
     (case install_location hs handlers plan props location vs w of
        None \<Rightarrow> None
      | Some (Inr _, vs', w') \<Rightarrow> Some (Inr True, vs', w')
      | Some (Inl e, vs', w') \<Rightarrow>
          if \<not> is_plan_error e then Some (Inl e, vs', w')
          else (case remove_versions hs handlers plan vs' w' of
             None \<Rightarrow> None
           | Some (Inl e', w'') \<Rightarrow> Some (Inl e', vs', w'')
           | Some (Inr _, w'') \<Rightarrow>
               if locations = [] then Some (Inl e, vs', w'')
               else install_locations hs handlers plan props locations vs' w''))"

fun string_properties :: "'d properties \<Rightarrow> install_properties \<Rightarrow> install_properties" where
  "string_properties [] m = m"
| "string_properties (p # ps) m =
     string_properties ps (case as_string (pr_value p) of Some v \<Rightarrow> map_put (pr_name p) v m | None \<Rightarrow> m)"

section \<open>The operations\<close>

definition install ::
  "(nat \<Rightarrow> 'f protocol_handler) \<Rightarrow> string \<Rightarrow> 'd artifact \<Rightarrow> 'f installation \<Rightarrow> ((exn + unit) \<times> 'f installation) option" where
  "install hs plan artifact s =
     (let name = ar_name artifact in
      case allocate_artifact_registry plan name s of
        None \<Rightarrow> None
      | Some (r, s1) \<Rightarrow>
          if 0 < rg_count r then
            Some (Inr (), store_registry plan name (r\<lparr>rg_count := rg_count r + 1, rg_locked := False\<rparr>) s1)
          else
            (case install_locations hs (ai_handlers s1) plan (string_properties (ar_execParameter artifact) [])
                (ar_location artifact) (rg_versions r) (ai_world s1) of
               None \<Rightarrow> None
             | Some (res, vs, w) \<Rightarrow>
                 Some (map_sum id (\<lambda>_. ()) res,
                   store_registry plan name
                     (r\<lparr>rg_count := (if res = Inr True then rg_count r + 1 else rg_count r),
                        rg_versions := vs, rg_locked := False\<rparr>)
                     (s1\<lparr>ai_world := w\<rparr>))))"

text \<open>The registry to remove, when the last use of it ends.\<close>

definition remove_artifact_registry ::
  "string \<Rightarrow> string \<Rightarrow> 'f installation \<Rightarrow> ((exn + artifact_registry option) \<times> 'f installation) option" where
  "remove_artifact_registry plan name s =
     (case lock_artifact_registry plan name s of
        None \<Rightarrow> None
      | Some (Inl e, s1) \<Rightarrow> Some (Inl e, s1)
      | Some (Inr r, s1) \<Rightarrow>
          if 0 < rg_count r then
            let r' = r\<lparr>rg_count := rg_count r - 1, rg_locked := False\<rparr> in
            if rg_count r' = 0 then Some (Inr (Some r'), erase_registry plan name s1)
            else Some (Inr None, store_registry plan name r' s1)
          else Some (Inr None, store_registry plan name (r\<lparr>rg_locked := False\<rparr>) s1))"

definition remove_installed ::
  "(nat \<Rightarrow> 'f protocol_handler) \<Rightarrow> string \<Rightarrow> string \<Rightarrow> 'f installation \<Rightarrow> ((exn + unit) \<times> 'f installation) option" where
  "remove_installed hs plan name s =
     (case remove_artifact_registry plan name s of
        None \<Rightarrow> None
      | Some (Inl e, s1) \<Rightarrow> Some (Inl e, s1)
      | Some (Inr None, s1) \<Rightarrow> Some (Inr (), s1)
      | Some (Inr (Some r), s1) \<Rightarrow>
          map_option (\<lambda>(res, w). (res, s1\<lparr>ai_world := w\<rparr>))
            (remove_versions hs (ai_handlers s1) plan (rg_versions r) (ai_world s1)))"

fun remove_registries ::
  "(nat \<Rightarrow> 'f protocol_handler) \<Rightarrow> (string, nat) smap \<Rightarrow> string \<Rightarrow> (string, artifact_registry) smap \<Rightarrow>
    'f install_world \<Rightarrow> ((exn + unit) \<times> 'f install_world) option" where
  "remove_registries hs handlers plan [] w = Some (Inr (), w)"
| "remove_registries hs handlers plan ((_, r) # rs) w =
     (case remove_versions hs handlers plan (rg_versions r) w of
        None \<Rightarrow> None
      | Some (Inl e, w') \<Rightarrow> Some (Inl e, w')
      | Some (Inr _, w') \<Rightarrow> remove_registries hs handlers plan rs w')"

definition remove_all_installed ::
  "(nat \<Rightarrow> 'f protocol_handler) \<Rightarrow> string \<Rightarrow> 'f installation \<Rightarrow> ((exn + unit) \<times> 'f installation) option" where
  "remove_all_installed hs plan s =
     (let rs = map_at [] (ai_artifacts s) plan;
          s1 = s\<lparr>ai_artifacts := map_erase plan (ai_artifacts s)\<rparr> in
      map_option (\<lambda>(res, w). (res, s1\<lparr>ai_world := w\<rparr>))
        (remove_registries hs (ai_handlers s1) plan rs (ai_world s1)))"

text \<open>The location of the last version; there has to be one.\<close>

definition get_artifact_location :: "'f installation \<Rightarrow> string \<Rightarrow> string \<Rightarrow> string option" where
  "get_artifact_location s plan name =
     (case find_registry s plan name of
        None \<Rightarrow> Some []
      | Some r \<Rightarrow> if rg_versions r = [] then None else Some (snd (last (rg_versions r))))"

definition initialize_handlers :: "(nat \<Rightarrow> 'f protocol_handler) \<Rightarrow> 'f installation \<Rightarrow> 'f installation" where
  "initialize_handlers hs s =
     s\<lparr>ai_world := foldl (\<lambda>w (_, h). ih_initialize (hs h) w) (ai_world s) (ai_handlers s)\<rparr>"

definition clear_handlers :: "(nat \<Rightarrow> 'f protocol_handler) \<Rightarrow> 'f installation \<Rightarrow> 'f installation" where
  "clear_handlers hs s =
     s\<lparr>ai_world := foldl (\<lambda>w (_, h). ih_clear (hs h) w) (ai_world s) (ai_handlers s)\<rparr>"

definition prepare_plan :: "'d plan \<Rightarrow> 'f installation \<Rightarrow> (exn + unit) \<times> 'f installation" where
  "prepare_plan plan s =
     (case get_property_value as_string ''nl.remedy.it.DnCX11.ArtifactRepo.Path'' (pl_infoProperty plan) of
        None \<Rightarrow> (Inr (), s)
      | Some path \<Rightarrow>
          (case iw_manager (ai_world s) of
             None \<Rightarrow> (Inl (plan_error ''ArtifactInstallation_Impl::prepare''
               ''No InstallationRepositoryManager implementation installed.''), s)
           | Some m \<Rightarrow> (Inr (), s\<lparr>ai_world := (ai_world s)\<lparr>iw_manager := Some (map_repository (pl_UUID plan) path m)\<rparr>\<rparr>)))"

text \<open>
  A handler that is not null; one is deregistered only by itself, and no handler at all under its
  protocol is an iterator past the end.
\<close>

definition register_handler :: "(nat \<Rightarrow> 'f protocol_handler) \<Rightarrow> nat option \<Rightarrow> 'f installation \<Rightarrow> 'f installation" where
  "register_handler hs aih s =
     (case aih of None \<Rightarrow> s | Some h \<Rightarrow> s\<lparr>ai_handlers := map_put (ih_protocol (hs h)) h (ai_handlers s)\<rparr>)"

definition deregister_handler ::
  "(nat \<Rightarrow> 'f protocol_handler) \<Rightarrow> nat option \<Rightarrow> 'f installation \<Rightarrow> 'f installation option" where
  "deregister_handler hs aih s =
     (case aih of
        None \<Rightarrow> Some s
      | Some h \<Rightarrow>
          (case map_get (ai_handlers s) (ih_protocol (hs h)) of
             None \<Rightarrow> None
           | Some h' \<Rightarrow> Some (if h' = h then s\<lparr>ai_handlers := map_erase (ih_protocol (hs h)) (ai_handlers s)\<rparr> else s)))"

definition handlers_available :: "'f installation \<Rightarrow> bool" where
  "handlers_available s \<longleftrightarrow> ai_handlers s \<noteq> []"


section \<open>Which locations are understood\<close>

definition uri_text :: "string list \<Rightarrow> string \<Rightarrow> string" where
  "uri_text prots path = concat (map (\<lambda>p. p @ '':'') prots) @ ''//'' @ path"

definition protocol_name :: "string \<Rightarrow> bool" where
  "protocol_name p \<longleftrightarrow> p \<noteq> [] \<and> CHR '':'' \<notin> set p"

lemma split_protocols_colon:
  "CHR '':'' \<notin> set p \<Longrightarrow> split_protocols (p @ CHR '':'' # rest) stack =
    (if p = [] then None else split_protocols rest (p # stack))"
  by (subst split_protocols.simps) (simp add: takeWhile_append dropWhile_append)

lemma split_protocols_plain: "CHR '':'' \<notin> set rest \<Longrightarrow> split_protocols rest stack = Some (stack, rest)"
  by (subst split_protocols.simps) simp

lemma first_split_unique:
  "c \<notin> set p \<Longrightarrow> c \<notin> set q \<Longrightarrow> p @ c # l = q @ c # m \<longleftrightarrow> p = q \<and> l = m"
proof (induction p arbitrary: q)
  case Nil
  then show ?case by (cases q) auto
next
  case (Cons a p)
  then show ?case by (cases q) auto
qed

lemma last_split_unique:
  "c \<notin> set l \<Longrightarrow> c \<notin> set m \<Longrightarrow> p @ c # l = q @ c # m \<longleftrightarrow> p = q \<and> l = m"
  using first_split_unique [of c "rev l" "rev m" "rev p" "rev q"]
  by (metis append.assoc append_Cons append_Nil rev.simps(2) rev_append rev_rev_ident set_rev)

lemma split_protocols_iff:
  "split_protocols loc stack = Some (stack', rest) \<longleftrightarrow>
    (\<exists>ps. stack' = rev ps @ stack \<and> loc = concat (map (\<lambda>p. p @ '':'') ps) @ rest \<and>
       list_all protocol_name ps \<and> CHR '':'' \<notin> set rest)"
proof (induction loc stack rule: split_protocols.induct)
  case (1 loc stack)
  show ?case
  proof (cases "CHR '':'' \<in> set loc")
    case False
    have "ps = [] \<and> rest = loc"
      if "loc = concat (map (\<lambda>p. p @ '':'') ps) @ rest" for ps
      using that False by (cases ps) auto
    with False show ?thesis by (auto simp: split_protocols_plain intro: exI [of _ "[]"])
  next
    case True
    then obtain p l where pl: "loc = p @ CHR '':'' # l" "CHR '':'' \<notin> set p" by (meson split_list_first)
    have tw: "takeWhile (\<lambda>c. c \<noteq> CHR '':'') loc = p" "tl (dropWhile (\<lambda>c. c \<noteq> CHR '':'') loc) = l"
      using pl by (simp_all add: takeWhile_append dropWhile_append)
    have first: "(\<exists>ps'. ps = p # ps' \<and> l = concat (map (\<lambda>p. p @ '':'') ps') @ rest)"
      if "loc = concat (map (\<lambda>p. p @ '':'') ps) @ rest" "list_all protocol_name ps" "CHR '':'' \<notin> set rest" for ps
    proof (cases ps)
      case Nil
      with that True show ?thesis by simp
    next
      case (Cons q ps')
      with that pl have "p @ CHR '':'' # l = q @ CHR '':'' # concat (map (\<lambda>p. p @ '':'') ps') @ rest"
        "CHR '':'' \<notin> set q" by (simp_all add: protocol_name_def)
      with pl(2) have "p = q \<and> l = concat (map (\<lambda>p. p @ '':'') ps') @ rest"
        by (simp add: first_split_unique)
      with Cons show ?thesis by simp
    qed
    show ?thesis
    proof (cases "p = []")
      case True
      then have "\<not> list_all protocol_name ps" if "loc = concat (map (\<lambda>p. p @ '':'') ps) @ rest"
        "CHR '':'' \<notin> set rest" for ps
        using first [OF that(1) _ that(2)] by (auto simp: protocol_name_def)
      with True pl show ?thesis by (auto simp: split_protocols_colon [of "[]", simplified])
    next
      case False
      have IH: "split_protocols l (p # stack) = Some (stack', rest) \<longleftrightarrow>
          (\<exists>ps. stack' = rev ps @ p # stack \<and> l = concat (map (\<lambda>p. p @ '':'') ps) @ rest \<and>
             list_all protocol_name ps \<and> CHR '':'' \<notin> set rest)"
        using 1 [OF _ refl] True False tw by simp
      have "protocol_name p" using False pl(2) by (simp add: protocol_name_def)
      with pl False have "split_protocols loc stack = split_protocols l (p # stack)"
        by (simp add: split_protocols_colon)
      moreover have "(\<exists>ps. stack' = rev ps @ p # stack \<and> l = concat (map (\<lambda>p. p @ '':'') ps) @ rest \<and>
             list_all protocol_name ps \<and> CHR '':'' \<notin> set rest) \<longleftrightarrow>
          (\<exists>ps. stack' = rev ps @ stack \<and> loc = concat (map (\<lambda>p. p @ '':'') ps) @ rest \<and>
             list_all protocol_name ps \<and> CHR '':'' \<notin> set rest)" (is "?L \<longleftrightarrow> ?R")
      proof
        assume ?L
        then obtain ps where "stack' = rev ps @ p # stack" "l = concat (map (\<lambda>p. p @ '':'') ps) @ rest"
          "list_all protocol_name ps" "CHR '':'' \<notin> set rest" by blast
        with pl \<open>protocol_name p\<close> show ?R by (intro exI [of _ "p # ps"]) simp
      next
        assume ?R
        then obtain ps where ps: "stack' = rev ps @ stack" "loc = concat (map (\<lambda>p. p @ '':'') ps) @ rest"
          "list_all protocol_name ps" "CHR '':'' \<notin> set rest" by blast
        from first [OF ps(2-4)] obtain ps' where "ps = p # ps'" "l = concat (map (\<lambda>p. p @ '':'') ps') @ rest"
          by blast
        with ps show ?L by (intro exI [of _ ps']) simp
      qed
      ultimately show ?thesis using IH by simp
    qed
  qed
qed

text \<open>
  C26. A location is either a plain path without a colon, or a list of protocol names, each followed by a
  colon, and a path without a colon after two slashes; exactly these are understood, and the protocols
  come out in the order they are to be handled in, the last one first.
\<close>
theorem location_understood:
  "parse_uri plan location = Inr (stack, path) \<longleftrightarrow>
    (stack = [] \<and> path = location \<and> CHR '':'' \<notin> set location) \<or>
    (\<exists>prots. prots \<noteq> [] \<and> list_all protocol_name prots \<and> CHR '':'' \<notin> set path \<and>
       location = uri_text prots path \<and> stack = rev prots)"
proof -
  have "parse_uri plan location = Inr (stack, path) \<longleftrightarrow>
      (stack = [] \<and> path = location \<and> (\<exists>r. split_protocols location [] = Some ([], r))) \<or>
      (stack \<noteq> [] \<and> split_protocols location [] = Some (stack, ''//'' @ path))"
    by (auto simp: parse_uri_def Let_def prefix_def split: option.splits list.splits)
  also have "(\<exists>r. split_protocols location [] = Some ([], r)) \<longleftrightarrow> CHR '':'' \<notin> set location"
    by (auto simp: split_protocols_iff)
  also have "(stack \<noteq> [] \<and> split_protocols location [] = Some (stack, ''//'' @ path)) \<longleftrightarrow>
      (\<exists>prots. prots \<noteq> [] \<and> list_all protocol_name prots \<and> CHR '':'' \<notin> set path \<and>
         location = uri_text prots path \<and> stack = rev prots)"
    by (auto simp: split_protocols_iff uri_text_def)
  finally show ?thesis .
qed

text \<open>A path with a port, as in a URL of http, is taken for another protocol.\<close>

lemma location_with_port_rejected:
  assumes "CHR '':'' \<notin> set port" and "\<not> prefix ''//'' port" and "prots \<noteq> []"
  shows "\<exists>e. parse_uri plan (uri_text prots (host @ '':'' @ port)) = Inl e"
proof (cases "parse_uri plan (uri_text prots (host @ '':'' @ port))")
  case (Inr r)
  let ?u = "uri_text prots (host @ '':'' @ port)"
  obtain stack p where r: "r = (stack, p)" by (cases r)
  have u: "?u = (concat (map (\<lambda>p. p @ '':'') prots) @ ''//'' @ host) @ CHR '':'' # port"
    by (simp add: uri_text_def)
  with Inr r location_understood [of plan ?u stack p]
  obtain qs where qs: "qs \<noteq> []" "CHR '':'' \<notin> set p" "?u = uri_text qs p" by auto
  from qs(1) obtain qs' q where "qs = qs' @ [q]" by (cases qs rule: rev_exhaust) auto
  with qs have "?u = (concat (map (\<lambda>p. p @ '':'') qs') @ q) @ CHR '':'' # ''//'' @ p"
    by (simp add: uri_text_def)
  moreover have "CHR '':'' \<notin> set (''//'' @ p)" using qs(2) by simp
  ultimately have "port = ''//'' @ p"
    using u assms(1) last_split_unique [of "CHR '':''" port "''//'' @ p"] by metis
  with assms(2) show ?thesis by simp
qed simp


section \<open>The registry\<close>

definition registries_ok :: "'f installation \<Rightarrow> bool" where
  "registries_ok s \<longleftrightarrow> map_ok (ai_artifacts s) \<and> map_ok (ai_handlers s) \<and>
     (\<forall>plan. map_ok (map_at [] (ai_artifacts s) plan)) \<and>
     (\<forall>plan name r. find_registry s plan name = Some r \<longrightarrow>
        \<not> rg_locked r \<and> (0 < rg_count r \<longrightarrow> rg_versions r \<noteq> []))"

lemma map_at_modify: "map_ok m \<Longrightarrow> map_at d (map_modify d f k m) j = (if j = k then f (map_at d m k) else map_at d m j)"
  by (simp add: map_at_def map_get_modify)

lemma find_store_registry:
  assumes "map_ok (ai_artifacts s)" and "\<And>plan. map_ok (map_at [] (ai_artifacts s) plan)"
  shows "find_registry (store_registry plan name r s) plan' name' =
    (if plan' = plan \<and> name' = name then Some r else find_registry s plan' name')"
  using assms by (simp add: find_registry_def store_registry_def map_at_modify smap.get_put)

lemma registries_ok_store:
  assumes "registries_ok s" and "\<not> rg_locked r" and "0 < rg_count r \<Longrightarrow> rg_versions r \<noteq> []"
  shows "registries_ok (store_registry plan name r s)"
  using assms find_store_registry [of s plan name r]
  by (auto simp: registries_ok_def) (auto simp: store_registry_def map_ok_modify map_at_modify map_ok_put)

lemma registries_ok_erase: "registries_ok s \<Longrightarrow> registries_ok (erase_registry plan name s)"
  by (auto simp: registries_ok_def erase_registry_def find_registry_def map_ok_modify map_at_modify map_ok_erase
      smap.get_del split: if_splits)

lemma registries_ok_entry: "registries_ok s \<Longrightarrow> registries_ok (plan_entry plan s)"
  by (auto simp: registries_ok_def plan_entry_def find_registry_def map_ok_modify map_at_modify split: if_splits)

lemma registries_ok_world [simp]: "registries_ok (s\<lparr>ai_world := w\<rparr>) = registries_ok s"
  by (simp add: registries_ok_def find_registry_def)

lemma map_put_put: "map_put k v (map_put k u m) = map_put k v m"
  by (induction k u m rule: map_put.induct) auto

lemma map_put_same: "map_ok m \<Longrightarrow> map_get m k = Some v \<Longrightarrow> map_put k v m = m"
proof (induction k v m rule: map_put.induct)
  case (2 k v a b m)
  have "\<not> k < a"
  proof
    assume "k < a"
    with 2(3) have "(k, v) \<in> set m" by (auto simp: map_get_def split: if_splits dest: map_of_SomeD)
    with 2(2) have "a < k" by (auto simp: map_ok_def)
    with \<open>k < a\<close> show False by simp
  qed
  with 2 show ?case by (auto simp: map_ok_def map_get_def)
qed simp

lemma store_store [simp]: "store_registry plan name r (store_registry plan name q s) = store_registry plan name r s"
  if "map_ok (ai_artifacts s)"
  using that by (simp add: store_registry_def map_modify_def map_put_put map_at_modify [unfolded map_modify_def])

lemma map_erase_put: "map_erase k (map_put k v m) = map_erase k m"
  by (induction k v m rule: map_put.induct) (auto simp: map_erase_def)

lemma erase_store: "erase_registry plan name (store_registry plan name r s) = erase_registry plan name s"
  if "map_ok (ai_artifacts s)"
  using that by (simp add: erase_registry_def store_registry_def map_modify_def map_put_put map_erase_put
      map_at_modify [unfolded map_modify_def])

lemma store_world: "(store_registry plan name r s)\<lparr>ai_world := w\<rparr> = store_registry plan name r (s\<lparr>ai_world := w\<rparr>)"
  by (simp add: store_registry_def)

lemma store_same:
  assumes "registries_ok s" and "find_registry s plan name = Some r"
  shows "store_registry plan name r s = s"
proof -
  from assms(2) obtain m where m: "map_get (ai_artifacts s) plan = Some m" "map_get m name = Some r"
    by (auto simp: find_registry_def map_at_def split: option.splits)
  with assms have "map_ok m" "map_ok (ai_artifacts s)"
    by (auto simp: registries_ok_def map_at_def dest: spec [of _ plan])
  with m show ?thesis
    by (simp add: store_registry_def map_modify_def map_at_def map_put_same)
qed

lemma store_selectors [simp]:
  "ai_world (store_registry plan name r s) = ai_world s" "ai_handlers (store_registry plan name r s) = ai_handlers s"
  by (simp_all add: store_registry_def)

section \<open>The versions that stay\<close>

lemma install_protocols_versions:
  "install_protocols hs hnd plan props stack loc vs w = Some (Inr loc', vs', w') \<Longrightarrow>
    stack \<noteq> [] \<Longrightarrow> vs' \<noteq> [] \<and> snd (last vs') = loc'"
proof (induction hs hnd plan props stack loc vs w rule: install_protocols.induct)
  case (2 hs hnd plan props protocol stack loc vs w)
  show ?case
  proof (cases "stack = []")
    case True
    with 2 show ?thesis by (auto split: option.splits sum.splits)
  next
    case False
    with 2 show ?thesis by (fastforce split: option.splits sum.splits)
  qed
qed simp

lemma remove_intermediates_last:
  "remove_intermediates hs hnd plan vs w = Some (r, vs', w') \<Longrightarrow> vs \<noteq> [] \<Longrightarrow>
    vs' \<noteq> [] \<and> last vs' = last vs \<and> (r = Inr () \<longrightarrow> vs' = [last vs])"
proof (induction hs hnd plan vs w rule: remove_intermediates.induct)
  case (1 hs hnd plan protocol location v vs w)
  then show ?case by (fastforce split: option.splits sum.splits)
qed auto

lemma install_location_versions:
  "install_location hs hnd plan props loc vs w = Some (Inr (), vs', w') \<Longrightarrow> vs' \<noteq> []"
  using install_protocols_versions remove_intermediates_last
  by (fastforce simp: install_location_def split: option.splits sum.splits list.splits if_splits)

lemma install_locations_versions:
  "install_locations hs hnd plan props locs vs w = Some (Inr True, vs', w') \<Longrightarrow> vs' \<noteq> []"
  by (induction hs hnd plan props locs vs w rule: install_locations.induct)
    (fastforce split: option.splits sum.splits if_splits dest: install_location_versions)+


section \<open>Sequences of calls\<close>

datatype 'd install_op =
    OpInstall string "'d artifact"
  | OpRemove string string
  | OpRemoveAll string
  | OpPrepare "'d plan"
  | OpInitialize
  | OpClear
  | OpRegister "nat option"
  | OpDeregister "nat option"

fun run_op ::
  "(nat \<Rightarrow> 'f protocol_handler) \<Rightarrow> 'd install_op \<Rightarrow> 'f installation \<Rightarrow> ((exn + unit) \<times> 'f installation) option" where
  "run_op hs (OpInstall plan a) s = install hs plan a s"
| "run_op hs (OpRemove plan name) s = remove_installed hs plan name s"
| "run_op hs (OpRemoveAll plan) s = remove_all_installed hs plan s"
| "run_op hs (OpPrepare plan) s = Some (prepare_plan plan s)"
| "run_op hs OpInitialize s = Some (Inr (), initialize_handlers hs s)"
| "run_op hs OpClear s = Some (Inr (), clear_handlers hs s)"
| "run_op hs (OpRegister h) s = Some (Inr (), register_handler hs h s)"
| "run_op hs (OpDeregister h) s = map_option (Pair (Inr ())) (deregister_handler hs h s)"

text \<open>Calls one after the other, whatever each of them reports.\<close>

fun run_ops :: "(nat \<Rightarrow> 'f protocol_handler) \<Rightarrow> 'd install_op list \<Rightarrow> 'f installation \<Rightarrow> 'f installation option" where
  "run_ops hs [] s = Some s"
| "run_ops hs (op # ops) s = (case run_op hs op s of None \<Rightarrow> None | Some (_, s') \<Rightarrow> run_ops hs ops s')"

fun is_deregister :: "'d install_op \<Rightarrow> bool" where
  "is_deregister (OpDeregister _) = True"
| "is_deregister _ = False"

text \<open>Handlers that come back, with or without an exception.\<close>

definition handlers_return :: "(nat \<Rightarrow> 'f protocol_handler) \<Rightarrow> bool" where
  "handlers_return hs \<longleftrightarrow>
     (\<forall>h plan loc props w. ih_install (hs h) plan loc props w \<noteq> None \<and> ih_remove (hs h) plan loc w \<noteq> None)"

lemma handler_installs:
  assumes "handlers_return hs" and "find_handler hs hnd p = Some h"
  obtains r w' where "ih_install h plan loc props w = Some (r, w')"
proof -
  from assms(2) obtain n where "h = hs n" by (auto simp: find_handler_def)
  with assms(1) have "ih_install h plan loc props w \<noteq> None" by (simp only: handlers_return_def) blast
  then show thesis by (auto intro: that)
qed

lemma handler_removes:
  assumes "handlers_return hs" and "find_handler hs hnd p = Some h"
  obtains r w' where "ih_remove h plan loc w = Some (r, w')"
proof -
  from assms(2) obtain n where "h = hs n" by (auto simp: find_handler_def)
  with assms(1) have "ih_remove h plan loc w \<noteq> None" by (simp only: handlers_return_def) blast
  then show thesis by (auto intro: that)
qed

lemma install_protocols_returns:
  assumes "handlers_return hs"
  shows "install_protocols hs hnd plan props stack loc vs w \<noteq> None"
proof (induction stack arbitrary: loc vs w)
  case (Cons p stack)
  show ?case
  proof (cases "find_handler hs hnd p")
    case (Some h)
    obtain r w' where "ih_install h plan loc props w = Some (r, w')" by (rule handler_installs [OF assms Some])
    with Some Cons show ?thesis by (cases r) simp_all
  qed simp
qed simp

lemma remove_versions_returns:
  assumes "handlers_return hs"
  shows "remove_versions hs hnd plan vs w \<noteq> None"
proof (induction vs arbitrary: w)
  case (Cons v vs)
  obtain p loc where v: "v = (p, loc)" by (cases v)
  show ?case
  proof (cases "if p = [] then None else find_handler hs hnd p")
    case None
    with Cons v show ?thesis by simp
  next
    case (Some h)
    then have "find_handler hs hnd p = Some h" by (simp split: if_splits)
    then obtain r w' where "ih_remove h plan loc w = Some (r, w')" by (rule handler_removes [OF assms])
    with Some Cons v show ?thesis by (cases r) simp_all
  qed
qed simp

lemma remove_intermediates_returns:
  assumes "handlers_return hs"
  shows "remove_intermediates hs hnd plan vs w \<noteq> None"
proof (induction vs arbitrary: w)
  case (Cons v vs)
  obtain p loc where v: "v = (p, loc)" by (cases v)
  show ?case
  proof (cases vs)
    case (Cons v' vs')
    show ?thesis
    proof (cases "find_handler hs hnd p")
      case None
      with Cons.IH Cons v show ?thesis by simp
    next
      case (Some h)
      then obtain r w' where "ih_remove h plan loc w = Some (r, w')" by (rule handler_removes [OF assms])
      with Some Cons.IH Cons v show ?thesis by (cases r) simp_all
    qed
  qed simp
qed simp

lemma install_location_returns:
  assumes "handlers_return hs"
  shows "install_location hs hnd plan props loc vs w \<noteq> None"
proof (cases "parse_uri plan loc")
  case (Inr sp)
  obtain stack path where sp: "sp = (stack, path)" by (cases sp)
  show ?thesis
  proof (cases stack)
    case (Cons p ps)
    obtain r vs' w' where "install_protocols hs hnd plan props stack path vs w = Some (r, vs', w')"
      using install_protocols_returns [OF assms, of hnd plan props stack path vs w] by auto
    with Inr sp Cons show ?thesis
      using remove_intermediates_returns [OF assms] by (cases r) (simp_all add: install_location_def)
  qed (simp add: install_location_def Inr sp)
qed (simp add: install_location_def)

lemma install_locations_returns: "handlers_return hs \<Longrightarrow> install_locations hs hnd plan props locs vs w \<noteq> None"
proof (induction hs hnd plan props locs vs w rule: install_locations.induct)
  case (2 hs hnd plan props loc locs vs w)
  obtain r vs' w' where first: "install_location hs hnd plan props loc vs w = Some (r, vs', w')"
    using install_location_returns [OF 2(2), of hnd plan props loc vs w] by auto
  obtain r2 w2 where "remove_versions hs hnd plan vs' w' = Some (r2, w2)"
    using remove_versions_returns [OF 2(2), of hnd plan vs' w'] by auto
  with first 2 show ?case by (cases r; cases r2) auto
qed simp

lemma remove_registries_returns: "handlers_return hs \<Longrightarrow> remove_registries hs hnd plan rs w \<noteq> None"
proof (induction hs hnd plan rs w rule: remove_registries.induct)
  case (2 hs hnd plan n r rs w)
  obtain r2 w2 where "remove_versions hs hnd plan (rg_versions r) w = Some (r2, w2)"
    using remove_versions_returns [OF 2(2), of hnd plan "rg_versions r" w] by auto
  with 2 show ?case by (cases r2) auto
qed simp

lemma find_registry_ok:
  "registries_ok s \<Longrightarrow> find_registry s plan name = Some r \<Longrightarrow> \<not> rg_locked r \<and> (0 < rg_count r \<longrightarrow> rg_versions r \<noteq> [])"
  by (auto simp: registries_ok_def)

lemma registries_ok_maps: "registries_ok s \<Longrightarrow> map_ok (ai_artifacts s)"
  by (simp add: registries_ok_def)


lemma registries_ok_fields:
  assumes "registries_ok s" and "ai_artifacts s' = ai_artifacts s" and "map_ok (ai_handlers s')"
  shows "registries_ok s'"
  using assms by (simp add: registries_ok_def find_registry_def)

lemma install_ok:
  assumes ok: "registries_ok s" and run: "install hs plan a s = Some (r, s')"
  shows "registries_ok s'"
proof -
  let ?n = "ar_name a"
  obtain q where alloc: "allocate_artifact_registry plan ?n s = Some (q, store_registry plan ?n q s)"
    and q: "0 < rg_count q \<Longrightarrow> rg_versions q \<noteq> []"
    using run find_registry_ok [OF ok, of plan ?n]
    by (cases "find_registry s plan ?n") (auto simp: install_def allocate_artifact_registry_def Let_def)
  show ?thesis
  proof (cases "0 < rg_count q")
    case True
    with run alloc q show ?thesis
      by (auto simp: install_def Let_def registries_ok_maps [OF ok] intro!: registries_ok_store [OF ok])
  next
    case False
    with run alloc obtain res vs w where locs: "install_locations hs (ai_handlers s) plan
        (string_properties (ar_execParameter a) []) (ar_location a) (rg_versions q) (ai_world s) = Some (res, vs, w)"
      and s': "s' = store_registry plan ?n
        (q\<lparr>rg_count := (if res = Inr True then rg_count q + 1 else rg_count q), rg_versions := vs, rg_locked := False\<rparr>)
        (s\<lparr>ai_world := w\<rparr>)"
      by (auto simp: install_def Let_def store_world registries_ok_maps [OF ok] split: option.splits)
    have "res = Inr True \<Longrightarrow> vs \<noteq> []" using locs install_locations_versions by blast
    with s' False ok show ?thesis by (auto intro!: registries_ok_store)
  qed
qed

lemma remove_registry_ok:
  assumes ok: "registries_ok s" and run: "remove_artifact_registry plan name s = Some (r, s')"
  shows "registries_ok s'"
proof (cases "find_registry s plan name")
  case None
  with run ok show ?thesis
    by (auto simp: remove_artifact_registry_def lock_artifact_registry_def registries_ok_entry)
next
  case (Some q)
  from find_registry_ok [OF ok Some] have "\<not> rg_locked q" "0 < rg_count q \<longrightarrow> rg_versions q \<noteq> []" by auto
  moreover have "erase_registry plan name (store_registry plan name r' s) = erase_registry plan name s" for r'
    by (rule erase_store [OF registries_ok_maps [OF ok]])
  ultimately show ?thesis
    using run Some ok by (auto simp: remove_artifact_registry_def lock_artifact_registry_def Let_def
        registries_ok_maps registries_ok_erase split: if_splits intro!: registries_ok_store)
qed


lemma remove_installed_ok:
  assumes "registries_ok s" and "remove_installed hs plan name s = Some (r, s')"
  shows "registries_ok s'"
proof -
  obtain q s1 where q: "remove_artifact_registry plan name s = Some (q, s1)"
    using assms(2) by (cases "remove_artifact_registry plan name s") (auto simp: remove_installed_def)
  have "registries_ok s1" by (rule remove_registry_ok [OF assms(1) q])
  with assms(2) q show ?thesis
    by (cases q) (auto simp: remove_installed_def split: option.splits)
qed

lemma remove_all_ok:
  assumes "registries_ok s" and "remove_all_installed hs plan s = Some (r, s')"
  shows "registries_ok s'"
proof -
  have at: "map_at [] (map_erase plan (ai_artifacts s)) p = (if p = plan then [] else map_at [] (ai_artifacts s) p)" for p
    using assms(1) by (simp add: map_at_def smap.get_del registries_ok_maps)
  obtain w where "s' = s\<lparr>ai_artifacts := map_erase plan (ai_artifacts s), ai_world := w\<rparr>"
    using assms(2) by (auto simp: remove_all_installed_def)
  with assms(1) at show ?thesis
    by (auto simp: registries_ok_def find_registry_def map_ok_erase split: if_splits)
qed

lemma run_op_ok:
  assumes ok: "registries_ok s" and run: "run_op hs op s = Some (r, s')"
  shows "registries_ok s'"
proof (cases op)
  case (OpPrepare plan)
  with run ok show ?thesis
    by (auto simp: prepare_plan_def split: option.splits)
next
  case (OpRegister h)
  with run ok show ?thesis
    by (intro registries_ok_fields [OF ok])
      (auto simp: register_handler_def map_ok_put registries_ok_def split: option.splits)
next
  case (OpDeregister h)
  with run ok show ?thesis
    by (intro registries_ok_fields [OF ok])
      (auto simp: deregister_handler_def map_ok_erase registries_ok_def split: option.splits if_splits)
qed (use run ok in \<open>auto simp: initialize_handlers_def clear_handlers_def
    dest: install_ok remove_installed_ok remove_all_ok\<close>)

lemma run_op_returns:
  assumes ok: "registries_ok s" and hs: "handlers_return hs" and op: "\<not> is_deregister op"
  shows "run_op hs op s \<noteq> None"
proof (cases op)
  case (OpInstall plan a)
  have "install hs plan a s \<noteq> None"
  proof (cases "find_registry s plan (ar_name a)")
    case None
    then show ?thesis
      using install_locations_returns [OF hs, of "ai_handlers s" plan
          "string_properties (ar_execParameter a) []" "ar_location a" "[]" "ai_world s"]
      by (auto simp: install_def allocate_artifact_registry_def Let_def)
  next
    case (Some r)
    then show ?thesis
      using find_registry_ok [OF ok Some] install_locations_returns [OF hs, of "ai_handlers s" plan
          "string_properties (ar_execParameter a) []" "ar_location a" "rg_versions r" "ai_world s"]
      by (auto simp: install_def allocate_artifact_registry_def Let_def)
  qed
  with OpInstall show ?thesis by simp
next
  case (OpRemove plan name)
  have "remove_artifact_registry plan name s \<noteq> None"
    using find_registry_ok [OF ok] 
    by (cases "find_registry s plan name")
      (auto simp: remove_artifact_registry_def lock_artifact_registry_def Let_def)
  then obtain q s1 where q: "remove_artifact_registry plan name s = Some (q, s1)" by auto
  with OpRemove show ?thesis
    using remove_versions_returns [OF hs]
    by (cases q) (auto simp: remove_installed_def split: option.splits)
next
  case (OpRemoveAll plan)
  then show ?thesis
    using remove_registries_returns [OF hs] by (auto simp: remove_all_installed_def)
qed (use op in auto)



section \<open>Sharing an artifact\<close>

text \<open>The users of one artifact come and go; \<open>users\<close> counts them, as long as one is left.\<close>

datatype use = Acquire | Release

fun run_uses ::
  "(nat \<Rightarrow> 'f protocol_handler) \<Rightarrow> string \<Rightarrow> 'd artifact \<Rightarrow> use list \<Rightarrow> 'f installation \<Rightarrow> 'f installation option" where
  "run_uses hs plan a [] s = Some s"
| "run_uses hs plan a (u # us) s =
     (case (if u = Acquire then install hs plan a s else remove_installed hs plan (ar_name a) s) of
        Some (Inr _, s') \<Rightarrow> run_uses hs plan a us s'
      | _ \<Rightarrow> None)"

fun users :: "use list \<Rightarrow> nat \<Rightarrow> nat option" where
  "users [] n = Some n"
| "users (Acquire # us) n = (if n + 1 < 2 ^ 32 then users us (n + 1) else None)"
| "users (Release # us) n = (if 1 < n then users us (n - 1) else None)"

lemma word_count_pos: "0 < n \<Longrightarrow> n < 2 ^ 32 \<Longrightarrow> 0 < (word_of_nat n :: 32 word)"
  by (simp add: word_less_nat_alt unat_of_nat)

lemma install_again:
  assumes "registries_ok s" and "find_registry s plan (ar_name a) = Some r" and "0 < rg_count r"
  shows "install hs plan a s = Some (Inr (), store_registry plan (ar_name a) (r\<lparr>rg_count := rg_count r + 1\<rparr>) s)"
  using assms find_registry_ok [OF assms(1,2)]
  by (cases r) (simp add: install_def allocate_artifact_registry_def Let_def registries_ok_maps)

lemma remove_shared:
  assumes "registries_ok s" and "find_registry s plan name = Some r" and "0 < rg_count r" and "rg_count r \<noteq> 1"
  shows "remove_installed hs plan name s = Some (Inr (), store_registry plan name (r\<lparr>rg_count := rg_count r - 1\<rparr>) s)"
  using assms find_registry_ok [OF assms(1,2)]
  by (cases r) (simp add: remove_installed_def remove_artifact_registry_def lock_artifact_registry_def Let_def
      registries_ok_maps)

lemma remove_last:
  assumes "registries_ok s" and "find_registry s plan name = Some r" and "rg_count r = 1"
  shows "remove_installed hs plan name s =
    map_option (\<lambda>(res, w). (res, (erase_registry plan name s)\<lparr>ai_world := w\<rparr>))
      (remove_versions hs (ai_handlers s) plan (rg_versions r) (ai_world s))"
  using assms find_registry_ok [OF assms(1,2)]
  by (simp add: remove_installed_def remove_artifact_registry_def lock_artifact_registry_def Let_def
      registries_ok_maps erase_store) (simp add: erase_registry_def)

lemma run_uses_counted:
  assumes "registries_ok s" and "find_registry s plan (ar_name a) = Some r" and "rg_count r = word_of_nat n"
    and "0 < n" and "n < 2 ^ 32" and "users us n = Some n'"
  shows "run_uses hs plan a us s = Some (store_registry plan (ar_name a) (r\<lparr>rg_count := word_of_nat n'\<rparr>) s) \<and>
    0 < n' \<and> n' < 2 ^ 32"
  using assms
proof (induction us arbitrary: n r s)
  case Nil
  then have "r\<lparr>rg_count := word_of_nat n'\<rparr> = r" by (cases r) simp
  with Nil show ?case by (simp add: store_same)
next
  case (Cons u us)
  let ?k = "if u = Acquire then n + 1 else n - 1"
  let ?r = "r\<lparr>rg_count := word_of_nat ?k\<rparr>"
  let ?s = "store_registry plan (ar_name a) ?r s"
  have pos: "0 < rg_count r" using Cons.prems by (simp add: word_count_pos)
  have k: "0 < ?k" "?k < 2 ^ 32" "users us ?k = Some n'"
    using Cons.prems by (cases u; auto split: if_splits)+
  have "rg_count r \<noteq> 1" if "u \<noteq> Acquire"
    using that Cons.prems by (cases u) (auto split: if_splits simp: word_eq_iff_unsigned unat_of_nat
        unsigned_word_eqI dest: arg_cong [where f = unat])
  then have step: "(if u = Acquire then install hs plan a s else remove_installed hs plan (ar_name a) s) = Some (Inr (), ?s)"
    using Cons.prems pos install_again [OF Cons.prems(1,2) pos] remove_shared [OF Cons.prems(1,2) pos]
    by (cases u) (auto simp: of_nat_diff add.commute)
  have ok: "registries_ok ?s"
    using Cons.prems find_registry_ok [OF Cons.prems(1,2)] pos by (intro registries_ok_store) auto
  have find: "find_registry ?s plan (ar_name a) = Some ?r"
    using Cons.prems(1) by (subst find_store_registry) (auto simp: registries_ok_def)
  have "run_uses hs plan a us ?s = Some (store_registry plan (ar_name a) (?r\<lparr>rg_count := word_of_nat n'\<rparr>) ?s) \<and>
      0 < n' \<and> n' < 2 ^ 32"
    by (rule Cons.IH [OF ok find _ k]) simp
  with step show ?case by (simp add: registries_ok_maps [OF Cons.prems(1)])
qed

text \<open>
  C21. The users of an installed artifact share one installation: as long as one of them is left, further
  users and those that leave change no file, and when the last one leaves exactly the versions that were
  installed are removed, and with them the entry of the artifact.
\<close>
theorem shared_artifact_removed_once:
  assumes "registries_ok s" and "find_registry s plan (ar_name a) = Some r" and "rg_count r = word_of_nat n"
    and "0 < n" and "n < 2 ^ 32" and "users us n = Some 1"
  shows "\<exists>s1. run_uses hs plan a us s = Some s1 \<and> ai_world s1 = ai_world s \<and>
    get_artifact_location s1 plan (ar_name a) = get_artifact_location s plan (ar_name a) \<and>
    remove_installed hs plan (ar_name a) s1 =
      map_option (\<lambda>(res, w). (res, (erase_registry plan (ar_name a) s)\<lparr>ai_world := w\<rparr>))
        (remove_versions hs (ai_handlers s) plan (rg_versions r) (ai_world s))"
proof -
  let ?r = "r\<lparr>rg_count := 1\<rparr>"
  let ?s = "store_registry plan (ar_name a) ?r s"
  have run: "run_uses hs plan a us s = Some ?s"
    using run_uses_counted [OF assms(1-5), of us 1] assms(6) by simp
  have pos: "0 < rg_count r" using assms by (simp add: word_count_pos)
  have ok: "registries_ok ?s"
    using assms find_registry_ok [OF assms(1,2)] pos by (intro registries_ok_store) auto
  have find: "find_registry ?s plan (ar_name a) = Some ?r"
    using assms(1) by (subst find_store_registry) (auto simp: registries_ok_def)
  have "get_artifact_location ?s plan (ar_name a) = get_artifact_location s plan (ar_name a)"
    using find assms(2) by (simp add: get_artifact_location_def)
  moreover have "remove_installed hs plan (ar_name a) ?s =
      map_option (\<lambda>(res, w). (res, (erase_registry plan (ar_name a) s)\<lparr>ai_world := w\<rparr>))
        (remove_versions hs (ai_handlers s) plan (rg_versions r) (ai_world s))"
    using remove_last [OF ok find] assms(1) by (simp add: erase_store registries_ok_maps)
  ultimately show ?thesis using run by (intro exI [of _ ?s]) simp
qed


section \<open>Trying the next location\<close>

lemma remove_unused:
  assumes "registries_ok s" and "find_registry s plan name = Some r" and "rg_count r = 0"
  shows "remove_installed hs plan name s = Some (Inr (), s)"
proof -
  have "store_registry plan name (r\<lparr>rg_locked := False\<rparr>) s = s"
    using assms find_registry_ok [OF assms(1,2)] by (cases r) (simp add: store_same)
  with assms find_registry_ok [OF assms(1,2)] show ?thesis
    by (simp add: remove_installed_def remove_artifact_registry_def lock_artifact_registry_def Let_def
        registries_ok_maps)
qed

text \<open>
  When a location fails after its first protocol was installed, that version is removed but stays
  registered. The next location may then install without a fault: the stale version is removed again as an
  intermediate one, that fails, and the whole installation with it. What the next location installed is
  left behind, and removing the artifact does not remove it, as nobody is counted as its user.
\<close>
theorem stale_version_spoils_next_location:
  assumes ok: "registries_ok s" and new: "find_registry s plan (ar_name a) = None"
    and locs: "ar_location a = [l1, l2]"
    and l1: "parse_uri plan l1 = Inr ([p, q], path1)" and l2: "parse_uri plan l2 = Inr ([p2], path2)"
    and hp: "find_handler hs (ai_handlers s) p = Some h" and hq: "find_handler hs (ai_handlers s) q = Some h'"
    and hp2: "find_handler hs (ai_handlers s) p2 = Some h2"
    and props: "props = string_properties (ar_execParameter a) []"
    and drop_them: "\<not> is_yes (get_install_property props [] ''keep_intermediates'')"
    and first: "ih_install h plan path1 props (ai_world s) = Some (Inr v1, w1)"
    and second: "ih_install h' plan v1 props w1 = Some (Inl e, w2)" and e: "is_plan_error e"
    and cleaned: "ih_remove h plan v1 w2 = Some (Inr (), w3)"
    and next_one: "ih_install h2 plan path2 props w3 = Some (Inr v2, w4)"
    and again: "ih_remove h plan v1 w4 = Some (Inl e', w4)" and e': "is_plan_error e'"
  shows "\<exists>s'. install hs plan a s = Some (Inl e', s') \<and> ai_world s' = w4 \<and>
    find_registry s' plan (ar_name a) =
      Some \<lparr>rg_locked = False, rg_count = 0, rg_versions = [(p, v1), (p2, v2)]\<rparr> \<and>
    remove_installed hs plan (ar_name a) s' = Some (Inr (), s')"
proof -
  obtain prots where "list_all protocol_name prots" "[p, q] = rev prots"
    using l1 location_understood [of plan l1 "[p, q]" path1] by auto
  then have "list_all protocol_name [p, q]" by (simp only: list_all_rev)
  then have "p \<noteq> []" by (simp add: protocol_name_def)
  have i1: "install_location hs (ai_handlers s) plan props l1 [] (ai_world s) = Some (Inl e, [(p, v1)], w2)"
    by (simp add: install_location_def l1 hp hq first second)
  have i2: "install_location hs (ai_handlers s) plan props l2 [(p, v1)] w3 = Some (Inl e', [(p, v1), (p2, v2)], w4)"
    by (simp add: install_location_def l2 hp hp2 next_one again drop_them)
  have "install_locations hs (ai_handlers s) plan props [l1, l2] [] (ai_world s) =
      Some (Inl e', [(p, v1), (p2, v2)], w4)"
    by (simp add: i1 i2 e e' hp cleaned again \<open>p \<noteq> []\<close>)
  then have run: "install hs plan a s = Some (Inl e', store_registry plan (ar_name a)
      \<lparr>rg_locked = False, rg_count = 0, rg_versions = [(p, v1), (p2, v2)]\<rparr> (s\<lparr>ai_world := w4\<rparr>))" (is "_ = Some (_, ?s)")
    by (simp del: install_locations.simps add: install_def allocate_artifact_registry_def new locs props [symmetric]
        Let_def store_world registries_ok_maps [OF ok])
  have "registries_ok ?s" using ok by (intro registries_ok_store) simp_all
  moreover have find: "find_registry ?s plan (ar_name a) =
      Some \<lparr>rg_locked = False, rg_count = 0, rg_versions = [(p, v1), (p2, v2)]\<rparr>"
    using ok by (subst find_store_registry) (auto simp: registries_ok_def)
  ultimately have "remove_installed hs plan (ar_name a) ?s = Some (Inr (), ?s)" by (rule remove_unused) simp
  with run find show ?thesis by (intro exI [of _ ?s]) simp
qed

section \<open>Concrete inputs\<close>

text \<open>A handler of protocol a that keeps a list of what it installed, and one of protocol b that fails.\<close>

definition demo_handler :: "nat \<Rightarrow> string list protocol_handler" where
  "demo_handler n =
     \<lparr>ih_protocol = (if n = 0 then ''a'' else ''b''),
      ih_install = (\<lambda>plan loc props w.
        if n = 0 then Some (Inr (''/r/'' @ loc), w\<lparr>iw_files := (''/r/'' @ loc) # iw_files w\<rparr>)
        else Some (Inl (plan_error plan ''no''), w)),
      ih_remove = (\<lambda>plan loc w.
        if loc \<in> set (iw_files w) then Some (Inr (), w\<lparr>iw_files := removeAll loc (iw_files w)\<rparr>)
        else Some (Inl (plan_error plan ''cannot remove''), w)),
      ih_initialize = (\<lambda>w. w), ih_clear = (\<lambda>w. w)\<rparr>"

definition demo_installation :: "string list installation" where
  "demo_installation = \<lparr>ai_artifacts = [], ai_handlers = [(''a'', 0), (''b'', 1)],
     ai_world = \<lparr>iw_manager = None, iw_files = []\<rparr>\<rparr>"

definition demo_artifact :: "string list \<Rightarrow> unit artifact" where
  "demo_artifact locs = \<lparr>ar_name = ''lib'', ar_location = locs, ar_node = [], ar_source = [], ar_execParameter = [],
     ar_deployRequirement = [], ar_deployedResource = []\<rparr>"

lemma demo_installation_ok: "registries_ok demo_installation"
  by (simp add: registries_ok_def demo_installation_def find_registry_def map_at_def map_ok_def)

lemma demo_handlers_return: "handlers_return demo_handler"
  by (auto simp: handlers_return_def demo_handler_def)


definition demo_installed :: "string list installation" where
  "demo_installed = \<lparr>ai_artifacts = [(''p'', [(''lib'', \<lparr>rg_locked = False, rg_count = 1, rg_versions = [(''a'', ''/r/x'')]\<rparr>)])],
     ai_handlers = [(''a'', 0)], ai_world = \<lparr>iw_manager = None, iw_files = [''/r/x'']\<rparr>\<rparr>"

lemma demo_installed_ok: "registries_ok demo_installed"
  by (auto simp: registries_ok_def demo_installed_def find_registry_def map_at_def map_get_def map_ok_def
      split: if_splits option.splits)

lemma shared_artifact_removed_once_witness:
  "\<exists>s1. run_uses demo_handler ''p'' (demo_artifact []) [Acquire, Release] demo_installed = Some s1 \<and>
    ai_world s1 = ai_world demo_installed \<and>
    get_artifact_location s1 ''p'' ''lib'' = Some ''/r/x'' \<and>
    (\<exists>s2. remove_installed demo_handler ''p'' ''lib'' s1 = Some (Inr (), s2) \<and> iw_files (ai_world s2) = [])"
  using shared_artifact_removed_once [OF demo_installed_ok, of "''p''" "demo_artifact []"
      "\<lparr>rg_locked = False, rg_count = 1, rg_versions = [(''a'', ''/r/x'')]\<rparr>" 1 "[Acquire, Release]" demo_handler]
  by (auto simp: demo_installed_def demo_artifact_def find_registry_def map_at_def map_get_def
      get_artifact_location_def find_handler_def demo_handler_def)

lemma stale_version_spoils_next_location_witness:
  "\<exists>s'. install demo_handler ''p'' (demo_artifact [''b:a://x'', ''a://y'']) demo_installation =
      Some (Inl (plan_error ''p'' ''cannot remove''), s') \<and> iw_files (ai_world s') = [''/r/y'']"
  using stale_version_spoils_next_location [OF demo_installation_ok, of "''p''" "demo_artifact [''b:a://x'', ''a://y'']"
      "''b:a://x''" "''a://y''" "''a''" "''b''" "''x''" "''a''" "''y''" demo_handler "demo_handler 0" "demo_handler 1"
      "demo_handler 0" "[]" "''/r/x''" "\<lparr>iw_manager = None, iw_files = [''/r/x'']\<rparr>" "plan_error ''p'' ''no''"
      "\<lparr>iw_manager = None, iw_files = [''/r/x'']\<rparr>" "\<lparr>iw_manager = None, iw_files = []\<rparr>" "''/r/y''"
      "\<lparr>iw_manager = None, iw_files = [''/r/y'']\<rparr>" "plan_error ''p'' ''cannot remove''"]
  by (auto simp: demo_installation_def demo_artifact_def find_registry_def map_at_def map_get_def find_handler_def
      demo_handler_def plan_error_def parse_uri_def split_protocols.simps is_yes_def get_install_property_def)

end
