(* ===== verification/Artifact_Handler.thy ===== *)
theory Artifact_Handler
  imports Artifact_Installation
begin

text \<open>
  What uses and what provides the installation of artifacts: the handlers of the protocols file and
  http (tools/artifact_installation/file_installation_handler.cpp and http_installation_handler.cpp),
  which copy an artifact into the repository of its plan, and the deployment handler and interceptor for
  artifacts (dancex11/handler/instance/artifact_deployment_handler.cpp). Fetching a URL is ACE's and a
  parameter.
\<close>

section \<open>Copying into a repository\<close>

text \<open>
  Writing nothing to a stream counts as a failure of the stream, so an empty artifact is one. The file
  created stays where the copy fails.
\<close>

definition repository_target :: "install_properties \<Rightarrow> string \<Rightarrow> string \<Rightarrow> string" where
  "repository_target props protocol location =
     (let n = get_install_property props protocol ''name'' in
      if n = [] then base_name path_separator location else n)"

definition copy_content ::
  "'f file_system \<Rightarrow> string \<Rightarrow> string \<Rightarrow> string \<Rightarrow> string \<Rightarrow> 'f \<Rightarrow> (exn + string) \<times> 'f" where
  "copy_content fs plan location path content f =
     (let failed = Inl (plan_error plan (''failed to copy artifact from '' @ location @ '' to '' @ path)) in
      if content = [] then (failed, f)
      else let (ok, f') = fs_write fs path content f in (if ok then Inr path else failed, f'))"

definition file_install ::
  "'f file_system \<Rightarrow> string \<Rightarrow> string \<Rightarrow> install_properties \<Rightarrow> 'f install_world \<Rightarrow>
    ((exn + string) \<times> 'f install_world) option" where
  "file_install fs plan location props w =
     (case iw_manager w of
        None \<Rightarrow> None
      | Some m \<Rightarrow>
          (case open_repository fs m plan (iw_files w) of
             None \<Rightarrow> None
           | Some (None, f) \<Rightarrow> Some (Inl (plan_error plan ''failed to open installation repository''), w\<lparr>iw_files := f\<rparr>)
           | Some (Some repo, f) \<Rightarrow>
               if fs_content fs location f = None then
                 Some (Inl (plan_error plan (''failed to open artifact location : '' @ location)), w\<lparr>iw_files := f\<rparr>)
               else let path = repository_target props ''file'' location in
                 (case create_artifact fs (rp_location repo) path
                     (is_yes (get_install_property props ''file'' ''exclusive'')) f of
                    None \<Rightarrow> None
                  | Some (None, f1) \<Rightarrow>
                      Some (Inl (plan_error plan (''failed to create repository artifact version for '' @ path)),
                        w\<lparr>iw_files := f1\<rparr>)
                  | Some (Some path', f1) \<Rightarrow>
                      let content = (case fs_content fs location f1 of Some c \<Rightarrow> c | None \<Rightarrow> []);
                          (res, f2) = copy_content fs plan location path' content f1 in
                      Some (res, w\<lparr>iw_files := f2\<rparr>))))"

definition repository_remove ::
  "'f file_system \<Rightarrow> string \<Rightarrow> string \<Rightarrow> 'f install_world \<Rightarrow> ((exn + unit) \<times> 'f install_world) option" where
  "repository_remove fs plan location w =
     (case iw_manager w of
        None \<Rightarrow> None
      | Some m \<Rightarrow>
          (case open_repository fs m plan (iw_files w) of
             None \<Rightarrow> None
           | Some (None, f) \<Rightarrow> Some (Inl (plan_error plan ''failed to open installation repository''), w\<lparr>iw_files := f\<rparr>)
           | Some (Some repo, f) \<Rightarrow>
               if \<not> has_artifact fs (rp_location repo) location f then
                 Some (Inl (plan_error plan (''cannot remove non-existing artifact : '' @ location)), w\<lparr>iw_files := f\<rparr>)
               else let (ok, f1) = remove_artifact fs (rp_location repo) location f in
                 Some (if ok then Inr () else Inl (plan_error plan (''failed to remove artifact : '' @ location)),
                   w\<lparr>iw_files := f1\<rparr>)))"

definition file_handler :: "'f file_system \<Rightarrow> 'f protocol_handler" where
  "file_handler fs = \<lparr>ih_protocol = ''file'', ih_install = file_install fs, ih_remove = repository_remove fs,
     ih_initialize = (\<lambda>w. w), ih_clear = (\<lambda>w. w)\<rparr>"

section \<open>Fetching\<close>

text \<open>
  What opening a URL comes to: a response with its content, a response that is not ok with its number and
  reason, one that is not valid, a request or a connection that failed with the error number, or no stream.
\<close>

datatype http_reply =
    Fetched string
  | NotOk string string
  | Invalid
  | RequestFailed string
  | ConnectionFailed string
  | NoStream string

record http_client =
  hc_parse :: "string \<Rightarrow> string option"
  hc_open :: "string \<Rightarrow> http_reply"

fun http_response :: "string \<Rightarrow> string \<Rightarrow> http_reply \<Rightarrow> exn + string" where
  "http_response plan url (Fetched c) = Inr c"
| "http_response plan url (NotOk status reason) =
     Inl (plan_error plan (''negative HTTP response '' @ status @ reason @ '' : url='' @ url))"
| "http_response plan url Invalid = Inl (plan_error plan (''invalid HTTP response'' @ '' : url='' @ url))"
| "http_response plan url (RequestFailed n) =
     Inl (plan_error plan (''Failed to handle request for '' @ url @ '' ('' @ n @ '')''))"
| "http_response plan url (ConnectionFailed n) =
     Inl (plan_error plan (''Failed to set up connection for '' @ url @ '' ('' @ n @ '')''))"
| "http_response plan url (NoStream n) =
     Inl (plan_error plan (''Failed to handle request for '' @ url @ '' ('' @ n @ '')''))"

text \<open>The file of the repository is created before the URL is opened.\<close>

definition http_install ::
  "http_client \<Rightarrow> 'f file_system \<Rightarrow> string \<Rightarrow> string \<Rightarrow> install_properties \<Rightarrow> 'f install_world \<Rightarrow>
    ((exn + string) \<times> 'f install_world) option" where
  "http_install hc fs plan location props w =
     (case iw_manager w of
        None \<Rightarrow> None
      | Some m \<Rightarrow>
          (case open_repository fs m plan (iw_files w) of
             None \<Rightarrow> None
           | Some (None, f) \<Rightarrow> Some (Inl (plan_error plan ''failed to open installation repository''), w\<lparr>iw_files := f\<rparr>)
           | Some (Some repo, f) \<Rightarrow>
               (case hc_parse hc location of
                  None \<Rightarrow>
                    Some (Inl (plan_error plan (''failed to parse artifact location : '' @ location)), w\<lparr>iw_files := f\<rparr>)
                | Some url \<Rightarrow> let path = repository_target props ''http'' location in
                    (case create_artifact fs (rp_location repo) path
                        (is_yes (get_install_property props ''http'' ''exclusive'')) f of
                       None \<Rightarrow> None
                     | Some (None, f1) \<Rightarrow>
                         Some (Inl (plan_error plan (''failed to create repository artifact version for '' @ path)),
                           w\<lparr>iw_files := f1\<rparr>)
                     | Some (Some path', f1) \<Rightarrow>
                         (case http_response plan url (hc_open hc url) of
                            Inl e \<Rightarrow> Some (Inl e, w\<lparr>iw_files := f1\<rparr>)
                          | Inr content \<Rightarrow>
                              let (res, f2) = copy_content fs plan location path' content f1 in
                              Some (res, w\<lparr>iw_files := f2\<rparr>))))))"

definition http_handler :: "http_client \<Rightarrow> 'f file_system \<Rightarrow> ('f install_world \<Rightarrow> 'f install_world) \<Rightarrow> 'f protocol_handler" where
  "http_handler hc fs close_connections =
     \<lparr>ih_protocol = ''http'', ih_install = http_install hc fs, ih_remove = repository_remove fs,
      ih_initialize = (\<lambda>w. w), ih_clear = close_connections\<rparr>"

section \<open>Deploying the artifacts of an instance\<close>

text \<open>The folder of a location, / for one directly below it.\<close>

definition path_of_location :: "string \<Rightarrow> string option" where
  "path_of_location location =
     (case before_last path_separator location of
        None \<Rightarrow> None | Some p \<Rightarrow> Some (if p = [] then [path_separator] else p))"

definition note_path :: "string \<Rightarrow> (string, unit) smap \<Rightarrow> (string, unit) smap" where
  "note_path location paths = (case path_of_location location of None \<Rightarrow> paths | Some p \<Rightarrow> map_put p () paths)"

definition push_location :: "nat \<Rightarrow> string \<Rightarrow> 'd plan \<Rightarrow> 'd plan" where
  "push_location i location plan =
     plan\<lparr>pl_artifact := vec_upd i (\<lambda>a. a\<lparr>ar_location := location # ar_location a\<rparr>) (pl_artifact plan)\<rparr>"

fun deploy_artifacts ::
  "(nat \<Rightarrow> 'f protocol_handler) \<Rightarrow> nat list \<Rightarrow> 'd plan \<Rightarrow> (string, unit) smap \<Rightarrow> 'f installation \<Rightarrow>
    ((exn + string list) \<times> 'd plan \<times> 'f installation) option" where
  "deploy_artifacts hs [] plan paths s = Some (Inr (map fst paths), plan, s)"
| "deploy_artifacts hs (i # is) plan paths s =
     (if length (pl_artifact plan) \<le> i then None
      else let a = pl_artifact plan ! i in
        (case install hs (pl_UUID plan) a s of
           None \<Rightarrow> None
         | Some (Inl e, s') \<Rightarrow> Some (Inl e, plan, s')
         | Some (Inr _, s') \<Rightarrow>
             (case get_artifact_location s' (pl_UUID plan) (ar_name a) of
                None \<Rightarrow> None
              | Some location \<Rightarrow>
                  deploy_artifacts hs is (push_location i location plan) (note_path location paths) s')))"

fun undeploy_artifacts ::
  "(nat \<Rightarrow> 'f protocol_handler) \<Rightarrow> nat list \<Rightarrow> 'd plan \<Rightarrow> 'f installation \<Rightarrow> ((exn + unit) \<times> 'f installation) option" where
  "undeploy_artifacts hs [] plan s = Some (Inr (), s)"
| "undeploy_artifacts hs (i # is) plan s =
     (if length (pl_artifact plan) \<le> i then None
      else (case remove_installed hs (pl_UUID plan) (ar_name (pl_artifact plan ! i)) s of
         None \<Rightarrow> None
       | Some (Inl e, s') \<Rightarrow> Some (Inl e, s')
       | Some (Inr _, s') \<Rightarrow> undeploy_artifacts hs is plan s'))"

text \<open>The artifacts of an instance; an implementation out of range is undefined.\<close>

definition instance_artifacts :: "'d plan \<Rightarrow> nat \<Rightarrow> nat list option" where
  "instance_artifacts plan ref =
     (let i = id_implementationRef (pl_instance plan ! ref) in
      if length (pl_implementation plan) \<le> i then None else Some (md_artifactRef (pl_implementation plan ! i)))"

definition artifact_install_instance ::
  "(nat \<Rightarrow> 'f protocol_handler) \<Rightarrow> 'd plan \<Rightarrow> nat \<Rightarrow> 'f installation \<Rightarrow>
    ((exn + 'd any) \<times> 'd plan \<times> 'f installation) option" where
  "artifact_install_instance hs plan ref s =
     (if length (pl_instance plan) \<le> ref then
        Some (Inl (plan_error (pl_UUID plan) ''Invalid instance reference''), plan, s)
      else if \<not> handlers_available s then Some (Inr (SeqAny TString []), plan, s)
      else (case instance_artifacts plan ref of
         None \<Rightarrow> None
       | Some refs \<Rightarrow>
           map_option (\<lambda>(res, plan', s'). (map_sum id (\<lambda>ps. SeqAny TString (map VString ps)) res, plan', s'))
             (deploy_artifacts hs refs plan [] s)))"

definition artifact_remove_instance ::
  "(nat \<Rightarrow> 'f protocol_handler) \<Rightarrow> 'd plan \<Rightarrow> nat \<Rightarrow> 'f installation \<Rightarrow> ((exn + unit) \<times> 'f installation) option" where
  "artifact_remove_instance hs plan ref s =
     (if length (pl_instance plan) \<le> ref then
        Some (Inl (plan_error (pl_UUID plan) ''Invalid instance reference''), s)
      else if \<not> handlers_available s then Some (Inr (), s)
      else (case instance_artifacts plan ref of
         None \<Rightarrow> None
       | Some refs \<Rightarrow> undeploy_artifacts hs refs plan s))"

text \<open>Configuring the handler, closing it, and what the interceptor does with a plan.\<close>

definition artifact_configure :: "(nat \<Rightarrow> 'f protocol_handler) \<Rightarrow> 'f installation \<Rightarrow> 'f installation" where
  "artifact_configure hs s = initialize_handlers hs s"

definition artifact_close :: "(nat \<Rightarrow> 'f protocol_handler) \<Rightarrow> 'f installation \<Rightarrow> 'f installation" where
  "artifact_close hs s = clear_handlers hs s"

definition artifact_preprocess_plan :: "'d plan \<Rightarrow> 'f installation \<Rightarrow> (exn + unit) \<times> 'f installation" where
  "artifact_preprocess_plan plan s = (if handlers_available s then prepare_plan plan s else (Inr (), s))"

section \<open>The contract of a protocol handler\<close>

text \<open>
  What the installation service relies on: a version that was installed is held, and one that was removed
  is not; where \<open>ready\<close> says that the handler can work for a plan.
\<close>

locale artifact_store =
  fixes h :: "'f protocol_handler"
    and held :: "string \<Rightarrow> string \<Rightarrow> 'f install_world \<Rightarrow> bool"
    and ready :: "string \<Rightarrow> 'f install_world \<Rightarrow> bool"
  assumes installed: "ready plan w \<Longrightarrow> ih_install h plan loc props w = Some (Inr v, w') \<Longrightarrow> held plan v w' \<and> ready plan w'"
    and removed: "ready plan w \<Longrightarrow> held plan v w \<Longrightarrow> ih_remove h plan v w = Some (Inr u, w') \<Longrightarrow> \<not> held plan v w'"
begin

text \<open>An artifact with one location of one protocol, installed and removed again.\<close>

lemma installed_then_removed:
  assumes ok: "registries_ok s" and new: "find_registry s plan (ar_name a) = None"
    and loc: "ar_location a = [l]" "parse_uri plan l = Inr ([p], path)"
    and hp: "find_handler hs (ai_handlers s) p = Some h" and ready: "ready plan (ai_world s)"
    and inst: "install hs plan a s = Some (Inr (), s1)"
    and rem: "remove_installed hs plan (ar_name a) s1 = Some (Inr (), s2)"
  shows "\<exists>v. get_artifact_location s1 plan (ar_name a) = Some v \<and> held plan v (ai_world s1) \<and>
    \<not> held plan v (ai_world s2)"
proof -
  have "protocol_name p" using loc location_understood [of plan l "[p]" path] by auto
  then have p: "p \<noteq> []" by (simp add: protocol_name_def)
  let ?props = "string_properties (ar_execParameter a) []"
  obtain res w where call: "ih_install h plan path ?props (ai_world s) = Some (res, w)"
    using inst by (cases "ih_install h plan path ?props (ai_world s)")
      (auto simp: install_def allocate_artifact_registry_def new loc Let_def install_location_def hp)
  show ?thesis
  proof (cases res)
    case (Inl e)
    with inst call show ?thesis
      by (auto simp: install_def allocate_artifact_registry_def new loc Let_def install_location_def hp
          split: if_splits)
  next
    case (Inr v)
    let ?r = "\<lparr>rg_locked = False, rg_count = 1, rg_versions = [(p, v)]\<rparr>"
    have "install_location hs (ai_handlers s) plan ?props l [] (ai_world s) = Some (Inr (), [(p, v)], w)"
      using call Inr by (simp add: install_location_def loc hp)
    with inst have s1: "s1 = store_registry plan (ar_name a) ?r (s\<lparr>ai_world := w\<rparr>)"
      by (simp add: install_def allocate_artifact_registry_def new loc Let_def store_world registries_ok_maps [OF ok])
    have w: "held plan v w \<and> ready plan w"
      using call Inr by (auto intro!: installed [OF ready])
    have ok1: "registries_ok s1" unfolding s1 using ok by (intro registries_ok_store) simp_all
    have find: "find_registry s1 plan (ar_name a) = Some ?r"
      unfolding s1 using ok by (subst find_store_registry) (auto simp: registries_ok_def)
    have "ai_world s1 = w" "ai_handlers s1 = ai_handlers s" by (simp_all add: s1)
    moreover from this obtain u w2 where "ih_remove h plan v w = Some (Inr u, w2)" "ai_world s2 = w2"
      using rem remove_last [OF ok1 find, of hs] hp p by (auto split: option.splits sum.splits)
    ultimately show ?thesis
      using find w removed by (auto simp: get_artifact_location_def)
  qed
qed

end

section \<open>The handlers keep it\<close>

text \<open>What POSIX says of files: opening one for writing makes it exist, writing changes neither which
  files nor which folders there are, folders stay, and a file that was unlinked is gone.\<close>

definition file_laws :: "'f file_system \<Rightarrow> bool" where
  "file_laws fs \<longleftrightarrow>
     (\<forall>p f f'. fs_open_out fs p f = (True, f') \<longrightarrow> fs_is_file fs p f') \<and>
     (\<forall>p q c f. fs_is_file fs q (snd (fs_write fs p c f)) = fs_is_file fs q f) \<and>
     (\<forall>p q c f. fs_is_dir fs q f \<longrightarrow> fs_is_dir fs q (snd (fs_open_out fs p f)) \<and>
        fs_is_dir fs q (snd (fs_write fs p c f)) \<and> fs_is_dir fs q (snd (fs_mkdir fs p f))) \<and>
     (\<forall>p f f'. fs_unlink fs p f = (True, f') \<longrightarrow> \<not> fs_is_file fs p f')"

lemma file_lawsD:
  assumes "file_laws fs"
  shows "fs_open_out fs p f = (True, f') \<Longrightarrow> fs_is_file fs p f'"
    and "fs_is_file fs q (snd (fs_write fs p c f)) = fs_is_file fs q f"
    and "fs_is_dir fs q f \<Longrightarrow> fs_is_dir fs q (snd (fs_open_out fs p f))"
    and "fs_is_dir fs q f \<Longrightarrow> fs_is_dir fs q (snd (fs_write fs p c f))"
    and "fs_is_dir fs q f \<Longrightarrow> fs_is_dir fs q (snd (fs_mkdir fs p f))"
    and "fs_unlink fs p f = (True, f') \<Longrightarrow> \<not> fs_is_file fs p f'"
  using assms unfolding file_laws_def by blast+

lemma create_folder_path:
  assumes "create_folder fs repo l excl f = Some (Some p, f')"
  shows "p = normalize_path repo l"
  using assms by (subst (asm) create_folder.simps)
    (auto simp: Let_def split: bind_splits prod.splits if_splits)

lemma create_folder_keeps_folders:
  fixes fs :: "'f file_system"
  assumes "create_folder fs repo l excl f = Some r" and "file_laws fs" and "fs_is_dir fs q f"
  shows "fs_is_dir fs q (snd r)"
proof -
  have "file_laws fs \<longrightarrow> fs_is_dir fs q f \<longrightarrow> fs_is_dir fs q (snd r)"
  proof (rule create_folder.raw_induct [where P = "\<lambda>fs repo l excl f r.
      file_laws fs \<longrightarrow> fs_is_dir fs q f \<longrightarrow> fs_is_dir fs q (snd r)", OF _ assms(1)], intro impI)
    fix cf :: "'f file_system \<Rightarrow> string \<Rightarrow> string \<Rightarrow> bool \<Rightarrow> 'f \<Rightarrow> (string option \<times> 'f) option"
      and fs :: "'f file_system" and repo l e f r
    assume IH: "\<And>fs repo l e f r. cf fs repo l e f = Some r \<Longrightarrow>
        file_laws fs \<longrightarrow> fs_is_dir fs q f \<longrightarrow> fs_is_dir fs q (snd r)"
      and eq: "(let path = normalize_path repo l in
        if \<not> fs_exists fs path f then let folder = get_folder path in
          Option.bind (if has_folder fs repo folder f then Some (Some folder, f) else cf fs repo folder False f)
            (\<lambda>(parent, f1). if parent = None then Some (None, f1)
               else let (ok, f2) = fs_mkdir fs path f1 in Some (if ok then Some path else None, f2))
        else if e \<or> \<not> has_folder fs repo path f then Some (None, f) else Some (Some path, f)) = Some r"
      and laws: "file_laws fs" and dir: "fs_is_dir fs q f"
    have made: "fs_is_dir fs q g" if "fs_mkdir fs p f1 = (ok, g)" "fs_is_dir fs q f1" for p f1 ok g
      using file_lawsD(5) [OF laws that(2), of p] that(1) by simp
    have parent: "fs_is_dir fs q f1" if "cf fs repo folder False f = Some (pp, f1)" for folder pp f1
      using IH [OF that] laws dir by simp
    from eq show "fs_is_dir fs q (snd r)"
      using dir by (auto simp: Let_def split: bind_splits prod.splits if_splits dest!: parent intro: made)
  qed
  with assms show ?thesis by blast
qed

definition repository_location :: "repo_manager \<Rightarrow> string \<Rightarrow> string" where
  "repository_location m plan = normalize_path (rm_location m) (repository_path m plan)"

lemma open_repository_location:
  assumes "open_repository fs m plan f = Some (r, f')"
  shows "r = None \<or> r = Some \<lparr>rp_plan = plan, rp_location = repository_location m plan\<rparr>"
  using assms create_folder_path
  by (fastforce simp: open_repository_def Let_def repository_location_def split: if_splits option.splits)

lemma open_repository_keeps_folders:
  "open_repository fs m plan f = Some (r, f') \<Longrightarrow> file_laws fs \<Longrightarrow> fs_is_dir fs q f \<Longrightarrow> fs_is_dir fs q f'"
  using create_folder_keeps_folders
  by (fastforce simp: open_repository_def Let_def split: if_splits option.splits)

lemma create_artifact_file:
  assumes made: "create_artifact fs repo l excl f = Some (Some p, f')" and laws: "file_laws fs"
  shows "p = normalize_path repo l \<and> fs_is_file fs p f' \<and> (fs_is_dir fs q f \<longrightarrow> fs_is_dir fs q f')"
proof -
  let ?p = "normalize_path repo l"
  have opened: "g = snd (fs_open_out fs ?p f1) \<and> fst (fs_open_out fs ?p f1) \<and> q = ?p"
    if "(case fs_open_out fs ?p f1 of (ok, g) \<Rightarrow> Some (if ok then Some ?p else None, g)) = Some (Some q, g)" for f1 g q
    using that by (cases "fs_open_out fs ?p f1") (simp split: if_splits)
  obtain f1 where "f' = snd (fs_open_out fs ?p f1) \<and> fst (fs_open_out fs ?p f1) \<and> p = ?p"
    and f: "f1 = f \<or> (\<exists>r. create_folder fs repo (get_folder ?p) False f = Some (r, f1))"
  proof (cases "fs_exists fs ?p f \<or> has_folder fs repo (get_folder ?p) f")
    case True
    with made have "(case fs_open_out fs ?p f of (ok, g) \<Rightarrow> Some (if ok then Some ?p else None, g)) = Some (Some p, f')"
      by (auto simp: create_artifact_def Let_def split: if_splits)
    then show ?thesis using that opened by blast
  next
    case False
    with made obtain d f1 where "create_folder fs repo (get_folder ?p) False f = Some (Some d, f1)"
      "(case fs_open_out fs ?p f1 of (ok, g) \<Rightarrow> Some (if ok then Some ?p else None, g)) = Some (Some p, f')"
      by (cases "create_folder fs repo (get_folder ?p) False f")
        (auto simp: create_artifact_def Let_def split: option.splits)
    then show ?thesis using that opened by blast
  qed
  then have f1: "fs_open_out fs ?p f1 = (True, f')" "p = ?p" by (simp_all add: prod_eq_iff)
  have "fs_is_dir fs q f \<longrightarrow> fs_is_dir fs q f1"
    using f create_folder_keeps_folders [OF _ laws, of repo _ False f "(_, f1)" q] by auto
  moreover have "fs_is_dir fs q f1 \<longrightarrow> fs_is_dir fs q f'"
    using file_lawsD(3) [OF laws, of q f1 ?p] f1(1) by simp
  ultimately show ?thesis using f1 file_lawsD(1) [OF laws f1(1)] by simp
qed

lemma copy_content_file:
  assumes "copy_content fs plan location path c f = (Inr v, f')" and "file_laws fs"
  shows "v = path \<and> fs_is_file fs q f' = fs_is_file fs q f \<and> (fs_is_dir fs q f \<longrightarrow> fs_is_dir fs q f')"
  using assms unfolding file_laws_def
  by (auto simp: copy_content_def Let_def split: if_splits prod.splits) (metis snd_conv)+


definition held_in :: "'f file_system \<Rightarrow> string \<Rightarrow> string \<Rightarrow> 'f install_world \<Rightarrow> bool" where
  "held_in fs plan v w \<longleftrightarrow>
     (\<exists>m. iw_manager w = Some m \<and> prefix (repository_location m plan) v \<and> fs_is_file fs v (iw_files w))"

definition repository_ready :: "'f file_system \<Rightarrow> 'f install_world \<Rightarrow> bool" where
  "repository_ready fs w \<longleftrightarrow>
     file_laws fs \<and> (\<exists>m. iw_manager w = Some m \<and> fs_is_dir fs (rm_location m) (iw_files w))"

lemma stored_artifact:
  assumes "repository_ready fs w" and "iw_manager w = Some m"
    and "open_repository fs m plan (iw_files w) = Some (Some repo, f)"
    and "create_artifact fs (rp_location repo) path excl f = Some (Some p, f1)"
    and "copy_content fs plan location p c f1 = (Inr v, f2)"
  shows "held_in fs plan v (w\<lparr>iw_files := f2\<rparr>) \<and> repository_ready fs (w\<lparr>iw_files := f2\<rparr>)"
proof -
  have laws: "file_laws fs" and dir: "fs_is_dir fs (rm_location m) (iw_files w)"
    using assms(1,2) by (auto simp: repository_ready_def)
  have "rp_location repo = repository_location m plan"
    using open_repository_location [OF assms(3)] by auto
  moreover have "fs_is_dir fs (rm_location m) f" by (rule open_repository_keeps_folders [OF assms(3) laws dir])
  ultimately show ?thesis
    using create_artifact_file [OF assms(4) laws] copy_content_file [OF assms(5) laws] assms(2) laws
    by (auto simp: held_in_def repository_ready_def normalize_path_prefix)
qed

lemma file_install_held:
  assumes ready: "repository_ready fs w" and run: "file_install fs plan loc props w = Some (Inr v, w')"
  shows "held_in fs plan v w' \<and> repository_ready fs w'"
proof -
  obtain m where m: "iw_manager w = Some m" using ready by (auto simp: repository_ready_def)
  obtain repo f where repo: "open_repository fs m plan (iw_files w) = Some (Some repo, f)"
    using run m by (auto simp: file_install_def split: option.splits prod.splits)
  obtain p f1 where p: "create_artifact fs (rp_location repo) (repository_target props ''file'' loc)
      (is_yes (get_install_property props ''file'' ''exclusive'')) f = Some (Some p, f1)"
    using run m repo by (auto simp: file_install_def Let_def split: option.splits prod.splits if_splits)
  obtain c f2 where "copy_content fs plan loc p c f1 = (Inr v, f2)" "w' = w\<lparr>iw_files := f2\<rparr>"
    using run m repo p by (auto simp: file_install_def Let_def split: prod.splits if_splits)
  then show ?thesis using stored_artifact [OF ready m repo p] by blast
qed

lemma http_install_held:
  assumes ready: "repository_ready fs w" and run: "http_install hc fs plan loc props w = Some (Inr v, w')"
  shows "held_in fs plan v w' \<and> repository_ready fs w'"
proof -
  obtain m where m: "iw_manager w = Some m" using ready by (auto simp: repository_ready_def)
  obtain repo f where repo: "open_repository fs m plan (iw_files w) = Some (Some repo, f)"
    using run m by (auto simp: http_install_def split: option.splits prod.splits)
  obtain url where url: "hc_parse hc loc = Some url"
    using run m repo by (auto simp: http_install_def split: option.splits)
  obtain p f1 where p: "create_artifact fs (rp_location repo) (repository_target props ''http'' loc)
      (is_yes (get_install_property props ''http'' ''exclusive'')) f = Some (Some p, f1)"
    using run m repo url by (auto simp: http_install_def Let_def split: option.splits prod.splits)
  obtain c where c: "http_response plan url (hc_open hc url) = Inr c"
    using run m repo url p by (auto simp: http_install_def Let_def split: sum.splits)
  obtain f2 where "copy_content fs plan loc p c f1 = (Inr v, f2)" "w' = w\<lparr>iw_files := f2\<rparr>"
    using run m repo url p c by (auto simp: http_install_def Let_def split: prod.splits)
  then show ?thesis using stored_artifact [OF ready m repo p] by blast
qed

lemma repository_remove_gone:
  assumes ready: "repository_ready fs w" and held: "held_in fs plan v w"
    and run: "repository_remove fs plan v w = Some (Inr u, w')"
  shows "\<not> held_in fs plan v w'"
proof -
  obtain m where m: "iw_manager w = Some m" using ready by (auto simp: repository_ready_def)
  have v: "normalize_path (repository_location m plan) v = v"
    using held m by (auto simp: held_in_def normalize_path_def)
  obtain repo f where repo: "open_repository fs m plan (iw_files w) = Some (Some repo, f)"
    using run m by (auto simp: repository_remove_def split: option.splits prod.splits)
  then have "rp_location repo = repository_location m plan"
    using open_repository_location [OF repo] by auto
  then obtain f1 where "fs_unlink fs v f = (True, f1)" "w' = w\<lparr>iw_files := f1\<rparr>"
    using run m repo v by (auto simp: repository_remove_def remove_artifact_def Let_def split: prod.splits if_splits)
  moreover have "file_laws fs" using ready by (auto simp: repository_ready_def)
  ultimately show ?thesis by (auto simp: held_in_def dest: file_lawsD(6))
qed

interpretation file_store: artifact_store "file_handler fs" "held_in fs" "\<lambda>plan. repository_ready fs" for fs
  by unfold_locales (auto simp: file_handler_def dest: file_install_held repository_remove_gone)

interpretation http_store: artifact_store "http_handler hc fs close" "held_in fs" "\<lambda>plan. repository_ready fs" for hc fs close
  by unfold_locales (auto simp: http_handler_def dest: http_install_held repository_remove_gone)

text \<open>
  An artifact installed from a local file is a file of the repository of its plan, at the location
  the service gives for it, and when its only user has removed it without an error it is gone.
\<close>
theorem installed_file_removed:
  assumes "registries_ok s" and "find_registry s plan (ar_name a) = None"
    and "ar_location a = [l]" and "parse_uri plan l = Inr ([p], path)"
    and "find_handler hs (ai_handlers s) p = Some (file_handler fs)" and "repository_ready fs (ai_world s)"
    and "install hs plan a s = Some (Inr (), s1)"
    and "remove_installed hs plan (ar_name a) s1 = Some (Inr (), s2)"
  shows "\<exists>v. get_artifact_location s1 plan (ar_name a) = Some v \<and> held_in fs plan v (ai_world s1) \<and>
    \<not> held_in fs plan v (ai_world s2)"
  by (rule file_store.installed_then_removed [OF assms])

section \<open>Deploying artifacts\<close>

lemma install_other:
  assumes ok: "registries_ok s" and run: "install hs plan a s = Some (r, s')" and other: "name \<noteq> ar_name a"
  shows "find_registry s' plan name = find_registry s plan name"
proof -
  have "\<exists>q t. s' = store_registry plan (ar_name a) q t \<and> ai_artifacts t = ai_artifacts s"
  proof (cases "find_registry s plan (ar_name a)")
    case None
    with run ok show ?thesis
      by (auto simp: install_def allocate_artifact_registry_def Let_def store_world registries_ok_maps
          split: option.splits intro!: exI)
  next
    case (Some q)
    show ?thesis
    proof (cases "0 < rg_count q")
      case True
      with Some run ok find_registry_ok [OF ok Some] show ?thesis
        by (auto simp: install_def allocate_artifact_registry_def Let_def registries_ok_maps intro!: exI)
    next
      case False
      with Some run ok find_registry_ok [OF ok Some] show ?thesis
        by (auto simp: install_def allocate_artifact_registry_def Let_def store_world registries_ok_maps
            split: option.splits intro!: exI)
    qed
  qed
  then obtain q t where "s' = store_registry plan (ar_name a) q t" "ai_artifacts t = ai_artifacts s" by blast
  then show ?thesis
    using ok other find_store_registry [of t plan "ar_name a" q plan name]
    by (simp add: registries_ok_def find_registry_def)
qed

lemma location_of_other:
  "registries_ok s \<Longrightarrow> install hs plan a s = Some (r, s') \<Longrightarrow> name \<noteq> ar_name a \<Longrightarrow>
    get_artifact_location s' plan name = get_artifact_location s plan name"
  by (simp add: get_artifact_location_def install_other)

lemma location_without_protocol:
  assumes ok: "registries_ok s" and new: "find_registry s plan (ar_name a) = None"
    and loc: "ar_location a = v # ls" and plain: "CHR '':'' \<notin> set v"
  shows "install hs plan a s = Some (Inr (), store_registry plan (ar_name a)
    \<lparr>rg_locked = False, rg_count = 1, rg_versions = [([], v)]\<rparr> s)"
proof -
  have "parse_uri plan v = Inr ([], v)" using plain by (simp add: location_understood)
  then have "install_location hs hnd plan props v vs w = Some (Inr (), vs @ [([], v)], w)" for hnd props vs w
    by (simp add: install_location_def)
  with new loc show ?thesis
    by (simp add: install_def allocate_artifact_registry_def Let_def registries_ok_maps [OF ok] store_world)
qed


lemma push_location_simps [simp]:
  "pl_UUID (push_location i v plan) = pl_UUID plan"
  "length (pl_artifact (push_location i v plan)) = length (pl_artifact plan)"
  "pl_instance (push_location i v plan) = pl_instance plan"
  "pl_implementation (push_location i v plan) = pl_implementation plan"
  by (simp_all add: push_location_def)

lemma push_location_nth:
  "j < length (pl_artifact plan) \<Longrightarrow> pl_artifact (push_location i v plan) ! j =
    (if i = j then (pl_artifact plan ! j)\<lparr>ar_location := v # ar_location (pl_artifact plan ! j)\<rparr> else pl_artifact plan ! j)"
  by (simp add: push_location_def nth_vec_upd)

lemma push_location_name:
  "j < length (pl_artifact plan) \<Longrightarrow> ar_name (pl_artifact (push_location i v plan) ! j) = ar_name (pl_artifact plan ! j)"
  by (simp add: push_location_nth)

lemma note_path_keys:
  "fst ` set paths \<subseteq> fst ` set (note_path v paths) \<and> (path_of_location v = Some p \<longrightarrow> p \<in> fst ` set (note_path v paths))"
  by (auto simp: note_path_def fst_set_map_put split: option.splits)

text \<open>What one artifact of the list comes to.\<close>

lemma deploy_step:
  assumes run: "deploy_artifacts hs (i # is) plan paths s = Some (Inr ps, plan', s')" and ok: "registries_ok s"
  obtains s1 v where "i < length (pl_artifact plan)" "registries_ok s1"
    "install hs (pl_UUID plan) (pl_artifact plan ! i) s = Some (Inr (), s1)"
    "get_artifact_location s1 (pl_UUID plan) (ar_name (pl_artifact plan ! i)) = Some v"
    "deploy_artifacts hs is (push_location i v plan) (note_path v paths) s1 = Some (Inr ps, plan', s')"
proof -
  obtain s1 v where "i < length (pl_artifact plan)"
    "install hs (pl_UUID plan) (pl_artifact plan ! i) s = Some (Inr (), s1)"
    "get_artifact_location s1 (pl_UUID plan) (ar_name (pl_artifact plan ! i)) = Some v"
    "deploy_artifacts hs is (push_location i v plan) (note_path v paths) s1 = Some (Inr ps, plan', s')"
    using run by (auto simp: Let_def split: if_splits option.splits sum.splits)
  with that install_ok [OF ok] show thesis by blast
qed

lemma deploy_keeps:
  assumes "deploy_artifacts hs is plan paths s = Some (Inr ps, plan', s')" and "registries_ok s"
    and "list_all (\<lambda>i. i < length (pl_artifact plan) \<longrightarrow> ar_name (pl_artifact plan ! i) \<noteq> name) is"
  shows "get_artifact_location s' (pl_UUID plan) name = get_artifact_location s (pl_UUID plan) name \<and>
    fst ` set paths \<subseteq> set ps \<and>
    (\<forall>j < length (pl_artifact plan). ar_name (pl_artifact plan ! j) = name \<longrightarrow> pl_artifact plan' ! j = pl_artifact plan ! j)"
  using assms
proof (induction "is" arbitrary: plan paths s)
  case (Cons i "is")
  from Cons.prems(1,2) obtain s1 v where
    s1: "i < length (pl_artifact plan)" "registries_ok s1"
    "install hs (pl_UUID plan) (pl_artifact plan ! i) s = Some (Inr (), s1)" and
    rest: "deploy_artifacts hs is (push_location i v plan) (note_path v paths) s1 = Some (Inr ps, plan', s')"
    by (rule deploy_step)
  have i: "ar_name (pl_artifact plan ! i) \<noteq> name" using Cons.prems(3) s1(1) by simp
  have "list_all (\<lambda>j. j < length (pl_artifact (push_location i v plan)) \<longrightarrow>
      ar_name (pl_artifact (push_location i v plan) ! j) \<noteq> name) is"
    using Cons.prems(3) by (auto simp: list_all_iff push_location_name)
  from Cons.IH [OF rest s1(2) this] note_path_keys [of paths v]
  have "get_artifact_location s' (pl_UUID plan) name = get_artifact_location s1 (pl_UUID plan) name \<and>
      fst ` set paths \<subseteq> set ps \<and> (\<forall>j < length (pl_artifact plan). ar_name (pl_artifact plan ! j) = name \<longrightarrow>
        pl_artifact plan' ! j = pl_artifact (push_location i v plan) ! j)"
    by (auto simp: push_location_name)
  moreover have "get_artifact_location s1 (pl_UUID plan) name = get_artifact_location s (pl_UUID plan) name"
    using location_of_other [OF Cons.prems(2) s1(3)] i by metis
  moreover have "pl_artifact (push_location i v plan) ! j = pl_artifact plan ! j"
    if "j < length (pl_artifact plan)" "ar_name (pl_artifact plan ! j) = name" for j
    using i that by (auto simp: push_location_nth)
  ultimately show ?case by simp
qed force

lemma deploy_range:
  "deploy_artifacts hs is plan paths s = Some (Inr ps, plan', s') \<Longrightarrow> j \<in> set is \<Longrightarrow> j < length (pl_artifact plan)"
  by (induction hs "is" plan paths s rule: deploy_artifacts.induct)
    (fastforce simp: Let_def split: if_splits option.splits sum.splits)+

lemma deploy_located:
  assumes "deploy_artifacts hs is plan paths s = Some (Inr ps, plan', s')" and "registries_ok s"
    and "distinct (map (\<lambda>i. ar_name (pl_artifact plan ! i)) is)" and "i \<in> set is"
  shows "\<exists>v. get_artifact_location s' (pl_UUID plan) (ar_name (pl_artifact plan ! i)) = Some v \<and>
    ar_location (pl_artifact plan' ! i) = v # ar_location (pl_artifact plan ! i) \<and>
    (\<forall>p. path_of_location v = Some p \<longrightarrow> p \<in> set ps)"
  using assms
proof (induction "is" arbitrary: plan paths s)
  case (Cons k "is")
  from Cons.prems(1,2) obtain s1 v where
    s1: "k < length (pl_artifact plan)" "registries_ok s1"
    "install hs (pl_UUID plan) (pl_artifact plan ! k) s = Some (Inr (), s1)"
    "get_artifact_location s1 (pl_UUID plan) (ar_name (pl_artifact plan ! k)) = Some v" and
    rest: "deploy_artifacts hs is (push_location k v plan) (note_path v paths) s1 = Some (Inr ps, plan', s')"
    by (rule deploy_step)
  have inr: "j < length (pl_artifact plan)" if "j \<in> set is" for j
    using deploy_range [OF rest that] by simp
  have "ar_name (pl_artifact plan ! k) \<notin> (\<lambda>j. ar_name (pl_artifact plan ! j)) ` set is"
    using Cons.prems(3) by simp
  then have ne: "ar_name (pl_artifact plan ! j) \<noteq> ar_name (pl_artifact plan ! k)" if "j \<in> set is" for j
    using that by (metis (no_types, lifting) image_eqI)
  show ?case
  proof (cases "i = k")
    case True
    have "list_all (\<lambda>j. j < length (pl_artifact (push_location k v plan)) \<longrightarrow>
        ar_name (pl_artifact (push_location k v plan) ! j) \<noteq> ar_name (pl_artifact plan ! k)) is"
      using ne by (simp add: list_all_iff push_location_name)
    note kept = deploy_keeps [OF rest s1(2) this]
    have "get_artifact_location s' (pl_UUID plan) (ar_name (pl_artifact plan ! k)) = Some v"
      using kept s1(4) by simp
    moreover have "pl_artifact plan' ! k = pl_artifact (push_location k v plan) ! k"
      using kept s1(1) by (simp add: push_location_name)
    moreover have "\<forall>p. path_of_location v = Some p \<longrightarrow> p \<in> set ps"
      using kept note_path_keys [of paths v] by blast
    ultimately show ?thesis using True s1(1) by (simp add: push_location_nth)
  next
    case False
    then have i: "i \<in> set is" using Cons.prems(4) by simp
    have "distinct (map (\<lambda>i. ar_name (pl_artifact (push_location k v plan) ! i)) is)"
      using Cons.prems(3) inr by (auto simp: distinct_map inj_on_def push_location_name)
    from Cons.IH [OF rest s1(2) this i] inr [OF i] False show ?thesis
      by (auto simp: push_location_nth)
  qed
qed simp


lemma artifact_install_runs:
  assumes "artifact_install_instance hs plan ref s = Some (Inr any, plan', s')" and "handlers_available s"
    and "instance_artifacts plan ref = Some refs"
  obtains ps where "any = SeqAny TString (map VString ps)"
    "deploy_artifacts hs refs plan [] s = Some (Inr ps, plan', s')"
proof (cases "deploy_artifacts hs refs plan [] s")
  case None
  with assms show thesis by (simp add: artifact_install_instance_def split: if_splits)
next
  case (Some r)
  obtain res p t where r: "r = (res, p, t)" by (cases r)
  with Some assms that show thesis
    by (cases res) (auto simp: artifact_install_instance_def split: if_splits)
qed


text \<open>
  The location an installation leaves first in the plan is a plain path. When the instance was removed
  and is deployed again with that plan, no handler is asked: the path of the file that was removed
  is taken for an installed artifact.
\<close>
theorem second_deployment_installs_nothing:
  assumes "registries_ok s" and "handlers_available s" and "ref < length (pl_instance plan)"
    and "instance_artifacts plan ref = Some [i]" and "CHR '':'' \<notin> set v"
    and run: "artifact_install_instance hs plan ref s = Some (Inr any, plan', s1)"
    and at: "get_artifact_location s1 (pl_UUID plan) (ar_name (pl_artifact plan ! i)) = Some v"
    and gone: "artifact_remove_instance hs plan' ref s1 = Some (Inr (), s2)"
    and last: "find_registry s2 (pl_UUID plan) (ar_name (pl_artifact plan ! i)) = None"
    and handlers: "handlers_available s1" "handlers_available s2"
  shows "\<exists>plan'' s3. artifact_install_instance hs plan' ref s2 = Some (Inr any, plan'', s3) \<and>
    ai_world s3 = ai_world s2 \<and>
    get_artifact_location s3 (pl_UUID plan) (ar_name (pl_artifact plan ! i)) = Some v"
proof -
  obtain ps where any: "any = SeqAny TString (map VString ps)"
    and "deploy_artifacts hs [i] plan [] s = Some (Inr ps, plan', s1)"
    by (rule artifact_install_runs [OF run assms(2,4)])
  then have i: "i < length (pl_artifact plan)" "plan' = push_location i v plan" "ps = map fst (note_path v [])"
    and inst: "install hs (pl_UUID plan) (pl_artifact plan ! i) s = Some (Inr (), s1)"
    using at by (auto simp: Let_def split: if_splits option.splits sum.splits)
  have refs: "instance_artifacts plan' ref = Some [i]" "ref < length (pl_instance plan')"
    using assms(3,4) by (auto simp: instance_artifacts_def Let_def i(2) split: if_splits)
  let ?a = "pl_artifact plan' ! i"
  have a: "ar_name ?a = ar_name (pl_artifact plan ! i)" "ar_location ?a = v # ar_location (pl_artifact plan ! i)"
    using i by (simp_all add: push_location_nth)
  have "registries_ok s1" by (rule install_ok [OF assms(1) inst])
  then have ok2: "registries_ok s2"
    using gone handlers refs i by (auto simp: artifact_remove_instance_def split: if_splits option.splits sum.splits
        intro: remove_installed_ok)
  let ?s3 = "store_registry (pl_UUID plan) (ar_name ?a) \<lparr>rg_locked = False, rg_count = 1, rg_versions = [([], v)]\<rparr> s2"
  have inst3: "install hs (pl_UUID plan) ?a s2 = Some (Inr (), ?s3)"
    using last a assms(5) by (intro location_without_protocol [OF ok2]) auto
  have "find_registry ?s3 (pl_UUID plan) (ar_name ?a) = Some \<lparr>rg_locked = False, rg_count = 1, rg_versions = [([], v)]\<rparr>"
    using ok2 by (subst find_store_registry) (auto simp: registries_ok_def)
  then have loc3: "get_artifact_location ?s3 (pl_UUID plan) (ar_name ?a) = Some v"
    by (simp add: get_artifact_location_def)
  have "deploy_artifacts hs [i] plan' [] s2 = Some (Inr ps, push_location i v plan', ?s3)"
    using inst3 loc3 i by (simp add: Let_def)
  with refs handlers any loc3 a(1) show ?thesis
    by (intro exI [of _ "push_location i v plan'"] exI [of _ ?s3]) (simp add: artifact_install_instance_def)
qed


section \<open>Concrete inputs\<close>

text \<open>Files with their contents below two folders.\<close>

definition demo_disk :: "(string \<times> string) list file_system" where
  "demo_disk = \<lparr>fs_exists = (\<lambda>p f. map_of f p \<noteq> None \<or> p \<in> {''/r'', ''/r/p''}),
     fs_is_file = (\<lambda>p f. map_of f p \<noteq> None), fs_is_dir = (\<lambda>p f. p \<in> {''/r'', ''/r/p''}),
     fs_mkdir = (\<lambda>p f. (False, f)), fs_unlink = (\<lambda>p f. (map_of f p \<noteq> None, filter (\<lambda>q. fst q \<noteq> p) f)),
     fs_rmdir = (\<lambda>p f. (False, f)), fs_entries = (\<lambda>p f. []),
     fs_open_out = (\<lambda>p f. (True, (p, []) # filter (\<lambda>q. fst q \<noteq> p) f)), fs_content = (\<lambda>p f. map_of f p),
     fs_write = (\<lambda>p c f. (True, map (\<lambda>q. if fst q = p then (p, c) else q) f))\<rparr>"

lemma demo_disk_laws: "file_laws demo_disk"
proof -
  have "map_of (map (\<lambda>q. if fst q = p then (p, c) else q) f) q = None \<longleftrightarrow> map_of f q = None" for p c q
    and f :: "(string \<times> string) list"
    by (induction f) auto
  then show ?thesis
    by (auto simp: file_laws_def demo_disk_def map_of_eq_None_iff)
qed

definition demo_service :: "(string, (string, artifact_registry) smap) smap \<Rightarrow> (string \<times> string) list \<Rightarrow>
    (string \<times> string) list installation" where
  "demo_service arts files = \<lparr>ai_artifacts = arts, ai_handlers = [(''file'', 0)],
     ai_world = \<lparr>iw_manager = Some \<lparr>rm_location = ''/r'', rm_map = []\<rparr>, iw_files = files\<rparr>\<rparr>"

abbreviation "demo_entry \<equiv> [(''p'', [(''lib'', \<lparr>rg_locked = False, rg_count = 1, rg_versions = [(''file'', ''/r/p/x'')]\<rparr>)])]"

lemma demo_service_ok: "registries_ok (demo_service [] files)"
  by (simp add: registries_ok_def demo_service_def find_registry_def map_at_def map_ok_def)

lemma demo_service_installs:
  "install (\<lambda>_. file_handler demo_disk) ''p'' (demo_artifact [''file:///src/x'']) (demo_service [] [(''/src/x'', ''data'')]) =
    Some (Inr (), demo_service demo_entry [(''/r/p/x'', ''data''), (''/src/x'', ''data'')])"
  by code_simp

lemma demo_service_removes:
  "remove_installed (\<lambda>_. file_handler demo_disk) ''p'' ''lib'' (demo_service demo_entry [(''/r/p/x'', ''data''), (''/src/x'', ''data'')]) =
    Some (Inr (), demo_service [(''p'', [])] [(''/src/x'', ''data'')])"
  by code_simp

abbreviation "demo_source \<equiv> demo_artifact [''file:///src/x'']"

lemma installed_file_removed_witness:
  "\<exists>v. get_artifact_location (demo_service demo_entry [(''/r/p/x'', ''data''), (''/src/x'', ''data'')]) ''p'' (ar_name demo_source) = Some v \<and>
    held_in demo_disk ''p'' v (ai_world (demo_service demo_entry [(''/r/p/x'', ''data''), (''/src/x'', ''data'')])) \<and>
    \<not> held_in demo_disk ''p'' v (ai_world (demo_service [(''p'', [])] [(''/src/x'', ''data'')]))"
proof (rule installed_file_removed [where l = "''file:///src/x''" and p = "''file''" and path = "''/src/x''"
      and hs = "\<lambda>_. file_handler demo_disk"])
  let ?s = "demo_service [] [(''/src/x'', ''data'')]"
  show "registries_ok ?s" by (rule demo_service_ok)
  show "find_registry ?s ''p'' (ar_name demo_source) = None"
    by (simp add: demo_service_def find_registry_def map_at_def)
  show "find_handler (\<lambda>_. file_handler demo_disk) (ai_handlers ?s) ''file'' = Some (file_handler demo_disk)"
    by (simp add: demo_service_def find_handler_def map_get_def)
  show "repository_ready demo_disk (ai_world ?s)"
    using demo_disk_laws by (auto simp: repository_ready_def demo_service_def) (simp add: demo_disk_def)
  show "install (\<lambda>_. file_handler demo_disk) ''p'' demo_source ?s =
      Some (Inr (), demo_service demo_entry [(''/r/p/x'', ''data''), (''/src/x'', ''data'')])"
    by (rule demo_service_installs)
  show "remove_installed (\<lambda>_. file_handler demo_disk) ''p'' (ar_name demo_source)
      (demo_service demo_entry [(''/r/p/x'', ''data''), (''/src/x'', ''data'')]) =
      Some (Inr (), demo_service [(''p'', [])] [(''/src/x'', ''data'')])"
    using demo_service_removes by (simp add: demo_artifact_def)
qed (simp_all add: demo_artifact_def parse_uri_def split_protocols.simps)

definition demo_artifact_plan :: "unit plan" where
  "demo_artifact_plan = new_plan\<lparr>pl_UUID := ''p'', pl_instance := [new_idd],
     pl_implementation := [new_mdd\<lparr>md_artifactRef := [0]\<rparr>], pl_artifact := [demo_artifact [''a://x'']]\<rparr>"

definition demo_located_plan :: "unit plan" where
  "demo_located_plan = demo_artifact_plan\<lparr>pl_artifact := [demo_artifact [''/r/x'', ''a://x'']]\<rparr>"

definition demo_after :: "(string, (string, artifact_registry) smap) smap \<Rightarrow> string list \<Rightarrow> string list installation" where
  "demo_after arts files = demo_installation\<lparr>ai_artifacts := arts, ai_world := \<lparr>iw_manager = None, iw_files = files\<rparr>\<rparr>"

abbreviation "demo_lib \<equiv> [(''p'', [(''lib'', \<lparr>rg_locked = False, rg_count = 1, rg_versions = [(''a'', ''/r/x'')]\<rparr>)])]"

lemma demo_deployed:
  "artifact_install_instance demo_handler demo_artifact_plan 0 demo_installation =
    Some (Inr (SeqAny TString [VString ''/r'']), demo_located_plan, demo_after demo_lib [''/r/x''])"
  by code_simp

lemma demo_undeployed:
  "artifact_remove_instance demo_handler demo_located_plan 0 (demo_after demo_lib [''/r/x'']) =
    Some (Inr (), demo_after [(''p'', [])] [])"
  by code_simp

lemmas demo_plan_defs = demo_located_plan_def demo_artifact_plan_def new_plan_def new_mdd_def new_idd_def demo_artifact_def
  demo_after_def demo_installation_def handlers_available_def instance_artifacts_def get_artifact_location_def
  find_registry_def map_at_def map_get_def


lemma second_deployment_installs_nothing_witness:
  "\<exists>plan s. artifact_install_instance demo_handler demo_located_plan 0 (demo_after [(''p'', [])] []) =
      Some (Inr (SeqAny TString [VString ''/r'']), plan, s) \<and> ai_world s = ai_world (demo_after [(''p'', [])] []) \<and>
    get_artifact_location s (pl_UUID demo_artifact_plan) (ar_name (pl_artifact demo_artifact_plan ! 0)) = Some ''/r/x''"
  by (rule second_deployment_installs_nothing [OF demo_installation_ok _ _ _ _ demo_deployed _ demo_undeployed])
    (simp_all add: demo_plan_defs)

end
