(* ===== verification/Config_Stream.thy ===== *)
theory Config_Stream
  imports Prelude
begin

text \<open>
  The lexer of the CONFIG format, dancex11/configurator/dancex11_config_stream.{h,cpp}: a
  character stream with the lexer's line counter and the separator that ended the last token.

  The std::istream is its unread characters and its end-of-file flag; a stream that opened does not
  fail otherwise, so \<open>good ()\<close> is the negated flag. \<open>peek ()\<close> at the end sets the
  flag, \<open>get ()\<close> at the end yields EOF, which becomes the character 255 where the code
  appends it to a token, and \<open>unget ()\<close> puts the character back and clears the flag. Every
  loop of the code is a function of the unread characters.
\<close>

record cstream =
  cs_src :: string
  cs_eof :: bool
  cs_line :: "32 word"
  cs_break :: char

definition open_stream :: "string \<Rightarrow> cstream" where
  "open_stream inp = \<lparr>cs_src = inp, cs_eof = False, cs_line = 0, cs_break = char_of (0 :: nat)\<rparr>"

definition eof_char :: char where
  "eof_char = CHR 0xFF"

definition backslash :: char where
  "backslash = CHR 0x5C"

definition quote1 :: char where
  "quote1 = CHR 0x27"

definition quote2 :: char where
  "quote2 = CHR 0x22"

lemma code_of_special [simp]:
  "code_of eof_char = 255" "code_of backslash = 92" "code_of quote1 = 39" "code_of quote2 = 34"
  by (simp_all add: eof_char_def backslash_def quote1_def quote2_def)

section \<open>Character classes of the lexer\<close>

definition is_hex :: "char \<Rightarrow> bool" where
  "is_hex c \<longleftrightarrow> (65 \<le> code_of c \<and> code_of c \<le> 70) \<or> (97 \<le> code_of c \<and> code_of c \<le> 102) \<or> is_digit c"

definition is_break :: "bool \<Rightarrow> char \<Rightarrow> bool" where
  "is_break asgn c \<longleftrightarrow> is_space c \<or> c \<in> set '':[],<>'' \<or> (asgn \<and> c = CHR ''='')"

section \<open>Scanning loops\<close>

text \<open>Skip whitespace, counting lines.\<close>

fun skip_ws :: "string \<Rightarrow> 32 word \<Rightarrow> string \<times> 32 word" where
  "skip_ws [] ln = ([], ln)"
| "skip_ws (c # cs) ln =
     (if is_space c then skip_ws cs (if c = newline then ln + 1 else ln) else (c # cs, ln))"

text \<open>std::getline: what is left after the line, and whether the end was reached before a newline.\<close>

fun skip_line :: "string \<Rightarrow> string \<times> bool" where
  "skip_line [] = ([], True)"
| "skip_line (c # cs) = (if c = newline then (cs, False) else skip_line cs)"

text \<open>The characters of a word up to the next separator.\<close>

fun take_word :: "bool \<Rightarrow> string \<Rightarrow> string \<times> string" where
  "take_word asgn [] = ([], [])"
| "take_word asgn (c # cs) =
     (if is_break asgn c then ([], c # cs)
      else (let (w, r) = take_word asgn cs in (c # w, r)))"

text \<open>
  \<open>while (n < max \<and> in.good () \<and> p (in.peek ())) buf[n++] = in.get ()\<close>: the characters
  read, the rest, and whether a peek reached the end.
\<close>

fun take_max :: "(char \<Rightarrow> bool) \<Rightarrow> nat \<Rightarrow> string \<Rightarrow> string \<times> string \<times> bool" where
  "take_max p 0 cs = ([], cs, False)"
| "take_max p (Suc n) [] = ([], [], True)"
| "take_max p (Suc n) (c # cs) =
     (if p c then (let (d, r, e) = take_max p n cs in (c # d, r, e)) else ([], c # cs, False))"

definition hex_val :: "char \<Rightarrow> nat" where
  "hex_val c = (if is_digit c then code_of c - 48
                else if code_of c \<le> 70 then code_of c - 55 else code_of c - 87)"

definition number_of :: "(char \<Rightarrow> nat) \<Rightarrow> nat \<Rightarrow> string \<Rightarrow> nat" where
  "number_of val base ds = foldl (\<lambda>n d. n * base + val d) 0 ds"

definition is_octal :: "char \<Rightarrow> bool" where
  "is_octal c \<longleftrightarrow> 48 \<le> code_of c \<and> code_of c \<le> 55"

section \<open>Escapes and quoted strings\<close>

text \<open>
  \<open>get_escape\<close> runs with the backslash still unread. For the control letters it returns the
  control character after a peek at the letter only: the letter stays in the stream.
\<close>

definition control_of :: "char \<Rightarrow> nat option" where
  "control_of c =
     (if c = CHR ''n'' then Some 10 else if c = CHR ''r'' then Some 13
      else if c = CHR ''f'' then Some 12 else if c = CHR ''t'' then Some 9
      else if c = CHR ''v'' then Some 11 else if c = CHR ''b'' then Some 8
      else if c = CHR ''a'' then Some 7 else None)"

definition get_escape :: "string \<Rightarrow> char \<times> string \<times> bool" where
  "get_escape s =
     (case tl s of
        [] \<Rightarrow> (eof_char, [], True)
      | c # r \<Rightarrow>
          (if c = CHR ''x'' then
             (let (d, r', e) = take_max is_hex 2 r in (char_of (number_of hex_val 16 d), r', e))
           else (case control_of c of
               Some k \<Rightarrow> (char_of k, c # r, False)
             | None \<Rightarrow>
                 (if is_digit c then
                    (let (d, r', e) = take_max is_digit 2 r
                     in (char_of (number_of digit_val 8 (takeWhile is_octal (c # d))), r', e))
                  else (c, r, False)))))"

lemma take_max_length: "take_max p n cs = (d, r, e) \<Longrightarrow> length r \<le> length cs"
  by (induction p n cs arbitrary: d rule: take_max.induct) (auto split: if_splits prod.splits)

lemma get_escape_length:
  assumes "get_escape s = (ch, r, e)" and "s \<noteq> []"
  shows "length r < length s"
proof (cases s)
  case (Cons b cs)
  with assms(1) show ?thesis
    by (auto simp: get_escape_def split: list.splits if_splits option.splits prod.splits
        dest!: take_max_length)
qed (simp add: assms(2))

text \<open>
  The body of a quoted token after its opening quote: the closing quote is part of the token; at the
  end of the file the character of EOF is.
\<close>

function quoted :: "char \<Rightarrow> string \<Rightarrow> string \<times> string \<times> bool" where
  "quoted qt [] = ([eof_char], [], True)"
| "quoted qt (c # r) =
     (if c = backslash then
        (case get_escape (c # r) of (ch, r', e) \<Rightarrow>
           if e then ([ch], r', True)
           else (let (t, r'', e') = quoted qt r' in (ch # t, r'', e')))
      else if c = qt then ([c], r, False)
      else (let (t, r', e) = quoted qt r in (c # t, r', e)))"
  by pat_completeness auto
termination
  by (relation "measure (length \<circ> snd)") (auto dest!: sym [of _ "get_escape _"] get_escape_length)

declare quoted.simps [simp del]

lemma skip_ws_length: "skip_ws cs ln = (r, ln') \<Longrightarrow> length r \<le> length cs"
  by (induction cs arbitrary: ln) (auto split: if_splits dest: le_SucI)

lemma skip_ws_head: "skip_ws cs ln = (c # r, ln') \<Longrightarrow> \<not> is_space c"
  by (induction cs arbitrary: ln) (auto split: if_splits)

lemma skip_line_length: "skip_line cs = (r, e) \<Longrightarrow> length r \<le> length cs"
  by (induction cs) (auto split: if_splits)

lemma take_word_length: "take_word asgn cs = (w, r) \<Longrightarrow> length r \<le> length cs"
  by (induction cs arbitrary: w) (auto split: if_splits prod.splits)

lemma quoted_length: "quoted qt cs = (t, r, e) \<Longrightarrow> length r \<le> length cs"
proof (induction qt cs arbitrary: t r e rule: quoted.induct)
  case (1 qt)
  then show ?case by (simp add: quoted.simps)
next
  case (2 qt c cs)
  obtain ch r' e' where esc: "get_escape (c # cs) = (ch, r', e')"
    by (metis prod_cases3)
  from get_escape_length [OF esc] have r': "length r' \<le> length cs" by simp
  show ?case
  proof (cases "c = backslash")
    case True
    have IH: "\<not> e' \<Longrightarrow> quoted qt r' = (u, r'', f) \<Longrightarrow> length r'' \<le> length r'" for u r'' f
      using 2(1) [OF True esc [symmetric] refl] by simp
    from 2(3) True esc r' show ?thesis
      by (subst (asm) quoted.simps) (auto split: if_splits prod.splits dest: IH)
  next
    case False
    with 2 show ?thesis
      by (subst (asm) quoted.simps) (auto split: if_splits prod.splits dest: le_SucI)
  qed
qed


section \<open>Tokens\<close>

text \<open>What follows the word of an identifier token: the separator is consumed unless it is a bracket.\<close>

definition end_word :: "bool \<Rightarrow> string \<Rightarrow> 32 word \<Rightarrow> cstream" where
  "end_word asgn cs ln =
     (case skip_ws cs ln of
        ([], ln') \<Rightarrow> \<lparr>cs_src = [], cs_eof = True, cs_line = ln', cs_break = CHR '' ''\<rparr>
      | (c # r, ln') \<Rightarrow>
          if is_break asgn c \<and> c \<noteq> CHR ''['' \<and> c \<noteq> CHR '']''
          then \<lparr>cs_src = r, cs_eof = False, cs_line = ln', cs_break = c\<rparr>
          else \<lparr>cs_src = c # r, cs_eof = False, cs_line = ln', cs_break = CHR '' ''\<rparr>)"

definition is_comment :: "string \<Rightarrow> bool" where
  "is_comment cs \<longleftrightarrow> hd cs = CHR ''#'' \<or> take 2 cs = ''//''"

function next_token :: "bool \<Rightarrow> cstream \<Rightarrow> string \<times> cstream" where
  "next_token asgn s =
     (if cs_eof s then ([], s)
      else case skip_ws (cs_src s) (cs_line s) of
        ([], ln) \<Rightarrow> ([], s\<lparr>cs_src := [], cs_eof := True, cs_line := ln\<rparr>)
      | (c # cs, ln) \<Rightarrow>
          if is_comment (c # cs)
          then (let (r, e) = skip_line cs
                in next_token asgn (s\<lparr>cs_src := r, cs_eof := e, cs_line := ln + 1\<rparr>))
          else if c = quote1 \<or> c = quote2
          then (let (t, r, e) = quoted c cs
                in (c # t, s\<lparr>cs_src := r, cs_eof := e, cs_line := ln, cs_break := CHR '' ''\<rparr>))
          else if c = CHR ''['' \<or> c = CHR '']''
          then ([c], s\<lparr>cs_src := cs, cs_line := ln, cs_break := CHR '' ''\<rparr>)
          else if is_break asgn c
          then next_token asgn (s\<lparr>cs_src := cs, cs_line := ln\<rparr>)
          else (let (w, r) = take_word asgn cs in (c # w, end_word asgn r ln)))"
  by pat_completeness auto
termination
  by (relation "measure (\<lambda>(_, s). length (cs_src s))")
    (auto dest!: sym [of "(_, _)"] dest!: skip_line_length skip_ws_length)

declare next_token.simps [simp del]

section \<open>Progress\<close>

text \<open>The end-of-file flag is only set once nothing is left to read.\<close>

definition stream_ok :: "cstream \<Rightarrow> bool" where
  "stream_ok s \<longleftrightarrow> (cs_eof s \<longrightarrow> cs_src s = [])"

lemma stream_ok_open [simp]: "stream_ok (open_stream inp)"
  by (simp add: stream_ok_def open_stream_def)

lemma take_max_eof: "take_max p n cs = (d, r, True) \<Longrightarrow> r = []"
  by (induction p n cs arbitrary: d rule: take_max.induct) (auto split: if_splits prod.splits)

lemma get_escape_eof: "get_escape s = (ch, r, True) \<Longrightarrow> r = []"
  by (auto simp: get_escape_def split: list.splits if_splits option.splits prod.splits
      dest: take_max_eof)

lemma skip_line_eof: "skip_line cs = (r, True) \<Longrightarrow> r = []"
  by (induction cs) (auto split: if_splits)

lemma quoted_eof: "quoted qt cs = (t, r, True) \<Longrightarrow> r = []"
proof (induction qt cs arbitrary: t r rule: quoted.induct)
  case (1 qt)
  then show ?case by (simp add: quoted.simps)
next
  case (2 qt c cs)
  obtain ch r' e' where esc: "get_escape (c # cs) = (ch, r', e')"
    by (metis prod_cases3)
  show ?case
  proof (cases "c = backslash")
    case True
    have IH: "\<not> e' \<Longrightarrow> quoted qt r' = (u, r'', True) \<Longrightarrow> r'' = []" for u r''
      using 2(1) [OF True esc [symmetric] refl] by simp
    from 2(3) True esc show ?thesis
      by (subst (asm) quoted.simps)
        (auto split: if_splits prod.splits dest: IH get_escape_eof)
  next
    case False
    with 2 show ?thesis
      by (subst (asm) quoted.simps) (auto split: if_splits prod.splits)
  qed
qed

lemma end_word_ok: "stream_ok (end_word asgn cs ln) \<and> length (cs_src (end_word asgn cs ln)) \<le> length cs"
  by (auto simp: end_word_def stream_ok_def split: prod.splits list.splits dest: skip_ws_length)

text \<open>One call: at the end of the input it returns the empty token, otherwise it consumes something.\<close>

definition advances :: "cstream \<Rightarrow> string \<times> cstream \<Rightarrow> bool" where
  "advances s x \<longleftrightarrow> stream_ok (snd x)
     \<and> (if fst x = [] then cs_eof (snd x) \<and> cs_src (snd x) = []
        else length (cs_src (snd x)) < length (cs_src s))"

lemma advances_mono:
  "advances s' x \<Longrightarrow> length (cs_src s') \<le> length (cs_src s) \<Longrightarrow> advances s x"
  by (auto simp: advances_def split: if_splits)

lemma next_token_eof: "cs_eof s \<Longrightarrow> next_token asgn s = ([], s)"
  by (subst next_token.simps) simp

lemma next_token_end:
  "\<not> cs_eof s \<Longrightarrow> skip_ws (cs_src s) (cs_line s) = ([], ln) \<Longrightarrow>
    next_token asgn s = ([], s\<lparr>cs_src := [], cs_eof := True, cs_line := ln\<rparr>)"
  by (subst next_token.simps) simp

lemma next_token_char:
  "\<not> cs_eof s \<Longrightarrow> skip_ws (cs_src s) (cs_line s) = (c # cs, ln) \<Longrightarrow>
    next_token asgn s =
      (if is_comment (c # cs)
       then (let (r, e) = skip_line cs
             in next_token asgn (s\<lparr>cs_src := r, cs_eof := e, cs_line := ln + 1\<rparr>))
       else if c = quote1 \<or> c = quote2
       then (let (t, r, e) = quoted c cs
             in (c # t, s\<lparr>cs_src := r, cs_eof := e, cs_line := ln, cs_break := CHR '' ''\<rparr>))
       else if c = CHR ''['' \<or> c = CHR '']''
       then ([c], s\<lparr>cs_src := cs, cs_line := ln, cs_break := CHR '' ''\<rparr>)
       else if is_break asgn c
       then next_token asgn (s\<lparr>cs_src := cs, cs_line := ln\<rparr>)
       else (let (w, r) = take_word asgn cs in (c # w, end_word asgn r ln)))"
  by (subst next_token.simps) simp

lemma advancesI:
  "stream_ok s' \<Longrightarrow> length (cs_src s') < length (cs_src s) \<Longrightarrow> t \<noteq> [] \<Longrightarrow> advances s (t, s')"
  by (simp add: advances_def)

lemma next_token_advances: "stream_ok s \<Longrightarrow> advances s (next_token asgn s)"
proof (induction asgn s rule: next_token.induct)
  case (1 asgn s)
  show ?case
  proof (cases "cs_eof s")
    case True
    with 1(3) show ?thesis by (simp add: next_token_eof advances_def stream_ok_def)
  next
    case ne: False
    obtain d ln where ws: "skip_ws (cs_src s) (cs_line s) = (d, ln)"
      by (cases "skip_ws (cs_src s) (cs_line s)")
    show ?thesis
    proof (cases d)
      case Nil
      with ne ws show ?thesis by (simp add: next_token_end advances_def stream_ok_def)
    next
      case (Cons c cs)
      note tok = next_token_char [OF ne ws [unfolded Cons]]
      have len: "length cs < length (cs_src s)"
        using skip_ws_length [OF ws] Cons by simp
      consider (comment) "is_comment (c # cs)"
        | (qtd) "\<not> is_comment (c # cs)" "c = quote1 \<or> c = quote2"
        | (bracket) "\<not> is_comment (c # cs)" "\<not> (c = quote1 \<or> c = quote2)"
            "c = CHR ''['' \<or> c = CHR '']''"
        | (sep) "\<not> is_comment (c # cs)" "\<not> (c = quote1 \<or> c = quote2)"
            "\<not> (c = CHR ''['' \<or> c = CHR '']'')" "is_break asgn c"
        | (word) "\<not> is_comment (c # cs)" "\<not> (c = quote1 \<or> c = quote2)"
            "\<not> (c = CHR ''['' \<or> c = CHR '']'')" "\<not> is_break asgn c"
        by blast
      then show ?thesis
      proof cases
        case comment
        obtain r e where line: "skip_line cs = (r, e)" by (cases "skip_line cs")
        have "advances (s\<lparr>cs_src := r, cs_eof := e, cs_line := ln + 1\<rparr>)
            (next_token asgn (s\<lparr>cs_src := r, cs_eof := e, cs_line := ln + 1\<rparr>))"
          using skip_line_eof [of cs r] line
          by (intro 1(1) [OF ne ws [symmetric] Cons comment line [symmetric] refl])
            (auto simp: stream_ok_def)
        then show ?thesis
          using comment line len skip_line_length [OF line]
          by (simp add: tok advances_mono)
      next
        case qtd
        obtain t r e where q: "quoted c cs = (t, r, e)" by (metis prod_cases3)
        then show ?thesis
          using qtd len quoted_length [OF q] quoted_eof [of c cs t r]
          by (auto simp: tok stream_ok_def intro!: advancesI)
      next
        case bracket
        then show ?thesis
          using len ne by (auto simp: tok stream_ok_def intro!: advancesI)
      next
        case sep
        have "advances (s\<lparr>cs_src := cs, cs_line := ln\<rparr>)
            (next_token asgn (s\<lparr>cs_src := cs, cs_line := ln\<rparr>))"
          using ne by (intro 1(2) [OF ne ws [symmetric] Cons sep]) (simp add: stream_ok_def)
        then show ?thesis
          using sep len by (simp add: tok advances_mono)
      next
        case word
        obtain w r where w: "take_word asgn cs = (w, r)" by (cases "take_word asgn cs")
        then show ?thesis
          using word len take_word_length [OF w] end_word_ok [of asgn r ln]
          by (auto simp: tok intro!: advancesI)
      qed
    qed
  qed
qed

section \<open>The token sequence of a text\<close>

function lex :: "bool \<Rightarrow> cstream \<Rightarrow> string list" where
  "lex asgn s = (case next_token asgn s of (t, s') \<Rightarrow> if t = [] then [] else t # lex asgn s')"
  by pat_completeness auto
termination
proof (relation "measure (\<lambda>(_, s). length (cs_src s))", simp)
  fix asgn s t s'
  assume t: "(t, s') = next_token asgn s" "\<not> t = []"
  then have "stream_ok s"
    by (auto simp: stream_ok_def next_token_eof)
  with t next_token_advances [of s asgn] show "((asgn, s'), asgn, s) \<in> measure (\<lambda>(_, s). length (cs_src s))"
    by (auto simp: advances_def t(1) [symmetric])
qed

declare lex.simps [simp del]

lemma lex_cong: "fst (next_token asgn s) = fst (next_token asgn s') \<Longrightarrow>
    snd (next_token asgn s) = snd (next_token asgn s') \<Longrightarrow> lex asgn s = lex asgn s'"
  by (subst (1 2) lex.simps) (auto split: prod.splits)

lemma lex_token: "next_token asgn s = (t, s') \<Longrightarrow> t \<noteq> [] \<Longrightarrow> lex asgn s = t # lex asgn s'"
  by (subst lex.simps) simp

lemma lex_end: "next_token asgn s = ([], s') \<Longrightarrow> lex asgn s = []"
  by (subst lex.simps) simp

lemma skip_ws_dropWhile:
  "skip_ws cs ln = (dropWhile is_space cs, ln + of_nat (count_list (takeWhile is_space cs) newline))"
  by (induction cs arbitrary: ln) (auto simp: add.assoc)

text \<open>The line counter and the last separator do not influence the tokens.\<close>

definition same_text :: "string \<times> cstream \<Rightarrow> string \<times> cstream \<Rightarrow> bool" where
  "same_text x y \<longleftrightarrow> fst x = fst y \<and> cs_src (snd x) = cs_src (snd y) \<and> cs_eof (snd x) = cs_eof (snd y)"

lemma end_word_text:
  "cs_src (end_word asgn cs ln) = cs_src (end_word asgn cs ln')"
  "cs_eof (end_word asgn cs ln) = cs_eof (end_word asgn cs ln')"
  by (cases "dropWhile is_space cs"; simp add: end_word_def skip_ws_dropWhile
      del: dropWhile_eq_Nil_conv)+

lemma next_token_text:
  "cs_src s' = cs_src s \<Longrightarrow> cs_eof s' = cs_eof s \<Longrightarrow> same_text (next_token asgn s') (next_token asgn s)"
proof (induction asgn s arbitrary: s' rule: next_token.induct)
  case (1 asgn s)
  show ?case
  proof (cases "cs_eof s")
    case True
    with 1(3-4) show ?thesis by (simp add: next_token_eof same_text_def)
  next
    case ne: False
    then have ne': "\<not> cs_eof s'" using 1(4) by simp
    obtain d ln where ws: "skip_ws (cs_src s) (cs_line s) = (d, ln)"
      by (cases "skip_ws (cs_src s) (cs_line s)")
    then obtain ln' where ws': "skip_ws (cs_src s') (cs_line s') = (d, ln')"
      using 1(3) by (simp add: skip_ws_dropWhile)
    show ?thesis
    proof (cases d)
      case Nil
      with ne ws ne' ws' show ?thesis by (simp add: next_token_end same_text_def)
    next
      case (Cons c cs)
      note tok = next_token_char [OF ne ws [unfolded Cons]]
        next_token_char [OF ne' ws' [unfolded Cons]]
      obtain r e where line: "skip_line cs = (r, e)" by (cases "skip_line cs")
      show ?thesis
      proof (cases "is_comment (c # cs)")
        case True
        then show ?thesis
          using line 1(1) [OF ne ws [symmetric] Cons True line [symmetric] refl]
          by (simp add: tok)
      next
        case False
        note IH = 1(2) [OF ne ws [symmetric] Cons False]
        consider (qtd) "c = quote1 \<or> c = quote2" | (bracket) "c = CHR ''['' \<or> c = CHR '']''"
          | (sep) "\<not> (c = quote1 \<or> c = quote2)" "\<not> (c = CHR ''['' \<or> c = CHR '']'')" "is_break asgn c"
          | (word) "\<not> (c = quote1 \<or> c = quote2)" "\<not> (c = CHR ''['' \<or> c = CHR '']'')" "\<not> is_break asgn c"
          by blast
        then show ?thesis
        proof cases
          case qtd
          with False show ?thesis
            by (simp add: tok same_text_def split: prod.splits)
        next
          case bracket
          with False ne ne' show ?thesis
            by (cases "c = quote1 \<or> c = quote2") (simp_all add: tok same_text_def split: prod.splits)
        next
          case sep
          with False ne ne' show ?thesis
            using IH [OF sep] by (simp add: tok)
        next
          case word
          with False show ?thesis
            by (simp add: tok same_text_def end_word_text [of asgn _ ln' ln] split: prod.splits)
        qed
      qed
    qed
  qed
qed

lemma lex_text: "cs_src s' = cs_src s \<Longrightarrow> cs_eof s' = cs_eof s \<Longrightarrow> lex asgn s' = lex asgn s"
proof (induction asgn s arbitrary: s' rule: lex.induct)
  case (1 asgn s)
  obtain t r where t: "next_token asgn s = (t, r)" by (cases "next_token asgn s")
  moreover obtain t' r' where t': "next_token asgn s' = (t', r')" by (cases "next_token asgn s'")
  moreover have "t' = t" "cs_src r' = cs_src r" "cs_eof r' = cs_eof r"
    using next_token_text [OF 1(2-3), of asgn] t t' by (auto simp: same_text_def)
  ultimately show ?case
    using 1(1) [OF t [symmetric], of r']
    by (cases "t = []") (simp_all add: lex_token lex_end)
qed

section \<open>Printing and lexing\<close>

text \<open>The lexical items of a configuration text, how they are written and what they denote.\<close>

datatype item = Word string | Quoted char string | Open | Close | Sep char | Comment string

fun escaped :: "char \<Rightarrow> string \<Rightarrow> string" where
  "escaped qt [] = []"
| "escaped qt (c # cs) = (if c = qt \<or> c = backslash then [backslash, c] else [c]) @ escaped qt cs"

fun written :: "item \<Rightarrow> string" where
  "written (Word w) = w @ [newline]"
| "written (Quoted qt t) = qt # escaped qt t @ [qt]"
| "written Open = ''[''"
| "written Close = '']''"
| "written (Sep c) = [c]"
| "written (Comment t) = CHR ''#'' # t @ [newline]"

fun denotes :: "item \<Rightarrow> string list" where
  "denotes (Word w) = [w]"
| "denotes (Quoted qt t) = [qt # t @ [qt]]"
| "denotes Open = [''['']"
| "denotes Close = ['']'']"
| "denotes _ = []"

fun proper :: "bool \<Rightarrow> item \<Rightarrow> bool" where
  "proper asgn (Word w) \<longleftrightarrow> w \<noteq> [] \<and> list_all (\<lambda>c. \<not> is_break asgn c) w
     \<and> hd w \<noteq> quote1 \<and> hd w \<noteq> quote2 \<and> \<not> is_comment w"
| "proper asgn (Quoted qt t) \<longleftrightarrow> qt = quote1 \<or> qt = quote2"
| "proper asgn (Sep c) \<longleftrightarrow> is_break asgn c \<and> c \<noteq> CHR ''['' \<and> c \<noteq> CHR '']''"
| "proper asgn (Comment t) \<longleftrightarrow> newline \<notin> set t"
| "proper asgn _ \<longleftrightarrow> True"

definition text_at :: "string \<Rightarrow> cstream" where
  "text_at cs = \<lparr>cs_src = cs, cs_eof = False, cs_line = 0, cs_break = CHR '' ''\<rparr>"

lemma text_at_simps [simp]: "cs_src (text_at cs) = cs" "\<not> cs_eof (text_at cs)"
  by (simp_all add: text_at_def)

lemma is_break_simps [simp]:
  "is_space c \<Longrightarrow> is_break asgn c" "is_break asgn CHR ''[''" "is_break asgn CHR '']''"
  "\<not> is_break asgn quote1" "\<not> is_break asgn quote2" "\<not> is_break asgn CHR ''#''"
  "\<not> is_break asgn CHR ''/''"
  by (auto simp: is_break_def is_space_def quote1_def quote2_def)

lemma not_space [simp]:
  "\<not> is_space quote1" "\<not> is_space quote2" "\<not> is_space CHR ''#''"
  "\<not> is_space CHR ''[''" "\<not> is_space CHR '']''"
  by (simp_all add: is_space_def quote1_def quote2_def)

lemma skip_ws_stop: "\<not> is_space c \<Longrightarrow> skip_ws (c # cs) ln = (c # cs, ln)"
  by simp

lemma lex_same: "next_token asgn s = next_token asgn s' \<Longrightarrow> lex asgn s = lex asgn s'"
  by (subst (1 2) lex.simps) simp

lemma lex_space:
  assumes "is_space c"
  shows "lex asgn (text_at (c # cs)) = lex asgn (text_at cs)"
proof -
  let ?s = "(text_at cs)\<lparr>cs_line := if c = newline then 1 else 0\<rparr>"
  obtain d ln where ws: "skip_ws cs (cs_line ?s) = (d, ln)" by fastforce
  then have ws': "skip_ws (c # cs) (cs_line (text_at (c # cs))) = (d, ln)"
    using assms by (cases "c = newline") (simp_all add: text_at_def)
  have "next_token asgn (text_at (c # cs)) = next_token asgn ?s"
    using ws ws'
    by (cases d) (simp_all add: next_token_end next_token_char, simp_all add: text_at_def)
  then have "lex asgn (text_at (c # cs)) = lex asgn ?s" by (rule lex_same)
  also have "\<dots> = lex asgn (text_at cs)" by (rule lex_text) simp_all
  finally show ?thesis .
qed

lemma lex_sep:
  assumes "is_break asgn c" "c \<noteq> CHR ''[''" "c \<noteq> CHR '']''"
  shows "lex asgn (text_at (c # cs)) = lex asgn (text_at cs)"
proof (cases "is_space c")
  case False
  then have "skip_ws (cs_src (text_at (c # cs))) (cs_line (text_at (c # cs))) = (c # cs, 0)"
    by (simp add: text_at_def)
  note tok = next_token_char [OF text_at_simps(2) this]
  have "\<not> is_comment (c # cs)" "c \<noteq> quote1" "c \<noteq> quote2"
    using assms by (auto simp: is_comment_def)
  then have "next_token asgn (text_at (c # cs)) = next_token asgn (text_at cs)"
    using assms unfolding tok by (simp add: text_at_def)
  then show ?thesis by (rule lex_same)
qed (rule lex_space)

lemma quote_not_backslash: "qt = quote1 \<or> qt = quote2 \<Longrightarrow> qt \<noteq> backslash"
  by (auto simp: quote1_def quote2_def backslash_def)

lemma get_escape_self:
  "c = quote1 \<or> c = quote2 \<or> c = backslash \<Longrightarrow> get_escape (backslash # c # r) = (c, r, False)"
  by (elim disjE; hypsubst; simp add: get_escape_def control_of_def quote1_def quote2_def
      backslash_def is_digit_def)

lemma quoted_escaped:
  assumes qt: "qt = quote1 \<or> qt = quote2"
  shows "quoted qt (escaped qt t @ qt # cs) = (t @ [qt], cs, False)"
proof (induction t)
  case Nil
  show ?case using quote_not_backslash [OF qt] by (simp add: quoted.simps)
next
  case (Cons c t)
  show ?case
  proof (cases "c = qt \<or> c = backslash")
    case True
    then have "get_escape (backslash # c # r) = (c, r, False)" for r
      using qt get_escape_self by blast
    with True Cons show ?thesis by (simp add: quoted.simps(2) [of _ backslash])
  next
    case False
    with Cons show ?thesis by (simp add: quoted.simps(2) [of _ c])
  qed
qed

lemma lex_bracket: "c = CHR ''['' \<or> c = CHR '']'' \<Longrightarrow>
    lex asgn (text_at (c # cs)) = [c] # lex asgn (text_at cs)"
proof -
  assume c: "c = CHR ''['' \<or> c = CHR '']''"
  then have "skip_ws (cs_src (text_at (c # cs))) (cs_line (text_at (c # cs))) = (c # cs, 0)"
    by (auto simp: text_at_def simp del: skip_ws.simps intro!: skip_ws_stop)
  note tok = next_token_char [OF text_at_simps(2) this]
  have "next_token asgn (text_at (c # cs)) = ([c], text_at cs)"
    using c unfolding tok by (auto simp: text_at_def is_comment_def quote1_def quote2_def)
  then show ?thesis by (simp add: lex_token)
qed

lemma lex_quoted: "qt = quote1 \<or> qt = quote2 \<Longrightarrow>
    lex asgn (text_at (qt # escaped qt t @ qt # cs)) = (qt # t @ [qt]) # lex asgn (text_at cs)"
proof -
  let ?s = "qt # escaped qt t @ qt # cs"
  assume qt: "qt = quote1 \<or> qt = quote2"
  then have "skip_ws (cs_src (text_at ?s)) (cs_line (text_at ?s)) = (?s, 0)"
    by (auto simp: text_at_def simp del: skip_ws.simps intro!: skip_ws_stop)
  note tok = next_token_char [OF text_at_simps(2) this]
  have "\<not> is_comment ?s"
    using qt by (auto simp: is_comment_def quote1_def quote2_def)
  then have "next_token asgn (text_at ?s) = (qt # t @ [qt], text_at cs)"
    using qt unfolding tok by (simp add: quoted_escaped) (simp add: text_at_def)
  then show ?thesis by (simp add: lex_token)
qed

lemma skip_line_comment: "newline \<notin> set t \<Longrightarrow> skip_line (t @ newline # cs) = (cs, False)"
  by (induction t) auto

lemma lex_comment: "newline \<notin> set t \<Longrightarrow>
    lex asgn (text_at (CHR ''#'' # t @ newline # cs)) = lex asgn (text_at cs)"
proof -
  let ?s = "CHR ''#'' # t @ newline # cs" and ?u = "(text_at cs)\<lparr>cs_line := 1\<rparr>"
  assume t: "newline \<notin> set t"
  have "skip_ws (cs_src (text_at ?s)) (cs_line (text_at ?s)) = (?s, 0)"
    by (auto simp: text_at_def simp del: skip_ws.simps intro!: skip_ws_stop)
  note tok = next_token_char [OF text_at_simps(2) this]
  have "next_token asgn (text_at ?s) = next_token asgn ?u"
    unfolding tok by (simp add: is_comment_def skip_line_comment [OF t]) (simp add: text_at_def)?
  then have "lex asgn (text_at ?s) = lex asgn ?u" by (rule lex_same)
  also have "\<dots> = lex asgn (text_at cs)" by (rule lex_text) simp_all
  finally show ?thesis .
qed

lemma lex_nil: "lex asgn (text_at []) = []"
  by (rule lex_end [of _ _ "text_at []\<lparr>cs_eof := True\<rparr>"])
    (subst next_token_end [of _ 0], simp_all add: text_at_def)

lemma lex_end_word: "lex asgn (end_word asgn cs ln) = lex asgn (text_at cs)"
proof (induction cs arbitrary: ln)
  case Nil
  show ?case
    by (simp add: lex_nil end_word_def) (rule lex_end, rule next_token_eof, simp)
next
  case (Cons c cs)
  show ?case
  proof (cases "is_space c")
    case True
    then have "end_word asgn (c # cs) ln = end_word asgn cs (if c = newline then ln + 1 else ln)"
      by (simp add: end_word_def)
    with True show ?thesis by (simp add: Cons.IH lex_space)
  next
    case False
    then have ws: "end_word asgn (c # cs) ln =
        (if is_break asgn c \<and> c \<noteq> CHR ''['' \<and> c \<noteq> CHR '']''
         then \<lparr>cs_src = cs, cs_eof = False, cs_line = ln, cs_break = c\<rparr>
         else \<lparr>cs_src = c # cs, cs_eof = False, cs_line = ln, cs_break = CHR '' ''\<rparr>)"
      by (simp add: end_word_def)
    show ?thesis
    proof (cases "is_break asgn c \<and> c \<noteq> CHR ''['' \<and> c \<noteq> CHR '']''")
      case True
      have "lex asgn (end_word asgn (c # cs) ln) = lex asgn (text_at cs)"
        using True by (intro lex_text) (simp_all add: ws)
      with True show ?thesis by (simp add: lex_sep)
    next
      case False
      then show ?thesis by (intro lex_text) (auto simp: ws)
    qed
  qed
qed

lemma take_word_proper: "list_all (\<lambda>c. \<not> is_break asgn c) w \<Longrightarrow> is_break asgn x \<Longrightarrow>
    take_word asgn (w @ x # cs) = (w, x # cs)"
  by (induction w) auto

lemma lex_word: "proper asgn (Word w) \<Longrightarrow>
    lex asgn (text_at (w @ newline # cs)) = w # lex asgn (text_at cs)"
proof -
  assume w: "proper asgn (Word w)"
  then obtain c v where cv: "w = c # v" by (cases w) auto
  let ?s = "c # v @ newline # cs"
  have c: "\<not> is_break asgn c" "c \<noteq> quote1" "c \<noteq> quote2" and v: "list_all (\<lambda>c. \<not> is_break asgn c) v"
    using w by (auto simp: cv)
  then have nb: "\<not> is_space c" "c \<noteq> CHR ''[''" "c \<noteq> CHR '']''"
    by auto
  then have "skip_ws (cs_src (text_at ?s)) (cs_line (text_at ?s)) = (?s, 0)"
    by (simp add: text_at_def)
  note tok = next_token_char [OF text_at_simps(2) this]
  have "\<not> is_comment ?s"
    using w by (cases v) (auto simp: is_comment_def cv newline_def)
  then have "next_token asgn (text_at ?s) = (w, end_word asgn (newline # cs) 0)"
    using c nb unfolding tok by (simp add: take_word_proper [OF v] cv)
  then show ?thesis
    using w by (simp add: lex_token lex_end_word lex_space cv)
qed

theorem lex_written_at: "list_all (proper asgn) xs \<Longrightarrow>
    lex asgn (text_at (concat (map written xs))) = concat (map denotes xs)"
proof (induction xs)
  case (Cons x xs)
  then show ?case
    by (cases x) (simp_all add: lex_word lex_quoted lex_bracket lex_comment lex_sep del: proper.simps(1))
qed (simp add: lex_nil)

section \<open>The interface of the parser\<close>

text \<open>
  What the parser relies on: a source of tokens that shrinks with every token it hands out, and that
  is exhausted once it hands out none.
\<close>

locale token_source =
  fixes next_tok :: "bool \<Rightarrow> 's \<Rightarrow> string \<times> 's"
    and left :: "'s \<Rightarrow> nat"
    and spent :: "'s \<Rightarrow> bool"
    and ok :: "'s \<Rightarrow> bool"
  assumes ok_next: "ok s \<Longrightarrow> ok (snd (next_tok b s))"
    and next_shrinks: "ok s \<Longrightarrow> fst (next_tok b s) \<noteq> [] \<Longrightarrow> left (snd (next_tok b s)) < left s"
    and next_spent: "ok s \<Longrightarrow> fst (next_tok b s) = [] \<Longrightarrow> spent (snd (next_tok b s))"
    and spent_next: "spent s \<Longrightarrow> next_tok b s = ([], s)"
    and spent_left: "ok s \<Longrightarrow> spent s \<Longrightarrow> left s = 0"
begin

lemma next_left: "ok s \<Longrightarrow> left (snd (next_tok b s)) \<le> left s"
proof (cases "fst (next_tok b s) = []")
  case True
  assume "ok s"
  then show ?thesis
    using True by (simp add: ok_next next_spent spent_left)
qed (simp add: next_shrinks less_imp_le)

primrec reads :: "bool list \<Rightarrow> 's \<Rightarrow> string list" where
  "reads [] s = []"
| "reads (b # bs) s = fst (next_tok b s) # reads bs (snd (next_tok b s))"

lemma reads_spent: "spent s \<Longrightarrow> reads bs s = replicate (length bs) []"
  by (induction bs) (simp_all add: spent_next)

lemma reads_bound: "ok s \<Longrightarrow> length (filter (\<lambda>t. t \<noteq> []) (reads bs s)) \<le> left s"
proof (induction bs arbitrary: s)
  case (Cons b bs)
  then have "length (filter (\<lambda>t. t \<noteq> []) (reads bs (snd (next_tok b s)))) \<le> left (snd (next_tok b s))"
    by (simp add: ok_next)
  with Cons.prems next_shrinks [of s b] next_left [of s b] show ?case
    by (cases "fst (next_tok b s) = []") auto
qed simp

lemma reads_sorted:
  "ok s \<Longrightarrow> i \<le> j \<Longrightarrow> j < length bs \<Longrightarrow> reads bs s ! i = [] \<Longrightarrow> reads bs s ! j = []"
proof (induction bs arbitrary: s i j)
  case (Cons b bs)
  show ?case
  proof (cases i)
    case 0
    with Cons.prems have "spent (snd (next_tok b s))"
      by (simp add: next_spent)
    with Cons.prems 0 show ?thesis
      by (cases j) (simp_all add: reads_spent)
  next
    case (Suc k)
    then obtain l where j: "j = Suc l"
      using Cons.prems(2) by (cases j) auto
    show ?thesis
      using Cons.IH [of "snd (next_tok b s)" k l] Cons.prems by (simp add: Suc j ok_next)
  qed
qed simp

end

interpretation stream: token_source next_token "\<lambda>s. length (cs_src s)" cs_eof stream_ok
proof
  fix s b
  assume "stream_ok s"
  then have a: "advances s (next_token b s)" by (rule next_token_advances)
  then show "stream_ok (snd (next_token b s))" by (simp add: advances_def)
  from a show "fst (next_token b s) \<noteq> [] \<Longrightarrow>
      length (cs_src (snd (next_token b s))) < length (cs_src s)"
    by (simp add: advances_def)
  from a show "fst (next_token b s) = [] \<Longrightarrow> cs_eof (snd (next_token b s))"
    by (simp add: advances_def)
qed (simp_all add: next_token_eof stream_ok_def)

section \<open>Properties\<close>

text \<open>
  Reading tokens from an opened text, in any sequence of break modes, yields at most as many
  tokens as the text has characters; every read after them returns the empty token.
\<close>

theorem stream_reads_bounded:
  "length (filter (\<lambda>t. t \<noteq> []) (stream.reads bs (open_stream inp))) \<le> length inp"
  using stream.reads_bound [OF stream_ok_open, of bs inp] by (simp add: open_stream_def)

text \<open>
  C9. A text written as a sequence of words, quoted strings with their quotes and backslashes
  escaped, brackets, separators and comment lines is read back as exactly the tokens it was written
  from; comments and separators leave no trace.
\<close>

theorem lex_written:
  assumes "list_all (proper asgn) xs"
  shows "lex asgn (open_stream (concat (map written xs))) = concat (map denotes xs)"
  using lex_written_at [OF assms]
    lex_text [of "open_stream (concat (map written xs))" "text_at (concat (map written xs))" asgn]
  by (simp add: open_stream_def)

theorem lex_written_witness:
  "lex True (open_stream (concat (map written
     [Comment ''a [b]'', Word ''/x'', Sep CHR ''='', Open, Quoted quote1 [backslash, quote1], Close])))
   = [''/x'', ''['', [quote1, backslash, quote1, quote1], '']'']"
  by (subst lex_written)
    (simp_all add: is_comment_def is_break_def is_space_def quote1_def quote2_def newline_def)

text \<open>
  In a quoted string the letter of a control escape survives its control character: a string
  written as backslash and such a letter is read as two characters, not one.
\<close>

theorem control_escape_keeps_letter:
  assumes "control_of c = Some k" and "qt = quote1 \<or> qt = quote2"
  shows "fst (next_token asgn (open_stream (qt # backslash # c # qt # rest))) = [qt, char_of k, c, qt]"
proof -
  let ?s = "open_stream (qt # backslash # c # qt # rest)"
  have ws: "skip_ws (cs_src ?s) (cs_line ?s) = (qt # backslash # c # qt # rest, 0)"
    using assms(2) by (auto simp: open_stream_def simp del: skip_ws.simps intro!: skip_ws_stop)
  have ne: "\<not> cs_eof ?s" by (simp add: open_stream_def)
  have "c \<noteq> CHR ''x''" "c \<noteq> qt" "c \<noteq> backslash"
    using assms by (auto simp: control_of_def quote1_def quote2_def backslash_def split: if_splits)
  with assms quote_not_backslash [OF assms(2)]
  have "quoted qt (backslash # c # qt # rest) = ([char_of k, c, qt], rest, False)"
    by (simp add: quoted.simps(2) get_escape_def)
  moreover have "\<not> is_comment (qt # backslash # c # qt # rest)"
    using assms(2) by (auto simp: is_comment_def quote1_def quote2_def)
  ultimately show ?thesis
    using assms(2) by (simp add: next_token_char [OF ne ws])
qed

theorem control_escape_keeps_letter_witness:
  "fst (next_token False (open_stream [quote2, backslash, CHR ''n'', quote2])) = [quote2, newline, CHR ''n'', quote2]"
  using control_escape_keeps_letter [of "CHR ''n''" 10 quote2 False "[]"]
  by (simp add: control_of_def)

end
