(* ===== verification/Config_Parser.thy ===== *)
theory Config_Parser
  imports Config_Stream Deployment_Data
begin

text \<open>
  The parser of the CONFIG format, dancex11/configurator/dancex11_config_parser.{h,cpp}: the current
  token with its class, on top of the lexer. The token classes are ordered by their enumeration
  value. \<open>psize\<close> measures what is left to parse; no call of \<open>parse_next\<close> raises it and it
  falls as long as there is a current token, which is why the loops of the loader end.
\<close>

section \<open>Token classes\<close>

datatype token_id =
    INone | IText
  | IInstanceHandler | IInterceptor | IConfigHandler | IServiceObject | IComponent
  | ILocalityManager | IContainer
  | IExecParam | IConfigProp
  | IConnection | IExternalConnection | INode | ILocality | IContainerID | IArtifact
  | IProperty

fun token_code :: "token_id \<Rightarrow> nat" where
  "token_code INone = 0"
| "token_code IText = 1"
| "token_code IInstanceHandler = 2"
| "token_code IInterceptor = 3"
| "token_code IConfigHandler = 4"
| "token_code IServiceObject = 5"
| "token_code IComponent = 6"
| "token_code ILocalityManager = 7"
| "token_code IContainer = 8"
| "token_code IExecParam = 9"
| "token_code IConfigProp = 10"
| "token_code IConnection = 11"
| "token_code IExternalConnection = 12"
| "token_code INode = 13"
| "token_code ILocality = 14"
| "token_code IContainerID = 15"
| "token_code IArtifact = 16"
| "token_code IProperty = 17"

lemma token_code_inject: "token_code a = token_code b \<Longrightarrow> a = b"
  by (cases a; cases b; simp)

instantiation token_id :: linorder
begin

definition less_eq_token_id :: "token_id \<Rightarrow> token_id \<Rightarrow> bool" where
  "less_eq_token_id a b \<longleftrightarrow> token_code a \<le> token_code b"

definition less_token_id :: "token_id \<Rightarrow> token_id \<Rightarrow> bool" where
  "less_token_id a b \<longleftrightarrow> token_code a < token_code b"

instance
  by standard (auto simp: less_eq_token_id_def less_token_id_def intro: token_code_inject)

end

definition token_map :: "(string \<times> token_id) list" where
  "token_map =
    [(''nl.remedy.it.DnCX11.InstanceHandler'', IInstanceHandler),
     (''nl.remedy.it.DnCX11.DeploymentInterceptor'', IInterceptor),
     (''nl.remedy.it.DnCX11.ConfigPlugin'', IConfigHandler),
     (''nl.remedy.it.DnCX11.ServiceObject'', IServiceObject),
     (''nl.remedy.it.CCM.Component'', IComponent),
     (''nl.remedy.it.DnCX11.LocalityManager'', ILocalityManager),
     (''nl.remedy.it.CCM.Container'', IContainer),
     (''nl.remedy.it.DnCX11.ExecParameter'', IExecParam),
     (''nl.remedy.it.DnCX11.ConfigProperty'', IConfigProp),
     (''nl.remedy.it.DnCX11.Connection'', IConnection),
     (''nl.remedy.it.DnCX11.ExternalConnection'', IExternalConnection),
     (''nl.remedy.it.DnCX11.Node'', INode),
     (''nl.remedy.it.DnCX11.Locality'', ILocality),
     (''nl.remedy.it.DnCX11.Container'', IContainerID),
     (''nl.remedy.it.DnCX11.Artifact'', IArtifact),
     (''nl.remedy.it.DnCX11.Property'', IProperty)]"

definition type_map :: "(string \<times> type_id) list" where
  "type_map =
    [(''char'', TChar), (''octet'', TOctet), (''bool'', TBool),
     (''int16'', TInt16), (''int32'', TInt32), (''int64'', TInt64),
     (''uint16'', TUInt16), (''uint32'', TUInt32), (''uint64'', TUInt64),
     (''float'', TFloat), (''double'', TDouble), (''string'', TString)]"

definition token_to_type :: "string \<Rightarrow> type_id" where
  "token_to_type t =
     (if t = [] then TNone else case map_of type_map t of None \<Rightarrow> TUser | Some ty \<Rightarrow> ty)"

definition classify :: "string \<Rightarrow> token_id" where
  "classify t = (if t = [] then INone else case map_of token_map t of None \<Rightarrow> IText | Some i \<Rightarrow> i)"

lemma classify_none [simp]: "classify t = INone \<longleftrightarrow> t = []"
proof (cases "map_of token_map t")
  case (Some i)
  then have "i \<in> snd ` set token_map"
    by (force dest: map_of_SomeD)
  with Some show ?thesis by (auto simp: classify_def token_map_def)
qed (simp add: classify_def)

section \<open>The parser\<close>

record parser =
  strm :: cstream
  token :: string
  tid :: token_id

definition new_parser :: "string \<Rightarrow> parser" where
  "new_parser inp = \<lparr>strm = open_stream inp, token = [], tid = INone\<rparr>"

definition parse_next :: "bool \<Rightarrow> parser \<Rightarrow> parser" where
  "parse_next asgn p =
     (case next_token asgn (strm p) of (t, s) \<Rightarrow> \<lparr>strm = s, token = t, tid = classify t\<rparr>)"

abbreviation parser_eof :: "parser \<Rightarrow> bool" where
  "parser_eof p \<equiv> cs_eof (strm p)"

abbreviation break_ch :: "parser \<Rightarrow> char" where
  "break_ch p \<equiv> cs_break (strm p)"

definition at_object_entry :: "parser \<Rightarrow> bool" where
  "at_object_entry p \<longleftrightarrow> IInstanceHandler \<le> tid p \<or> tid p \<le> IContainer"

definition at_object_property :: "parser \<Rightarrow> bool" where
  "at_object_property p \<longleftrightarrow> tid p = IExecParam \<or> tid p = IConfigProp"

definition at_component_connection :: "parser \<Rightarrow> bool" where
  "at_component_connection p \<longleftrightarrow> tid p = IConnection \<or> tid p = IExternalConnection"

section \<open>Progress\<close>

abbreviation src_size :: "parser \<Rightarrow> nat" where
  "src_size p \<equiv> length (cs_src (strm p))"

definition psize :: "parser \<Rightarrow> nat" where
  "psize p = src_size p + (if tid p = INone then 0 else 1)"

definition parser_ok :: "parser \<Rightarrow> bool" where
  "parser_ok p \<longleftrightarrow> stream_ok (strm p) \<and> tid p = classify (token p)"

lemma parser_ok_new [simp]: "parser_ok (new_parser inp)"
  by (simp add: parser_ok_def new_parser_def classify_def)

lemma parser_ok_next [simp]: "parser_ok p \<Longrightarrow> parser_ok (parse_next b p)"
  using stream.ok_next [of "strm p" b]
  by (simp add: parser_ok_def parse_next_def case_prod_unfold)

lemma tid_next: "tid (parse_next b p) = classify (token (parse_next b p))"
  by (simp add: parse_next_def split: prod.splits)

lemma next_size: "src_size (parse_next b p) \<le> src_size p"
proof (cases "cs_eof (strm p)")
  case True
  then show ?thesis by (simp add: parse_next_def next_token_eof)
next
  case False
  then have "stream_ok (strm p)" by (simp add: stream_ok_def)
  from stream.next_left [OF this, of b] show ?thesis
    by (simp add: parse_next_def case_prod_unfold)
qed

lemma next_size_less: "tid (parse_next b p) \<noteq> INone \<Longrightarrow> src_size (parse_next b p) < src_size p"
proof (cases "cs_eof (strm p)")
  case True
  assume "tid (parse_next b p) \<noteq> INone"
  with True show ?thesis by (simp add: parse_next_def next_token_eof)
next
  case False
  assume "tid (parse_next b p) \<noteq> INone"
  moreover from False have "stream_ok (strm p)" by (simp add: stream_ok_def)
  ultimately show ?thesis
    using stream.next_shrinks [of "strm p" b] by (simp add: parse_next_def case_prod_unfold)
qed

lemma psize_next: "psize (parse_next b p) \<le> psize p"
  using next_size [of b p] next_size_less [of b p]
  by (cases "tid (parse_next b p) = INone") (simp_all add: psize_def)

lemma psize_next_less: "tid p \<noteq> INone \<Longrightarrow> psize (parse_next b p) < psize p"
  using next_size [of b p] next_size_less [of b p]
  by (cases "tid (parse_next b p) = INone") (simp_all add: psize_def)

text \<open>\<open>advanced p q\<close>: parser \<open>q\<close> is what some operation made of \<open>p\<close>.\<close>

definition advanced :: "parser \<Rightarrow> parser \<Rightarrow> bool" where
  "advanced p q \<longleftrightarrow> psize q \<le> psize p \<and> (parser_ok p \<longrightarrow> parser_ok q)"

lemma advanced_refl [simp, intro]: "advanced p p"
  by (simp add: advanced_def)

lemma advanced_next [simp, intro]: "advanced p (parse_next b p)"
  by (simp add: advanced_def psize_next)

lemma advanced_trans: "advanced p q \<Longrightarrow> advanced q r \<Longrightarrow> advanced p r"
  by (auto simp: advanced_def)

lemma advanced_step: "advanced (parse_next b p) q \<Longrightarrow> advanced p q"
  by (rule advanced_trans [OF advanced_next])

lemma advanced_less: "tid p \<noteq> INone \<Longrightarrow> advanced (parse_next b p) q \<Longrightarrow> psize q < psize p"
  using psize_next_less [of p b] by (simp add: advanced_def)

lemma advanced_psize: "advanced p q \<Longrightarrow> psize q \<le> psize p"
  by (simp add: advanced_def)

section \<open>Properties\<close>

text \<open>
  The guard of the object loops does not discriminate: every parser is at an object entry,
  whatever its current token.
\<close>

theorem at_object_entry_always: "at_object_entry p"
  by (cases "tid p") (simp_all add: at_object_entry_def less_eq_token_id_def)

text \<open>
  A call of parse_next never increases what is left to parse, strictly decreases it while the
  parser has a current token, and keeps the token class that of the token.
\<close>

theorem parse_next_progress:
  "psize (parse_next b p) + (if tid p = INone then 0 else 1) \<le> psize p
     \<and> tid (parse_next b p) = classify (token (parse_next b p))"
  using psize_next [of b p] psize_next_less [of p b] tid_next [of b p] by auto

end
