(* ===== verification/Config_Util.thy ===== *)
theory Config_Util
  imports Config_Parser
begin

text \<open>
  Literals of the CONFIG format, dancex11/configurator/dancex11_config_util.h: extraction of numbers
  with std::istringstream, and conversion of a literal of any class to the type wanted.

  What the code takes from elsewhere is in the record \<open>env\<close>: ACE_Utils::truncate_cast, floating
  point, the directory separator and the default open mode of ACE. A plain char is signed.
\<close>

section \<open>Environment\<close>

record 'd env =
  truncate_cast :: "type_id \<Rightarrow> int \<Rightarrow> int"
  parse_double :: "string \<Rightarrow> 'd"
  dec_of_int :: "type_id \<Rightarrow> int \<Rightarrow> 'd"
  dec_of_dec :: "type_id \<Rightarrow> 'd \<Rightarrow> 'd"
  int_of_dec :: "type_id \<Rightarrow> 'd \<Rightarrow> int"
  directory_sep :: char
  default_shlib_mode :: "32 word"

fun type_range :: "type_id \<Rightarrow> int set" where
  "type_range TChar = {- 128 .. 127}"
| "type_range TOctet = {0 .. 255}"
| "type_range TInt16 = {- (2 ^ 15) .. 2 ^ 15 - 1}"
| "type_range TInt32 = {- (2 ^ 31) .. 2 ^ 31 - 1}"
| "type_range TInt64 = {- (2 ^ 63) .. 2 ^ 63 - 1}"
| "type_range TUInt16 = {0 .. 2 ^ 16 - 1}"
| "type_range TUInt32 = {0 .. 2 ^ 32 - 1}"
| "type_range TUInt64 = {0 .. 2 ^ 64 - 1}"
| "type_range _ = {}"

text \<open>truncate_cast, as documented: a value that the target type holds is unchanged.\<close>

definition truncates :: "'d env \<Rightarrow> bool" where
  "truncates env \<longleftrightarrow> (\<forall>ty v. v \<in> type_range ty \<longrightarrow> truncate_cast env ty v = v)"

lemma truncatesD: "truncates env \<Longrightarrow> v \<in> type_range ty \<Longrightarrow> truncate_cast env ty v = v"
  by (simp add: truncates_def)

section \<open>Strings\<close>

definition icasecmp :: "string \<Rightarrow> string \<Rightarrow> bool" where
  "icasecmp l r \<longleftrightarrow> length l = length r \<and> list_all2 (\<lambda>a b. to_upper a = to_upper b) l r"

definition icasencmp :: "string \<Rightarrow> string \<Rightarrow> nat \<Rightarrow> bool" where
  "icasencmp l r n \<longleftrightarrow> n \<le> length l \<and> n \<le> length r
     \<and> list_all2 (\<lambda>a b. to_upper a = to_upper b) (take n l) (take n r)"

lemma icasecmp_map: "icasecmp l r \<longleftrightarrow> map to_upper l = map to_upper r"
  by (auto simp: icasecmp_def list_all2_conv_all_nth list_eq_iff_nth_eq)

text \<open>A read past the last character of a std::string yields the null character.\<close>

definition at_index :: "string \<Rightarrow> nat \<Rightarrow> char" where
  "at_index s i = (if i < length s then s ! i else CHR 0x00)"

fun last_index :: "char \<Rightarrow> string \<Rightarrow> nat option" where
  "last_index c [] = None"
| "last_index c (x # xs) =
     (case last_index c xs of Some i \<Rightarrow> Some (Suc i) | None \<Rightarrow> if x = c then Some 0 else None)"

definition cfg_extension :: "string \<Rightarrow> string" where
  "cfg_extension path = (case last_index CHR ''.'' path of None \<Rightarrow> [] | Some n \<Rightarrow> drop (n + 1) path)"

definition cfg_basename :: "'d env \<Rightarrow> string \<Rightarrow> bool \<Rightarrow> string" where
  "cfg_basename env path no_ext =
     (let off = (case last_index (directory_sep env) path of None \<Rightarrow> 0 | Some i \<Rightarrow> i + 1)
      in case (if no_ext then last_index CHR ''.'' path else None) of
           None \<Rightarrow> drop off path
         | Some n \<Rightarrow> if n < off then drop off path else take (n - off) (drop off path))"

section \<open>Extraction of numbers\<close>

text \<open>
  \<open>is >> v\<close> into an integer: white space, an optional sign and the longest run of digits of the
  base. Without a digit the result is 0, out of range it is the nearest bound, and a negated
  unsigned number wraps around.
\<close>

definition sign_of :: "string \<Rightarrow> bool \<times> string" where
  "sign_of s = (case dropWhile is_space s of
      [] \<Rightarrow> (False, [])
    | c # r \<Rightarrow> if c = CHR ''-'' then (True, r) else if c = CHR ''+'' then (False, r) else (False, c # r))"

definition hex_prefix :: "string \<Rightarrow> string" where
  "hex_prefix s = (if icasencmp s ''0x'' 2 then drop 2 s else s)"

definition clamp_signed :: "bool \<Rightarrow> nat \<Rightarrow> 64 word" where
  "clamp_signed neg n =
     (if neg then (if n > 2 ^ 63 then of_nat (2 ^ 63) else - of_nat n)
      else (if n > 2 ^ 63 - 1 then of_nat (2 ^ 63 - 1) else of_nat n))"

definition clamp_unsigned :: "bool \<Rightarrow> nat \<Rightarrow> 64 word" where
  "clamp_unsigned neg n =
     (if n > 2 ^ 64 - 1 then - 1 else if neg then - of_nat n else of_nat n)"

definition parse_signed :: "string \<Rightarrow> 64 word" where
  "parse_signed s = (case sign_of s of (neg, r) \<Rightarrow>
     clamp_signed neg (number_of digit_val 10 (takeWhile is_digit r)))"

definition parse_unsigned :: "string \<Rightarrow> 64 word" where
  "parse_unsigned s = (case sign_of s of (neg, r) \<Rightarrow>
     clamp_unsigned neg (number_of digit_val 10 (takeWhile is_digit r)))"

definition parse_hexadecimal :: "string \<Rightarrow> 64 word" where
  "parse_hexadecimal s = (case sign_of s of (neg, r) \<Rightarrow>
     clamp_unsigned neg (number_of hex_val 16 (takeWhile is_hex (hex_prefix r))))"

definition parse_octal :: "string \<Rightarrow> 64 word" where
  "parse_octal s = (case sign_of s of (neg, r) \<Rightarrow>
     clamp_unsigned neg (number_of digit_val 8 (takeWhile is_octal r)))"

definition parse_character :: "string \<Rightarrow> char" where
  "parse_character t = at_index t 1"

definition parse_boolean :: "string \<Rightarrow> bool" where
  "parse_boolean t \<longleftrightarrow> at_index t 0 = CHR ''t'' \<or> at_index t 0 = CHR ''T''"

definition str_parse_string :: "string \<Rightarrow> string" where
  "str_parse_string t = (if length t = 1 then [] else take (length t - 2) (drop 1 t))"

section \<open>Literal classes\<close>

type_synonym literal_type = "32 word"

abbreviation "lt_char \<equiv> (0x0001 :: literal_type)"
abbreviation "lt_bool \<equiv> (0x0002 :: literal_type)"
abbreviation "lt_int \<equiv> (0x0004 :: literal_type)"
abbreviation "lt_uint \<equiv> (0x0008 :: literal_type)"
abbreviation "lt_hex \<equiv> (0x0010 :: literal_type)"
abbreviation "lt_oct \<equiv> (0x0020 :: literal_type)"
abbreviation "lt_dec \<equiv> (0x0040 :: literal_type)"
abbreviation "lt_str \<equiv> (0x0080 :: literal_type)"
abbreviation "lt_seq \<equiv> (0x1000 :: literal_type)"

definition lt_base :: "literal_type \<Rightarrow> literal_type" where
  "lt_base lt = and lt 0x00ff"

definition lt_unknown :: "literal_type \<Rightarrow> bool" where
  "lt_unknown lt \<longleftrightarrow> lt = 0"

definition lt_is :: "literal_type \<Rightarrow> literal_type \<Rightarrow> bool" where
  "lt_is m lt \<longleftrightarrow> and lt m \<noteq> 0"

section \<open>Conversion of a literal\<close>

definition char_code :: "char \<Rightarrow> int" where
  "char_code c = (if code_of c < 128 then int (code_of c) else int (code_of c) - 256)"

definition char_of_int :: "int \<Rightarrow> char" where
  "char_of_int v = char_of (nat (v mod 256))"

definition cfg_parse_char :: "'d env \<Rightarrow> string \<Rightarrow> literal_type \<Rightarrow> char" where
  "cfg_parse_char env t lt =
     (let b = lt_base lt; trunc = \<lambda>v. char_of_int (truncate_cast env TChar v) in
      if b = lt_char then parse_character t
      else if b = lt_bool then (if parse_boolean t then CHR ''T'' else CHR ''F'')
      else if b = lt_int then trunc (sint (parse_signed t))
      else if b = lt_uint then trunc (uint (parse_unsigned t))
      else if b = lt_hex then trunc (uint (parse_hexadecimal t))
      else if b = lt_oct then trunc (uint (parse_octal t))
      else if b = lt_dec then CHR 0x00
      else if b = lt_str then at_index (str_parse_string t) 0
      else CHR 0x00)"

definition cfg_parse_uint :: "'d env \<Rightarrow> type_id \<Rightarrow> string \<Rightarrow> literal_type \<Rightarrow> int" where
  "cfg_parse_uint env ty t lt =
     (let b = lt_base lt in
      if b = lt_char then char_code (parse_character t)
      else if b = lt_bool then (if parse_boolean t then 1 else 0)
      else if b = lt_int then truncate_cast env ty (sint (parse_signed t))
      else if b = lt_uint then truncate_cast env ty (uint (parse_unsigned t))
      else if b = lt_hex then truncate_cast env ty (uint (parse_hexadecimal t))
      else if b = lt_oct then truncate_cast env ty (uint (parse_octal t))
      else if b = lt_dec then int_of_dec env ty (parse_double env t)
      else if b = lt_str then truncate_cast env ty (uint (parse_unsigned (str_parse_string t)))
      else 0)"

definition cfg_parse_bool :: "string \<Rightarrow> literal_type \<Rightarrow> bool" where
  "cfg_parse_bool t lt =
     (let b = lt_base lt; c = parse_character t in
      if b = lt_char then c = CHR ''t'' \<or> c = CHR ''T'' \<or> c = CHR ''1''
      else if b = lt_bool then parse_boolean t
      else if b = lt_int then parse_signed t \<noteq> 0
      else if b = lt_uint then parse_unsigned t \<noteq> 0
      else if b = lt_hex then parse_hexadecimal t \<noteq> 0
      else if b = lt_oct then parse_octal t \<noteq> 0
      else if b = lt_dec then False
      else if b = lt_str then icasecmp (str_parse_string t) ''true''
      else False)"

definition cfg_parse_int :: "'d env \<Rightarrow> type_id \<Rightarrow> string \<Rightarrow> literal_type \<Rightarrow> int" where
  "cfg_parse_int env ty t lt =
     (let b = lt_base lt in
      if b = lt_char then char_code (parse_character t)
      else if b = lt_bool then (if parse_boolean t then 1 else 0)
      else if b = lt_int then truncate_cast env ty (sint (parse_signed t))
      else if b = lt_uint then truncate_cast env ty (uint (parse_unsigned t))
      else if b = lt_hex then truncate_cast env ty (uint (parse_hexadecimal t))
      else if b = lt_oct then truncate_cast env ty (uint (parse_octal t))
      else if b = lt_dec then int_of_dec env ty (parse_double env t)
      else if b = lt_str then truncate_cast env ty (sint (parse_signed (str_parse_string t)))
      else 0)"

definition cfg_parse_dec :: "'d env \<Rightarrow> type_id \<Rightarrow> string \<Rightarrow> literal_type \<Rightarrow> 'd" where
  "cfg_parse_dec env ty t lt =
     (let b = lt_base lt in
      if b = lt_char then dec_of_int env ty (char_code (parse_character t))
      else if b = lt_bool then dec_of_int env ty (if parse_boolean t then 1 else 0)
      else if b = lt_int then dec_of_int env ty (sint (parse_signed t))
      else if b = lt_uint then dec_of_int env ty (uint (parse_unsigned t))
      else if b = lt_hex then dec_of_int env ty (uint (parse_hexadecimal t))
      else if b = lt_oct then dec_of_int env ty (uint (parse_octal t))
      else if b = lt_dec then dec_of_dec env ty (parse_double env t)
      else if b = lt_str then dec_of_int env ty (sint (parse_signed (str_parse_string t)))
      else dec_of_int env ty 0)"

definition cfg_parse_string :: "string \<Rightarrow> literal_type \<Rightarrow> string" where
  "cfg_parse_string t lt =
     (let b = lt_base lt in
      if b = lt_char then [parse_character t]
      else if b = lt_bool \<or> b = lt_int \<or> b = lt_uint \<or> b = lt_hex \<or> b = lt_oct \<or> b = lt_dec then t
      else if b = lt_str then str_parse_string t
      else [])"

end
