(* ===== verification/Config_Property.thy ===== *)
theory Config_Property
  imports Config_Util
begin

text \<open>
  Literals and properties of the CONFIG format, dancex11/configurator/dancex11_config_loader.cpp:
  classification of a literal, the type a property takes from it, the value of a property, plain or
  a sequence, and the property definition itself, in a configuration file or on a command line.

  Each operation returns the parser as it leaves it together with its result, so that the code's
  reference parameters are the results of the functions.
\<close>

section \<open>Classification of a literal\<close>

definition classify_literal :: "string \<Rightarrow> literal_type" where
  "classify_literal t =
     (let first = at_index t 0; second = at_index t 1 in
      if icasecmp t ''false'' \<or> icasecmp t ''true'' then lt_bool
      else if icasencmp t ''0x'' 2 then lt_uint
      else if first = quote2 then lt_str
      else if first = quote1 then lt_char
      else if first = CHR ''x'' \<or> first = CHR ''X'' \<or> first = CHR ''0'' then
        (if first = CHR ''0'' \<and> length t = 1 then lt_uint
         else if first = CHR ''0'' \<and> is_digit second then lt_oct
         else if first \<noteq> CHR ''0'' \<or> second = CHR ''x'' \<or> second = CHR ''X'' then lt_hex
         else 0)
      else if first = CHR ''+'' \<or> first = CHR ''-'' \<or> first = CHR ''.'' \<or> is_digit first then
        (if first = CHR ''.'' \<or> CHR ''.'' \<in> set t \<or> CHR ''e'' \<in> set t \<or> CHR ''E'' \<in> set t then lt_dec
         else if first = CHR ''-'' then lt_int else lt_uint)
      else 0)"

function parse_literal_type :: "parser \<Rightarrow> literal_type \<times> parser" where
  "parse_literal_type p =
     (if token p = ''['' then
        (let p1 = parse_next False p in
         if tid p1 = IText then
           (case parse_literal_type p1 of (lt, p2) \<Rightarrow>
              (if lt_unknown lt then lt else or lt lt_seq, p2))
         else (0, p1))
      else (classify_literal (token p), p))"
  by pat_completeness auto
termination
  by (relation "measure src_size") (simp_all add: next_size_less)

declare parse_literal_type.simps [simp del]

lemma parse_literal_type_plain:
  "token p \<noteq> ''['' \<Longrightarrow> parse_literal_type p = (classify_literal (token p), p)"
  by (subst parse_literal_type.simps) simp

lemma advanced_literal_type: "advanced p (snd (parse_literal_type p))"
proof (induction p rule: parse_literal_type.induct)
  case (1 p)
  then show ?case
    by (subst parse_literal_type.simps)
      (auto simp: Let_def case_prod_unfold intro: advanced_step)
qed

definition check_type :: "type_id \<Rightarrow> literal_type \<Rightarrow> type_id" where
  "check_type ty lt =
     (if ty = TNone then
        (let b = lt_base lt in
         if b = lt_char then TChar
         else if b = lt_bool then TBool
         else if b = lt_int then TInt64
         else if b = lt_uint \<or> b = lt_hex \<or> b = lt_oct then TUInt64
         else if b = lt_dec then TDouble
         else if b = lt_str then TString
         else ty)
      else ty)"

section \<open>Values\<close>

definition integral_value :: "'d env \<Rightarrow> type_id \<Rightarrow> literal_type \<Rightarrow> string \<Rightarrow> 'd prim option" where
  "integral_value env ty lt t =
     (case ty of
        TInt16 \<Rightarrow> Some (VInt16 (of_int (cfg_parse_int env TInt16 t lt)))
      | TInt32 \<Rightarrow> Some (VInt32 (of_int (cfg_parse_int env TInt32 t lt)))
      | TInt64 \<Rightarrow> Some (VInt64 (of_int (cfg_parse_int env TInt64 t lt)))
      | TUInt16 \<Rightarrow> Some (VUInt16 (of_int (cfg_parse_uint env TUInt16 t lt)))
      | TUInt32 \<Rightarrow> Some (VUInt32 (of_int (cfg_parse_uint env TUInt32 t lt)))
      | TUInt64 \<Rightarrow> Some (VUInt64 (of_int (cfg_parse_uint env TUInt64 t lt)))
      | _ \<Rightarrow> None)"

definition literal_value :: "'d env \<Rightarrow> type_id \<Rightarrow> literal_type \<Rightarrow> string \<Rightarrow> 'd prim option" where
  "literal_value env ty lt t =
     (case ty of
        TChar \<Rightarrow> Some (VChar (cfg_parse_char env t lt))
      | TOctet \<Rightarrow> Some (VOctet (of_int (cfg_parse_uint env TOctet t lt)))
      | TBool \<Rightarrow> Some (VBool (cfg_parse_bool t lt))
      | TFloat \<Rightarrow> Some (VFloat (cfg_parse_dec env TFloat t lt))
      | TDouble \<Rightarrow> Some (VDouble (cfg_parse_dec env TDouble t lt))
      | TString \<Rightarrow> Some (VString (cfg_parse_string t lt))
      | _ \<Rightarrow> integral_value env ty lt t)"

lemma literal_value_type: "literal_value env ty lt t = Some v \<Longrightarrow> prim_type v = ty"
  by (cases ty) (auto simp: literal_value_def integral_value_def)

lemma literal_value_none: "literal_value env ty lt t = None \<longleftrightarrow> ty = TNone \<or> ty = TUser"
  by (cases ty) (auto simp: literal_value_def integral_value_def)

text \<open>
  The loop of a sequence, the same for every element type: the current token is an element, and so
  is every further text token up to a closing bracket. The tokens read and the parser after them.
\<close>

function seq_tokens :: "parser \<Rightarrow> string list \<times> parser" where
  "seq_tokens p =
     (let p1 = parse_next False p in
      if tid p1 = IText \<and> token p1 \<noteq> '']''
      then (case seq_tokens p1 of (ts, p2) \<Rightarrow> (token p # ts, p2))
      else ([token p], p1))"
  by pat_completeness auto
termination
  by (relation "measure src_size") (simp_all add: next_size_less)

declare seq_tokens.simps [simp del]

lemma seq_tokens_nonempty: "fst (seq_tokens p) \<noteq> []"
  by (subst seq_tokens.simps) (simp add: Let_def case_prod_unfold)

lemma advanced_seq_tokens: "advanced p (snd (seq_tokens p))"
proof (induction p rule: seq_tokens.induct)
  case (1 p)
  then show ?case
    by (subst seq_tokens.simps) (auto simp: Let_def case_prod_unfold intro: advanced_step)
qed

definition load_property_sequence ::
  "'d env \<Rightarrow> type_id \<Rightarrow> literal_type \<Rightarrow> parser \<Rightarrow> 'd any option \<times> parser" where
  "load_property_sequence env ty lt p =
     (if ty = TNone \<or> ty = TUser then (None, p)
      else case seq_tokens p of (ts, p1) \<Rightarrow>
        if token p1 = '']''
        then (Some (SeqAny ty (List.map_filter (literal_value env ty lt) ts)), parse_next False p1)
        else (None, p1))"

definition load_property_value ::
  "'d env \<Rightarrow> type_id \<Rightarrow> parser \<Rightarrow> 'd any option \<times> parser" where
  "load_property_value env ty p =
     (case parse_literal_type p of (lt, p1) \<Rightarrow>
        if lt_unknown lt then (None, p1)
        else (let ty' = check_type ty lt in
          if lt_is lt_seq lt then load_property_sequence env ty' lt p1
          else case literal_value env ty' lt (token p1) of
              None \<Rightarrow> (None, p1)
            | Some v \<Rightarrow> (Some (PrimAny v), parse_next False p1)))"

lemma advanced_sequence: "advanced p (snd (load_property_sequence env ty lt p))"
  using advanced_seq_tokens [of p]
  by (auto simp: load_property_sequence_def case_prod_unfold intro: advanced_trans)

lemma advanced_value: "advanced p (snd (load_property_value env ty p))"
proof -
  obtain lt p1 where lt: "parse_literal_type p = (lt, p1)" by fastforce
  then have "advanced p p1" using advanced_literal_type [of p] by simp
  then show ?thesis
    using advanced_trans [OF _ advanced_sequence, of p p1]
    by (auto simp: load_property_value_def lt Let_def split: option.splits intro: advanced_trans)
qed

section \<open>Definitions\<close>

text \<open>
  The part the two definition routines share: the current token is the type if a colon follows it,
  the value otherwise. The name and value of the code's reference parameter are set as far as the
  code gets.
\<close>

definition load_typed_value :: "'d env \<Rightarrow> parser \<Rightarrow> 'd any option \<times> parser" where
  "load_typed_value env p =
     (if break_ch p = CHR '':'' then
        (let ty = token_to_type (token p) in
         if ty = TNone \<or> ty = TUser then (None, p)
         else let p1 = parse_next False p in
           if tid p1 = IText then load_property_value env ty p1 else (None, p1))
      else if tid p = IText then load_property_value env TNone p
      else (None, p))"

definition load_property_definition :: "'d env \<Rightarrow> parser \<Rightarrow> 'd property option \<times> parser" where
  "load_property_definition env p =
     (let p1 = parse_next False p in
      if tid p1 = IText then
        (let p2 = parse_next False p1 in
         if tid p2 = IText then
           (case load_typed_value env p2 of (v, p3) \<Rightarrow> (map_option (mk_prop (token p1)) v, p3))
         else (None, p2))
      else (None, p1))"

definition parse_property_definition :: "'d env \<Rightarrow> string \<Rightarrow> 'd property option" where
  "parse_property_definition env def =
     (let p1 = parse_next True (new_parser def) in
      if tid p1 = IText then
        (let p2 = parse_next False p1 in
         if tid p2 = IText then map_option (mk_prop (token p1)) (fst (load_typed_value env p2))
         else None)
      else None)"

lemma advanced_typed: "advanced p (snd (load_typed_value env p))"
  by (auto simp: load_typed_value_def Let_def intro: advanced_step advanced_value)

lemma advanced_definition [progress_simps]: "advanced p (snd (load_property_definition env p))"
proof -
  have "advanced p (snd (load_typed_value env (parse_next False (parse_next False p))))"
    by (rule advanced_step, rule advanced_step, rule advanced_typed)
  moreover have "advanced p (parse_next False (parse_next False p))"
    by (rule advanced_step, rule advanced_next)
  ultimately show ?thesis
    by (simp add: load_property_definition_def Let_def case_prod_unfold)
qed

section \<open>Types of the values\<close>

text \<open>What a property of a declared type holds.\<close>

fun has_type :: "type_id \<Rightarrow> 'd any \<Rightarrow> bool" where
  "has_type ty (PrimAny v) \<longleftrightarrow> prim_type v = ty"
| "has_type ty (SeqAny ty' vs) \<longleftrightarrow> ty' = ty \<and> vs \<noteq> [] \<and> (\<forall>v \<in> set vs. prim_type v = ty)"
| "has_type ty _ \<longleftrightarrow> False"

lemma map_filter_total:
  assumes "\<And>x. f x \<noteq> None"
  shows "List.map_filter f xs = map (\<lambda>x. the (f x)) xs"
proof (induction xs)
  case (Cons x xs)
  with assms [of x] show ?case by (auto simp: List.map_filter_simps)
qed (simp add: List.map_filter_simps)

lemma sequence_type:
  assumes "load_property_sequence env ty lt p = (Some v, q)"
  shows "has_type ty v"
proof -
  have total: "literal_value env ty lt t \<noteq> None" for t
    using assms by (auto simp: load_property_sequence_def literal_value_none)
  obtain ts p1 where ts: "seq_tokens p = (ts, p1)" by fastforce
  then have "ts \<noteq> []" using seq_tokens_nonempty [of p] by simp
  with assms ts show ?thesis
    using literal_value_type [of env ty lt _ "the (literal_value env ty lt _)"] total
    by (auto simp: load_property_sequence_def map_filter_total [OF total] split: if_splits)
qed

lemma value_type:
  assumes "load_property_value env ty p = (Some v, q)"
  shows "has_type (check_type ty (fst (parse_literal_type p))) v"
  using assms
  by (auto simp: load_property_value_def case_prod_unfold Let_def
      dest: sequence_type literal_value_type split: if_splits option.splits)

lemma check_type_declared [simp]: "ty \<noteq> TNone \<Longrightarrow> check_type ty lt = ty"
  by (simp add: check_type_def)

section \<open>Numbers that were written\<close>

lemma number_of_decimal: "number_of digit_val 10 (decimal n) = n"
proof (induction n rule: decimal.induct)
  case (1 n)
  then show ?case
    by (subst decimal.simps) (simp add: number_of_def)
qed

lemma decimal_zero: "hd (decimal n) = CHR ''0'' \<longleftrightarrow> n = 0"
proof (induction n rule: decimal.induct)
  case (1 n)
  have "digit_char n = CHR ''0'' \<longleftrightarrow> n = 0" if "n < 10"
  proof -
    have "code_of (digit_char n) = code_of CHR ''0'' \<longleftrightarrow> n = 0"
      using that by simp
    then show ?thesis by (simp only: of_char_eq_iff)
  qed
  with 1 show ?case
    by (subst decimal.simps) (auto simp: hd_append div_eq_0_iff)
qed

lemma takeWhile_decimal [simp]: "takeWhile is_digit (decimal n) = decimal n"
  using decimal_digits [of n] by (simp add: list_all_iff)

lemma digit_char_classes:
  assumes "is_digit c"
  shows "\<not> is_space c" "\<not> is_break asgn c" "c \<noteq> quote1" "c \<noteq> quote2" "c \<noteq> CHR ''x''" "c \<noteq> CHR ''X''"
    "c \<noteq> CHR ''+''" "c \<noteq> CHR ''-''" "c \<noteq> CHR ''.''" "c \<noteq> CHR ''e''" "c \<noteq> CHR ''E''"
    "c \<noteq> CHR ''#''" "c \<noteq> CHR ''/''" "to_upper c = c" "c \<noteq> CHR ''n''" "c \<noteq> CHR ''[''" "c \<noteq> CHR '']''"
    "c \<noteq> CHR ''F''" "c \<noteq> CHR ''T''"
  using assms
  by (auto simp: is_digit_def is_space_def is_break_def quote1_def quote2_def to_upper_def is_lower_def)

lemma upper_words:
  "map to_upper ''false'' = ''FALSE''" "map to_upper ''true'' = ''TRUE''"
  "to_upper quote2 = quote2" "to_upper CHR ''0'' = CHR ''0''"
  "to_upper CHR ''x'' = CHR ''X''" "to_upper CHR ''X'' = CHR ''X''" "to_upper CHR ''.'' = CHR ''.''"
  by (simp_all add: to_upper_def is_lower_def quote2_def char_of_def bit_0)

lemma icasencmp_two [simp]:
  "icasencmp (a # b # l) (c # d # r) 2 \<longleftrightarrow> to_upper a = to_upper c \<and> to_upper b = to_upper d"
  by (simp add: icasencmp_def)

lemma to_upper_digits: "list_all is_digit ds \<Longrightarrow> map to_upper ds = ds"
  by (induction ds) (simp_all add: digit_char_classes)

lemma classify_digits:
  assumes ds: "list_all is_digit ds" "ds \<noteq> []" "hd ds = CHR ''0'' \<Longrightarrow> length ds = 1"
  shows "classify_literal ds = lt_uint"
proof -
  obtain c cs where c: "ds = c # cs" using ds(2) by (cases ds) auto
  have "\<not> icasecmp ds ''false''" "\<not> icasecmp ds ''true''"
    using ds(1) unfolding icasecmp_map to_upper_digits [OF ds(1)] upper_words
    by (auto simp: is_digit_def)
  moreover have "\<not> icasencmp ds ''0x'' 2"
    using ds by (cases cs) (auto simp: icasencmp_def c digit_char_classes to_upper_def is_lower_def is_digit_def)
  moreover have "CHR ''e'' \<notin> set ds" "CHR ''E'' \<notin> set ds" "CHR ''.'' \<notin> set ds"
    using ds(1) by (auto simp: list_all_iff is_digit_def)
  ultimately show ?thesis
    using ds digit_char_classes [of c]
    by (auto simp: classify_literal_def at_index_def c Let_def)
qed

lemma classify_decimal [simp]: "classify_literal (decimal n) = lt_uint"
proof (rule classify_digits)
  show "length (decimal n) = 1" if "hd (decimal n) = CHR ''0''"
    using that by (simp add: decimal_zero) (simp add: decimal.simps)
qed (simp_all add: decimal_digits)

lemma classify_string [simp]: "classify_literal (quote2 # t) = lt_str"
proof -
  have "\<not> icasecmp (quote2 # t) ''false''" "\<not> icasecmp (quote2 # t) ''true''"
    "\<not> icasencmp (quote2 # t) ''0x'' 2"
    unfolding icasecmp_map upper_words
    by (simp_all add: icasencmp_def upper_words(3,4), simp_all add: quote2_def)
  then show ?thesis
    by (simp add: classify_literal_def at_index_def)
qed

lemma str_parse_string_quoted [simp]: "str_parse_string (c # t @ [d]) = t"
  by (simp add: str_parse_string_def)

lemma parse_decimal:
  "sign_of (decimal n) = (False, decimal n)"
  "n < 2 ^ 64 \<Longrightarrow> parse_unsigned (decimal n) = of_nat n"
proof -
  obtain c cs where c: "decimal n = c # cs" by (cases "decimal n") auto
  have "is_digit c" using decimal_digits [of n] c by simp
  then show s: "sign_of (decimal n) = (False, decimal n)"
    by (simp add: sign_of_def c digit_char_classes)
  show "n < 2 ^ 64 \<Longrightarrow> parse_unsigned (decimal n) = of_nat n"
    by (simp add: parse_unsigned_def s number_of_decimal clamp_unsigned_def)
qed

section \<open>Reading a property definition\<close>

definition after_word :: "cstream \<Rightarrow> char \<Rightarrow> string \<Rightarrow> cstream" where
  "after_word s c cs = s\<lparr>cs_src := cs, cs_break := c\<rparr>"

lemma proper_word_head:
  assumes "proper asgn (Word (c # v))"
  shows "skip_ws (c # v @ r) ln = (c # v @ r, ln)" "c \<noteq> CHR ''['' \<and> c \<noteq> CHR '']''"
  using assms by auto

text \<open>A word that a colon, a comma or an equals sign ends: the separator is consumed and remembered.\<close>

lemma next_token_word:
  assumes "proper asgn (Word w)" "\<not> cs_eof s" "cs_src s = w @ d # cs"
    and d: "is_break asgn d" "\<not> is_space d" "d \<noteq> CHR ''['' \<and> d \<noteq> CHR '']''"
    and nc: "\<not> is_comment (w @ d # cs)"
  shows "next_token asgn s = (w, after_word s d cs)"
proof -
  obtain c v where w: "w = c # v" using assms(1) by (cases w) auto
  note cv = assms(1) [unfolded w]
  have "skip_ws (cs_src s) (cs_line s) = (c # v @ d # cs, cs_line s)"
    using proper_word_head(1) [OF cv] by (simp add: assms(3) w)
  note tok = next_token_char [OF assms(2) this]
  have "list_all (\<lambda>c. \<not> is_break asgn c) v" and c: "\<not> is_break asgn c" "c \<noteq> quote1" "c \<noteq> quote2"
    using cv by auto
  then have "take_word asgn (v @ d # cs) = (v, d # cs)"
    using d by (simp add: take_word_proper)
  then have "next_token asgn s = (w, end_word asgn (d # cs) (cs_line s))"
    using c nc proper_word_head(2) [OF cv] unfolding tok w by simp
  then show ?thesis
    using d assms(2) by (simp add: end_word_def after_word_def)
qed

text \<open>A word at the end of the text.\<close>

lemma next_token_last:
  assumes "proper asgn (Word w)" "\<not> cs_eof s" "cs_src s = w"
  shows "next_token asgn s = (w, s\<lparr>cs_src := [], cs_eof := True, cs_break := CHR '' ''\<rparr>)"
proof -
  obtain c v where w: "w = c # v" using assms(1) by (cases w) auto
  note cv = assms(1) [unfolded w]
  have "skip_ws (cs_src s) (cs_line s) = (c # v, cs_line s)"
    using proper_word_head(1) [OF cv, of "[]"] by (simp add: assms(3) w)
  note tok = next_token_char [OF assms(2) this]
  have v: "list_all (\<lambda>c. \<not> is_break asgn c) v" and c: "\<not> is_break asgn c" "c \<noteq> quote1" "c \<noteq> quote2"
    "\<not> is_comment (c # v)"
    using cv by auto
  from v have "take_word asgn v = (v, [])"
    by (induction v) auto
  then have "next_token asgn s = (w, end_word asgn [] (cs_line s))"
    using c proper_word_head(2) [OF cv] unfolding tok w by simp
  then show ?thesis
    using assms(2) by (simp add: end_word_def)
qed

text \<open>A quoted string.\<close>

lemma next_token_quoted:
  assumes qt: "qt = quote1 \<or> qt = quote2" and "\<not> cs_eof s" "cs_src s = qt # escaped qt t @ qt # cs"
  shows "next_token asgn s = (qt # t @ [qt], s\<lparr>cs_src := cs, cs_break := CHR '' ''\<rparr>)"
proof -
  have "\<not> is_space qt" "\<not> is_comment (cs_src s)"
    using qt assms(3) by (auto simp: is_comment_def quote1_def quote2_def is_space_def)
  then have "skip_ws (cs_src s) (cs_line s) = (qt # escaped qt t @ qt # cs, cs_line s)"
    by (simp add: assms(3))
  note tok = next_token_char [OF assms(2) this]
  show ?thesis
    using qt assms(2) \<open>\<not> is_comment (cs_src s)\<close> unfolding tok
    by (simp add: quoted_escaped assms(3))
qed

text \<open>A word that a bracket follows, and the bracket.\<close>

lemma next_token_before_bracket:
  assumes "proper asgn (Word w)" "\<not> cs_eof s" "cs_src s = w @ CHR '']'' # cs"
    and nc: "\<not> is_comment (w @ CHR '']'' # cs)"
  shows "next_token asgn s = (w, after_word s CHR '' '' (CHR '']'' # cs))"
proof -
  obtain c v where w: "w = c # v" using assms(1) by (cases w) auto
  note cv = assms(1) [unfolded w]
  have "skip_ws (cs_src s) (cs_line s) = (c # v @ CHR '']'' # cs, cs_line s)"
    using proper_word_head(1) [OF cv] by (simp add: assms(3) w)
  note tok = next_token_char [OF assms(2) this]
  have "list_all (\<lambda>c. \<not> is_break asgn c) v" and c: "\<not> is_break asgn c" "c \<noteq> quote1" "c \<noteq> quote2"
    using cv by auto
  then have "take_word asgn (v @ CHR '']'' # cs) = (v, CHR '']'' # cs)"
    by (simp add: take_word_proper)
  then have "next_token asgn s = (w, end_word asgn (CHR '']'' # cs) (cs_line s))"
    using c nc proper_word_head(2) [OF cv] unfolding tok w by simp
  then show ?thesis
    using assms(2) by (simp add: end_word_def after_word_def)
qed

lemma next_token_bracket:
  assumes "c = CHR ''['' \<or> c = CHR '']''" "\<not> cs_eof s" "cs_src s = c # cs"
  shows "next_token asgn s = ([c], after_word s CHR '' '' cs)"
proof -
  have "\<not> is_space c" "c \<noteq> quote1" "c \<noteq> quote2" "\<not> is_comment (c # cs)"
    using assms(1) by (auto simp: is_comment_def is_space_def quote1_def quote2_def)
  then have "skip_ws (cs_src s) (cs_line s) = (c # cs, cs_line s)"
    by (simp add: assms(3))
  note tok = next_token_char [OF assms(2) this]
  show ?thesis
    using assms(1) \<open>c \<noteq> quote1\<close> \<open>c \<noteq> quote2\<close> \<open>\<not> is_comment (c # cs)\<close>
    unfolding tok by (simp add: after_word_def)
qed

lemma not_comment_append:
  "proper asgn (Word w) \<Longrightarrow> d \<noteq> CHR ''/'' \<Longrightarrow> \<not> is_comment (w @ d # cs)"
  by (cases w; cases "tl w") (auto simp: is_comment_def)

lemma next_token_sep:
  assumes "proper asgn (Word w)" "\<not> cs_eof s" "cs_src s = w @ d # cs"
    and "d = CHR ''='' \<and> asgn \<or> d = CHR '':'' \<or> d = CHR '',''"
  shows "next_token asgn s = (w, after_word s d cs)"
proof (rule next_token_word [OF assms(1-3)])
  show "\<not> is_comment (w @ d # cs)"
    using assms(4) by (intro not_comment_append [OF assms(1)]) auto
qed (use assms(4) in \<open>auto simp: is_break_def is_space_def\<close>)

lemma after_word_simps [simp]:
  "cs_src (after_word s c cs) = cs" "cs_eof (after_word s c cs) = cs_eof s"
  "cs_break (after_word s c cs) = c"
  by (simp_all add: after_word_def)

lemma proper_digits: "list_all is_digit ds \<Longrightarrow> ds \<noteq> [] \<Longrightarrow> proper asgn (Word ds)"
  by (cases ds; cases "tl ds") (auto simp: is_comment_def digit_char_classes list_all_iff)

lemma proper_decimal [simp]: "proper asgn (Word (decimal n))"
  by (rule proper_digits) (simp_all add: decimal_digits)

lemma classify_first:
  assumes "c \<noteq> CHR ''n''"
  shows "classify (c # cs) = IText"
  using assms by (simp add: classify_def token_map_def)

lemma classify_decimal_text [simp]: "classify (decimal n) = IText"
proof (cases "decimal n")
  case (Cons c cs)
  with decimal_digits [of n] show ?thesis
    by (simp add: classify_first digit_char_classes)
qed simp

text \<open>The name of a type in the CONFIG format.\<close>

definition type_word :: "type_id \<Rightarrow> string" where
  "type_word ty = fst (hd (filter (\<lambda>e. snd e = ty) type_map))"

definition integer_types :: "type_id set" where
  "integer_types = {TInt16, TInt32, TInt64, TUInt16, TUInt32, TUInt64}"

lemma type_word_integer:
  assumes "ty \<in> integer_types"
  shows "proper False (Word (type_word ty))" "classify (type_word ty) = IText"
    "token_to_type (type_word ty) = ty" "ty \<noteq> TNone" "ty \<noteq> TUser"
proof -
  show "ty \<noteq> TNone" "ty \<noteq> TUser"
    using assms by (auto simp: integer_types_def)
  from assms show "token_to_type (type_word ty) = ty"
    by (auto simp: integer_types_def type_word_def type_map_def token_to_type_def)
  from assms obtain c cs where w: "type_word ty = c # cs" "c \<noteq> CHR ''n''"
    by (auto simp: integer_types_def type_word_def type_map_def)
  then show "classify (type_word ty) = IText"
    by (simp add: classify_first)
  from assms show "proper False (Word (type_word ty))"
    by (auto simp: integer_types_def type_word_def type_map_def is_comment_def is_break_def
      is_space_def quote1_def quote2_def)
qed

definition proper_name :: "string \<Rightarrow> bool" where
  "proper_name n \<longleftrightarrow> proper True (Word n) \<and> classify n = IText"

definition number_value :: "type_id \<Rightarrow> nat \<Rightarrow> 'd prim" where
  "number_value ty v =
     (case ty of TInt16 \<Rightarrow> VInt16 (of_nat v) | TInt32 \<Rightarrow> VInt32 (of_nat v) | TInt64 \<Rightarrow> VInt64 (of_nat v)
      | TUInt16 \<Rightarrow> VUInt16 (of_nat v) | TUInt32 \<Rightarrow> VUInt32 (of_nat v) | _ \<Rightarrow> VUInt64 (of_nat v))"

lemma literal_value_decimal:
  assumes "truncates env" "ty \<in> integer_types" "int v \<in> type_range ty" "lt_base lt = lt_uint"
  shows "literal_value env ty lt (decimal v) = Some (number_value ty v)"
proof -
  have "v < 2 ^ 64" using assms(2,3) by (auto simp: integer_types_def)
  then have "uint (parse_unsigned (decimal v)) = int v"
    by (simp add: parse_decimal uint_nat unat_of_nat take_bit_nat_eq_self)
  then show ?thesis
    using assms truncatesD [OF assms(1,3)]
    by (auto simp: integer_types_def literal_value_def integral_value_def cfg_parse_int_def
        cfg_parse_uint_def number_value_def)
qed

text \<open>An environment for examples: no truncation, floating point by integers.\<close>

definition example_env :: "int env" where
  "example_env = \<lparr>truncate_cast = \<lambda>_ v. v, parse_double = \<lambda>_. 0, dec_of_int = \<lambda>_ v. v,
     dec_of_dec = \<lambda>_ d. d, int_of_dec = \<lambda>_ d. d, directory_sep = CHR ''/'', default_shlib_mode = 1\<rparr>"

lemma truncates_example [simp]: "truncates example_env"
  by (simp add: truncates_def example_env_def)

lemma proper_name_a: "proper_name ''a''"
  by (simp add: proper_name_def classify_first is_break_def is_space_def is_comment_def
      quote1_def quote2_def)

lemma decimal_42: "decimal 42 = ''42''" "decimal 7 = ''7''"
  by (simp_all add: decimal.simps digit_char_def char_of_def bit_0)

lemma type_word_16: "type_word TUInt16 = ''uint16''"
  by (simp add: type_word_def type_map_def)

section \<open>Round trips\<close>

text \<open>The parser after the name and the type of \<open>name=type:rest\<close>.\<close>

lemma parse_name_type:
  assumes n: "proper_name n" and ty: "ty \<in> integer_types"
  obtains s where "\<not> cs_eof s" "cs_src s = rest"
    "parse_property_definition env (n @ CHR ''='' # type_word ty @ CHR '':'' # rest) =
      (let p = parse_next False \<lparr>strm = s, token = type_word ty, tid = IText\<rparr>
       in if tid p = IText then map_option (mk_prop n) (fst (load_property_value env ty p)) else None)"
proof -
  let ?r = "type_word ty @ CHR '':'' # rest"
  let ?s0 = "open_stream (n @ CHR ''='' # ?r)"
  let ?s1 = "after_word ?s0 CHR ''='' ?r"
  let ?s2 = "after_word ?s1 CHR '':'' rest"
  have "next_token True ?s0 = (n, ?s1)"
    using n by (intro next_token_sep) (simp_all add: proper_name_def open_stream_def)
  moreover have "next_token False ?s1 = (type_word ty, ?s2)"
    using type_word_integer(1) [OF ty] by (intro next_token_sep) (simp_all add: open_stream_def)
  moreover have "\<not> cs_eof ?s2" by (simp add: open_stream_def)
  ultimately show thesis
    using that [of ?s2] n type_word_integer [OF ty]
    by (simp add: parse_property_definition_def parse_next_def new_parser_def proper_name_def
        load_typed_value_def Let_def if_distrib [of fst] if_distrib [of "map_option _"] cong: if_cong)
qed

text \<open>
  C15. A number written in decimal as the value of an integer property of a declared type that can
  hold it is read back as that number at that type.
\<close>

theorem integer_property_roundtrip:
  assumes "truncates env" "proper_name n" "ty \<in> integer_types" "int v \<in> type_range ty"
  shows "parse_property_definition env (n @ CHR ''='' # type_word ty @ CHR '':'' # decimal v) =
    Some (mk_prop n (PrimAny (number_value ty v)))"
proof -
  obtain s where s: "\<not> cs_eof s" "cs_src s = decimal v"
    and p: "parse_property_definition env (n @ CHR ''='' # type_word ty @ CHR '':'' # decimal v) =
      (let p = parse_next False \<lparr>strm = s, token = type_word ty, tid = IText\<rparr>
       in if tid p = IText then map_option (mk_prop n) (fst (load_property_value env ty p)) else None)"
    by (rule parse_name_type [OF assms(2,3)])
  have "decimal v \<noteq> ''[''"
    using decimal_digits [of v] by (auto simp: is_digit_def)
  then show ?thesis
    using literal_value_decimal [OF assms(1,3,4), of lt_uint] type_word_integer [OF assms(3)]
    unfolding p
    by (simp add: parse_next_def next_token_last [OF proper_decimal s] load_property_value_def
        parse_literal_type_plain lt_unknown_def lt_is_def lt_base_def)
qed

theorem integer_property_roundtrip_witness:
  "parse_property_definition example_env ''a=uint16:42'' = Some (mk_prop ''a'' (PrimAny (VUInt16 42)))"
  using integer_property_roundtrip [of example_env "''a''" TUInt16 42]
  by (simp add: proper_name_a integer_types_def type_word_16 decimal_42 number_value_def)

lemma classify_quoted [simp]: "classify (quote2 # t) = IText"
  by (rule classify_first) (simp add: quote2_def)

text \<open>
  Any string at all, written in double quotes with its quotes and backslashes escaped, is read
  back by an untyped property definition as a property of that name and string.
\<close>

theorem string_property_roundtrip:
  assumes "proper_name n"
  shows "parse_property_definition env (n @ CHR ''='' # quote2 # escaped quote2 t @ [quote2]) =
    Some (mk_prop n (PrimAny (VString t)))"
proof -
  let ?r = "quote2 # escaped quote2 t @ [quote2]"
  let ?s0 = "open_stream (n @ CHR ''='' # ?r)"
  let ?s1 = "after_word ?s0 CHR ''='' ?r"
  have t0: "next_token True ?s0 = (n, ?s1)"
    using assms by (intro next_token_sep) (simp_all add: proper_name_def open_stream_def)
  have t1: "next_token False ?s1 = (quote2 # t @ [quote2], ?s1\<lparr>cs_src := [], cs_break := CHR '' ''\<rparr>)"
    by (rule next_token_quoted) (simp_all add: open_stream_def)
  have "quote2 # t @ [quote2] \<noteq> ''[''" by simp
  then show ?thesis
    using assms
    by (simp add: parse_property_definition_def parse_next_def new_parser_def proper_name_def t0 t1
        load_typed_value_def load_property_value_def parse_literal_type_plain lt_unknown_def lt_is_def
        lt_base_def check_type_def literal_value_def cfg_parse_string_def)
qed

theorem string_property_roundtrip_witness:
  "parse_property_definition example_env (''a='' @ [quote2, backslash, quote2, CHR '' '', quote2]) =
    Some (mk_prop ''a'' (PrimAny (VString [quote2, CHR '' ''])))"
  using string_property_roundtrip [OF proper_name_a, of example_env "[quote2, CHR '' '']"]
  by (simp add: quote2_def backslash_def)

fun number_list :: "nat list \<Rightarrow> string" where
  "number_list [] = '']''"
| "number_list (v # vs) = decimal v @ (if vs = [] then '']'' else CHR '','' # number_list vs)"

lemma classify_close [simp]: "classify '']'' = IText" "classify ''['' = IText"
  by (simp_all add: classify_first)

lemma decimal_no_bracket [simp]: "decimal v \<noteq> '']''" "decimal v \<noteq> ''[''"
  using decimal_digits [of v] by (auto simp: is_digit_def)

lemma number_list_first:
  assumes "\<not> cs_eof s" "cs_src s = number_list (v # vs)"
  obtains s' where "next_token False s = (decimal v, s')" "\<not> cs_eof s'" "cs_src s' = number_list vs"
proof (cases vs)
  case Nil
  with assms have "next_token False s = (decimal v, after_word s CHR '' '' '']'')"
    using not_comment_append [OF proper_decimal, of "CHR '']''" v "[]"]
    by (intro next_token_before_bracket proper_decimal) simp_all
  with Nil assms that show thesis by simp
next
  case (Cons w ws)
  with assms have "next_token False s = (decimal v, after_word s CHR '','' (number_list vs))"
    by (intro next_token_sep proper_decimal) simp_all
  with assms that show thesis by simp
qed

lemma seq_tokens_numbers:
  assumes "\<not> cs_eof (strm p)" "cs_src (strm p) = number_list vs"
  shows "\<exists>q. seq_tokens p = (token p # map decimal vs, q) \<and> token q = '']''"
  using assms
proof (induction vs arbitrary: p)
  case Nil
  then have "next_token False (strm p) = ('']'', after_word (strm p) CHR '' '' [])"
    by (intro next_token_bracket) simp_all
  then show ?case
    by (subst seq_tokens.simps) (simp add: parse_next_def)
next
  case (Cons v vs)
  then obtain s' where s': "next_token False (strm p) = (decimal v, s')" "\<not> cs_eof s'"
      "cs_src s' = number_list vs"
    by (metis number_list_first)
  let ?p1 = "\<lparr>strm = s', token = decimal v, tid = IText\<rparr>"
  have p1: "parse_next False p = ?p1"
    by (simp add: parse_next_def s')
  obtain q where "seq_tokens ?p1 = (decimal v # map decimal vs, q)" "token q = '']''"
    using Cons.IH [of ?p1] s' by auto
  then show ?case
    by (subst seq_tokens.simps) (simp add: p1)
qed

text \<open>
  A non-empty list of numbers in brackets, separated by commas, is read back as the sequence of
  these numbers at the declared integer type.
\<close>

theorem integer_sequence_roundtrip:
  assumes "truncates env" "proper_name n" "ty \<in> integer_types"
    and vs: "vs \<noteq> []" "list_all (\<lambda>v. int v \<in> type_range ty) vs"
  shows "parse_property_definition env
      (n @ CHR ''='' # type_word ty @ CHR '':'' # CHR ''['' # number_list vs) =
    Some (mk_prop n (SeqAny ty (map (number_value ty) vs)))"
proof -
  obtain s where s: "\<not> cs_eof s" "cs_src s = CHR ''['' # number_list vs"
    and p: "parse_property_definition env
        (n @ CHR ''='' # type_word ty @ CHR '':'' # CHR ''['' # number_list vs) =
      (let p = parse_next False \<lparr>strm = s, token = type_word ty, tid = IText\<rparr>
       in if tid p = IText then map_option (mk_prop n) (fst (load_property_value env ty p)) else None)"
    by (rule parse_name_type [OF assms(2,3)])
  obtain v ws where v: "vs = v # ws" using vs(1) by (cases vs) auto
  let ?s1 = "after_word s CHR '' '' (number_list vs)"
  have t0: "next_token False s = (''['', ?s1)"
    using s by (intro next_token_bracket) simp_all
  obtain s2 where t1: "next_token False ?s1 = (decimal v, s2)" "\<not> cs_eof s2" "cs_src s2 = number_list ws"
    using number_list_first [of ?s1 v ws] s by (auto simp: v)
  let ?p2 = "\<lparr>strm = s2, token = decimal v, tid = IText\<rparr>"
  obtain q where q: "seq_tokens ?p2 = (decimal v # map decimal ws, q)" "token q = '']''"
    using seq_tokens_numbers [of ?p2 ws] t1 by auto
  let ?lt = "or lt_uint lt_seq"
  have lt: "parse_literal_type \<lparr>strm = ?s1, token = ''['', tid = IText\<rparr> = (?lt, ?p2)"
    by (subst parse_literal_type.simps)
      (simp add: parse_next_def t1 parse_literal_type_plain lt_unknown_def)
  have "List.map_filter (literal_value env ty ?lt) (map decimal us) = map (number_value ty) us"
    if "list_all (\<lambda>v. int v \<in> type_range ty) us" for us
    using that literal_value_decimal [OF assms(1,3), of _ ?lt]
    by (induction us) (auto simp: List.map_filter_simps lt_base_def)
  from this [OF vs(2)]
  have "List.map_filter (literal_value env ty ?lt) (decimal v # map decimal ws) =
      map (number_value ty) vs"
    by (simp add: v)
  then show ?thesis
    using type_word_integer [OF assms(3)] q
    unfolding p
    by (simp add: parse_next_def t0 lt load_property_value_def load_property_sequence_def
        lt_unknown_def lt_is_def)
qed

theorem integer_sequence_roundtrip_witness:
  "parse_property_definition example_env ''a=uint16:[7,42]'' =
    Some (mk_prop ''a'' (SeqAny TUInt16 [VUInt16 7, VUInt16 42]))"
  using integer_sequence_roundtrip [of example_env "''a''" TUInt16 "[7, 42]"]
  by (simp add: proper_name_a integer_types_def type_word_16 decimal_42 number_value_def)

text \<open>
  C39. A property whose definition declares a type is stored with a value of that type, or a
  non-empty sequence of values of it, or not at all.
\<close>

theorem property_declared_type:
  assumes "break_ch p = CHR '':''" and "load_typed_value env p = (Some v, q)"
  shows "has_type (token_to_type (token p)) v"
  using assms value_type [of env "token_to_type (token p)" "parse_next False p" v q]
  by (auto simp: load_typed_value_def Let_def split: if_splits)

theorem property_declared_type_witness:
  "has_type TUInt16 (PrimAny (VUInt16 42) :: int any)"
proof -
  let ?p = "\<lparr>strm = \<lparr>cs_src = ''42'', cs_eof = False, cs_line = 0, cs_break = CHR '':''\<rparr>,
    token = ''uint16'', tid = IText\<rparr>"
  have next': "next_token False (strm ?p) = (''42'', (strm ?p)\<lparr>cs_src := [], cs_eof := True, cs_break := CHR '' ''\<rparr>)"
    using next_token_last [OF proper_decimal [of False 42], of "strm ?p"] by (simp add: decimal_42)
  have "literal_value example_env TUInt16 lt_uint ''42'' = Some (VUInt16 42)"
    using literal_value_decimal [of example_env TUInt16 42 lt_uint]
    by (simp add: integer_types_def lt_base_def decimal_42 number_value_def)
  moreover have "classify_literal ''42'' = lt_uint" "classify ''42'' = IText"
    using classify_decimal [of 42] classify_decimal_text [of 42] by (simp_all add: decimal_42)
  ultimately obtain q where "load_typed_value example_env ?p = (Some (PrimAny (VUInt16 42)), q)"
    using next'
    by (simp add: load_typed_value_def token_to_type_def type_map_def parse_next_def
        load_property_value_def parse_literal_type_plain lt_unknown_def lt_is_def Let_def)
  from property_declared_type [OF _ this] show ?thesis by simp
qed

text \<open>
  A hexadecimal literal never has its value: written with 0x it is taken for a decimal number,
  which stops at the x, and written with x it is taken for hexadecimal but not extracted. Both are 0.
\<close>

theorem hexadecimal_literal_is_zero:
  "parse_unsigned (CHR ''0'' # CHR ''x'' # ds) = 0 \<and> classify_literal (CHR ''0'' # CHR ''x'' # ds) = lt_uint
     \<and> parse_hexadecimal (CHR ''x'' # ds) = 0 \<and> classify_literal (CHR ''x'' # ds) = lt_hex"
proof (intro conjI)
  show "parse_unsigned (CHR ''0'' # CHR ''x'' # ds) = 0"
    by (simp add: parse_unsigned_def sign_of_def is_space_def is_digit_def clamp_unsigned_def
        number_of_def digit_val_def)
  show "parse_hexadecimal (CHR ''x'' # ds) = 0"
    by (simp add: parse_hexadecimal_def sign_of_def is_space_def is_digit_def clamp_unsigned_def
        number_of_def hex_prefix_def is_hex_def icasencmp_def upper_words)
  have "\<not> icasecmp (c # cs) ''false''" "\<not> icasecmp (c # cs) ''true''"
    if "c = CHR ''x'' \<or> c = CHR ''0''" for c cs
    using that unfolding icasecmp_map upper_words by (auto simp: upper_words)
  moreover have "\<not> icasencmp (CHR ''x'' # ds) ''0x'' 2"
    by (cases ds) (simp_all add: icasencmp_def upper_words)
  ultimately show "classify_literal (CHR ''0'' # CHR ''x'' # ds) = lt_uint"
    "classify_literal (CHR ''x'' # ds) = lt_hex"
    by (simp_all add: classify_literal_def at_index_def Let_def upper_words quote1_def quote2_def)
qed

text \<open>
  A decimal fraction that starts with a zero and a point is not a literal: the property is
  rejected, whatever its declared type.
\<close>

theorem leading_zero_fraction_rejected:
  assumes "token p = CHR ''0'' # CHR ''.'' # ds"
  shows "load_property_value env ty p = (None, p)"
proof -
  have "\<not> icasecmp (token p) ''false''" "\<not> icasecmp (token p) ''true''"
    unfolding icasecmp_map upper_words
    by (simp_all add: assms upper_words)
  then have "classify_literal (token p) = 0"
    by (simp add: classify_literal_def at_index_def Let_def is_digit_def assms upper_words
        quote1_def quote2_def)
  moreover have "token p \<noteq> ''[''" by (simp add: assms)
  ultimately show ?thesis
    by (simp add: load_property_value_def parse_literal_type_plain lt_unknown_def)
qed

theorem leading_zero_fraction_rejected_witness:
  "load_property_value example_env TDouble
      \<lparr>strm = open_stream [newline], token = ''0.5'', tid = IText\<rparr> =
    (None, \<lparr>strm = open_stream [newline], token = ''0.5'', tid = IText\<rparr>)"
  using leading_zero_fraction_rejected
    [of "\<lparr>strm = open_stream [newline], token = ''0.5'', tid = IText\<rparr>" "''5''" example_env TDouble]
  by simp

end
