(* ===== verification/Config_State.thy ===== *)
theory Config_State
  imports Config_Property Utility
begin

text \<open>
  The state of Config_Loader (state_type of dancex11_config_loader.h), the invariant that all of its
  operations keep, and the operations that every kind of object shares: property lists, literals
  that must be strings, artifacts.

  An operation of the loader takes the parser and the state and returns whether it succeeded with
  the parser and the state it leaves: on failure the plans keep what was added before. Indices are
  truncated to 32 bits as in the code (\<open>u32\<close>); the invariant bounds every list by what was left to
  parse, so that for an input below 4 GB the truncation never bites.
\<close>

record 'd state =
  st_plugins :: "'d plan"
  st_components :: "'d plan"
  plugin_instances :: "(string, nat) smap"
  component_implementations :: "(string, nat) smap"
  component_instances :: "(string, nat) smap"
  connection_instances :: "(string, nat) smap"
  lm_instances :: "(string, nat) smap"
  node_map :: "(string, (string, nat list) smap) smap"
  instance_ep_map :: "(string, (nat \<times> nat) list) smap"

definition new_state :: "'d plan \<Rightarrow> 'd plan \<Rightarrow> 'd state" where
  "new_state plugins components =
     \<lparr>st_plugins = plugins, st_components = components, plugin_instances = [],
      component_implementations = [], component_instances = [], connection_instances = [],
      lm_instances = [], node_map = [], instance_ep_map = []\<rparr>"

type_synonym 'd loaded = "bool \<times> parser \<times> 'd state"

definition u32 :: "'d env \<Rightarrow> nat \<Rightarrow> nat" where
  "u32 env n = nat (truncate_cast env TUInt32 (int n))"

lemma u32_id: "truncates env \<Longrightarrow> n < 2 ^ 32 \<Longrightarrow> u32 env n = n"
  using truncatesD [of env "int n" TUInt32] by (simp add: u32_def)

abbreviation implementations :: "'d state \<Rightarrow> 'd mdd list" where
  "implementations st \<equiv> pl_implementation (st_components st)"
abbreviation instances :: "'d state \<Rightarrow> 'd idd list" where
  "instances st \<equiv> pl_instance (st_components st)"
abbreviation connections :: "'d state \<Rightarrow> 'd connection list" where
  "connections st \<equiv> pl_connection (st_components st)"
abbreviation artifacts :: "'d state \<Rightarrow> 'd artifact list" where
  "artifacts st \<equiv> pl_artifact (st_components st)"

section \<open>The invariant\<close>

text \<open>A connection is an internal one of a receptacle and a facet, or one to an external reference.\<close>

definition internal_connection :: "'d connection \<Rightarrow> bool" where
  "internal_connection c \<longleftrightarrow> (\<exists>a b. cn_internalEndpoint c = [a, b] \<and> cn_externalReference c = []
     \<and> ep_provider a = (\<not> ep_provider b)
     \<and> (\<forall>e \<in> {a, b}. ep_kind e = (if ep_provider e then Facet else SimplexReceptacle)))"

definition external_connection :: "'d connection \<Rightarrow> bool" where
  "external_connection c \<longleftrightarrow> (\<exists>a x. cn_internalEndpoint c = [a] \<and> cn_externalReference c = [x]
     \<and> ep_provider a = (\<not> er_provider x) \<and> er_location x \<noteq> []
     \<and> ep_kind a = (if ep_provider a then Facet else SimplexReceptacle))"

definition connection_ok :: "'d connection \<Rightarrow> bool" where
  "connection_ok c \<longleftrightarrow> internal_connection c \<or> external_connection c"

definition endpoint_at :: "'d connection list \<Rightarrow> nat \<times> nat \<Rightarrow> bool" where
  "endpoint_at cs x \<longleftrightarrow> fst x < length cs \<and> snd x < length (cn_internalEndpoint (cs ! fst x))"

definition connections_inv :: "'d state \<Rightarrow> bool" where
  "connections_inv st \<longleftrightarrow>
     list_all connection_ok (connections st)
     \<and> map_ok (connection_instances st)
     \<and> (\<forall>n i. map_get (connection_instances st) n = Some i \<longleftrightarrow>
          i < length (connections st) \<and> cn_name (connections st ! i) = n)
     \<and> map_ok (instance_ep_map st)
     \<and> {x. \<exists>n eps. map_get (instance_ep_map st) n = Some eps \<and> x \<in> set eps}
        = {x. endpoint_at (connections st) x}"

definition implementations_inv :: "'d state \<Rightarrow> bool" where
  "implementations_inv st \<longleftrightarrow>
     list_all (\<lambda>m. list_all (\<lambda>a. a < length (artifacts st)) (md_artifactRef m)) (implementations st)
     \<and> map_ok (component_implementations st)
     \<and> (\<forall>n i. map_get (component_implementations st) n = Some i \<longrightarrow>
          i < length (implementations st) \<and> md_name (implementations st ! i) = n)"

definition instances_inv :: "'d state \<Rightarrow> bool" where
  "instances_inv st \<longleftrightarrow>
     list_all (\<lambda>i. id_implementationRef i < length (implementations st)) (instances st)
     \<and> map_ok (component_instances st)
     \<and> (\<forall>n i. map_get (component_instances st) n = Some i \<longrightarrow>
          i < length (instances st) \<and> id_name (instances st ! i) = n)
     \<and> map_ok (lm_instances st)
     \<and> (\<forall>n i. map_get (lm_instances st) n = Some i \<longrightarrow> i < length (instances st))"

definition localities_inv :: "'d state \<Rightarrow> bool" where
  "localities_inv st \<longleftrightarrow>
     map_ok (node_map st)
     \<and> (\<forall>n m. map_get (node_map st) n = Some m \<longrightarrow> map_ok m
          \<and> (\<forall>l xs. map_get m l = Some xs \<longrightarrow> xs \<noteq> [] \<and> list_all (\<lambda>i. i < length (instances st)) xs))"

definition fits :: "nat \<Rightarrow> parser \<Rightarrow> 'd state \<Rightarrow> bool" where
  "fits N p st \<longleftrightarrow> N < 2 ^ 32
     \<and> length (implementations st) + psize p \<le> N \<and> length (instances st) + psize p \<le> N
     \<and> length (connections st) + psize p \<le> N \<and> length (artifacts st) + psize p \<le> N"

definition inv :: "nat \<Rightarrow> parser \<Rightarrow> 'd state \<Rightarrow> bool" where
  "inv N p st \<longleftrightarrow> fits N p st \<and> connections_inv st \<and> implementations_inv st \<and> instances_inv st
     \<and> localities_inv st"

lemma fits_mono: "fits N p st \<Longrightarrow> psize q \<le> psize p \<Longrightarrow> fits N q st"
  by (auto simp: fits_def)

lemma inv_mono: "inv N p st \<Longrightarrow> psize q \<le> psize p \<Longrightarrow> inv N q st"
  by (auto simp: inv_def intro: fits_mono)

lemma inv_advanced: "inv N p st \<Longrightarrow> advanced p q \<Longrightarrow> inv N q st"
  by (erule inv_mono) (simp add: advanced_def)

text \<open>
  The contract of an operation of the loader: it keeps the invariant, succeeding or not, never moves
  the parser back, and consumes its keyword.
\<close>

locale loader_operation =
  fixes cond :: "bool" and op :: "parser \<Rightarrow> 'd state \<Rightarrow> 'd loaded"
  assumes keeps: "cond \<Longrightarrow> inv N p st \<Longrightarrow> op p st = (b, q, st') \<Longrightarrow> inv N q st'"
    and moves: "op p st = (b, q, st') \<Longrightarrow> tid p \<noteq> INone \<Longrightarrow> psize q < psize p"
begin

lemma shrinks: "tid p \<noteq> INone \<Longrightarrow> psize (fst (snd (op p st))) < psize p"
  by (cases "op p st") (simp add: moves)

lemma keeps_inv: "cond \<Longrightarrow> inv N p st \<Longrightarrow> inv N (fst (snd (op p st))) (snd (snd (op p st)))"
  by (cases "op p st") (simp add: keeps)

end

section \<open>Property lists\<close>

lemma definition_less:
  "tid p \<noteq> INone \<Longrightarrow> psize (snd (load_property_definition env p)) < psize p"
proof -
  assume t: "tid p \<noteq> INone"
  have "advanced (parse_next False p) (snd (load_property_definition env p))"
    by (auto simp: load_property_definition_def Let_def case_prod_unfold
        intro: advanced_step [OF advanced_typed])
  with t show ?thesis by (rule advanced_less)
qed

lemma definition_shrinks:
  "load_property_definition env p = (r, q) \<Longrightarrow> tid p = IProperty \<Longrightarrow> psize q < psize p"
  using definition_less [of p env] by simp

text \<open>\<open>while (current_token_id == IProperty) load_property_definition\<close>.\<close>

function load_properties :: "'d env \<Rightarrow> parser \<Rightarrow> 'd properties \<Rightarrow> 'd properties option \<times> parser" where
  "load_properties env p acc =
     (if tid p = IProperty
      then (case load_property_definition env p of
              (None, q) \<Rightarrow> (None, q)
            | (Some pr, q) \<Rightarrow> load_properties env q (acc @ [pr]))
      else (Some acc, p))"
  by pat_completeness auto
termination
  by (relation "measure (\<lambda>(_, p, _). psize p)") (auto dest: definition_shrinks [OF sym])

declare load_properties.simps [simp del]

lemma properties_advanced: "psize (snd (load_properties env p acc)) \<le> psize p"
proof (induction env p acc rule: load_properties.induct)
  case (1 env p acc)
  show ?case
  proof (cases "tid p = IProperty")
    case True
    obtain r q where r: "load_property_definition env p = (r, q)" by fastforce
    have "psize q < psize p" using definition_shrinks [OF r] True by simp
    with 1 [OF True r [symmetric]] True r show ?thesis
      by (subst load_properties.simps) (force split: option.splits)
  qed (subst load_properties.simps, simp)
qed

section \<open>Literals that must be strings\<close>

text \<open>
  The pattern \<open>if (parse_next () == IText) { if (! parse_literal_type ().is_str ()) return false; ...
  parse_next (); }\<close> of the node, locality and container options: the keyword may stand alone.
\<close>

datatype option_value = Bad_Literal | No_Literal | Value string

definition load_string :: "parser \<Rightarrow> option_value \<times> parser" where
  "load_string p =
     (let p1 = parse_next False p in
      if tid p1 = IText then
        (case parse_literal_type p1 of (lt, p2) \<Rightarrow>
           if lt_is lt_str lt then (Value (cfg_parse_string (token p2) lt), parse_next False p2)
           else (Bad_Literal, p2))
      else (No_Literal, p1))"

lemma load_string_advanced: "advanced (parse_next False p) (snd (load_string p))"
  using advanced_literal_type [of "parse_next False p"]
  by (auto simp: load_string_def Let_def case_prod_unfold intro: advanced_trans)

section \<open>Open modes\<close>

text \<open>
  The optional open mode of a plugin or a component, read by \<open>parse_int\<close> at 32 bits; None is the
  failure on a literal that is neither negative nor classified as hexadecimal.
\<close>

definition load_open_mode :: "'d env \<Rightarrow> parser \<Rightarrow> 32 word option \<times> parser" where
  "load_open_mode env p =
     (let p1 = parse_next False p in
      if tid p1 = IText then
        (case parse_literal_type p1 of (lt, p2) \<Rightarrow>
           if \<not> (lt_is lt_int lt \<or> lt_is lt_hex lt) then (None, p2)
           else (Some (of_int (cfg_parse_int env TInt32 (token p2) lt)), parse_next False p2))
      else (Some (default_shlib_mode env), p1))"

lemma load_open_mode_advanced: "advanced p (snd (load_open_mode env p))"
  using advanced_literal_type [of "parse_next False p"]
  by (auto simp: load_open_mode_def Let_def case_prod_unfold
      intro: advanced_trans advanced_step)

section \<open>Artifacts\<close>

abbreviation exclusive_mark :: string where
  "exclusive_mark \<equiv> ''_+_''"

definition push_artifact :: "'d artifact \<Rightarrow> 'd state \<Rightarrow> 'd state" where
  "push_artifact a st =
     st\<lparr>st_components := (st_components st)\<lparr>pl_artifact := artifacts st @ [a]\<rparr>\<rparr>"

text \<open>The exclusivity flag after the location: a boolean literal, or nothing.\<close>

definition load_exclusive :: "parser \<Rightarrow> bool option \<times> parser" where
  "load_exclusive p =
     (let p1 = parse_next False p in
      if tid p1 = IText then
        (case parse_literal_type p1 of (lt, p2) \<Rightarrow>
           if lt_is lt_bool lt then (Some (cfg_parse_bool (token p2) lt), parse_next False p2)
           else (None, p2))
      else (Some False, p1))"

definition load_artifact_definition :: "'d env \<Rightarrow> parser \<Rightarrow> 'd state \<Rightarrow> 'd loaded" where
  "load_artifact_definition env p st =
     (let p1 = parse_next False p in
      if tid p1 \<noteq> IText then (False, p1, st)
      else let p2 = parse_next False p1 in
      if tid p2 \<noteq> IText then (False, p2, st)
      else case parse_literal_type p2 of (lt, p3) \<Rightarrow>
      if \<not> lt_is lt_str lt then (False, p3, st)
      else case load_exclusive p3 of
        (None, p4) \<Rightarrow> (False, p4, st)
      | (Some exclusive, p4) \<Rightarrow>
          (case load_properties env p4 [] of
             (None, p5) \<Rightarrow> (False, p5, st)
           | (Some props, p5) \<Rightarrow>
               (True, p5,
                push_artifact
                  \<lparr>ar_name = token p1, ar_location = [cfg_parse_string (token p3) lt],
                   ar_node = (if exclusive then exclusive_mark else []), ar_source = [], ar_execParameter = props,
                   ar_deployRequirement = [], ar_deployedResource = []\<rparr> st)))"

lemma load_exclusive_advanced: "advanced p (snd (load_exclusive p))"
  using advanced_literal_type [of "parse_next False p"]
  by (auto simp: load_exclusive_def Let_def case_prod_unfold
      intro: advanced_trans advanced_step)

lemma artifact_cases:
  assumes "load_artifact_definition env p st = (b, q, st')"
  shows "psize q \<le> psize (parse_next False p)
    \<and> (if b then \<exists>a. st' = push_artifact a st \<and> psize q < psize (parse_next False p) else st' = st)"
proof -
  let ?p1 = "parse_next False p"
  let ?p2 = "parse_next False ?p1"
  obtain lt p3 where lt: "parse_literal_type ?p2 = (lt, p3)" by fastforce
  obtain e p4 where e: "load_exclusive p3 = (e, p4)" by fastforce
  obtain ps p5 where ps: "load_properties env p4 [] = (ps, p5)" by fastforce
  have le: "psize ?p2 \<le> psize ?p1" "psize p3 \<le> psize ?p2" "psize p4 \<le> psize p3" "psize p5 \<le> psize p4"
    using psize_next [of False ?p1] advanced_psize [OF advanced_literal_type, of ?p2]
      advanced_psize [OF load_exclusive_advanced, of p3] properties_advanced [of env p4 "[]"] lt e ps
    by simp_all
  show ?thesis
  proof (cases "tid ?p1 = IText")
    case True
    then have "psize ?p2 < psize ?p1" by (simp add: psize_next_less)
    with le True assms lt e ps show ?thesis
      unfolding load_artifact_definition_def Let_def
      by (cases e; cases ps; cases "tid ?p2 = IText"; cases "lt_is lt_str lt") auto
  next
    case False
    with assms show ?thesis
      by (auto simp: load_artifact_definition_def Let_def)
  qed
qed

lemma push_artifact_simps [simp]:
  "artifacts (push_artifact a st) = artifacts st @ [a]"
  "implementations (push_artifact a st) = implementations st"
  "instances (push_artifact a st) = instances st"
  "connections (push_artifact a st) = connections st"
  "component_implementations (push_artifact a st) = component_implementations st"
  "component_instances (push_artifact a st) = component_instances st"
  "connection_instances (push_artifact a st) = connection_instances st"
  "lm_instances (push_artifact a st) = lm_instances st"
  "node_map (push_artifact a st) = node_map st"
  "instance_ep_map (push_artifact a st) = instance_ep_map st"
  by (simp_all add: push_artifact_def)

lemma push_artifact_inv:
  "inv N p st \<Longrightarrow> psize q < psize p \<Longrightarrow> inv N q (push_artifact a st)"
  by (auto simp: inv_def fits_def connections_inv_def implementations_inv_def instances_inv_def
      localities_inv_def list_all_iff less_SucI)

interpretation artifact: loader_operation True "load_artifact_definition env"
proof
  fix N p st b q st'
  assume inv: "inv N p st" and op: "load_artifact_definition env p st = (b, q, st')"
  from op have "psize q \<le> psize p" "b \<Longrightarrow> psize q < psize p"
    using artifact_cases [OF op] psize_next [of False p] by auto
  with inv artifact_cases [OF op] show "inv N q st'"
    by (cases b) (auto intro: push_artifact_inv inv_mono)
next
  fix p st b q st'
  assume op: "load_artifact_definition env p st = (b, q, st')" and t: "tid p \<noteq> INone"
  with psize_next_less [OF t, of False] artifact_cases [OF op] show "psize q < psize p"
    by (cases b) auto
qed

end
