(* ===== verification/Config_Connections.thy ===== *)
theory Config_Connections
  imports Config_State
begin

text \<open>
  Connection definitions, Config_Loader::load_connection_definitions: the list of links of a component
  to the ports of a peer, or to external references, each with its optional properties, and the
  bookkeeping by which finalize_component_plan later resolves the instances of the endpoints.
\<close>

section \<open>One connection\<close>

definition simplex_endpoint :: "bool \<Rightarrow> string \<Rightarrow> endpoint" where
  "simplex_endpoint provider port =
     \<lparr>ep_portName = port, ep_provider = provider,
      ep_kind = (if provider then Facet else SimplexReceptacle), ep_instanceRef = 0\<rparr>"

definition internal_name :: "string \<Rightarrow> string \<Rightarrow> string \<Rightarrow> string \<Rightarrow> string" where
  "internal_name inst port peer peer_port = inst @ ''.'' @ port @ '':'' @ peer @ ''.'' @ peer_port"

definition external_name :: "string \<Rightarrow> string \<Rightarrow> string \<Rightarrow> string \<Rightarrow> string" where
  "external_name inst port ext_port ref = inst @ ''.'' @ port @ '':'' @ ext_port @ ''@'' @ ref"

text \<open>The properties of a connection become one requirement, if the connection has any.\<close>

definition load_requirements :: "'d env \<Rightarrow> parser \<Rightarrow> 'd requirement list option \<times> parser" where
  "load_requirements env p =
     (let p1 = parse_next False p in
      if tid p1 = IProperty then
        (case load_properties env p1 [] of
           (None, q) \<Rightarrow> (None, q)
         | (Some ps, q) \<Rightarrow>
             (Some [\<lparr>rq_name = CONNECTION_PROPERTY, rq_type = ''property-list'', rq_property = ps\<rparr>], q))
      else (Some [], p1))"

definition internal_link ::
  "char \<Rightarrow> string \<Rightarrow> string \<Rightarrow> string \<Rightarrow> string \<Rightarrow> 'd requirement list \<Rightarrow> 'd connection" where
  "internal_link link inst port peer peer_port reqs =
     \<lparr>cn_name = internal_name inst port peer peer_port, cn_source = [], cn_deployRequirement = reqs,
      cn_externalEndpoint = [],
      cn_internalEndpoint = (if link = CHR ''<''
        then [simplex_endpoint False port, simplex_endpoint True peer_port]
        else [simplex_endpoint True port, simplex_endpoint False peer_port]),
      cn_externalReference = [], cn_deployedResource = []\<rparr>"

definition external_link ::
  "char \<Rightarrow> string \<Rightarrow> string \<Rightarrow> string \<Rightarrow> string \<Rightarrow> 'd requirement list \<Rightarrow> 'd connection" where
  "external_link link inst port ext_port ref reqs =
     \<lparr>cn_name = external_name inst port ext_port ref, cn_source = [], cn_deployRequirement = reqs,
      cn_externalEndpoint = [],
      cn_internalEndpoint = [simplex_endpoint (link \<noteq> CHR ''<'') port],
      cn_externalReference =
        [\<lparr>er_location = ref, er_provider = (link = CHR ''<''), er_portName = ext_port, er_supportedType = []\<rparr>],
      cn_deployedResource = []\<rparr>"

text \<open>
  Entering a connection: its name in the name map, itself in the plan and its endpoints in the lists
  of the instances they belong to, in this order.
\<close>

definition push_endpoint :: "string \<Rightarrow> nat \<times> nat \<Rightarrow> 'd state \<Rightarrow> 'd state" where
  "push_endpoint inst x st =
     st\<lparr>instance_ep_map := map_modify [] (\<lambda>xs. xs @ [x]) inst (instance_ep_map st)\<rparr>"

definition push_connection :: "'d env \<Rightarrow> 'd connection \<Rightarrow> 'd state \<Rightarrow> 'd state" where
  "push_connection env c st =
     st\<lparr>connection_instances :=
          map_put (cn_name c) (u32 env (length (connections st))) (connection_instances st),
        st_components := (st_components st)\<lparr>pl_connection := connections st @ [c]\<rparr>\<rparr>"

definition enter_internal ::
  "'d env \<Rightarrow> string \<Rightarrow> string \<Rightarrow> 'd connection \<Rightarrow> 'd state \<Rightarrow> 'd state" where
  "enter_internal env inst peer c st =
     (let idx = u32 env (length (connections st))
      in push_endpoint peer (idx, 1) (push_endpoint inst (idx, 0) (push_connection env c st)))"

definition enter_external :: "'d env \<Rightarrow> string \<Rightarrow> 'd connection \<Rightarrow> 'd state \<Rightarrow> 'd state" where
  "enter_external env inst c st =
     (let idx = u32 env (length (connections st))
      in push_endpoint inst (idx, 0) (push_connection env c st))"

section \<open>The lists of links\<close>

definition is_link :: "char \<Rightarrow> bool" where
  "is_link c \<longleftrightarrow> c = CHR ''<'' \<or> c = CHR ''>''"

lemma requirements_size:
  "load_requirements env p = (r, q) \<Longrightarrow> psize q \<le> psize (parse_next False p)"
  using properties_advanced [of env "parse_next False p" "[]"]
  by (auto simp: load_requirements_def Let_def split: if_splits prod.splits option.splits)

text \<open>\<open>while (current_token_id () == IText)\<close> of the links to a peer.\<close>

function internal_links ::
  "'d env \<Rightarrow> string \<Rightarrow> string \<Rightarrow> parser \<Rightarrow> 'd state \<Rightarrow> 'd loaded" where
  "internal_links env inst peer p st =
     (if tid p \<noteq> IText then (True, p, st)
      else let port = token p; link = break_ch p; p1 = parse_next False p;
               peer_port = (if tid p1 = IText then token p1 else []) in
        if \<not> is_link link \<or> peer_port = [] then (False, p1, st)
        else if map_has (connection_instances st) (internal_name inst port peer peer_port)
        then (False, p1, st)
        else case load_requirements env p1 of
            (None, p2) \<Rightarrow> (False, p2, st)
          | (Some reqs, p2) \<Rightarrow>
              internal_links env inst peer p2
                (enter_internal env inst peer (internal_link link inst port peer peer_port reqs) st))"
  by pat_completeness auto
termination
proof (relation "measure (\<lambda>(_, _, _, p, _). psize p)", simp, clarsimp)
  fix env :: "'d env" and p p2 reqs
  assume "tid p = IText" and r: "(Some reqs, p2) = load_requirements env (parse_next False p)"
  then have "psize (parse_next False p) < psize p"
    by (intro psize_next_less) simp
  with requirements_size [OF r [symmetric]] psize_next [of False "parse_next False p"]
  show "psize p2 < psize p" by simp
qed

declare internal_links.simps [simp del]

text \<open>The external port and reference after the port of the component; failure, or both.\<close>

definition load_external_ref :: "parser \<Rightarrow> (string \<times> string) option \<times> parser" where
  "load_external_ref p =
     (let p1 = parse_next False p in
      if tid p1 \<noteq> IText then (Some ([], []), p1)
      else case parse_literal_type p1 of (lt, p2) \<Rightarrow>
        if lt_is lt_str lt then (Some ([], cfg_parse_string (token p2) lt), p2)
        else let p3 = parse_next False p2 in
          if tid p3 \<noteq> IText then (None, p3)
          else case parse_literal_type p3 of (lt', p4) \<Rightarrow>
            if lt_is lt_str lt' then (Some (token p2, cfg_parse_string (token p4) lt'), p4)
            else (None, p4))"

lemma external_ref_size: "psize (snd (load_external_ref p)) \<le> psize (parse_next False p)"
proof -
  let ?p1 = "parse_next False p" and ?p2 = "snd (parse_literal_type (parse_next False p))"
  have "psize ?p2 \<le> psize ?p1" "psize (parse_next False ?p2) \<le> psize ?p2"
    "psize (snd (parse_literal_type (parse_next False ?p2))) \<le> psize (parse_next False ?p2)"
    by (simp_all add: advanced_psize [OF advanced_literal_type] psize_next)
  then show ?thesis
    by (simp add: load_external_ref_def Let_def case_prod_unfold)
qed

function external_links :: "'d env \<Rightarrow> string \<Rightarrow> parser \<Rightarrow> 'd state \<Rightarrow> 'd loaded" where
  "external_links env inst p st =
     (if tid p \<noteq> IText then (True, p, st)
      else let port = token p; link = break_ch p in
        case load_external_ref p of
          (None, p1) \<Rightarrow> (False, p1, st)
        | (Some (ext_port, ref), p1) \<Rightarrow>
            if \<not> is_link link \<or> ref = [] then (False, p1, st)
            else if map_has (connection_instances st) (external_name inst port ext_port ref)
            then (False, p1, st)
            else case load_requirements env p1 of
                (None, p2) \<Rightarrow> (False, p2, st)
              | (Some reqs, p2) \<Rightarrow>
                  external_links env inst p2
                    (enter_external env inst (external_link link inst port ext_port ref reqs) st))"
  by pat_completeness auto
termination
proof (relation "measure (\<lambda>(_, _, p, _). psize p)", simp, clarsimp)
  fix env :: "'d env" and p p1 p2 e ref reqs
  assume "tid p = IText" and e: "(Some (e, ref), p1) = load_external_ref p"
    and r: "(Some reqs, p2) = load_requirements env p1"
  then have "psize (parse_next False p) < psize p"
    by (intro psize_next_less) simp
  with requirements_size [OF r [symmetric]] psize_next [of False p1] external_ref_size [of p]
    e [symmetric]
  show "psize p2 < psize p" by simp
qed

declare external_links.simps [simp del]

definition load_connection_definitions ::
  "'d env \<Rightarrow> string \<Rightarrow> parser \<Rightarrow> 'd state \<Rightarrow> 'd loaded" where
  "load_connection_definitions env inst p st =
     (if tid p = IConnection then
        (let p1 = parse_next False p in
         if tid p1 = IText then internal_links env inst (token p1) (parse_next False p1) st
         else (False, p1, st))
      else external_links env inst (parse_next False p) st)"

section \<open>The invariant\<close>

definition registered :: "'d state \<Rightarrow> (nat \<times> nat) set" where
  "registered st = {x. \<exists>n eps. map_get (instance_ep_map st) n = Some eps \<and> x \<in> set eps}"

lemma registered_push:
  "map_ok (instance_ep_map st) \<Longrightarrow> registered (push_endpoint inst x st) = insert x (registered st)"
  by (auto simp: registered_def push_endpoint_def map_get_modify map_at_def split: if_splits option.splits)
    (metis map_get_modify option.distinct(1) option.inject)+

lemma endpoint_at_snoc:
  "{x. endpoint_at (cs @ [c]) x} =
    {x. endpoint_at cs x} \<union> {length cs} \<times> {..< length (cn_internalEndpoint c)}"
  by (auto simp: endpoint_at_def nth_append less_Suc_eq split: if_splits)

lemma push_endpoint_simps [simp]:
  "st_components (push_endpoint i x st) = st_components st"
  "component_implementations (push_endpoint i x st) = component_implementations st"
  "component_instances (push_endpoint i x st) = component_instances st"
  "connection_instances (push_endpoint i x st) = connection_instances st"
  "lm_instances (push_endpoint i x st) = lm_instances st"
  "node_map (push_endpoint i x st) = node_map st"
  "map_ok (instance_ep_map st) \<Longrightarrow> map_ok (instance_ep_map (push_endpoint i x st))"
  by (simp_all add: push_endpoint_def map_ok_modify)

lemma push_connection_simps [simp]:
  "connections (push_connection env c st) = connections st @ [c]"
  "artifacts (push_connection env c st) = artifacts st"
  "implementations (push_connection env c st) = implementations st"
  "instances (push_connection env c st) = instances st"
  "component_implementations (push_connection env c st) = component_implementations st"
  "component_instances (push_connection env c st) = component_instances st"
  "connection_instances (push_connection env c st) =
     map_put (cn_name c) (u32 env (length (connections st))) (connection_instances st)"
  "lm_instances (push_connection env c st) = lm_instances st"
  "node_map (push_connection env c st) = node_map st"
  "instance_ep_map (push_connection env c st) = instance_ep_map st"
  by (simp_all add: push_connection_def)

lemma registered_connection [simp]: "registered (push_connection env c st) = registered st"
  by (simp add: registered_def)

lemma names_snoc:
  assumes "\<forall>n i. map_get m n = Some i \<longleftrightarrow> i < length cs \<and> cn_name (cs ! i) = n"
    and "map_ok m" "\<not> map_has m (cn_name c)"
  shows "map_get (map_put (cn_name c) (length cs) m) n = Some i \<longleftrightarrow>
    i < length (cs @ [c]) \<and> cn_name ((cs @ [c]) ! i) = n"
  using assms by (auto simp: smap.get_put nth_append map_has_def less_Suc_eq)

text \<open>What both kinds of links need: a fresh, well-formed connection with its endpoints registered.\<close>

lemma enter_connection:
  assumes inv: "connections_inv st" and small: "u32 env (length (connections st)) = length (connections st)"
    and fresh: "\<not> map_has (connection_instances st) (cn_name c)" and ok: "connection_ok c"
    and st': "connections st' = connections st @ [c]"
      "connection_instances st' = connection_instances (push_connection env c st)"
      "map_ok (instance_ep_map st')"
      "registered st' = registered st \<union> {length (connections st)} \<times> {..< length (cn_internalEndpoint c)}"
  shows "connections_inv st'"
proof -
  have names: "\<forall>n i. map_get (connection_instances st) n = Some i \<longleftrightarrow>
      i < length (connections st) \<and> cn_name (connections st ! i) = n"
    and ci: "map_ok (connection_instances st)"
    and reg: "registered st = {x. endpoint_at (connections st) x}"
    using inv by (simp_all add: connections_inv_def registered_def)
  have "map_get (connection_instances st') n = Some i \<longleftrightarrow>
      i < length (connections st') \<and> cn_name (connections st' ! i) = n" for n i
    unfolding st'(1,2) push_connection_simps small by (rule names_snoc [OF names ci fresh])
  moreover have "registered st' = {x. endpoint_at (connections st') x}"
    unfolding st'(1,4) endpoint_at_snoc reg ..
  moreover have "list_all connection_ok (connections st')" "map_ok (connection_instances st')"
    using inv ok st' ci by (simp_all add: connections_inv_def map_ok_put)
  ultimately show ?thesis
    using st'(3) unfolding connections_inv_def registered_def by blast
qed

lemma connection_ok_internal: "is_link l \<Longrightarrow> connection_ok (internal_link l i p j q r)"
  by (auto simp: connection_ok_def internal_connection_def internal_link_def simplex_endpoint_def)

lemma connection_ok_external: "ref \<noteq> [] \<Longrightarrow> is_link l \<Longrightarrow> connection_ok (external_link l i p e ref r)"
  by (auto simp: connection_ok_def external_connection_def external_link_def simplex_endpoint_def
      is_link_def)

lemma enter_internal_inv:
  assumes "truncates env" "inv N p st" "psize q < psize p"
    and "\<not> map_has (connection_instances st) (cn_name c)" "connection_ok c"
    and two: "length (cn_internalEndpoint c) = 2"
  shows "inv N q (enter_internal env inst peer c st)"
proof -
  have small: "u32 env (length (connections st)) = length (connections st)"
    using assms(2) by (intro u32_id [OF assms(1)]) (simp add: inv_def fits_def)
  have ok: "map_ok (instance_ep_map st)" "connections_inv st"
    using assms(2) by (simp_all add: inv_def connections_inv_def)
  have ends: "{..< length (cn_internalEndpoint c)} = {0, 1}"
    unfolding two by auto
  have reg: "registered (enter_internal env inst peer c st) =
      registered st \<union> {length (connections st)} \<times> {..< length (cn_internalEndpoint c)}"
    using ok(1) unfolding ends by (auto simp: enter_internal_def Let_def registered_push small)
  have "connections_inv (enter_internal env inst peer c st)"
    using ok(1) by (intro enter_connection [OF ok(2) small assms(4,5) _ _ _ reg])
      (simp_all add: enter_internal_def Let_def)
  with assms(2,3) show ?thesis
    by (auto simp: inv_def fits_def implementations_inv_def instances_inv_def localities_inv_def
        enter_internal_def Let_def)
qed

lemma enter_external_inv:
  assumes "truncates env" "inv N p st" "psize q < psize p"
    and "\<not> map_has (connection_instances st) (cn_name c)" "connection_ok c"
    and one: "length (cn_internalEndpoint c) = 1"
  shows "inv N q (enter_external env inst c st)"
proof -
  have small: "u32 env (length (connections st)) = length (connections st)"
    using assms(2) by (intro u32_id [OF assms(1)]) (simp add: inv_def fits_def)
  have ok: "map_ok (instance_ep_map st)" "connections_inv st"
    using assms(2) by (simp_all add: inv_def connections_inv_def)
  have ends: "{..< length (cn_internalEndpoint c)} = {0}"
    unfolding one by auto
  have reg: "registered (enter_external env inst c st) =
      registered st \<union> {length (connections st)} \<times> {..< length (cn_internalEndpoint c)}"
    using ok(1) unfolding ends by (auto simp: enter_external_def Let_def registered_push small)
  have "connections_inv (enter_external env inst c st)"
    using ok(1) by (intro enter_connection [OF ok(2) small assms(4,5) _ _ _ reg])
      (simp_all add: enter_external_def Let_def)
  with assms(2,3) show ?thesis
    by (auto simp: inv_def fits_def implementations_inv_def instances_inv_def localities_inv_def
        enter_external_def Let_def)
qed

lemma load_requirements_inv:
  "load_requirements env p = (r, q) \<Longrightarrow> inv N p st \<Longrightarrow> inv N q st"
  using requirements_size [of env p r q] psize_next [of False p] by (auto intro: inv_mono)

lemma internal_links_cases:
  assumes op: "internal_links env inst peer p st = (b, q, st')"
  obtains (stop) "q = p" "st' = st" | (fail) "psize q < psize p" "st' = st"
    | (link) port reqs p2 where "is_link (break_ch p)" "psize p2 < psize p"
      "\<not> map_has (connection_instances st) (internal_name inst (token p) peer port)"
      "internal_links env inst peer p2
         (enter_internal env inst peer (internal_link (break_ch p) inst (token p) peer port reqs) st) =
        (b, q, st')"
proof (cases "tid p = IText")
  case False
  with op stop show thesis by (simp add: internal_links.simps)
next
  case True
  let ?p1 = "parse_next False p"
  let ?port = "if tid ?p1 = IText then token ?p1 else []"
  have p1: "psize ?p1 < psize p" using True by (simp add: psize_next_less)
  show thesis
  proof (cases "\<not> is_link (break_ch p) \<or> ?port = [] \<or>
      map_has (connection_instances st) (internal_name inst (token p) peer ?port)")
    case bad: True
    with op True have "q = ?p1 \<and> st' = st"
      by (subst (asm) internal_links.simps) (auto simp: Let_def split: if_splits)
    with p1 fail show thesis by simp
  next
    case good: False
    obtain r p2 where r: "load_requirements env ?p1 = (r, p2)" by fastforce
    have p2: "psize p2 < psize p"
      using requirements_size [OF r] psize_next [of False ?p1] p1 by simp
    have "(b, q, st') = (case r of None \<Rightarrow> (False, p2, st)
        | Some reqs \<Rightarrow> internal_links env inst peer p2
            (enter_internal env inst peer (internal_link (break_ch p) inst (token p) peer ?port reqs) st))"
      using True good op by (subst (asm) internal_links.simps) (simp add: Let_def r split: option.split)
    with p2 good fail link [of p2 ?port] show thesis by (cases r) auto
  qed
qed

lemma external_links_cases:
  assumes op: "external_links env inst p st = (b, q, st')"
  obtains (stop) "q = p" "st' = st" | (fail) "psize q < psize p" "st' = st"
    | (link) port ref reqs p2 where "is_link (break_ch p)" "ref \<noteq> []" "psize p2 < psize p"
      "\<not> map_has (connection_instances st) (external_name inst (token p) port ref)"
      "external_links env inst p2
         (enter_external env inst (external_link (break_ch p) inst (token p) port ref reqs) st) =
        (b, q, st')"
proof (cases "tid p = IText")
  case False
  with op stop show thesis by (simp add: external_links.simps)
next
  case True
  obtain e p1 where e: "load_external_ref p = (e, p1)" by fastforce
  have "psize (parse_next False p) < psize p" using True by (simp add: psize_next_less)
  then have p1: "psize p1 < psize p" using external_ref_size [of p] e by simp
  show thesis
  proof (cases "\<exists>x ref. e = Some (x, ref) \<and> is_link (break_ch p) \<and> ref \<noteq> [] \<and>
      \<not> map_has (connection_instances st) (external_name inst (token p) x ref)")
    case bad: False
    with op True e have "q = p1 \<and> st' = st"
      by (subst (asm) external_links.simps) (auto simp: Let_def split: if_splits option.splits)
    with p1 fail show thesis by simp
  next
    case True': True
    then obtain x ref where x: "e = Some (x, ref)" and good: "is_link (break_ch p)" "ref \<noteq> []"
      "\<not> map_has (connection_instances st) (external_name inst (token p) x ref)" by blast
    obtain r p2 where r: "load_requirements env p1 = (r, p2)" by fastforce
    have p2: "psize p2 < psize p"
      using requirements_size [OF r] psize_next [of False p1] p1 by simp
    have "(b, q, st') = (case r of None \<Rightarrow> (False, p2, st)
        | Some reqs \<Rightarrow> external_links env inst p2
            (enter_external env inst (external_link (break_ch p) inst (token p) x ref reqs) st))"
      using True good op by (subst (asm) external_links.simps) (simp add: Let_def e x r split: option.split)
    with p2 good fail link [of ref p2 x] show thesis by (cases r) auto
  qed
qed

lemma internal_links_size: "internal_links env inst peer p st = (b, q, st') \<Longrightarrow> psize q \<le> psize p"
proof (induction "psize p" arbitrary: p st rule: less_induct)
  case less
  from less(2) show ?case
    by (cases rule: internal_links_cases) (fastforce dest: less(1) [rotated])+
qed

lemma external_links_size: "external_links env inst p st = (b, q, st') \<Longrightarrow> psize q \<le> psize p"
proof (induction "psize p" arbitrary: p st rule: less_induct)
  case less
  from less(2) show ?case
    by (cases rule: external_links_cases) (fastforce dest: less(1) [rotated])+
qed

lemma internal_links_keeps:
  assumes env: "truncates env"
  shows "internal_links env inst peer p st = (b, q, st') \<Longrightarrow> inv N p st \<Longrightarrow> inv N q st'"
proof (induction "psize p" arbitrary: p st rule: less_induct)
  case less
  from less(2) show ?case
  proof (cases rule: internal_links_cases)
    case (link port reqs p2)
    show ?thesis
    proof (rule less(1) [OF link(2,4) enter_internal_inv [OF env less(3) link(2)]])
    qed (use link in \<open>simp_all add: connection_ok_internal, simp_all add: internal_link_def\<close>)
  qed (use less(3) in \<open>auto intro: inv_mono\<close>)
qed

lemma external_links_keeps:
  assumes env: "truncates env"
  shows "external_links env inst p st = (b, q, st') \<Longrightarrow> inv N p st \<Longrightarrow> inv N q st'"
proof (induction "psize p" arbitrary: p st rule: less_induct)
  case less
  from less(2) show ?case
  proof (cases rule: external_links_cases)
    case (link port ref reqs p2)
    show ?thesis
    proof (rule less(1) [OF link(3,5) enter_external_inv [OF env less(3) link(3)]])
    qed (use link in \<open>simp_all add: connection_ok_external, simp_all add: external_link_def\<close>)
  qed (use less(3) in \<open>auto intro: inv_mono\<close>)
qed

interpretation connection: loader_operation "truncates env" "load_connection_definitions env inst"
proof
  fix N p st b q st'
  let ?p1 = "parse_next False p"
  assume env: "truncates env" and inv: "inv N p st"
    and op: "load_connection_definitions env inst p st = (b, q, st')"
  have "inv N ?p1 st" "inv N (parse_next False ?p1) st"
    using inv_mono [OF inv] psize_next [of False p] psize_next [of False ?p1] by auto
  with op show "inv N q st'"
    by (auto simp: load_connection_definitions_def Let_def split: if_splits
        dest: internal_links_keeps [OF env] external_links_keeps [OF env])
next
  fix p st b q st'
  let ?p1 = "parse_next False p"
  assume op: "load_connection_definitions env inst p st = (b, q, st')" and "tid p \<noteq> INone"
  then have "psize ?p1 < psize p" by (simp add: psize_next_less)
  with op psize_next [of False ?p1] show "psize q < psize p"
    by (auto simp: load_connection_definitions_def Let_def split: if_splits
        dest!: internal_links_size external_links_size)
qed

end
