(* ===== verification/Config_Instances.thy ===== *)
theory Config_Instances
  imports Config_Connections
begin

text \<open>
  The objects of a deployment configuration: plugins, components, localities and containers
  (Config_Loader::load_plugin_config, load_component_config, load_locality_config,
  load_container_config). The three kinds of instances share the loop over their options; each has
  its own guard and its own way of entering implementation, instance and locality into the plan.

  A draft is what the code keeps in local variables while it reads an object: the implementation, the
  instance and the locality. The implementation of a known name is copied into the draft, and what
  is added to the copy stays there.
\<close>

section \<open>Options of an instance\<close>

record 'd draft =
  dr_mdd :: "'d mdd"
  dr_idd :: "'d idd"
  dr_locality :: string

definition string_property :: "string \<Rightarrow> string \<Rightarrow> 'd property" where
  "string_property n s = mk_prop n (PrimAny (VString s))"

definition add_exec :: "'d property \<Rightarrow> 'd draft \<Rightarrow> 'd draft" where
  "add_exec pr d = d\<lparr>dr_mdd := (dr_mdd d)\<lparr>md_execParameter := md_execParameter (dr_mdd d) @ [pr]\<rparr>\<rparr>"

definition add_config :: "'d property \<Rightarrow> 'd draft \<Rightarrow> 'd draft" where
  "add_config pr d = d\<lparr>dr_idd := (dr_idd d)\<lparr>id_configProperty := id_configProperty (dr_idd d) @ [pr]\<rparr>\<rparr>"

definition add_artifact :: "nat \<Rightarrow> 'd draft \<Rightarrow> 'd draft" where
  "add_artifact a d = d\<lparr>dr_mdd := (dr_mdd d)\<lparr>md_artifactRef := md_artifactRef (dr_mdd d) @ [a]\<rparr>\<rparr>"

definition set_node :: "string \<Rightarrow> 'd draft \<Rightarrow> 'd draft" where
  "set_node n d = d\<lparr>dr_idd := (dr_idd d)\<lparr>id_node := n\<rparr>\<rparr>"

definition set_locality :: "string \<Rightarrow> 'd draft \<Rightarrow> 'd draft" where
  "set_locality l d = (add_config (string_property COMPONENT_LOCALITY l) d)\<lparr>dr_locality := l\<rparr>"

definition set_container :: "string \<Rightarrow> 'd draft \<Rightarrow> 'd draft" where
  "set_container c d = add_config (string_property COMPONENT_CONTAINER c) d"

definition string_option :: "(string \<Rightarrow> 'd draft \<Rightarrow> 'd draft) \<Rightarrow> parser \<Rightarrow> 'd draft \<Rightarrow>
    bool \<times> parser \<times> 'd draft" where
  "string_option f p d =
     (case load_string p of
        (Bad_Literal, q) \<Rightarrow> (False, q, d)
      | (No_Literal, q) \<Rightarrow> (True, q, d)
      | (Value s, q) \<Rightarrow> (True, q, f s d))"

text \<open>An object property: an execution parameter of the implementation, or a property of the instance.\<close>

definition load_object_property ::
  "'d env \<Rightarrow> parser \<Rightarrow> 'd draft \<Rightarrow> bool \<times> parser \<times> 'd draft" where
  "load_object_property env p d =
     (case load_property_definition env p of
        (None, q) \<Rightarrow> (False, q, d)
      | (Some pr, q) \<Rightarrow> (True, q, if tid p = IExecParam then add_exec pr d else add_config pr d))"

definition load_artifact_option ::
  "'d env \<Rightarrow> parser \<Rightarrow> 'd draft \<Rightarrow> 'd state \<Rightarrow> bool \<times> parser \<times> 'd draft \<times> 'd state" where
  "load_artifact_option env p d st =
     (case load_artifact_definition env p st of
        (False, q, st') \<Rightarrow> (False, q, d, st')
      | (True, q, st') \<Rightarrow> (True, q, add_artifact (u32 env (length (artifacts st')) - 1) d, st'))"

definition load_option ::
  "'d env \<Rightarrow> parser \<Rightarrow> 'd draft \<Rightarrow> 'd state \<Rightarrow> bool \<times> parser \<times> 'd draft \<times> 'd state" where
  "load_option env p d st =
     (let plain = \<lambda>(b, q, d'). (b, q, d', st) in
      case tid p of
        IExecParam \<Rightarrow> plain (load_object_property env p d)
      | IConfigProp \<Rightarrow> plain (load_object_property env p d)
      | INode \<Rightarrow> plain (string_option set_node p d)
      | ILocality \<Rightarrow> plain (string_option set_locality p d)
      | IContainerID \<Rightarrow> plain (string_option set_container p d)
      | IArtifact \<Rightarrow> load_artifact_option env p d st
      | _ \<Rightarrow>
          (case load_connection_definitions env (id_name (dr_idd d)) p st of (b, q, st') \<Rightarrow> (b, q, d, st')))"

text \<open>The options each kind of instance accepts: the conditions of the three loops.\<close>

datatype instance_kind = Component_Kind | Locality_Kind | Container_Kind

fun accepts :: "instance_kind \<Rightarrow> token_id \<Rightarrow> bool" where
  "accepts Component_Kind t \<longleftrightarrow>
     t = IExecParam \<or> t = IConfigProp \<or> t = INode \<or> t = ILocality \<or> t = IContainerID \<or> t = IArtifact
     \<or> t = IConnection \<or> t = IExternalConnection"
| "accepts Locality_Kind t \<longleftrightarrow>
     t = IExecParam \<or> t = IConfigProp \<or> t = INode \<or> t = ILocality \<or> t = IArtifact"
| "accepts Container_Kind t \<longleftrightarrow>
     t = IExecParam \<or> t = IConfigProp \<or> t = INode \<or> t = ILocality \<or> t = IContainerID \<or> t = IArtifact"

lemma accepts_token: "accepts k t \<Longrightarrow> t \<noteq> INone"
  by (cases k) auto

lemma load_string_less: "tid p \<noteq> INone \<Longrightarrow> psize (snd (load_string p)) < psize p"
  by (rule advanced_less [OF _ load_string_advanced])

lemma load_option_less:
  assumes "tid p \<noteq> INone"
  shows "psize (fst (snd (load_option env p d st))) < psize p"
proof -
  have "psize (fst (snd (load_object_property env p d))) < psize p"
    using definition_less [OF assms, of env]
    by (auto simp: load_object_property_def split: prod.splits option.splits)
  moreover have "psize (fst (snd (string_option f p d))) < psize p" for f
    using load_string_less [OF assms] by (auto simp: string_option_def split: prod.splits option_value.splits)
  moreover have "psize (fst (snd (load_artifact_option env p d st))) < psize p"
    using artifact.shrinks [OF assms, of env st]
    by (auto simp: load_artifact_option_def split: prod.splits bool.splits)
  moreover have "psize (fst (snd (load_connection_definitions env i p st))) < psize p" for i
    using connection.shrinks [OF assms] by blast
  ultimately show ?thesis
    unfolding load_option_def Let_def by (cases "tid p") (simp_all add: case_prod_unfold)
qed

function load_options ::
  "instance_kind \<Rightarrow> 'd env \<Rightarrow> parser \<Rightarrow> 'd draft \<Rightarrow> 'd state \<Rightarrow> bool \<times> parser \<times> 'd draft \<times> 'd state" where
  "load_options k env p d st =
     (if accepts k (tid p)
      then (case load_option env p d st of
              (False, q, d', st') \<Rightarrow> (False, q, d', st')
            | (True, q, d', st') \<Rightarrow> load_options k env q d' st')
      else (True, p, d, st))"
  by pat_completeness auto
termination
proof (relation "measure (\<lambda>(_, _, p, _). psize p)", simp, clarsimp)
  fix k and env :: "'d env" and p d st q d' st'
  assume "accepts k (tid p)" and "(True, q, d', st') = load_option env p d st"
  then show "psize q < psize p"
    using load_option_less [OF accepts_token, of k p env d st] by (metis fst_conv snd_conv)
qed

declare load_options.simps [simp del]

section \<open>Entering an instance\<close>

text \<open>
  The implementation a known name has; otherwise a fresh one of that name. \<open>known\<close> is the negation
  of the flag new_mdd of the code.
\<close>

definition known_implementation :: "string \<Rightarrow> 'd state \<Rightarrow> bool" where
  "known_implementation n st \<longleftrightarrow> map_has (component_implementations st) n"

definition start_implementation :: "string \<Rightarrow> 'd state \<Rightarrow> 'd mdd" where
  "start_implementation n st =
     (case map_get (component_implementations st) n of
        None \<Rightarrow> new_mdd\<lparr>md_name := n\<rparr>
      | Some i \<Rightarrow> implementations st ! i)"

definition push_implementation :: "'d env \<Rightarrow> 'd mdd \<Rightarrow> 'd state \<Rightarrow> 'd state" where
  "push_implementation env m st =
     st\<lparr>component_implementations :=
          map_put (md_name m) (u32 env (length (implementations st))) (component_implementations st),
        st_components := (st_components st)\<lparr>pl_implementation := implementations st @ [m]\<rparr>\<rparr>"

text \<open>
  The new implementation, or the reference to the known one. The new implementation is moved into the
  plan, which leaves the artifact list of the local variable empty for the loop that follows.
\<close>

definition enter_implementation ::
  "'d env \<Rightarrow> bool \<Rightarrow> 'd properties \<Rightarrow> 'd draft \<Rightarrow> 'd state \<Rightarrow> 'd draft \<times> 'd state" where
  "enter_implementation env known extra d st =
     (if known then
        (d\<lparr>dr_idd := (dr_idd d)\<lparr>id_implementationRef :=
             map_at 0 (component_implementations st) (md_name (dr_mdd d))\<rparr>\<rparr>, st)
      else
        (let ref = u32 env (length (implementations st));
             m = (dr_mdd d)\<lparr>md_execParameter := md_execParameter (dr_mdd d) @ extra\<rparr>
         in (d\<lparr>dr_idd := (dr_idd d)\<lparr>id_implementationRef := ref\<rparr>,
               dr_mdd := m\<lparr>md_artifactRef := []\<rparr>\<rparr>,
             push_implementation env m st)))"

text \<open>The exclusive artifacts of the local implementation get the node of the instance.\<close>

definition bind_artifact :: "string \<Rightarrow> nat \<Rightarrow> 'd artifact list \<Rightarrow> 'd artifact list" where
  "bind_artifact node a arts =
     vec_upd a (\<lambda>x. if ar_node x = exclusive_mark then x\<lparr>ar_node := node\<rparr> else x) arts"

definition bind_artifacts :: "'d draft \<Rightarrow> 'd state \<Rightarrow> 'd state" where
  "bind_artifacts d st =
     st\<lparr>st_components := (st_components st)
          \<lparr>pl_artifact := fold (bind_artifact (id_node (dr_idd d))) (md_artifactRef (dr_mdd d)) (artifacts st)\<rparr>\<rparr>"

definition enter_locality :: "'d env \<Rightarrow> 'd draft \<Rightarrow> 'd state \<Rightarrow> 'd state" where
  "enter_locality env d st =
     st\<lparr>node_map :=
       map_modify [] (map_modify [] (\<lambda>xs. xs @ [u32 env (length (instances st))]) (dr_locality d))
         (id_node (dr_idd d)) (node_map st)\<rparr>"

definition push_instance :: "'d draft \<Rightarrow> 'd state \<Rightarrow> 'd state" where
  "push_instance d st =
     st\<lparr>st_components := (st_components st)\<lparr>pl_instance := instances st @ [dr_idd d]\<rparr>\<rparr>"

definition name_instance :: "'d env \<Rightarrow> 'd draft \<Rightarrow> 'd state \<Rightarrow> 'd state" where
  "name_instance env d st =
     st\<lparr>component_instances :=
          map_put (id_name (dr_idd d)) (u32 env (length (instances st))) (component_instances st)\<rparr>"

definition name_locality :: "'d env \<Rightarrow> 'd draft \<Rightarrow> 'd state \<Rightarrow> 'd state" where
  "name_locality env d st =
     st\<lparr>lm_instances :=
          map_put (dr_locality d) (u32 env (length (instances st))) (lm_instances st)\<rparr>"

section \<open>Components\<close>

definition component_parameters ::
  "string \<Rightarrow> string \<Rightarrow> 32 word \<Rightarrow> string \<Rightarrow> 'd properties" where
  "component_parameters artifact factory mode ctype =
     [string_property COMPONENT_ARTIFACT artifact, string_property COMPONENT_FACTORY factory,
      mk_prop DANCE_PLUGIN_OPENMODE (PrimAny (VUInt32 mode)), string_property IMPL_TYPE ctype]"

definition finish_component ::
  "'d env \<Rightarrow> bool \<Rightarrow> 'd properties \<Rightarrow> 'd draft \<Rightarrow> 'd state \<Rightarrow> 'd state" where
  "finish_component env known extra d st =
     (let (d1, st1) = enter_implementation env known extra d st;
          st2 = name_instance env d1 (bind_artifacts d1 st1);
          st3 = (if dr_locality d1 \<noteq> [] then enter_locality env d1 st2 else st2)
      in push_instance d1 st3)"

definition load_component_config :: "'d env \<Rightarrow> parser \<Rightarrow> 'd state \<Rightarrow> 'd loaded" where
  "load_component_config env p st =
     (let ctype = token p; p1 = parse_next False p in
      if tid p1 \<noteq> IText then (False, p1, st)
      else if map_has (component_instances st) (token p1) then (False, p1, st)
      else let p2 = parse_next False p1 in
      if tid p2 \<noteq> IText then (False, p2, st)
      else let artifact = token p2; p3 = parse_next False p2 in
      if tid p3 \<noteq> IText then (False, p3, st)
      else let factory = token p3; impl = artifact @ ''.'' @ factory in
      case load_open_mode env p3 of
        (None, p4) \<Rightarrow> (False, p4, st)
      | (Some mode, p4) \<Rightarrow>
          (case load_options Component_Kind env p4
                  \<lparr>dr_mdd = start_implementation impl st, dr_idd = new_idd\<lparr>id_name := token p1\<rparr>,
                   dr_locality = []\<rparr> st of
             (False, p5, _, st1) \<Rightarrow> (False, p5, st1)
           | (True, p5, d, st1) \<Rightarrow>
               (True, p5, finish_component env (known_implementation impl st)
                  (component_parameters artifact factory mode ctype) d st1)))"

section \<open>Localities\<close>

abbreviation locality_implementation :: string where
  "locality_implementation \<equiv> ''_AXCIOMA_LocalityManagerSvc_''"

definition finish_locality ::
  "'d env \<Rightarrow> bool \<Rightarrow> 'd properties \<Rightarrow> 'd draft \<Rightarrow> 'd state \<Rightarrow> 'd state" where
  "finish_locality env known extra d st =
     (let (d1, st1) = enter_implementation env known extra d st
      in push_instance d1 (name_locality env d1 (enter_locality env d1 (bind_artifacts d1 st1))))"

definition load_locality_config :: "'d env \<Rightarrow> parser \<Rightarrow> 'd state \<Rightarrow> 'd loaded" where
  "load_locality_config env p st =
     (let ltype = token p; p1 = parse_next False p in
      if tid p1 \<noteq> IText then (False, p1, st)
      else
        case load_options Locality_Kind env (parse_next False p1)
               \<lparr>dr_mdd = start_implementation locality_implementation st,
                dr_idd = new_idd\<lparr>id_name := token p1\<rparr>, dr_locality = token p1\<rparr> st of
          (False, p2, _, st1) \<Rightarrow> (False, p2, st1)
        | (True, p2, d, st1) \<Rightarrow>
            if map_has (lm_instances st1) (dr_locality d) then (False, p2, st1)
            else (True, p2, finish_locality env (known_implementation locality_implementation st)
                    [string_property IMPL_TYPE ltype] d st1))"

section \<open>Containers\<close>

abbreviation container_implementation :: string where
  "container_implementation \<equiv> ''_AXCIOMA_CCMContainer_''"

definition finish_container ::
  "'d env \<Rightarrow> bool \<Rightarrow> 'd properties \<Rightarrow> 'd draft \<Rightarrow> 'd state \<Rightarrow> 'd state" where
  "finish_container env known extra d st =
     (let (d1, st1) = enter_implementation env known extra d st;
          st2 = bind_artifacts d1 st1;
          st3 = (if dr_locality d1 \<noteq> [] then enter_locality env d1 st2 else st2)
      in push_instance d1 st3)"

definition load_container_config :: "'d env \<Rightarrow> parser \<Rightarrow> 'd state \<Rightarrow> 'd loaded" where
  "load_container_config env p st =
     (let ctype = token p; p1 = parse_next False p in
      if tid p1 \<noteq> IText then (False, p1, st)
      else if map_has (component_instances st) (token p1) then (False, p1, st)
      else
        case load_options Container_Kind env (parse_next False p1)
               \<lparr>dr_mdd = start_implementation container_implementation st,
                dr_idd = new_idd\<lparr>id_name := token p1\<rparr>, dr_locality = []\<rparr> st of
          (False, p2, _, st1) \<Rightarrow> (False, p2, st1)
        | (True, p2, d, st1) \<Rightarrow>
            (True, p2, finish_container env (known_implementation container_implementation st)
               [string_property IMPL_TYPE ctype] d st1))"

section \<open>Plugins\<close>

function load_plugin_properties :: "'d env \<Rightarrow> parser \<Rightarrow> 'd draft \<Rightarrow> bool \<times> parser \<times> 'd draft" where
  "load_plugin_properties env p d =
     (if at_object_property p
      then (case load_object_property env p d of
              (False, q, d') \<Rightarrow> (False, q, d')
            | (True, q, d') \<Rightarrow> load_plugin_properties env q d')
      else (True, p, d))"
  by pat_completeness auto
termination
proof (relation "measure (\<lambda>(_, p, _). psize p)", simp, clarsimp)
  fix env :: "'d env" and p d q d'
  assume "at_object_property p" and "(True, q, d') = load_object_property env p d"
  then show "psize q < psize p"
    using definition_less [of p env]
    by (auto simp: at_object_property_def load_object_property_def split: prod.splits option.splits)
qed

declare load_plugin_properties.simps [simp del]

text \<open>The name of the implementation, the artifact, the factory and the parser at the factory.\<close>

definition plugin_header :: "parser \<Rightarrow> (string \<times> string \<times> string) option \<times> parser" where
  "plugin_header p =
     (let p1 = parse_next False p in
      if tid p1 \<noteq> IText then (None, p1)
      else let p2 = parse_next False p1 in
      if tid p2 \<noteq> IText then (None, p2)
      else if break_ch p2 = CHR '':'' then
        (let p3 = parse_next False p2 in
         if tid p3 \<noteq> IText then (None, p3) else (Some (token p1, token p2, token p3), p3))
      else (Some (token p1 @ ''_'', token p1, token p2), p2))"

definition finish_plugin :: "'d env \<Rightarrow> 'd properties \<Rightarrow> 'd draft \<Rightarrow> 'd state \<Rightarrow> 'd state" where
  "finish_plugin env extra d st =
     (let plan = st_plugins st;
          m = (dr_mdd d)\<lparr>md_execParameter := md_execParameter (dr_mdd d) @ extra\<rparr>;
          i = (dr_idd d)\<lparr>id_implementationRef := u32 env (length (pl_implementation plan))\<rparr>
      in st\<lparr>st_plugins := plan\<lparr>pl_implementation := pl_implementation plan @ [m],
                               pl_instance := pl_instance plan @ [i]\<rparr>,
            plugin_instances :=
              map_put (id_name i) (u32 env (length (pl_instance plan))) (plugin_instances st)\<rparr>)"

definition load_plugin_config :: "'d env \<Rightarrow> parser \<Rightarrow> 'd state \<Rightarrow> 'd loaded" where
  "load_plugin_config env p st =
     (let ptype = token p in
      case plugin_header p of
        (None, q) \<Rightarrow> (False, q, st)
      | (Some (impl, artifact, factory), p1) \<Rightarrow>
          let name = artifact @ ''.'' @ factory in
          if map_has (plugin_instances st) name then (False, p1, st)
          else case load_open_mode env p1 of
            (None, q) \<Rightarrow> (False, q, st)
          | (Some mode, p2) \<Rightarrow>
              (case load_plugin_properties env p2
                      \<lparr>dr_mdd = new_mdd\<lparr>md_name := impl\<rparr>, dr_idd = new_idd\<lparr>id_name := name\<rparr>,
                       dr_locality = []\<rparr> of
                 (False, q, _) \<Rightarrow> (False, q, st)
               | (True, q, d) \<Rightarrow>
                   (True, q, finish_plugin env
                      [string_property DANCE_PLUGIN_ARTIFACT artifact,
                       string_property DANCE_PLUGIN_FACTORY factory,
                       mk_prop DANCE_PLUGIN_OPENMODE (PrimAny (VUInt32 mode)),
                       string_property IMPL_TYPE ptype] d st)))"

section \<open>The invariant: options\<close>

text \<open>What reading options leaves alone.\<close>

definition extends :: "'d state \<Rightarrow> 'd state \<Rightarrow> bool" where
  "extends st st' \<longleftrightarrow> implementations st' = implementations st \<and> instances st' = instances st
     \<and> component_implementations st' = component_implementations st
     \<and> component_instances st' = component_instances st \<and> lm_instances st' = lm_instances st
     \<and> node_map st' = node_map st \<and> length (artifacts st) \<le> length (artifacts st')"

lemma extends_refl [simp]: "extends st st"
  by (simp add: extends_def)

lemma extends_trans: "extends st st' \<Longrightarrow> extends st' st'' \<Longrightarrow> extends st st''"
  by (auto simp: extends_def)

lemma extends_artifact: "load_artifact_definition env p st = (b, q, st') \<Longrightarrow> extends st st'"
  using artifact_cases [of env p st b q st'] by (auto simp: extends_def split: if_splits)

lemma extends_enter:
  "extends st (enter_internal env i j c st)" "extends st (enter_external env i c st)"
  by (simp_all add: extends_def enter_internal_def enter_external_def Let_def)

lemma extends_internal: "internal_links env inst peer p st = (b, q, st') \<Longrightarrow> extends st st'"
proof (induction "psize p" arbitrary: p st rule: less_induct)
  case less
  from less(2) show ?case
    by (cases rule: internal_links_cases)
      (auto intro: extends_trans [OF extends_enter(1)] less(1))
qed

lemma extends_external: "external_links env inst p st = (b, q, st') \<Longrightarrow> extends st st'"
proof (induction "psize p" arbitrary: p st rule: less_induct)
  case less
  from less(2) show ?case
    by (cases rule: external_links_cases)
      (auto intro: extends_trans [OF extends_enter(2)] less(1))
qed

lemma extends_connection:
  "load_connection_definitions env inst p st = (b, q, st') \<Longrightarrow> extends st st'"
  by (auto simp: load_connection_definitions_def Let_def split: if_splits
      dest: extends_internal extends_external)

definition draft_ok :: "'d state \<Rightarrow> 'd draft \<Rightarrow> bool" where
  "draft_ok st d \<longleftrightarrow> list_all (\<lambda>a. a < length (artifacts st)) (md_artifactRef (dr_mdd d))"

lemma draft_ok_extends: "draft_ok st d \<Longrightarrow> extends st st' \<Longrightarrow> draft_ok st' d"
  by (auto simp: draft_ok_def extends_def list_all_iff)

text \<open>The names and references an option never touches.\<close>

definition same_names :: "'d draft \<Rightarrow> 'd draft \<Rightarrow> bool" where
  "same_names d d' \<longleftrightarrow> md_name (dr_mdd d') = md_name (dr_mdd d) \<and> id_name (dr_idd d') = id_name (dr_idd d)"

lemma same_names_refl [simp]: "same_names d d"
  by (simp add: same_names_def)

lemma draft_updates [simp]:
  "draft_ok st (add_exec pr d) = draft_ok st d" "draft_ok st (add_config pr d) = draft_ok st d"
  "draft_ok st (set_node n d) = draft_ok st d" "draft_ok st (set_locality n d) = draft_ok st d"
  "draft_ok st (set_container n d) = draft_ok st d"
  "same_names d (add_exec pr d)" "same_names d (add_config pr d)" "same_names d (set_node n d)"
  "same_names d (set_locality n d)" "same_names d (set_container n d)" "same_names d (add_artifact a d)"
  by (simp_all add: draft_ok_def same_names_def add_exec_def add_config_def set_node_def
      set_locality_def set_container_def add_artifact_def)

lemma object_property_draft:
  "load_object_property env p d = (b, q, d') \<Longrightarrow> draft_ok st d' = draft_ok st d \<and> same_names d d'"
  by (auto simp: load_object_property_def split: prod.splits option.splits if_splits)

lemma string_option_draft:
  "string_option f p d = (b, q, d') \<Longrightarrow> d' = d \<or> (\<exists>s. d' = f s d)"
  by (auto simp: string_option_def split: prod.splits option_value.splits)

lemma artifact_option_ok:
  assumes env: "truncates env" and inv: "inv N p st" and d: "draft_ok st d"
    and op: "load_artifact_option env p d st = (b, q, d', st')"
  shows "inv N q st' \<and> extends st st' \<and> draft_ok st' d' \<and> same_names d d'"
proof -
  obtain c where c: "load_artifact_definition env p st = (c, q, st')"
    using op by (auto simp: load_artifact_option_def split: prod.splits bool.splits)
  have inv': "inv N q st'" using artifact.keeps [OF _ inv c] by simp
  have ext: "extends st st'" by (rule extends_artifact [OF c])
  show ?thesis
  proof (cases c)
    case True
    with artifact_cases [OF c] have "artifacts st' \<noteq> []" by auto
    moreover have "u32 env (length (artifacts st')) = length (artifacts st')"
      using inv' by (intro u32_id [OF env]) (simp add: inv_def fits_def)
    ultimately have "u32 env (length (artifacts st')) - 1 < length (artifacts st')"
      by simp
    with c True op d ext draft_ok_extends [OF d ext] inv' show ?thesis
      by (auto simp: load_artifact_option_def draft_ok_def add_artifact_def same_names_def)
  next
    case False
    with c op d ext inv' draft_ok_extends [OF d ext] show ?thesis
      by (auto simp: load_artifact_option_def)
  qed
qed

lemma load_option_ok:
  assumes env: "truncates env" and inv: "inv N p st" and d: "draft_ok st d" and p: "tid p \<noteq> INone"
    and op: "load_option env p d st = (b, q, d', st')"
  shows "inv N q st' \<and> extends st st' \<and> draft_ok st' d' \<and> same_names d d'"
proof -
  have "psize q < psize p" using load_option_less [OF p, of env d st] op by simp
  with inv have inv': "inv N q st" by (auto intro: inv_mono)
  consider (plain) "st' = st" "draft_ok st d' = draft_ok st d" "same_names d d'"
    | (art) "load_artifact_option env p d st = (b, q, d', st')"
    | (conn) "load_connection_definitions env (id_name (dr_idd d)) p st = (b, q, st')" "d' = d"
    using op
    by (cases "tid p")
      (auto simp: load_option_def Let_def split: prod.splits
        dest!: string_option_draft object_property_draft [where st = st])
  then show ?thesis
  proof cases
    case plain
    with inv' d show ?thesis by simp
  next
    case art
    then show ?thesis by (rule artifact_option_ok [OF env inv d])
  next
    case conn
    with connection.keeps [OF env inv conn(1)] extends_connection [OF conn(1)] d show ?thesis
      by (simp add: draft_ok_extends)
  qed
qed

lemma load_options_ok:
  "truncates env \<Longrightarrow> inv N p st \<Longrightarrow> draft_ok st d \<Longrightarrow> load_options k env p d st = (b, q, d', st') \<Longrightarrow>
    inv N q st' \<and> extends st st' \<and> draft_ok st' d' \<and> same_names d d' \<and> psize q \<le> psize p"
proof (induction k env p d st rule: load_options.induct)
  case (1 k env p d st)
  show ?case
  proof (cases "accepts k (tid p)")
    case True
    obtain c q1 d1 st1 where o: "load_option env p d st = (c, q1, d1, st1)" by (metis prod_cases4)
    have ok: "inv N q1 st1 \<and> extends st st1 \<and> draft_ok st1 d1 \<and> same_names d d1"
      by (rule load_option_ok [OF 1(2-4) accepts_token [OF True] o])
    have le: "psize q1 < psize p"
      using load_option_less [OF accepts_token [OF True], of env d st] o by simp
    show ?thesis
    proof (cases c)
      case c: True
      then have "load_options k env q1 d1 st1 = (b, q, d', st')"
        using 1(5) True o by (subst (asm) load_options.simps) simp
      with ok have "inv N q st' \<and> extends st1 st' \<and> draft_ok st' d' \<and> same_names d1 d' \<and> psize q \<le> psize q1"
        using o c by (intro 1(1) [OF True _ refl refl refl 1(2)]) simp_all
      with ok le extends_trans [of st st1 st'] show ?thesis
        by (auto simp: same_names_def)
    next
      case False
      with 1(5) True o ok le show ?thesis
        by (subst (asm) load_options.simps) auto
    qed
  next
    case False
    with 1 show ?thesis by (simp add: load_options.simps)
  qed
qed

section \<open>The invariant: entering an instance\<close>

lemma inv_slack: "inv N p st \<Longrightarrow> psize q < psize p \<Longrightarrow> inv (N - 1) q st \<and> 0 < N"
  by (auto simp: inv_def fits_def)

text \<open>What the three ways of entering an instance have in common, before the instance is pushed.\<close>

definition entering :: "'d draft \<Rightarrow> 'd state \<Rightarrow> bool" where
  "entering d st \<longleftrightarrow> connections_inv st \<and> implementations_inv st \<and> instances_inv st
     \<and> localities_inv st \<and> draft_ok st d \<and> id_implementationRef (dr_idd d) < length (implementations st)"

lemma list_all_less_mono: "list_all (\<lambda>a. f a < (m::nat)) xs \<Longrightarrow> m \<le> n \<Longrightarrow> list_all (\<lambda>a. f a < n) xs"
  by (auto simp: list_all_iff)

lemma push_implementation_simps [simp]:
  "implementations (push_implementation env m st) = implementations st @ [m]"
  "instances (push_implementation env m st) = instances st"
  "connections (push_implementation env m st) = connections st"
  "artifacts (push_implementation env m st) = artifacts st"
  "component_implementations (push_implementation env m st) =
     map_put (md_name m) (u32 env (length (implementations st))) (component_implementations st)"
  "component_instances (push_implementation env m st) = component_instances st"
  "connection_instances (push_implementation env m st) = connection_instances st"
  "lm_instances (push_implementation env m st) = lm_instances st"
  "node_map (push_implementation env m st) = node_map st"
  "instance_ep_map (push_implementation env m st) = instance_ep_map st"
  by (simp_all add: push_implementation_def)

lemma push_implementation_inv:
  assumes "implementations_inv st" and "u32 env (length (implementations st)) = length (implementations st)"
    and "list_all (\<lambda>a. a < length (artifacts st)) (md_artifactRef m)"
  shows "implementations_inv (push_implementation env m st)"
  using assms
  by (auto simp: implementations_inv_def smap.get_put map_ok_put nth_append less_SucI split: if_splits)

lemma enter_implementation_ok:
  assumes inv: "inv M p st" and d: "draft_ok st d" and env: "truncates env"
    and known: "known = known_implementation (md_name (dr_mdd d)) st"
    and op: "enter_implementation env known extra d st = (d', st')"
  shows "entering d' st' \<and> length (implementations st') \<le> length (implementations st) + 1
    \<and> instances st' = instances st \<and> connections st' = connections st \<and> artifacts st' = artifacts st
    \<and> id_name (dr_idd d') = id_name (dr_idd d)"
proof -
  have parts: "connections_inv st" "implementations_inv st" "instances_inv st" "localities_inv st"
    using inv by (simp_all add: inv_def)
  show ?thesis
  proof (cases known)
    case True
    with known obtain i where i: "map_get (component_implementations st) (md_name (dr_mdd d)) = Some i"
      by (auto simp: known_implementation_def map_has_def)
    then have "i < length (implementations st)"
      using parts(2) by (simp add: implementations_inv_def)
    with True op i parts d show ?thesis
      by (auto simp: enter_implementation_def entering_def draft_ok_def map_at_def)
  next
    case False
    let ?m = "(dr_mdd d)\<lparr>md_execParameter := md_execParameter (dr_mdd d) @ extra\<rparr>"
    have small: "u32 env (length (implementations st)) = length (implementations st)"
      using inv by (intro u32_id [OF env]) (simp add: inv_def fits_def)
    have st': "st' = push_implementation env ?m st"
      and d': "dr_idd d' = (dr_idd d)\<lparr>id_implementationRef := length (implementations st)\<rparr>"
        "md_artifactRef (dr_mdd d') = []"
      using op False by (auto simp: enter_implementation_def Let_def small)
    have "implementations_inv st'"
      unfolding st' using d by (intro push_implementation_inv parts small) (simp add: draft_ok_def)
    moreover have "connections_inv st'" "localities_inv st'"
      using parts by (simp_all add: st' connections_inv_def localities_inv_def)
    moreover have "instances_inv st'"
      using parts(3) by (auto simp: st' instances_inv_def list_all_less_mono)
    ultimately show ?thesis
      by (simp add: entering_def draft_ok_def d' st')
  qed
qed

lemma modified_locality:
  assumes "map_ok m" and "\<And>l xs. map_get m l = Some xs \<Longrightarrow> xs \<noteq> [] \<and> list_all (\<lambda>i. i < k) xs"
    and "map_get (map_modify [] (\<lambda>xs. xs @ [k]) l0 m) l = Some xs"
  shows "xs \<noteq> [] \<and> list_all (\<lambda>i. i < Suc k) xs"
  using assms(2) [of l0] assms(2) [of l] assms(3)
  by (auto simp: map_get_modify assms(1) map_at_def list_all_iff less_SucI split: if_splits option.splits)

lemma locality_entered:
  assumes "localities_inv st" and small: "u32 env (length (instances st)) = length (instances st)"
    and st': "node_map st' = node_map (enter_locality env d st)" "instances st' = instances st @ [x]"
  shows "localities_inv st'"
proof -
  let ?n = "id_node (dr_idd d)" and ?l = "dr_locality d" and ?i = "length (instances st)"
  let ?m = "map_at [] (node_map st) ?n"
  have nm: "map_ok (node_map st)"
    and old: "map_get (node_map st) n = Some m \<Longrightarrow> map_ok m \<and>
      (\<forall>l xs. map_get m l = Some xs \<longrightarrow> xs \<noteq> [] \<and> list_all (\<lambda>i. i < ?i) xs)" for n m
    using assms(1) by (auto simp: localities_inv_def)
  have m: "map_ok ?m" "map_get ?m l = Some xs \<Longrightarrow> xs \<noteq> [] \<and> list_all (\<lambda>i. i < ?i) xs" for l xs
    using old [of ?n] by (auto simp: map_at_def split: option.splits)
  let ?m' = "map_modify [] (\<lambda>xs. xs @ [?i]) ?l ?m"
  have nm': "node_map st' = map_put ?n ?m' (node_map st)"
    unfolding st' enter_locality_def map_modify_def [of "[]" "map_modify _ _ _"] small by simp
  have "map_ok ?m'" by (simp add: map_ok_modify m)
  moreover have "xs \<noteq> [] \<and> list_all (\<lambda>i. i < Suc ?i) xs" if "map_get ?m' l = Some xs" for l xs
    by (rule modified_locality [OF m that])
  moreover have "map_ok m \<and> (\<forall>l xs. map_get m l = Some xs \<longrightarrow> xs \<noteq> [] \<and> list_all (\<lambda>i. i < Suc ?i) xs)"
    if "map_get (node_map st) n = Some m" for n m
    using old [OF that] by (force simp: list_all_iff)
  ultimately show ?thesis
    unfolding localities_inv_def nm' st'(2)
    by (auto simp: map_ok_put nm smap.get_put split: if_splits)
qed

lemma instance_entered:
  assumes "entering d st" and small: "u32 env (length (instances st)) = length (instances st)"
    and same: "implementations st' = implementations st" "length (artifacts st') = length (artifacts st)"
      "component_implementations st' = component_implementations st" "connections st' = connections st"
      "connection_instances st' = connection_instances st" "instance_ep_map st' = instance_ep_map st"
    and pushed: "instances st' = instances st @ [dr_idd d]"
    and names: "component_instances st' = component_instances st \<or>
      component_instances st' = map_put (id_name (dr_idd d)) (length (instances st)) (component_instances st)"
    and lms: "lm_instances st' = lm_instances st \<or>
      lm_instances st' = map_put (dr_locality d) (length (instances st)) (lm_instances st)"
    and nodes: "node_map st' = node_map st \<or> node_map st' = node_map (enter_locality env d st)"
  shows "connections_inv st' \<and> implementations_inv st' \<and> instances_inv st' \<and> localities_inv st'"
proof (intro conjI)
  show "connections_inv st'" "implementations_inv st'"
    using assms(1) same by (simp_all add: entering_def connections_inv_def implementations_inv_def)
  have old: "instances_inv st" "localities_inv st" using assms(1) by (simp_all add: entering_def)
  have lengths: "list_all (\<lambda>i. i < length (instances st')) xs"
    if "list_all (\<lambda>i. i < length (instances st)) xs" for xs
    using that by (auto simp: pushed list_all_iff)
  from nodes show "localities_inv st'"
  proof
    assume "node_map st' = node_map st"
    with old(2) lengths show ?thesis by (simp add: localities_inv_def)
  qed (rule locality_entered [OF old(2) small _ pushed])
  have "list_all (\<lambda>i. id_implementationRef i < length (implementations st')) (instances st')"
    using old(1) assms(1) by (simp add: same pushed instances_inv_def entering_def)
  moreover have "map_ok (component_instances st') \<and> map_ok (lm_instances st')"
    using old(1) names lms by (auto simp: instances_inv_def map_ok_put)
  moreover have "i < length (instances st') \<and> id_name (instances st' ! i) = n"
    if "map_get (component_instances st') n = Some i" for n i
    using names old(1) that
    by (auto simp: instances_inv_def pushed smap.get_put nth_append less_SucI split: if_splits)
  moreover have "i < length (instances st')" if "map_get (lm_instances st') n = Some i" for n i
    using lms old(1) that
    by (auto simp: instances_inv_def pushed smap.get_put less_SucI split: if_splits)
  ultimately show "instances_inv st'" by (simp add: instances_inv_def)
qed

lemma length_bind_artifacts: "length (fold (bind_artifact n) as arts) = length arts"
  by (induction as arbitrary: arts) (simp_all add: bind_artifact_def)

lemma enter_simps [simp]:
  "implementations (push_instance d st) = implementations st"
  "implementations (name_instance env d st) = implementations st"
  "implementations (name_locality env d st) = implementations st"
  "implementations (enter_locality env d st) = implementations st"
  "implementations (bind_artifacts d st) = implementations st"
  "length (artifacts (push_instance d st)) = length (artifacts st)"
  "length (artifacts (name_instance env d st)) = length (artifacts st)"
  "length (artifacts (name_locality env d st)) = length (artifacts st)"
  "length (artifacts (enter_locality env d st)) = length (artifacts st)"
  "length (artifacts (bind_artifacts d st)) = length (artifacts st)"
  "connections (push_instance d st) = connections st"
  "connections (name_instance env d st) = connections st"
  "connections (name_locality env d st) = connections st"
  "connections (enter_locality env d st) = connections st"
  "connections (bind_artifacts d st) = connections st"
  "instances (push_instance d st) = instances st @ [dr_idd d]"
  "instances (name_instance env d st) = instances st"
  "instances (name_locality env d st) = instances st"
  "instances (enter_locality env d st) = instances st"
  "instances (bind_artifacts d st) = instances st"
  by (simp_all add: push_instance_def name_instance_def name_locality_def enter_locality_def
      bind_artifacts_def length_bind_artifacts)

lemma enter_map_simps [simp]:
  "component_implementations (push_instance d st) = component_implementations st"
  "component_implementations (name_instance env d st) = component_implementations st"
  "component_implementations (name_locality env d st) = component_implementations st"
  "component_implementations (enter_locality env d st) = component_implementations st"
  "component_implementations (bind_artifacts d st) = component_implementations st"
  "connection_instances (push_instance d st) = connection_instances st"
  "connection_instances (name_instance env d st) = connection_instances st"
  "connection_instances (name_locality env d st) = connection_instances st"
  "connection_instances (enter_locality env d st) = connection_instances st"
  "connection_instances (bind_artifacts d st) = connection_instances st"
  "instance_ep_map (push_instance d st) = instance_ep_map st"
  "instance_ep_map (name_instance env d st) = instance_ep_map st"
  "instance_ep_map (name_locality env d st) = instance_ep_map st"
  "instance_ep_map (enter_locality env d st) = instance_ep_map st"
  "instance_ep_map (bind_artifacts d st) = instance_ep_map st"
  "component_instances (push_instance d st) = component_instances st"
  "component_instances (name_instance env d st) =
     map_put (id_name (dr_idd d)) (u32 env (length (instances st))) (component_instances st)"
  "component_instances (name_locality env d st) = component_instances st"
  "component_instances (enter_locality env d st) = component_instances st"
  "component_instances (bind_artifacts d st) = component_instances st"
  "lm_instances (push_instance d st) = lm_instances st"
  "lm_instances (name_instance env d st) = lm_instances st"
  "lm_instances (name_locality env d st) =
     map_put (dr_locality d) (u32 env (length (instances st))) (lm_instances st)"
  "lm_instances (enter_locality env d st) = lm_instances st"
  "lm_instances (bind_artifacts d st) = lm_instances st"
  "node_map (push_instance d st) = node_map st"
  "node_map (name_instance env d st) = node_map st"
  "node_map (name_locality env d st) = node_map st"
  "node_map (bind_artifacts d st) = node_map st"
  by (simp_all add: push_instance_def name_instance_def name_locality_def enter_locality_def
      bind_artifacts_def)

lemma node_map_enter:
  "node_map (enter_locality env d st) =
    map_modify [] (map_modify [] (\<lambda>xs. xs @ [u32 env (length (instances st))]) (dr_locality d))
      (id_node (dr_idd d)) (node_map st)"
  by (simp add: enter_locality_def)

text \<open>Each of the three ways of entering an instance keeps the invariant.\<close>

lemma entering_bind: "entering d (bind_artifacts d' st) \<longleftrightarrow> entering d st"
  by (simp add: entering_def connections_inv_def implementations_inv_def instances_inv_def
      localities_inv_def draft_ok_def)

lemma finish_ok:
  assumes inv: "inv M p st" and M: "Suc M < 2 ^ 32" and d: "draft_ok st d" and env: "truncates env"
    and known: "known = known_implementation (md_name (dr_mdd d)) st"
    and fin: "fin \<in> {finish_component, finish_locality, finish_container}"
  shows "inv (Suc M) p (fin env known extra d st)"
proof -
  obtain d1 st1 where e: "enter_implementation env known extra d st = (d1, st1)" by fastforce
  have ok: "entering d1 st1" and len: "length (implementations st1) \<le> length (implementations st) + 1"
    "instances st1 = instances st" "connections st1 = connections st" "artifacts st1 = artifacts st"
    using enter_implementation_ok [OF inv d env known e] by auto
  have small: "u32 env (length (instances st1)) = length (instances st1)"
    using inv len by (intro u32_id [OF env]) (simp add: inv_def fits_def)
  let ?st' = "fin env known extra d st"
  have eqs: "implementations ?st' = implementations st1" "length (artifacts ?st') = length (artifacts st1)"
    "component_implementations ?st' = component_implementations st1" "connections ?st' = connections st1"
    "connection_instances ?st' = connection_instances st1" "instance_ep_map ?st' = instance_ep_map st1"
    "instances ?st' = instances st1 @ [dr_idd d1]"
    using fin
    by (auto simp: finish_component_def finish_locality_def finish_container_def e Let_def)
  have "component_instances ?st' = component_instances st1 \<or>
      component_instances ?st' = map_put (id_name (dr_idd d1)) (length (instances st1)) (component_instances st1)"
    "lm_instances ?st' = lm_instances st1 \<or>
      lm_instances ?st' = map_put (dr_locality d1) (length (instances st1)) (lm_instances st1)"
    "node_map ?st' = node_map st1 \<or> node_map ?st' = node_map (enter_locality env d1 st1)"
    using fin small
    by (elim insertE emptyE; simp add: finish_component_def finish_locality_def
        finish_container_def e Let_def node_map_enter)+
  note inst = instance_entered [OF ok small eqs(1-6) eqs(7) this]
  have "fits (Suc M) p ?st'"
    using inv M len by (auto simp: inv_def fits_def eqs)
  with inst show ?thesis by (simp add: inv_def)
qed

lemma known_extends: "extends st st' \<Longrightarrow> known_implementation n st' = known_implementation n st"
  by (simp add: extends_def known_implementation_def)

lemma start_implementation_ok:
  assumes "implementations_inv st"
  shows "draft_ok st \<lparr>dr_mdd = start_implementation n st, dr_idd = i, dr_locality = l\<rparr>"
    "md_name (start_implementation n st) = n"
  using assms
  by (auto simp: draft_ok_def start_implementation_def implementations_inv_def new_mdd_def list_all_length
      split: option.split)

text \<open>From the parser after the header to the entered instance.\<close>

lemma read_instance_ok:
  assumes env: "truncates env" and inv: "inv N p st" and less: "psize p0 < psize p"
    and op: "load_options k env p0 \<lparr>dr_mdd = start_implementation n st, dr_idd = i, dr_locality = l\<rparr> st =
      (b, q, d, st1)"
    and fin: "fin \<in> {finish_component, finish_locality, finish_container}"
  shows "inv N q st1" "inv N q (fin env (known_implementation n st) extra d st1)" "psize q < psize p"
proof -
  have slack: "inv (N - 1) p0 st" "0 < N" and N: "N < 2 ^ 32"
    using inv_slack [OF inv less] inv by (simp_all add: inv_def fits_def)
  have "implementations_inv st" using inv by (simp add: inv_def)
  note start = start_implementation_ok [OF this]
  note opts = load_options_ok [OF env slack(1) start(1) op]
  then have inv1: "inv (N - 1) q st1" and ext: "extends st st1" and d: "draft_ok st1 d"
    and name: "md_name (dr_mdd d) = n" and le: "psize q \<le> psize p0"
    using start(2) by (auto simp: same_names_def)
  have "inv (Suc (N - 1)) q (fin env (known_implementation n st) extra d st1)"
    using slack(2) N
    by (intro finish_ok [OF inv1 _ d env _ fin]) (simp_all add: known_extends [OF ext] name)
  with slack(2) show "inv N q (fin env (known_implementation n st) extra d st1)" by simp
  show "psize q < psize p" using le less by simp
  show "inv N q st1" using inv1 N by (auto simp: inv_def fits_def)
qed

lemma load_options_size: "load_options k env p d st = (b, q, d', st') \<Longrightarrow> psize q \<le> psize p"
proof (induction k env p d st rule: load_options.induct)
  case (1 k env p d st)
  obtain c q1 d1 st1 where o: "load_option env p d st = (c, q1, d1, st1)" by (metis prod_cases4)
  show ?case
  proof (cases "accepts k (tid p)")
    case True
    have le: "psize q1 < psize p"
      using load_option_less [OF accepts_token [OF True], of env d st] o by simp
    show ?thesis
    proof (cases c)
      case c: True
      then have "load_options k env q1 d1 st1 = (b, q, d', st')"
        using 1(2) True o by (subst (asm) load_options.simps) simp
      then have "psize q \<le> psize q1"
        using o c by (intro 1(1) [OF True _ refl refl refl]) simp_all
      with le show ?thesis by simp
    next
      case False
      with 1(2) True o le show ?thesis by (subst (asm) load_options.simps) simp
    qed
  qed (use 1(2) in \<open>simp add: load_options.simps\<close>)
qed

text \<open>
  The shape of all three operations: they fail in the header, or they read the options with the
  implementation of some name as their draft, and fail there or enter the instance.
\<close>

definition entering_ops ::
  "('d env \<Rightarrow> bool \<Rightarrow> 'd properties \<Rightarrow> 'd draft \<Rightarrow> 'd state \<Rightarrow> 'd state) set" where
  "entering_ops = {finish_component, finish_locality, finish_container}"

definition reads_instance :: "'d env \<Rightarrow> parser \<Rightarrow> 'd state \<Rightarrow> 'd loaded \<Rightarrow> bool" where
  "reads_instance env p st r \<longleftrightarrow>
     (\<exists>q. r = (False, q, st) \<and> psize q \<le> psize (parse_next False p))
     \<or> (\<exists>k p0 n i l b q d st1. psize p0 < psize (parse_next False p)
          \<and> load_options k env p0 \<lparr>dr_mdd = start_implementation n st, dr_idd = i, dr_locality = l\<rparr> st
              = (b, q, d, st1)
          \<and> (r = (False, q, st1)
             \<or> (\<exists>fin \<in> entering_ops. \<exists>extra. r = (True, q, fin env (known_implementation n st) extra d st1))))"

lemma reads_instance_keeps:
  assumes env: "truncates env" and inv: "inv N p st" and r: "reads_instance env p st (b, q, st')"
  shows "inv N q st'"
proof -
  have p1: "psize (parse_next False p) \<le> psize p" by (rule psize_next)
  from r consider (header) "st' = st" "psize q \<le> psize (parse_next False p)"
    | (options) k p0 n i l b1 d st1 where "psize p0 < psize (parse_next False p)"
        "load_options k env p0 \<lparr>dr_mdd = start_implementation n st, dr_idd = i, dr_locality = l\<rparr> st
           = (b1, q, d, st1)"
        "st' = st1 \<or> (\<exists>fin \<in> entering_ops. \<exists>extra. st' = fin env (known_implementation n st) extra d st1)"
    unfolding reads_instance_def by blast
  then show ?thesis
  proof cases
    case header
    with inv p1 show ?thesis by (auto intro: inv_mono)
  next
    case options
    then have "psize p0 < psize p" using p1 by simp
    from options(3) read_instance_ok [OF env inv this options(2)] show ?thesis
      unfolding entering_ops_def by blast
  qed
qed

lemma reads_instance_moves:
  "reads_instance env p st (b, q, st') \<Longrightarrow> tid p \<noteq> INone \<Longrightarrow> psize q < psize p"
  using psize_next_less [of p False]
  by (force simp: reads_instance_def dest: load_options_size)

lemma reads_headerI:
  "psize q \<le> psize (parse_next False p) \<Longrightarrow> reads_instance env p st (False, q, st)"
  by (simp add: reads_instance_def)

lemma reads_optionsI:
  "psize p0 < psize (parse_next False p) \<Longrightarrow>
   load_options k env p0 \<lparr>dr_mdd = start_implementation n st, dr_idd = i, dr_locality = l\<rparr> st = (b, q, d, st1) \<Longrightarrow>
   r = (False, q, st1)
     \<or> (\<exists>fin \<in> entering_ops. \<exists>extra. r = (True, q, fin env (known_implementation n st) extra d st1)) \<Longrightarrow>
   reads_instance env p st r"
  unfolding reads_instance_def by blast

lemma open_mode_size: "load_open_mode env p = (m, q) \<Longrightarrow> psize q \<le> psize p"
  using advanced_psize [OF load_open_mode_advanced, of env p] by simp

lemma component_reads: "reads_instance env p st (load_component_config env p st)"
proof -
  let ?p1 = "parse_next False p" let ?p2 = "parse_next False ?p1" let ?p3 = "parse_next False ?p2"
  obtain m p4 where m: "load_open_mode env ?p3 = (m, p4)" by fastforce
  have le: "psize ?p2 \<le> psize ?p1" "psize ?p3 \<le> psize ?p2" "psize p4 \<le> psize ?p3"
    using open_mode_size [OF m] by (simp_all add: psize_next)
  show ?thesis
  proof (cases "tid ?p1 = IText \<and> \<not> map_has (component_instances st) (token ?p1) \<and> tid ?p2 = IText
      \<and> tid ?p3 = IText \<and> m \<noteq> None")
    case True
    then obtain mode where mode: "m = Some mode" by blast
    let ?n = "token ?p2 @ ''.'' @ token ?p3"
    let ?d = "\<lparr>dr_mdd = start_implementation ?n st, dr_idd = new_idd\<lparr>id_name := token ?p1\<rparr>,
      dr_locality = []\<rparr>"
    obtain b q d st1 where o: "load_options Component_Kind env p4 ?d st = (b, q, d, st1)"
      by (metis prod_cases4)
    have "psize ?p2 < psize ?p1" using True by (simp add: psize_next_less)
    with le have "psize p4 < psize ?p1" by simp
    then show ?thesis
      by (rule reads_optionsI [OF _ o])
        (use True m mode o in \<open>cases b; auto simp: load_component_config_def Let_def entering_ops_def\<close>)
  next
    case False
    have "\<exists>q. load_component_config env p st = (False, q, st) \<and> psize q \<le> psize ?p1"
      using False m le by (cases m) (auto simp: load_component_config_def Let_def)
    then show ?thesis by (auto intro: reads_headerI)
  qed
qed

lemma locality_reads: "reads_instance env p st (load_locality_config env p st)"
proof -
  let ?p1 = "parse_next False p" let ?p2 = "parse_next False ?p1"
  show ?thesis
  proof (cases "tid ?p1 = IText")
    case True
    let ?d = "\<lparr>dr_mdd = start_implementation locality_implementation st,
      dr_idd = new_idd\<lparr>id_name := token ?p1\<rparr>, dr_locality = token ?p1\<rparr>"
    obtain b q d st1 where o: "load_options Locality_Kind env ?p2 ?d st = (b, q, d, st1)"
      by (metis prod_cases4)
    have "psize ?p2 < psize ?p1" using True by (simp add: psize_next_less)
    then show ?thesis
      by (rule reads_optionsI [OF _ o])
        (use True o in \<open>cases b; auto simp: load_locality_config_def Let_def entering_ops_def\<close>)
  next
    case False
    then show ?thesis by (auto simp: load_locality_config_def intro: reads_headerI)
  qed
qed

lemma container_reads: "reads_instance env p st (load_container_config env p st)"
proof -
  let ?p1 = "parse_next False p" let ?p2 = "parse_next False ?p1"
  show ?thesis
  proof (cases "tid ?p1 = IText \<and> \<not> map_has (component_instances st) (token ?p1)")
    case True
    let ?d = "\<lparr>dr_mdd = start_implementation container_implementation st,
      dr_idd = new_idd\<lparr>id_name := token ?p1\<rparr>, dr_locality = []\<rparr>"
    obtain b q d st1 where o: "load_options Container_Kind env ?p2 ?d st = (b, q, d, st1)"
      by (metis prod_cases4)
    have "psize ?p2 < psize ?p1" using True by (simp add: psize_next_less)
    then show ?thesis
      by (rule reads_optionsI [OF _ o])
        (use True o in \<open>cases b; auto simp: load_container_config_def Let_def entering_ops_def\<close>)
  next
    case False
    then show ?thesis by (auto simp: load_container_config_def Let_def intro: reads_headerI)
  qed
qed

interpretation component: loader_operation "truncates env" "load_component_config env"
  by standard (metis component_reads reads_instance_keeps, metis component_reads reads_instance_moves)

interpretation locality: loader_operation "truncates env" "load_locality_config env"
  by standard (metis locality_reads reads_instance_keeps, metis locality_reads reads_instance_moves)

interpretation container: loader_operation "truncates env" "load_container_config env"
  by standard (metis container_reads reads_instance_keeps, metis container_reads reads_instance_moves)

section \<open>Properties\<close>

lemma option_extends: "load_option env p d st = (b, q, d', st') \<Longrightarrow> extends st st'"
  by (cases "tid p")
    (auto simp: load_option_def Let_def load_artifact_option_def split: prod.splits bool.splits
      dest: extends_connection extends_artifact)

lemma options_extends: "load_options k env p d st = (b, q, d', st') \<Longrightarrow> extends st st'"
proof (induction k env p d st rule: load_options.induct)
  case (1 k env p d st)
  obtain c q1 d1 st1 where o: "load_option env p d st = (c, q1, d1, st1)" by (metis prod_cases4)
  with 1 option_extends [OF o] show ?case
    by (cases "accepts k (tid p)"; cases c)
      (auto simp: load_options.simps [of k env p] intro: extends_trans)
qed

lemma finish_container_names [simp]:
  "component_instances (finish_container env known extra d st) = component_instances st"
proof -
  obtain d1 st1 where e: "enter_implementation env known extra d st = (d1, st1)" by fastforce
  then have "component_instances st1 = component_instances st"
    by (auto simp: enter_implementation_def Let_def split: if_splits)
  with e show ?thesis by (simp add: finish_container_def Let_def)
qed

text \<open>
  A container checks that no component has its name but does not enter its own name: two
  containers, or a container and a later component, of the same name are accepted.
\<close>

theorem container_not_registered:
  "component_instances (snd (snd (load_container_config env p st))) = component_instances st"
proof -
  let ?p1 = "parse_next False p"
  let ?d = "\<lparr>dr_mdd = start_implementation container_implementation st,
    dr_idd = new_idd\<lparr>id_name := token ?p1\<rparr>, dr_locality = []\<rparr>"
  obtain b q d st1 where o: "load_options Container_Kind env (parse_next False ?p1) ?d st = (b, q, d, st1)"
    by (metis prod_cases4)
  have "component_instances st1 = component_instances st"
    using options_extends [OF o] by (simp add: extends_def)
  with o show ?thesis
    by (cases b) (auto simp: load_container_config_def Let_def)
qed

end
