(* ===== verification/Config_Loader.thy ===== *)
theory Config_Loader
  imports Config_Instances
begin

text \<open>
  The entry points of Config_Loader: the loops over the objects of a deployment, plugin, plan or
  domain configuration, and finalize_component_plan, which resolves the endpoints of the connections
  and writes the locality constraints.

  A file is its contents, or None if it cannot be opened. The result is the success of the call with
  the plans as they are left, also on failure.
\<close>

section \<open>Plugins keep the invariant\<close>

lemma plugin_properties_ok:
  "load_plugin_properties env p d = (b, q, d') \<Longrightarrow> psize q \<le> psize p \<and> same_names d d'"
proof (induction env p d rule: load_plugin_properties.induct)
  case (1 env p d)
  show ?case
  proof (cases "at_object_property p")
    case True
    obtain c q1 d1 where o: "load_object_property env p d = (c, q1, d1)" by (metis prod_cases3)
    have "tid p \<noteq> INone" using True by (auto simp: at_object_property_def)
    then have le: "psize q1 < psize p"
      using definition_less [of p env] o
      by (auto simp: load_object_property_def split: prod.splits option.splits)
    have names: "same_names d d1" using object_property_draft [OF o] by simp
    show ?thesis
    proof (cases c)
      case c: True
      then have "psize q \<le> psize q1 \<and> same_names d1 d'"
        using 1(2) True o
        by (intro 1(1) [OF True _ refl refl]) (simp_all add: load_plugin_properties.simps [of env p])
      with le names show ?thesis by (auto simp: same_names_def)
    next
      case False
      with 1(2) True o le names show ?thesis by (simp add: load_plugin_properties.simps [of env p])
    qed
  qed (use 1(2) in \<open>simp add: load_plugin_properties.simps\<close>)
qed

lemma plugin_header_size: "psize (snd (plugin_header p)) \<le> psize (parse_next False p)"
proof -
  let ?p1 = "parse_next False p" let ?p2 = "parse_next False ?p1"
  have "psize ?p2 \<le> psize ?p1" "psize (parse_next False ?p2) \<le> psize ?p2" by (simp_all add: psize_next)
  then show ?thesis by (auto simp: plugin_header_def Let_def)
qed

text \<open>A plugin changes the plugin plan only.\<close>

lemma plugin_cases:
  assumes "load_plugin_config env p st = (b, q, st')"
  shows "psize q \<le> psize (parse_next False p)
    \<and> (if b then \<exists>extra d. st' = finish_plugin env extra d st \<and> \<not> map_has (plugin_instances st) (id_name (dr_idd d))
       else st' = st)"
proof -
  obtain h p1 where h: "plugin_header p = (h, p1)" by fastforce
  obtain m p2 where m: "load_open_mode env p1 = (m, p2)" by fastforce
  have le: "psize p1 \<le> psize (parse_next False p)" "psize p2 \<le> psize p1"
    using plugin_header_size [of p] h open_mode_size [OF m] by simp_all
  show ?thesis
  proof (cases "\<exists>impl a f. h = Some (impl, a, f) \<and> \<not> map_has (plugin_instances st) (a @ ''.'' @ f) \<and> m \<noteq> None")
    case True
    then obtain impl a f mode where hm: "h = Some (impl, a, f)" "m = Some mode"
      "\<not> map_has (plugin_instances st) (a @ ''.'' @ f)" by blast
    let ?d = "\<lparr>dr_mdd = new_mdd\<lparr>md_name := impl\<rparr>, dr_idd = new_idd\<lparr>id_name := a @ ''.'' @ f\<rparr>,
      dr_locality = []\<rparr>"
    obtain c q' d where o: "load_plugin_properties env p2 ?d = (c, q', d)" by (metis prod_cases3)
    have "psize q' \<le> psize p2" "id_name (dr_idd d) = a @ ''.'' @ f"
      using plugin_properties_ok [OF o] by (simp_all add: same_names_def)
    with assms h hm m o le show ?thesis
      by (cases c) (fastforce simp: load_plugin_config_def Let_def)+
  next
    case False
    with assms h m le show ?thesis
      by (cases h; cases m) (auto simp: load_plugin_config_def Let_def split: if_splits)
  qed
qed

lemma finish_plugin_simps [simp]:
  "st_components (finish_plugin env extra d st) = st_components st"
  "component_implementations (finish_plugin env extra d st) = component_implementations st"
  "component_instances (finish_plugin env extra d st) = component_instances st"
  "connection_instances (finish_plugin env extra d st) = connection_instances st"
  "lm_instances (finish_plugin env extra d st) = lm_instances st"
  "node_map (finish_plugin env extra d st) = node_map st"
  "instance_ep_map (finish_plugin env extra d st) = instance_ep_map st"
  by (simp_all add: finish_plugin_def Let_def)

lemma finish_plugin_inv: "inv N p st \<Longrightarrow> inv N p (finish_plugin env extra d st)"
  by (simp add: inv_def fits_def connections_inv_def implementations_inv_def instances_inv_def
      localities_inv_def)

interpretation plugin: loader_operation True "load_plugin_config env"
proof
  fix N p st b q st'
  assume inv: "inv N p st" and op: "load_plugin_config env p st = (b, q, st')"
  have "inv N q st"
    using inv plugin_cases [OF op] psize_next [of False p] by (auto intro: inv_mono)
  with plugin_cases [OF op] show "inv N q st'"
    by (cases b) (auto intro: finish_plugin_inv)
next
  fix p st b q st'
  assume "load_plugin_config env p st = (b, q, st')" "tid p \<noteq> INone"
  with plugin_cases [of env p st b q st'] psize_next_less [of p False] show "psize q < psize p" by simp
qed

section \<open>Finalizing the component plan\<close>

text \<open>Every endpoint registered for an instance gets the index of the instance.\<close>

definition set_instance_ref :: "nat \<Rightarrow> nat \<times> nat \<Rightarrow> 'd connection list \<Rightarrow> 'd connection list" where
  "set_instance_ref ref x cs =
     vec_upd (fst x) (\<lambda>c. c\<lparr>cn_internalEndpoint :=
       vec_upd (snd x) (\<lambda>e. e\<lparr>ep_instanceRef := ref\<rparr>) (cn_internalEndpoint c)\<rparr>) cs"

fun resolve_endpoints ::
  "(string, nat) smap \<Rightarrow> (string \<times> (nat \<times> nat) list) list \<Rightarrow> 'd connection list \<Rightarrow>
    bool \<times> 'd connection list" where
  "resolve_endpoints insts [] cs = (True, cs)"
| "resolve_endpoints insts ((name, eps) # rest) cs =
     (case map_get insts name of
        None \<Rightarrow> (False, cs)
      | Some ref \<Rightarrow> resolve_endpoints insts rest (fold (set_instance_ref ref) eps cs))"

text \<open>
  The constraints of one node: its localities lie in different processes, named by the first instance
  of each, and the instances of one locality in the same process.
\<close>

definition node_constraints :: "(string, nat list) smap \<Rightarrow> plan_locality list" where
  "node_constraints m =
     \<lparr>lo_constraint = PlanDifferentProcess, lo_instanceRef = map (hd \<circ> snd) m\<rparr>
     # map (\<lambda>(l, xs). \<lparr>lo_constraint = PlanSameProcess, lo_instanceRef = xs\<rparr>) m"

definition finalize_component_plan :: "'d state \<Rightarrow> bool \<times> 'd state" where
  "finalize_component_plan st =
     (case resolve_endpoints (component_instances st) (instance_ep_map st) (connections st) of
        (False, cs) \<Rightarrow> (False, st\<lparr>st_components := (st_components st)\<lparr>pl_connection := cs\<rparr>\<rparr>)
      | (True, cs) \<Rightarrow>
          (True, st\<lparr>st_components := (st_components st)\<lparr>pl_connection := cs,
             pl_localityConstraint := pl_localityConstraint (st_components st)
               @ concat (map (\<lambda>(n, m). node_constraints m) (node_map st))\<rparr>\<rparr>))"

section \<open>Entry points\<close>

definition push_info :: "bool \<Rightarrow> bool \<Rightarrow> 'd property \<Rightarrow> 'd state \<Rightarrow> 'd state" where
  "push_info to_plugins to_components pr st =
     st\<lparr>st_plugins := (if to_plugins
          then (st_plugins st)\<lparr>pl_infoProperty := pl_infoProperty (st_plugins st) @ [pr]\<rparr>
          else st_plugins st),
        st_components := (if to_components
          then (st_components st)\<lparr>pl_infoProperty := pl_infoProperty (st_components st) @ [pr]\<rparr>
          else st_components st)\<rparr>"

definition load_info_property ::
  "bool \<Rightarrow> bool \<Rightarrow> 'd env \<Rightarrow> parser \<Rightarrow> 'd state \<Rightarrow> 'd loaded" where
  "load_info_property to_plugins to_components env p st =
     (case load_property_definition env p of
        (None, q) \<Rightarrow> (False, q, st)
      | (Some pr, q) \<Rightarrow> (True, q, push_info to_plugins to_components pr st))"

text \<open>The three loops differ in the objects they accept: the cases of their switch statements.\<close>

definition is_plugin :: "token_id \<Rightarrow> bool" where
  "is_plugin t \<longleftrightarrow> t = IInstanceHandler \<or> t = IInterceptor \<or> t = IConfigHandler \<or> t = IServiceObject"

definition load_plan_object :: "'d env \<Rightarrow> parser \<Rightarrow> 'd state \<Rightarrow> 'd loaded" where
  "load_plan_object env p st =
     (case tid p of
        IComponent \<Rightarrow> load_component_config env p st
      | ILocalityManager \<Rightarrow> load_locality_config env p st
      | IContainer \<Rightarrow> load_container_config env p st
      | IProperty \<Rightarrow> load_info_property False True env p st
      | _ \<Rightarrow> (False, p, st))"

definition load_plugins_object :: "'d env \<Rightarrow> parser \<Rightarrow> 'd state \<Rightarrow> 'd loaded" where
  "load_plugins_object env p st =
     (if is_plugin (tid p) then load_plugin_config env p st
      else if tid p = IProperty then load_info_property True False env p st
      else (False, p, st))"

definition load_deployment_object :: "'d env \<Rightarrow> parser \<Rightarrow> 'd state \<Rightarrow> 'd loaded" where
  "load_deployment_object env p st =
     (if is_plugin (tid p) then load_plugin_config env p st
      else if tid p = IProperty then load_info_property True True env p st
      else load_plan_object env p st)"

text \<open>Every object consumes its keyword, so the loops end; the last case is the failing default.\<close>

lemma info_property_size:
  "load_info_property a c env p st = (b, q, st') \<Longrightarrow> tid p \<noteq> INone \<Longrightarrow> psize q < psize p"
  using definition_less [of p env] by (auto simp: load_info_property_def split: prod.splits option.splits)

lemma plan_object_size:
  "load_plan_object env p st = (True, q, st') \<Longrightarrow> psize q < psize p"
  by (cases "tid p")
    (auto simp: load_plan_object_def dest: component.moves locality.moves container.moves info_property_size)

lemma plugins_object_size:
  "load_plugins_object env p st = (True, q, st') \<Longrightarrow> psize q < psize p"
  by (auto simp: load_plugins_object_def is_plugin_def split: if_splits
      dest: plugin.moves info_property_size)

lemma deployment_object_size:
  "load_deployment_object env p st = (True, q, st') \<Longrightarrow> psize q < psize p"
  by (auto simp: load_deployment_object_def is_plugin_def split: if_splits
      dest: plugin.moves info_property_size plan_object_size)

text \<open>\<open>while (parser_)\<close>: up to the end of the file or a failing object.\<close>

function plan_loop :: "'d env \<Rightarrow> parser \<Rightarrow> 'd state \<Rightarrow> 'd loaded" where
  "plan_loop env p st =
     (if parser_eof p then (True, p, st)
      else case load_plan_object env p st of
          (False, q, st') \<Rightarrow> (False, q, st')
        | (True, q, st') \<Rightarrow> plan_loop env q st')"
  by pat_completeness auto
termination
  by (relation "measure (\<lambda>(_, p, _). psize p)") (auto dest: plan_object_size [OF sym])

function plugins_loop :: "'d env \<Rightarrow> parser \<Rightarrow> 'd state \<Rightarrow> 'd loaded" where
  "plugins_loop env p st =
     (if parser_eof p then (True, p, st)
      else case load_plugins_object env p st of
          (False, q, st') \<Rightarrow> (False, q, st')
        | (True, q, st') \<Rightarrow> plugins_loop env q st')"
  by pat_completeness auto
termination
  by (relation "measure (\<lambda>(_, p, _). psize p)") (auto dest: plugins_object_size [OF sym])

function deployment_loop :: "'d env \<Rightarrow> parser \<Rightarrow> 'd state \<Rightarrow> 'd loaded" where
  "deployment_loop env p st =
     (if parser_eof p then (True, p, st)
      else case load_deployment_object env p st of
          (False, q, st') \<Rightarrow> (False, q, st')
        | (True, q, st') \<Rightarrow> deployment_loop env q st')"
  by pat_completeness auto
termination
  by (relation "measure (\<lambda>(_, p, _). psize p)") (auto dest: deployment_object_size [OF sym])

declare plan_loop.simps [simp del] plugins_loop.simps [simp del] deployment_loop.simps [simp del]

text \<open>The identifier and the label of a plan that has none.\<close>

definition label_plan :: "string \<Rightarrow> string \<Rightarrow> 'd plan \<Rightarrow> 'd plan" where
  "label_plan uuid filename plan =
     plan\<lparr>pl_UUID := (if pl_UUID plan = [] then uuid else pl_UUID plan),
          pl_label := (if pl_label plan = [] then ''DeploymentPlan loaded from '' @ filename
                       else pl_label plan)\<rparr>"

definition load_deployment_config ::
  "'d env \<Rightarrow> string \<Rightarrow> string option \<Rightarrow> 'd plan \<Rightarrow> 'd plan \<Rightarrow> bool \<times> 'd plan \<times> 'd plan" where
  "load_deployment_config env filename file plugins components =
     (case file of
        None \<Rightarrow> (False, plugins, components)
      | Some inp \<Rightarrow>
          (case deployment_loop env (parse_next False (new_parser inp)) (new_state plugins components) of
             (False, _, st) \<Rightarrow> (False, st_plugins st, st_components st)
           | (True, _, st) \<Rightarrow>
               (case finalize_component_plan st of
                  (False, st') \<Rightarrow> (False, st_plugins st', st_components st')
                | (True, st') \<Rightarrow>
                    (True,
                     label_plan (cfg_basename env filename True @ ''.plugins'') filename (st_plugins st'),
                     label_plan (cfg_basename env filename True @ ''.components'') filename
                       (st_components st')))))"

definition load_plugins_config ::
  "'d env \<Rightarrow> string \<Rightarrow> string option \<Rightarrow> 'd plan \<Rightarrow> bool \<times> 'd plan" where
  "load_plugins_config env filename file plugins =
     (case file of
        None \<Rightarrow> (False, plugins)
      | Some inp \<Rightarrow>
          (case plugins_loop env (parse_next False (new_parser inp)) (new_state plugins new_plan) of
             (False, _, st) \<Rightarrow> (False, st_plugins st)
           | (True, _, st) \<Rightarrow>
               (True, label_plan (cfg_basename env filename True @ ''.plugins'') filename (st_plugins st))))"

definition load_plan_config ::
  "'d env \<Rightarrow> string \<Rightarrow> string option \<Rightarrow> 'd plan \<Rightarrow> bool \<times> 'd plan" where
  "load_plan_config env filename file components =
     (case file of
        None \<Rightarrow> (False, components)
      | Some inp \<Rightarrow>
          (case plan_loop env (parse_next False (new_parser inp)) (new_state new_plan components) of
             (False, _, st) \<Rightarrow> (False, st_components st)
           | (True, _, st) \<Rightarrow>
               (case finalize_component_plan st of
                  (False, st') \<Rightarrow> (False, st_components st')
                | (True, st') \<Rightarrow>
                    (True, label_plan (cfg_basename env filename True) filename (st_components st')))))"

section \<open>Domains\<close>

definition node_attribute :: "string \<Rightarrow> 'd prim \<Rightarrow> 'd sat_property" where
  "node_attribute n v = \<lparr>sp_name = n, sp_kind = Attribute, sp_dynamic = False, sp_value = PrimAny v\<rparr>"

text \<open>One attribute of a node: its value, or the failure of the code's three branches and its default.\<close>

definition load_node_attribute :: "'d env \<Rightarrow> parser \<Rightarrow> 'd sat_property option \<times> parser" where
  "load_node_attribute env p =
     (if token p = NODE_IOR \<or> token p = NODE_HOST then
        (let p1 = parse_next False p in
         if tid p1 \<noteq> IText then (None, p1)
         else case parse_literal_type p1 of (lt, p2) \<Rightarrow>
           (if lt_is lt_str lt
            then Some (node_attribute (token p) (VString (cfg_parse_string (token p2) lt))) else None, p2))
      else if token p = NODE_PORT then
        (let p1 = parse_next False p in
         if tid p1 \<noteq> IText then (None, p1)
         else case parse_literal_type p1 of (lt, p2) \<Rightarrow>
           (if lt_unknown lt then None
            else Some (node_attribute NODE_PORT (VUInt16 (of_int (cfg_parse_uint env TUInt16 (token p2) lt)))),
            p2))
      else (None, p))"

lemma literal_src_size: "src_size (snd (parse_literal_type p)) \<le> src_size p"
proof (induction p rule: parse_literal_type.induct)
  case (1 p)
  with next_size [of False p] show ?case
    by (subst parse_literal_type.simps) (force simp: Let_def case_prod_unfold)
qed

lemma node_attribute_size: "src_size (snd (load_node_attribute env p)) \<le> src_size p"
  using next_size [of False p] literal_src_size [of "parse_next False p"]
  by (auto simp: load_node_attribute_def Let_def case_prod_unfold)

function load_node_attributes ::
  "'d env \<Rightarrow> parser \<Rightarrow> 'd sat_property list \<Rightarrow> 'd sat_property list option \<times> parser" where
  "load_node_attributes env p acc =
     (let p1 = parse_next False p in
      if tid p1 = IText then
        (case load_node_attribute env p1 of
           (None, q) \<Rightarrow> (None, q)
         | (Some a, q) \<Rightarrow> load_node_attributes env q (acc @ [a]))
      else (Some acc, p1))"
  by pat_completeness auto
termination
proof (relation "measure (\<lambda>(_, p, _). src_size p)", simp, clarsimp)
  fix env :: "'d env" and p q a
  assume "tid (parse_next False p) = IText" and "(Some a, q) = load_node_attribute env (parse_next False p)"
  then show "src_size q < src_size p"
    using next_size_less [of False p] node_attribute_size [of env "parse_next False p"]
    by (metis le_less_trans snd_conv token_id.distinct(1))
qed

declare load_node_attributes.simps [simp del]

definition load_node_config :: "'d env \<Rightarrow> parser \<Rightarrow> 'd domain \<Rightarrow> bool \<times> parser \<times> 'd domain" where
  "load_node_config env p dmn =
     (let p1 = parse_next False p in
      if tid p1 \<noteq> IText then (False, p1, dmn)
      else case parse_literal_type p1 of (lt, p2) \<Rightarrow>
        if \<not> lt_is lt_str lt then (False, p2, dmn)
        else case load_node_attributes env p2 [] of
            (None, q) \<Rightarrow> (False, q, dmn)
          | (Some attrs, q) \<Rightarrow>
              (True, q, dmn\<lparr>dm_node := dm_node dmn @
                 [\<lparr>nd_name = cfg_parse_string (token p2) lt, nd_label = [],
                   nd_resource = [\<lparr>rs_name = ''Node Address'', rs_types = [NODE_RESOURCE_TYPE],
                                   rs_property = attrs\<rparr>]\<rparr>]\<rparr>))"

lemma node_attributes_size: "psize (snd (load_node_attributes env p acc)) \<le> psize p"
proof (induction env p acc rule: load_node_attributes.induct)
  case (1 env p acc)
  let ?p1 = "parse_next False p"
  obtain r q where r: "load_node_attribute env ?p1 = (r, q)" by fastforce
  have "psize q \<le> src_size p" if "tid ?p1 = IText"
    using node_attribute_size [of env ?p1] r next_size_less [of False p] that by (auto simp: psize_def)
  with 1 r psize_next [of False p] show ?case
    by (subst load_node_attributes.simps) (force simp: Let_def psize_def split: option.split)
qed

lemma node_config_size: "load_node_config env p dmn = (b, q, dmn') \<Longrightarrow> psize q \<le> psize (parse_next False p)"
proof -
  let ?p1 = "parse_next False p"
  assume op: "load_node_config env p dmn = (b, q, dmn')"
  have "psize (snd (parse_literal_type ?p1)) \<le> psize ?p1"
    by (rule advanced_psize [OF advanced_literal_type])
  moreover have "psize (snd (load_node_attributes env (snd (parse_literal_type ?p1)) [])) \<le>
      psize (snd (parse_literal_type ?p1))"
    by (rule node_attributes_size)
  ultimately show ?thesis
    using op by (auto simp: load_node_config_def Let_def case_prod_unfold split: if_splits option.splits)
qed

function domain_loop :: "'d env \<Rightarrow> parser \<Rightarrow> 'd domain \<Rightarrow> bool \<times> parser \<times> 'd domain" where
  "domain_loop env p dmn =
     (if parser_eof p then (True, p, dmn)
      else if tid p = INode then
        (case load_node_config env p dmn of
           (False, q, dmn') \<Rightarrow> (False, q, dmn')
         | (True, q, dmn') \<Rightarrow> domain_loop env q dmn')
      else (False, p, dmn))"
  by pat_completeness auto
termination
proof (relation "measure (\<lambda>(_, p, _). psize p)", simp, clarsimp)
  fix env :: "'d env" and p q and dmn dmn' :: "'d domain"
  assume "tid p = INode" and "(True, q, dmn') = load_node_config env p dmn"
  then show "psize q < psize p"
    using node_config_size [of env p dmn True q dmn'] psize_next_less [of p False] by simp
qed

declare domain_loop.simps [simp del]

definition label_domain :: "'d env \<Rightarrow> string \<Rightarrow> 'd domain \<Rightarrow> 'd domain" where
  "label_domain env filename dmn =
     dmn\<lparr>dm_UUID := (if dm_UUID dmn = [] then cfg_basename env filename True else dm_UUID dmn),
         dm_label := (if dm_label dmn = [] then ''DeploymentPlan loaded from '' @ filename
                      else dm_label dmn)\<rparr>"

text \<open>A file that cannot be opened is a stream that is not good: the loop is not entered.\<close>

definition load_domain_config :: "'d env \<Rightarrow> string \<Rightarrow> string option \<Rightarrow> 'd domain \<Rightarrow> bool \<times> 'd domain" where
  "load_domain_config env filename file dmn =
     (case file of
        None \<Rightarrow> (True, label_domain env filename dmn)
      | Some inp \<Rightarrow>
          (case domain_loop env (parse_next False (new_parser inp)) dmn of
             (False, _, dmn') \<Rightarrow> (False, dmn')
           | (True, _, dmn') \<Rightarrow> (True, label_domain env filename dmn')))"

section \<open>The loops keep the invariant\<close>

lemma push_info_inv: "inv N p st \<Longrightarrow> inv N p (push_info a c pr st)"
  by (simp add: inv_def fits_def connections_inv_def implementations_inv_def instances_inv_def
      localities_inv_def push_info_def)

lemma info_property_keeps:
  assumes "inv N p st" and "load_info_property a c env p st = (b, q, st')"
  shows "inv N q st'"
proof -
  have "inv N q st"
    using assms(2) advanced_psize [OF advanced_definition, of env p]
    by (intro inv_mono [OF assms(1)]) (auto simp: load_info_property_def split: prod.splits option.splits)
  with assms(2) show ?thesis
    by (auto simp: load_info_property_def split: prod.splits option.splits intro: push_info_inv)
qed

lemma plan_object_keeps:
  "truncates env \<Longrightarrow> inv N p st \<Longrightarrow> load_plan_object env p st = (b, q, st') \<Longrightarrow> inv N q st'"
  by (cases "tid p")
    (auto simp: load_plan_object_def dest: component.keeps locality.keeps container.keeps info_property_keeps)

lemma deployment_object_keeps:
  "truncates env \<Longrightarrow> inv N p st \<Longrightarrow> load_deployment_object env p st = (b, q, st') \<Longrightarrow> inv N q st'"
  by (auto simp: load_deployment_object_def split: if_splits
      dest: plugin.keeps [OF TrueI] info_property_keeps plan_object_keeps)

lemma plan_loop_keeps:
  "truncates env \<Longrightarrow> inv N p st \<Longrightarrow> plan_loop env p st = (b, q, st') \<Longrightarrow> inv N q st'"
proof (induction env p st rule: plan_loop.induct)
  case (1 env p st)
  obtain c q1 st1 where o: "load_plan_object env p st = (c, q1, st1)" by (metis prod_cases3)
  with 1(2,3) have "inv N q1 st1" by (rule plan_object_keeps)
  with 1 o show ?case
    by (cases "parser_eof p"; cases c) (simp_all add: plan_loop.simps [of env p])
qed

lemma deployment_loop_keeps:
  "truncates env \<Longrightarrow> inv N p st \<Longrightarrow> deployment_loop env p st = (b, q, st') \<Longrightarrow> inv N q st'"
proof (induction env p st rule: deployment_loop.induct)
  case (1 env p st)
  obtain c q1 st1 where o: "load_deployment_object env p st = (c, q1, st1)" by (metis prod_cases3)
  with 1(2,3) have "inv N q1 st1" by (rule deployment_object_keeps)
  with 1 o show ?case
    by (cases "parser_eof p"; cases c) (simp_all add: deployment_loop.simps [of env p])
qed

definition fresh_plan :: "'d plan \<Rightarrow> bool" where
  "fresh_plan plan \<longleftrightarrow> pl_implementation plan = [] \<and> pl_instance plan = [] \<and> pl_connection plan = []
     \<and> pl_artifact plan = [] \<and> pl_localityConstraint plan = []"

lemma inv_start:
  assumes "fresh_plan components" and "length inp < 2 ^ 32"
  shows "inv (length inp) (parse_next False (new_parser inp)) (new_state plugins components)"
proof -
  have "psize (parse_next False (new_parser inp)) \<le> length inp"
    using psize_next [of False "new_parser inp"] by (simp add: psize_def new_parser_def open_stream_def)
  then show ?thesis
    using assms
    by (simp add: inv_def fits_def connections_inv_def implementations_inv_def instances_inv_def
        localities_inv_def new_state_def fresh_plan_def endpoint_at_def)
qed

section \<open>Resolving the endpoints\<close>

definition endpoint_ref :: "'d connection list \<Rightarrow> nat \<times> nat \<Rightarrow> nat" where
  "endpoint_ref cs x = ep_instanceRef (cn_internalEndpoint (cs ! fst x) ! snd x)"

definition resolved :: "nat \<Rightarrow> 'd connection list \<Rightarrow> (nat \<times> nat) set" where
  "resolved n cs = {x. endpoint_at cs x \<and> endpoint_ref cs x < n}"

text \<open>Connections that agree except for the instances of their endpoints.\<close>

definition same_shape :: "'d connection list \<Rightarrow> 'd connection list \<Rightarrow> bool" where
  "same_shape cs cs' \<longleftrightarrow> map cn_name cs' = map cn_name cs
     \<and> (\<forall>x. endpoint_at cs' x \<longleftrightarrow> endpoint_at cs x)
     \<and> (list_all connection_ok cs \<longrightarrow> list_all connection_ok cs')"

lemma same_shape_refl [simp]: "same_shape cs cs"
  by (simp add: same_shape_def)

lemma same_shape_trans: "same_shape a b \<Longrightarrow> same_shape b c \<Longrightarrow> same_shape a c"
  by (simp add: same_shape_def)

lemma vec_upd_two: "vec_upd i f [a, b] = [if i = 0 then f a else a, if i = 1 then f b else b]"
  by (cases i; cases "i - 1") (auto simp: vec_upd_def)

lemma vec_upd_one: "vec_upd i f [a] = [if i = 0 then f a else a]"
  by (cases i) (auto simp: vec_upd_def)

lemma endpoint_update [simp]:
  "ep_provider (if c then e\<lparr>ep_instanceRef := r\<rparr> else e) = ep_provider e"
  "ep_kind (if c then e\<lparr>ep_instanceRef := r\<rparr> else e) = ep_kind e"
  by simp_all

lemma connection_ok_ref:
  assumes "connection_ok c"
  shows "connection_ok (c\<lparr>cn_internalEndpoint := vec_upd i (\<lambda>e. e\<lparr>ep_instanceRef := r\<rparr>) (cn_internalEndpoint c)\<rparr>)"
proof (cases "internal_connection c")
  case True
  then obtain a b where ab: "cn_internalEndpoint c = [a, b]" and "cn_externalReference c = []"
    "ep_provider a = (\<not> ep_provider b)"
    "ep_kind a = (if ep_provider a then Facet else SimplexReceptacle)"
    "ep_kind b = (if ep_provider b then Facet else SimplexReceptacle)"
    by (auto simp: internal_connection_def)
  then show ?thesis
    unfolding connection_ok_def internal_connection_def ab vec_upd_two by simp
next
  case False
  then obtain a x where ax: "cn_internalEndpoint c = [a]" and "cn_externalReference c = [x]"
    "ep_provider a = (\<not> er_provider x)" "er_location x \<noteq> []"
    "ep_kind a = (if ep_provider a then Facet else SimplexReceptacle)"
    using assms False unfolding connection_ok_def external_connection_def by blast
  then show ?thesis
    unfolding connection_ok_def external_connection_def ax vec_upd_one by simp
qed

lemma set_ref_nth:
  "i < length cs \<Longrightarrow> set_instance_ref r x cs ! i =
    (if i = fst x then (cs ! i)\<lparr>cn_internalEndpoint :=
       vec_upd (snd x) (\<lambda>e. e\<lparr>ep_instanceRef := r\<rparr>) (cn_internalEndpoint (cs ! i))\<rparr> else cs ! i)"
  by (simp add: set_instance_ref_def nth_vec_upd)

lemma set_ref_length [simp]: "length (set_instance_ref r x cs) = length cs"
  by (simp add: set_instance_ref_def)

lemma set_ref_shape: "same_shape cs (set_instance_ref r x cs)"
  unfolding same_shape_def
proof (intro conjI allI impI)
  show "map cn_name (set_instance_ref r x cs) = map cn_name cs"
    unfolding set_instance_ref_def by (rule map_vec_upd) simp
  show "endpoint_at (set_instance_ref r x cs) y = endpoint_at cs y" for y
    by (cases "fst y < length cs") (simp_all add: endpoint_at_def set_ref_nth)
  show "list_all connection_ok (set_instance_ref r x cs)" if "list_all connection_ok cs"
    using that by (auto simp: list_all_length set_ref_nth connection_ok_ref)
qed

lemma set_ref_ref:
  "endpoint_at cs y \<Longrightarrow> endpoint_ref (set_instance_ref r x cs) y = (if y = x then r else endpoint_ref cs y)"
  by (cases x; cases y) (auto simp: endpoint_ref_def endpoint_at_def set_ref_nth nth_vec_upd)

lemma set_ref_resolved:
  assumes "r < n"
  shows "resolved n cs \<union> ({x} \<inter> {y. endpoint_at cs y}) \<subseteq> resolved n (set_instance_ref r x cs)"
  using assms set_ref_shape [of cs r x] by (auto simp: resolved_def same_shape_def set_ref_ref)

lemma set_refs_resolved:
  "r < n \<Longrightarrow> resolved n cs \<union> (set xs \<inter> {y. endpoint_at cs y}) \<subseteq> resolved n (fold (set_instance_ref r) xs cs)
    \<and> same_shape cs (fold (set_instance_ref r) xs cs)"
proof (induction xs arbitrary: cs)
  case (Cons x xs)
  let ?cs = "set_instance_ref r x cs"
  have shape: "same_shape cs ?cs" by (rule set_ref_shape)
  from Cons have "resolved n ?cs \<union> (set xs \<inter> {y. endpoint_at ?cs y}) \<subseteq>
      resolved n (fold (set_instance_ref r) (x # xs) cs)"
    "same_shape ?cs (fold (set_instance_ref r) (x # xs) cs)" by auto
  with set_ref_resolved [OF Cons.prems, of cs x] shape show ?case
    by (auto simp: same_shape_def)
qed simp

lemma resolve_endpoints_resolved:
  assumes "\<forall>n i. map_get insts n = Some i \<longrightarrow> i < L"
  shows "resolve_endpoints insts m cs = (True, cs') \<Longrightarrow>
    resolved L cs \<union> ((\<Union>(n, eps) \<in> set m. set eps) \<inter> {y. endpoint_at cs y}) \<subseteq> resolved L cs'
      \<and> same_shape cs cs'"
proof (induction m arbitrary: cs)
  case (Cons e m)
  obtain n eps where e: "e = (n, eps)" by (cases e)
  then obtain r where r: "map_get insts n = Some r"
    using Cons.prems by (auto split: option.splits)
  let ?cs = "fold (set_instance_ref r) eps cs"
  have "r < L" using assms r by blast
  note refs = set_refs_resolved [OF this, of cs eps]
  have rest: "resolve_endpoints insts m ?cs = (True, cs')"
    using Cons.prems by (simp add: e r)
  from Cons.IH [OF rest] refs show ?case
    by (auto simp: e same_shape_def)
qed simp

lemma resolve_endpoints_fails:
  "fst (resolve_endpoints insts m cs) \<longleftrightarrow> (\<forall>n \<in> fst ` set m. map_has insts n)"
proof (induction m arbitrary: cs)
  case (Cons e m)
  then show ?case
    by (cases e; cases "map_get insts (fst e)") (simp_all add: map_has_def)
qed simp

section \<open>Valid plans\<close>

text \<open>
  What a consumer of a plan relies on: connections are well-formed and have different names, and
  every index in the plan, of an instance in an endpoint, of an implementation in an instance, of an
  artifact in an implementation and of an instance in a locality constraint, is in range.
\<close>

definition plan_valid :: "'d plan \<Rightarrow> bool" where
  "plan_valid plan \<longleftrightarrow>
     list_all connection_ok (pl_connection plan)
     \<and> distinct (map cn_name (pl_connection plan))
     \<and> list_all (\<lambda>c. list_all (\<lambda>e. ep_instanceRef e < length (pl_instance plan)) (cn_internalEndpoint c))
         (pl_connection plan)
     \<and> list_all (\<lambda>i. id_implementationRef i < length (pl_implementation plan)) (pl_instance plan)
     \<and> list_all (\<lambda>m. list_all (\<lambda>a. a < length (pl_artifact plan)) (md_artifactRef m)) (pl_implementation plan)
     \<and> list_all (\<lambda>l. list_all (\<lambda>i. i < length (pl_instance plan)) (lo_instanceRef l))
         (pl_localityConstraint plan)"

lemma plan_valid_label [simp]: "plan_valid (label_plan u f plan) = plan_valid plan"
  by (simp add: plan_valid_def label_plan_def)

lemma distinct_names:
  assumes "\<forall>n i. map_get m n = Some i \<longleftrightarrow> i < length cs \<and> cn_name (cs ! i) = n"
  shows "distinct (map cn_name cs)"
  using assms by (simp add: distinct_conv_nth) (metis option.inject)

lemma node_constraints_in_range:
  assumes "map_ok m" "\<forall>l xs. map_get m l = Some xs \<longrightarrow> xs \<noteq> [] \<and> list_all (\<lambda>i. i < L) xs"
  shows "list_all (\<lambda>c. list_all (\<lambda>i. i < L) (lo_instanceRef c)) (node_constraints m)"
proof -
  have xs: "xs \<noteq> [] \<and> list_all (\<lambda>i. i < L) xs" if "(l, xs) \<in> set m" for l xs
    using that assms(2) set_map_get [OF assms(1), of l xs] by simp
  then have "\<forall>x \<in> set m. hd (snd x) < L"
    by (metis list_all_iff list.set_sel(1) prod.collapse)
  with xs show ?thesis
    by (auto simp: node_constraints_def list_all_iff)
qed

lemma finalize_valid:
  assumes inv: "inv N p st" and fresh: "pl_localityConstraint (st_components st) = []"
    and fin: "finalize_component_plan st = (True, st')"
  shows "plan_valid (st_components st')"
proof -
  let ?L = "length (instances st)"
  obtain cs where res: "resolve_endpoints (component_instances st) (instance_ep_map st) (connections st) = (True, cs)"
    and st': "st_components st' = (st_components st)\<lparr>pl_connection := cs,
      pl_localityConstraint := concat (map (\<lambda>(n, m). node_constraints m) (node_map st))\<rparr>"
    using fin fresh by (auto simp: finalize_component_plan_def split: prod.splits bool.splits)
  have conn: "connections_inv st" and impl: "implementations_inv st" and inst: "instances_inv st"
    and loc: "localities_inv st"
    using inv by (simp_all add: inv_def)
  have "\<forall>n i. map_get (component_instances st) n = Some i \<longrightarrow> i < ?L"
    using inst by (simp add: instances_inv_def)
  note R = resolve_endpoints_resolved [OF this res]
  have "map_ok (instance_ep_map st)" using conn by (simp add: connections_inv_def)
  note entry = set_map_get [OF this]
  have "(\<Union>(n, eps) \<in> set (instance_ep_map st). set eps) =
      {x. \<exists>n eps. map_get (instance_ep_map st) n = Some eps \<and> x \<in> set eps}"
    unfolding entry [symmetric] by fast
  also have "\<dots> = {x. endpoint_at (connections st) x}"
    using conn unfolding connections_inv_def by blast
  finally have reg: "(\<Union>(n, eps) \<in> set (instance_ep_map st). set eps) = {x. endpoint_at (connections st) x}" .
  have all: "endpoint_ref cs x < ?L" if "endpoint_at cs x" for x
  proof -
    have "endpoint_at (connections st) x" using that R by (cases x) (simp add: same_shape_def)
    then have "x \<in> resolved ?L cs" using R reg by blast
    then show ?thesis by (simp add: resolved_def)
  qed
  have "list_all (\<lambda>c. list_all (\<lambda>e. ep_instanceRef e < ?L) (cn_internalEndpoint c)) cs"
    using all by (auto simp: list_all_length endpoint_at_def endpoint_ref_def)
  moreover have "list_all connection_ok cs" "distinct (map cn_name cs)"
    using R conn distinct_names [of "connection_instances st" "connections st"]
    by (auto simp: same_shape_def connections_inv_def)
  moreover have "list_all (\<lambda>c. list_all (\<lambda>i. i < ?L) (lo_instanceRef c)) (node_constraints m)"
    if "(n, m) \<in> set (node_map st)" for n m
    using that loc node_constraints_in_range [of m ?L] set_map_get [of "node_map st" n m]
    by (auto simp: localities_inv_def)
  ultimately show ?thesis
    using impl inst
    by (auto simp: plan_valid_def st' implementations_inv_def instances_inv_def list_all_iff)
qed

section \<open>Properties\<close>

lemma push_info_constraints [simp]:
  "pl_localityConstraint (st_components (push_info a c pr st)) = pl_localityConstraint (st_components st)"
  by (simp add: push_info_def)

lemma enter_constraints [simp]:
  "pl_localityConstraint (st_components (push_artifact x st)) = pl_localityConstraint (st_components st)"
  "pl_localityConstraint (st_components (enter_internal env i j c st)) = pl_localityConstraint (st_components st)"
  "pl_localityConstraint (st_components (enter_external env i c st)) = pl_localityConstraint (st_components st)"
  by (simp_all add: push_artifact_def enter_internal_def enter_external_def Let_def push_connection_def)

abbreviation constraints :: "'d state \<Rightarrow> plan_locality list" where
  "constraints st \<equiv> pl_localityConstraint (st_components st)"

lemma constraints_links:
  "internal_links env inst peer p st = (b, q, st') \<Longrightarrow> constraints st' = constraints st"
proof (induction "psize p" arbitrary: p st rule: less_induct)
  case less
  from less(2) show ?case by (cases rule: internal_links_cases) (auto dest: less(1))
qed

lemma constraints_external:
  "external_links env inst p st = (b, q, st') \<Longrightarrow> constraints st' = constraints st"
proof (induction "psize p" arbitrary: p st rule: less_induct)
  case less
  from less(2) show ?case by (cases rule: external_links_cases) (auto dest: less(1))
qed

lemma constraints_artifact:
  "load_artifact_definition env p st = (b, q, st') \<Longrightarrow> constraints st' = constraints st"
  using artifact_cases [of env p st b q st'] by (cases b) auto

lemma constraints_connection:
  "load_connection_definitions env inst p st = (b, q, st') \<Longrightarrow> constraints st' = constraints st"
  by (auto simp: load_connection_definitions_def Let_def split: if_splits
      dest: constraints_links constraints_external)

lemma constraints_option: "load_option env p d st = (b, q, d', st') \<Longrightarrow> constraints st' = constraints st"
  by (cases "tid p")
    (auto simp: load_option_def Let_def load_artifact_option_def split: prod.splits bool.splits
      dest: constraints_connection constraints_artifact)

lemma constraints_options:
  "load_options k env p d st = (b, q, d', st') \<Longrightarrow> constraints st' = constraints st"
proof (induction k env p d st rule: load_options.induct)
  case (1 k env p d st)
  obtain c q1 d1 st1 where o: "load_option env p d st = (c, q1, d1, st1)" by (metis prod_cases4)
  with 1 constraints_option [OF o] show ?case
    by (cases "accepts k (tid p)"; cases c) (simp_all add: load_options.simps [of k env p])
qed

lemma constraints_enter [simp]:
  "constraints (push_implementation env m st) = constraints st"
  "constraints (push_instance d st) = constraints st"
  "constraints (name_instance env d st) = constraints st"
  "constraints (name_locality env d st) = constraints st"
  "constraints (enter_locality env d st) = constraints st"
  "constraints (bind_artifacts d st) = constraints st"
  by (simp_all add: push_implementation_def push_instance_def name_instance_def name_locality_def
      enter_locality_def bind_artifacts_def)

lemma constraints_finish:
  assumes "fin \<in> entering_ops"
  shows "constraints (fin env known extra d st) = constraints st"
proof -
  obtain d1 st1 where e: "enter_implementation env known extra d st = (d1, st1)" by fastforce
  then have "constraints st1 = constraints st"
    by (auto simp: enter_implementation_def Let_def split: if_splits)
  with assms show ?thesis
    unfolding entering_ops_def
    by (elim insertE emptyE; simp add: finish_component_def finish_locality_def
        finish_container_def e Let_def)
qed

lemma constraints_instance: "reads_instance env p st (b, q, st') \<Longrightarrow> constraints st' = constraints st"
  unfolding reads_instance_def using constraints_options constraints_finish by fastforce

lemma constraints_instances:
  "load_component_config env p st = (b, q, st') \<Longrightarrow> constraints st' = constraints st"
  "load_locality_config env p st = (b, q, st') \<Longrightarrow> constraints st' = constraints st"
  "load_container_config env p st = (b, q, st') \<Longrightarrow> constraints st' = constraints st"
  using component_reads [of env p st] locality_reads [of env p st] container_reads [of env p st]
  by (simp_all add: constraints_instance)

lemma constraints_info:
  "load_info_property a c env p st = (b, q, st') \<Longrightarrow> constraints st' = constraints st"
  by (auto simp: load_info_property_def split: prod.splits option.splits)

lemma constraints_plan_object:
  "load_plan_object env p st = (b, q, st') \<Longrightarrow> constraints st' = constraints st"
  by (cases "tid p") (auto simp: load_plan_object_def dest: constraints_instances constraints_info)

lemma constraints_plan_loop:
  "plan_loop env p st = (b, q, st') \<Longrightarrow> constraints st' = constraints st"
proof (induction env p st rule: plan_loop.induct)
  case (1 env p st)
  obtain c q1 st1 where o: "load_plan_object env p st = (c, q1, st1)" by (metis prod_cases3)
  with 1 constraints_plan_object [OF o] show ?case
    by (cases "parser_eof p"; cases c) (simp_all add: plan_loop.simps [of env p])
qed

text \<open>
  C1. Every plan that load_plan_config reads into an empty plan is valid: its connections are
  well-formed, of different names and with an instance at either end, and every index in it is in range.
\<close>

theorem loaded_plan_valid:
  assumes "truncates env" "fresh_plan plan" "length inp < 2 ^ 32"
    and "load_plan_config env filename (Some inp) plan = (True, plan')"
  shows "plan_valid plan'"
proof -
  let ?p = "parse_next False (new_parser inp)" and ?st = "new_state new_plan plan"
  obtain q st where loop: "plan_loop env ?p ?st = (True, q, st)"
    and fin: "fst (finalize_component_plan st)"
    and plan': "plan' = label_plan (cfg_basename env filename True) filename
      (st_components (snd (finalize_component_plan st)))"
    using assms(4) by (auto simp: load_plan_config_def split: prod.splits bool.splits)
  have "inv (length inp) q st"
    by (rule plan_loop_keeps [OF assms(1) inv_start [OF assms(2,3)] loop])
  moreover have "constraints st = []"
    using constraints_plan_loop [OF loop] assms(2) by (simp add: new_state_def fresh_plan_def)
  ultimately have "plan_valid (st_components (snd (finalize_component_plan st)))"
    using fin by (intro finalize_valid) (auto simp: prod_eq_iff)
  then show ?thesis by (simp add: plan')
qed

definition sample_config :: string where
  "sample_config =
    ''nl.remedy.it.CCM.Component B x y'' @ [newline] @
    ''nl.remedy.it.CCM.Component A u v'' @ [newline] @
    ''nl.remedy.it.DnCX11.Locality '' @ [quote2] @ ''L'' @ [quote2, newline] @
    ''nl.remedy.it.DnCX11.Connection B p < q'' @ [newline]"

theorem loaded_plan_valid_witness:
  "plan_valid (snd (load_plan_config example_env ''f'' (Some sample_config) new_plan))
     \<and> length (pl_connection (snd (load_plan_config example_env ''f'' (Some sample_config) new_plan))) = 1"
proof
  have "fst (load_plan_config example_env ''f'' (Some sample_config) new_plan)"
    by code_simp
  then have "load_plan_config example_env ''f'' (Some sample_config) new_plan =
      (True, snd (load_plan_config example_env ''f'' (Some sample_config) new_plan))"
    by (simp add: prod_eq_iff)
  moreover have "length sample_config < 2 ^ 32" by (simp add: sample_config_def)
  moreover have "fresh_plan new_plan" by (simp add: fresh_plan_def new_plan_def)
  ultimately show "plan_valid (snd (load_plan_config example_env ''f'' (Some sample_config) new_plan))"
    by (intro loaded_plan_valid [OF truncates_example])
  show "length (pl_connection (snd (load_plan_config example_env ''f'' (Some sample_config) new_plan))) = 1"
    by code_simp
qed

text \<open>
  The component plan is finalized exactly when every instance that a connection names was also
  defined as a component.
\<close>

theorem finalize_succeeds_iff:
  "fst (finalize_component_plan st) \<longleftrightarrow> map_keys (instance_ep_map st) \<subseteq> map_keys (component_instances st)"
proof -
  have "fst (finalize_component_plan st) \<longleftrightarrow>
      fst (resolve_endpoints (component_instances st) (instance_ep_map st) (connections st))"
    by (simp add: finalize_component_plan_def case_prod_unfold split: bool.split)
  also have "\<dots> \<longleftrightarrow> map_keys (instance_ep_map st) \<subseteq> map_keys (component_instances st)"
    unfolding resolve_endpoints_fails map_keys_def [of "instance_ep_map st"]
    by (auto simp: map_has_def map_get_dom)
  finally show ?thesis .
qed

text \<open>
  A file that cannot be opened fails the loading of a deployment, of plugins and of a plan and
  leaves them alone, but the loading of a domain succeeds with the domain labelled.
\<close>

theorem unreadable_file:
  "load_deployment_config env f None plugins plan = (False, plugins, plan)
     \<and> load_plugins_config env f None plugins = (False, plugins)
     \<and> load_plan_config env f None plan = (False, plan)
     \<and> load_domain_config env f None dmn = (True, label_domain env f dmn)"
  by (simp add: load_deployment_config_def load_plugins_config_def load_plan_config_def
      load_domain_config_def)

text \<open>
  A file that consists of one word without a newline after it is loaded successfully as an empty
  plan, whatever the word is: the loop only looks at tokens that do not end the file.
\<close>

theorem last_token_ignored:
  assumes "proper False (Word w)"
  shows "load_plan_config env f (Some w) plan = (True, label_plan (cfg_basename env f True) f plan)"
proof -
  have "next_token False (open_stream w) = (w, open_stream w\<lparr>cs_src := [], cs_eof := True, cs_break := CHR '' ''\<rparr>)"
    by (rule next_token_last [OF assms]) (simp_all add: open_stream_def)
  then have "parser_eof (parse_next False (new_parser w))"
    by (simp add: parse_next_def new_parser_def)
  then have "plan_loop env (parse_next False (new_parser w)) st = (True, parse_next False (new_parser w), st)" for st
    by (simp add: plan_loop.simps)
  moreover have "finalize_component_plan (new_state new_plan plan) = (True, new_state new_plan plan)"
    by (simp add: finalize_component_plan_def new_state_def)
  ultimately show ?thesis
    by (simp add: load_plan_config_def) (simp add: new_state_def)
qed

theorem last_token_ignored_witness:
  "load_plan_config example_env ''f'' (Some ''x'') new_plan =
    (True, label_plan (cfg_basename example_env ''f'' True) ''f'' new_plan)"
  by (rule last_token_ignored) (simp add: is_break_def is_space_def is_comment_def quote1_def quote2_def)

text \<open>
  An instance whose implementation is new leaves the artifacts as they are: an artifact marked
  exclusive is not bound to the node of the instance, because the list of artifact references was
  moved into the plan before it is walked.
\<close>

theorem exclusive_artifact_not_bound:
  "artifacts (finish_component env False extra d st) = artifacts st
     \<and> artifacts (finish_locality env False extra d st) = artifacts st
     \<and> artifacts (finish_container env False extra d st) = artifacts st"
  by (simp add: finish_component_def finish_locality_def finish_container_def enter_implementation_def
      Let_def bind_artifacts_def push_instance_def name_instance_def name_locality_def
      enter_locality_def push_implementation_def)

text \<open>
  An instance whose implementation is known adds nothing to it: execution parameters and artifact
  references of its definition are dropped.
\<close>

theorem known_implementation_unchanged:
  "implementations (finish_component env True extra d st) = implementations st
     \<and> implementations (finish_locality env True extra d st) = implementations st
     \<and> implementations (finish_container env True extra d st) = implementations st"
  by (simp add: finish_component_def finish_locality_def finish_container_def enter_implementation_def
      Let_def)

text \<open>
  An open mode written as a decimal number is rejected.
\<close>

theorem decimal_open_mode_rejected:
  assumes "token (parse_next False p) = decimal n"
  shows "fst (load_open_mode env p) = None"
proof -
  have "tid (parse_next False p) = IText" using assms by (simp add: tid_next)
  moreover have "parse_literal_type (parse_next False p) = (lt_uint, parse_next False p)"
    using assms by (simp add: parse_literal_type_plain)
  ultimately show ?thesis
    by (simp add: load_open_mode_def lt_is_def)
qed

theorem decimal_open_mode_rejected_witness:
  "fst (load_open_mode example_env (new_parser ''42'')) = None"
proof (rule decimal_open_mode_rejected)
  have "next_token False (open_stream ''42'') =
      (''42'', open_stream ''42''\<lparr>cs_src := [], cs_eof := True, cs_break := CHR '' ''\<rparr>)"
    using next_token_last [OF proper_decimal [of False 42], of "open_stream ''42''"]
    by (simp add: decimal_42 open_stream_def)
  then show "token (parse_next False (new_parser ''42'')) = decimal 42"
    by (simp add: parse_next_def new_parser_def decimal_42)
qed

section \<open>Plugin plans\<close>

definition plugins_inv :: "nat \<Rightarrow> parser \<Rightarrow> 'd state \<Rightarrow> bool" where
  "plugins_inv N p st \<longleftrightarrow> N < 2 ^ 32 \<and> length (pl_instance (st_plugins st)) + psize p \<le> N
     \<and> length (pl_implementation (st_plugins st)) = length (pl_instance (st_plugins st))
     \<and> map id_implementationRef (pl_instance (st_plugins st)) = [0 ..< length (pl_instance (st_plugins st))]
     \<and> map_ok (plugin_instances st)
     \<and> (\<forall>n i. map_get (plugin_instances st) n = Some i \<longleftrightarrow>
          i < length (pl_instance (st_plugins st)) \<and> id_name (pl_instance (st_plugins st) ! i) = n)"

lemma plugin_names_snoc:
  assumes "\<forall>n i. map_get m n = Some i \<longleftrightarrow> i < length xs \<and> id_name (xs ! i) = n"
    and "map_ok m" "\<not> map_has m (id_name x)"
  shows "map_get (map_put (id_name x) (length xs) m) n = Some i \<longleftrightarrow>
    i < length (xs @ [x]) \<and> id_name ((xs @ [x]) ! i) = n"
  using assms by (auto simp: smap.get_put nth_append map_has_def less_Suc_eq)

lemma finish_plugin_keeps:
  assumes inv: "plugins_inv N p st" and less: "psize q < psize p" and env: "truncates env"
    and new: "\<not> map_has (plugin_instances st) (id_name (dr_idd d))"
  shows "plugins_inv N q (finish_plugin env extra d st)"
proof -
  let ?P = "st_plugins st"
  have small: "u32 env (length (pl_instance ?P)) = length (pl_instance ?P)"
    using inv by (intro u32_id [OF env]) (simp add: plugins_inv_def)
  have len: "length (pl_implementation ?P) = length (pl_instance ?P)"
    using inv by (simp add: plugins_inv_def)
  let ?x = "(dr_idd d)\<lparr>id_implementationRef := length (pl_instance ?P)\<rparr>"
  have names: "map_get (map_put (id_name ?x) (length (pl_instance ?P)) (plugin_instances st)) n = Some i \<longleftrightarrow>
      i < length (pl_instance ?P @ [?x]) \<and> id_name ((pl_instance ?P @ [?x]) ! i) = n" for n i
    using inv new by (intro plugin_names_snoc) (simp_all add: plugins_inv_def)
  show ?thesis
    using inv less names
    by (simp add: plugins_inv_def finish_plugin_def Let_def len small map_ok_put)
qed

lemma plugins_inv_mono: "plugins_inv N p st \<Longrightarrow> psize q \<le> psize p \<Longrightarrow> plugins_inv N q st"
  by (auto simp: plugins_inv_def)

lemma plugins_object_keeps:
  assumes env: "truncates env" and inv: "plugins_inv N p st"
    and op: "load_plugins_object env p st = (True, q, st')"
  shows "plugins_inv N q st'"
proof (cases "is_plugin (tid p)")
  case True
  then have o: "load_plugin_config env p st = (True, q, st')"
    using op by (simp add: load_plugins_object_def)
  have "psize q < psize p" by (rule plugins_object_size [OF op])
  with plugin_cases [OF o] show ?thesis
    using finish_plugin_keeps [OF inv _ env] by auto
next
  case False
  have "psize q \<le> psize p" using plugins_object_size [OF op] by simp
  then have "plugins_inv N q st" by (rule plugins_inv_mono [OF inv])
  with op False show ?thesis
    by (auto simp: load_plugins_object_def load_info_property_def push_info_def plugins_inv_def
        split: if_splits prod.splits option.splits)
qed

lemma plugins_loop_keeps:
  "truncates env \<Longrightarrow> plugins_inv N p st \<Longrightarrow> plugins_loop env p st = (True, q, st') \<Longrightarrow> plugins_inv N q st'"
proof (induction env p st rule: plugins_loop.induct)
  case (1 env p st)
  obtain c q1 st1 where o: "load_plugins_object env p st = (c, q1, st1)" by (metis prod_cases3)
  show ?case
  proof (cases "parser_eof p \<or> \<not> c")
    case False
    then have "plugins_inv N q1 st1" using plugins_object_keeps [OF 1(2,3)] o by simp
    with 1 o False show ?thesis by (simp add: plugins_loop.simps [of env p])
  next
    case True
    with 1 o show ?thesis by (cases "parser_eof p") (simp_all add: plugins_loop.simps [of env p])
  qed
qed

text \<open>
  In every plan that load_plugins_config reads into an empty plan the plugins have different
  names and each has an implementation of its own, at its own index.
\<close>

theorem loaded_plugins_distinct:
  assumes "truncates env" "fresh_plan plan" "length inp < 2 ^ 32"
    and "load_plugins_config env filename (Some inp) plan = (True, plan')"
  shows "distinct (map id_name (pl_instance plan'))
    \<and> map id_implementationRef (pl_instance plan') = [0 ..< length (pl_implementation plan')]"
proof -
  let ?p = "parse_next False (new_parser inp)" and ?st = "new_state plan new_plan"
  obtain q st where loop: "plugins_loop env ?p ?st = (True, q, st)"
    and plan': "plan' = label_plan (cfg_basename env filename True @ ''.plugins'') filename (st_plugins st)"
    using assms(4) by (auto simp: load_plugins_config_def split: prod.splits bool.splits)
  have "psize ?p \<le> length inp"
    using psize_next [of False "new_parser inp"] by (simp add: psize_def new_parser_def open_stream_def)
  then have "plugins_inv (length inp) ?p ?st"
    using assms(2,3) by (simp add: plugins_inv_def new_state_def fresh_plan_def)
  from plugins_loop_keeps [OF assms(1) this loop]
  have inv: "plugins_inv (length inp) q st" .
  then have "distinct (map id_name (pl_instance (st_plugins st)))"
    unfolding plugins_inv_def by (simp add: distinct_conv_nth) (metis option.inject)
  with inv show ?thesis
    by (simp add: plan' label_plan_def plugins_inv_def)
qed

definition sample_plugins :: string where
  "sample_plugins = ''nl.remedy.it.DnCX11.InstanceHandler a f'' @ [newline] @
     ''nl.remedy.it.DnCX11.ServiceObject b c: g'' @ [newline]"

theorem loaded_plugins_distinct_witness:
  "distinct (map id_name (pl_instance (snd (load_plugins_config example_env ''f'' (Some sample_plugins) new_plan))))"
proof -
  have "fst (load_plugins_config example_env ''f'' (Some sample_plugins) new_plan)"
    by code_simp
  then have "load_plugins_config example_env ''f'' (Some sample_plugins) new_plan =
      (True, snd (load_plugins_config example_env ''f'' (Some sample_plugins) new_plan))"
    by (simp add: prod_eq_iff)
  moreover have "length sample_plugins < 2 ^ 32" by (simp add: sample_plugins_def)
  moreover have "fresh_plan new_plan" by (simp add: fresh_plan_def new_plan_def)
  ultimately show ?thesis
    using loaded_plugins_distinct [OF truncates_example] by blast
qed

end
