(* ===== verification/Plugin_Handlers.thy ===== *)
theory Plugin_Handlers
  imports Plugin_Manager
begin

text \<open>
  The handlers for instances that are plugins themselves, dancex11/handler/instance: instance handlers
  (inst_handler_impl.cpp), interceptors (interceptor_handler_impl.cpp), configuration plugins
  (config_handler_impl.cpp) and service objects (service_object_handler_impl.cpp), and the loop that
  installs the plugins of a plan into a manager (plugin_conf.cpp). The open mode of a library that a
  plan does not give is a constant of ACE, here an argument.
\<close>

abbreviation "DANCE_INSTALLATIONHANDLER \<equiv> ''nl.remedy.it.DnCX11.InstanceHandler''"
abbreviation "DANCE_DEPLOYMENTINTERCEPTOR \<equiv> ''nl.remedy.it.DnCX11.DeploymentInterceptor''"
abbreviation "DANCE_CONFIGPLUGIN \<equiv> ''nl.remedy.it.DnCX11.ConfigPlugin''"
abbreviation "DANCE_SERVICEOBJECT \<equiv> ''nl.remedy.it.DnCX11.ServiceObject''"
abbreviation "DANCE_IDH_DEPENDSON \<equiv> ''nl.remedy.it.DnCX11.InstanceHandler.DependsOn''"

section \<open>What all of them read\<close>

text \<open>The instance, its implementation, the entry point and the artifact; or what is thrown.\<close>

definition plugin_parts :: "'d plan \<Rightarrow> nat \<Rightarrow> exn + 'd idd \<times> 'd mdd \<times> string \<times> string" where
  "plugin_parts plan ref =
     (if length (pl_instance plan) \<le> ref then Inl (plan_error (pl_UUID plan) ''Invalid instance reference'')
      else let idd = pl_instance plan ! ref in
        if length (pl_implementation plan) \<le> id_implementationRef idd then
          Inl (plan_error (pl_UUID plan) ''Invalid Implementation reference'')
        else let mdd = pl_implementation plan ! id_implementationRef idd in
          case get_property_value as_string DANCE_PLUGIN_FACTORY (md_execParameter mdd) of
            None \<Rightarrow> Inl (UserEx StartError (id_name idd)
              (''No entrypoint found for plug-in initialization'' @ [newline]))
          | Some entrypoint \<Rightarrow>
              (case get_property_value as_string DANCE_PLUGIN_ARTIFACT (md_execParameter mdd) of
                 None \<Rightarrow> Inl (UserEx StartError (id_name idd)
                   (''No artifact found for plug-in initialization'' @ [newline]))
               | Some artifact \<Rightarrow> Inr (idd, mdd, entrypoint, artifact)))"

definition plugin_open_mode :: "32 word \<Rightarrow> 'd mdd \<Rightarrow> 32 word" where
  "plugin_open_mode dflt mdd =
     (case get_property_value as_uint32 DANCE_PLUGIN_OPENMODE (md_execParameter mdd) of
        Some v \<Rightarrow> v | None \<Rightarrow> dflt)"

text \<open>The properties of an instance, those of the implementation over them.\<close>

definition plugin_config :: "'d idd \<Rightarrow> 'd mdd \<Rightarrow> 'd property_map" where
  "plugin_config idd mdd =
     build_property_map (build_property_map [] (id_configProperty idd) True) (md_execParameter mdd) True"

section \<open>Installing a plugin\<close>

fun plugin_depends :: "string \<Rightarrow> 'd properties \<Rightarrow> string set \<Rightarrow> exn + string set" where
  "plugin_depends name [] deps = Inr deps"
| "plugin_depends name (p # ps) deps =
     (if pr_name p = DANCE_IDH_DEPENDSON then
        (case as_string (pr_value p) of
           Some dep \<Rightarrow> plugin_depends name ps (insert dep deps)
         | None \<Rightarrow> Inl (UserEx StartError name ''Unable to extract dependency order from string''))
      else plugin_depends name ps deps)"

definition install_handler ::
  "('p, 'd) plugin_env \<Rightarrow> 32 word \<Rightarrow> 'd plan \<Rightarrow> nat \<Rightarrow> ('p, 'd) manager \<Rightarrow> (exn + 'd any) \<times> ('p, 'd) manager" where
  "install_handler env dflt plan ref pm =
     (case plugin_parts plan ref of
        Inl e \<Rightarrow> (Inl e, pm)
      | Inr (idd, mdd, entrypoint, artifact) \<Rightarrow>
          (case plugin_depends (id_name idd) (id_configProperty idd) {} of
             Inl e \<Rightarrow> (Inl e, pm)
           | Inr deps \<Rightarrow>
               (case register_installation_handler env artifact entrypoint deps (plugin_open_mode dflt mdd)
                   (plugin_config idd mdd) pm of
                  (res, _, pm') \<Rightarrow> (map_sum id (\<lambda>ty. PrimAny (VString ty)) res, pm'))))"

definition install_interceptor ::
  "('p, 'd) plugin_env \<Rightarrow> 32 word \<Rightarrow> 'd plan \<Rightarrow> nat \<Rightarrow> ('p, 'd) manager \<Rightarrow> (exn + unit) \<times> ('p, 'd) manager" where
  "install_interceptor env dflt plan ref pm =
     (case plugin_parts plan ref of
        Inl e \<Rightarrow> (Inl e, pm)
      | Inr (idd, mdd, entrypoint, artifact) \<Rightarrow>
          (case register_interceptor env artifact entrypoint (plugin_open_mode dflt mdd) (plugin_config idd mdd) pm of
             (res, _, pm') \<Rightarrow> (res, pm')))"

definition install_config_plugin ::
  "('p, 'd) plugin_env \<Rightarrow> 32 word \<Rightarrow> 'd plan \<Rightarrow> nat \<Rightarrow> ('p, 'd) manager \<Rightarrow> (exn + unit) \<times> ('p, 'd) manager" where
  "install_config_plugin env dflt plan ref pm =
     (case plugin_parts plan ref of
        Inl e \<Rightarrow> (Inl e, pm)
      | Inr (idd, mdd, entrypoint, artifact) \<Rightarrow>
          register_configuration_plugin env artifact entrypoint (plugin_open_mode dflt mdd) pm)"

text \<open>An option of a service object, from its implementation or else from the instance.\<close>

definition service_option :: "('d any \<Rightarrow> 'a option) \<Rightarrow> 'a \<Rightarrow> string \<Rightarrow> 'd idd \<Rightarrow> 'd mdd \<Rightarrow> 'a" where
  "service_option ex dflt name idd mdd =
     (case get_property_value ex name (md_execParameter mdd) of
        Some v \<Rightarrow> v
      | None \<Rightarrow> (case get_property_value ex name (id_configProperty idd) of Some v \<Rightarrow> v | None \<Rightarrow> dflt))"

definition install_service_object ::
  "('p, 'd) plugin_env \<Rightarrow> 'd plan \<Rightarrow> nat \<Rightarrow> ('p, 'd) manager \<Rightarrow> (exn + unit) \<times> ('p, 'd) manager" where
  "install_service_object env plan ref pm =
     (case plugin_parts plan ref of
        Inl e \<Rightarrow> (Inl e, pm)
      | Inr (idd, mdd, entrypoint, artifact) \<Rightarrow>
          register_service env (md_name mdd) artifact entrypoint
            (service_option as_string [] (DANCE_SERVICEOBJECT @ ''.Arguments'') idd mdd)
            (service_option as_bool False (DANCE_SERVICEOBJECT @ ''.IgnoreLoadError'') idd mdd) pm)"

section \<open>The plugins of a plan\<close>

text \<open>One instance; other types, and instances without an implementation, are passed over.\<close>

definition load_plan_plugin ::
  "('p, 'd) plugin_env \<Rightarrow> 32 word \<Rightarrow> 'd plan \<Rightarrow> nat \<Rightarrow> ('p, 'd) manager \<Rightarrow> exn option \<times> ('p, 'd) manager" where
  "load_plan_plugin env dflt plan i pm =
     (let idd = pl_instance plan ! i in
      if length (pl_implementation plan) \<le> id_implementationRef idd then (None, pm)
      else let ty = get_instance_type (md_execParameter (pl_implementation plan ! id_implementationRef idd)) in
        if ty = DANCE_INSTALLATIONHANDLER then
          (case install_handler env dflt plan i pm of (Inl e, pm') \<Rightarrow> (Some e, pm') | (Inr _, pm') \<Rightarrow> (None, pm'))
        else case (if ty = DANCE_DEPLOYMENTINTERCEPTOR then install_interceptor env dflt plan i pm
                   else if ty = DANCE_CONFIGPLUGIN then install_config_plugin env dflt plan i pm
                   else if ty = DANCE_SERVICEOBJECT then install_service_object env plan i pm
                   else (Inr (), pm)) of
             (Inl e, pm') \<Rightarrow> (Some e, pm') | (Inr _, pm') \<Rightarrow> (None, pm'))"

fun load_plan_plugins ::
  "('p, 'd) plugin_env \<Rightarrow> 32 word \<Rightarrow> 'd plan \<Rightarrow> nat list \<Rightarrow> ('p, 'd) manager \<Rightarrow> exn option \<times> ('p, 'd) manager" where
  "load_plan_plugins env dflt plan [] pm = (None, pm)"
| "load_plan_plugins env dflt plan (i # is) pm =
     (case load_plan_plugin env dflt plan i pm of
        (Some e, pm') \<Rightarrow> (Some e, pm')
      | (None, pm') \<Rightarrow> load_plan_plugins env dflt plan is pm')"

definition load_from_plan ::
  "('p, 'd) plugin_env \<Rightarrow> 32 word \<Rightarrow> 'd plan \<Rightarrow> ('p, 'd) manager \<Rightarrow> exn option \<times> ('p, 'd) manager" where
  "load_from_plan env dflt plan pm =
     load_plan_plugins env dflt plan [0..<length (pl_instance plan)] (add_configuration (pl_infoProperty plan) pm)"

section \<open>The manager stays well-formed\<close>

lemma plugin_depends_finite: "finite deps \<Longrightarrow> plugin_depends name ps deps = Inr deps' \<Longrightarrow> finite deps'"
  by (induction name ps deps rule: plugin_depends.induct) (auto split: if_splits option.splits)

lemma manager_ok_registered:
  "manager_ok env pm \<Longrightarrow> finite deps \<Longrightarrow>
    register_installation_handler env a e deps m c pm = (r, c', pm') \<Longrightarrow> manager_ok env pm'"
  by (metis manager_ok_register snd_conv)

lemma registered_serves:
  "manager_ok env pm \<Longrightarrow> register_installation_handler env a e deps m c pm = (r, c', pm') \<Longrightarrow>
    map_keys (handler_map pm') = map_keys (handler_map pm) \<union> (case r of Inl _ \<Rightarrow> {} | Inr ty \<Rightarrow> {ty})"
  by (auto simp: register_installation_handler_def Let_def manager_ok_def map_insert_def map_has_def map_get_dom
      smap.keys_put split: sum.splits option.splits if_splits)

text \<open>Each plugin that is loaded leaves the manager well-formed and serves no fewer types than before.\<close>

definition grows :: "('p, 'd) plugin_env \<Rightarrow> ('p, 'd) manager \<Rightarrow> ('p, 'd) manager \<Rightarrow> bool" where
  "grows env pm pm' \<longleftrightarrow> (manager_ok env pm \<longrightarrow> manager_ok env pm' \<and> map_keys (handler_map pm) \<subseteq> map_keys (handler_map pm'))"

lemma grows_refl [simp]: "grows env pm pm"
  by (simp add: grows_def)

lemma grows_trans: "grows env pm pm' \<Longrightarrow> grows env pm' pm'' \<Longrightarrow> grows env pm pm''"
  by (auto simp: grows_def)

lemma install_handler_grows: "grows env pm (snd (install_handler env dflt plan i pm))"
  by (auto simp: install_handler_def grows_def split: sum.split prod.split
      intro: manager_ok_registered [OF _ plugin_depends_finite [OF finite.emptyI]] dest: registered_serves)

lemma install_interceptor_grows: "grows env pm (snd (install_interceptor env dflt plan i pm))"
  by (auto simp: install_interceptor_def register_interceptor_def grows_def Let_def manager_ok_def
      split: sum.split prod.split option.split)

lemma install_config_plugin_grows: "grows env pm (snd (install_config_plugin env dflt plan i pm))"
  by (auto simp: install_config_plugin_def register_configuration_plugin_def grows_def manager_ok_def map_ok_insert
      split: sum.split prod.split)

lemma install_service_object_grows: "grows env pm (snd (install_service_object env plan i pm))"
  by (auto simp: install_service_object_def register_service_def grows_def manager_ok_def Let_def
      split: sum.split prod.split)

lemma load_plan_plugin_grows: "grows env pm (snd (load_plan_plugin env dflt plan i pm))"
  using install_handler_grows [of env pm dflt plan i] install_interceptor_grows [of env pm dflt plan i]
    install_config_plugin_grows [of env pm dflt plan i] install_service_object_grows [of env pm plan i]
  by (auto simp: load_plan_plugin_def Let_def split: sum.split prod.split)

lemma load_plan_plugins_grows: "grows env pm (snd (load_plan_plugins env dflt plan is pm))"
proof (induction "is" arbitrary: pm)
  case (Cons i "is")
  obtain x pm1 where s: "load_plan_plugin env dflt plan i pm = (x, pm1)" by (cases "load_plan_plugin env dflt plan i pm")
  have "grows env pm pm1" using load_plan_plugin_grows [of env pm dflt plan i] by (simp add: s)
  with Cons [of pm1] show ?case by (auto simp: s intro: grows_trans split: option.split)
qed simp

lemma add_configuration_grows: "grows env pm (add_configuration cfg pm)"
  by (auto simp: add_configuration_def Let_def manager_ok_def grows_def)

section \<open>Properties\<close>

text \<open>The instances of a plan that are instance handlers.\<close>

definition is_handler_plugin :: "'d plan \<Rightarrow> nat \<Rightarrow> bool" where
  "is_handler_plugin plan i \<longleftrightarrow> i < length (pl_instance plan)
     \<and> id_implementationRef (pl_instance plan ! i) < length (pl_implementation plan)
     \<and> get_instance_type (md_execParameter (pl_implementation plan ! id_implementationRef (pl_instance plan ! i)))
        = DANCE_INSTALLATIONHANDLER"

lemma map_sum_Inr: "map_sum f g x = Inr v \<longleftrightarrow> (\<exists>y. x = Inr y \<and> v = g y)"
  by (cases x) auto

lemma load_plan_plugin_serves:
  assumes "manager_ok env pm" "is_handler_plugin plan i" "load_plan_plugin env dflt plan i pm = (None, pm')"
  shows "\<exists>idd mdd entry artifact p. plugin_parts plan i = Inr (idd, mdd, entry, artifact)
    \<and> load_plugin env artifact entry (plugin_open_mode dflt mdd) = Inr p
    \<and> instance_type env p \<in> map_keys (handler_map pm')"
proof -
  obtain v where v: "install_handler env dflt plan i pm = (Inr v, pm')"
    using assms(2,3) by (auto simp: load_plan_plugin_def is_handler_plugin_def Let_def split: sum.splits prod.splits if_splits)
  then obtain idd mdd entry artifact deps ty c where parts: "plugin_parts plan i = Inr (idd, mdd, entry, artifact)"
    and reg: "register_installation_handler env artifact entry deps (plugin_open_mode dflt mdd) (plugin_config idd mdd) pm
      = (Inr ty, c, pm')"
    by (auto simp: install_handler_def map_sum_Inr split: sum.splits prod.splits)
  obtain p where "load_plugin env artifact entry (plugin_open_mode dflt mdd) = Inr p" "instance_type env p = ty"
    using reg by (auto simp: register_installation_handler_def Let_def split: sum.splits option.splits)
  with registered_serves [OF assms(1) reg] parts show ?thesis by auto
qed

text \<open>
  When the plugins of a plan were loaded without an exception, the manager is well-formed and every
  instance of the plan that is an instance handler was loaded from its artifact with its entry point, and
  the instance type it handles has a handler.
\<close>

theorem plan_plugins_served:
  assumes "manager_ok env pm" "load_from_plan env dflt plan pm = (None, pm')"
  shows "manager_ok env pm' \<and> (\<forall>i. is_handler_plugin plan i \<longrightarrow>
    (\<exists>idd mdd entry artifact p. plugin_parts plan i = Inr (idd, mdd, entry, artifact)
      \<and> load_plugin env artifact entry (plugin_open_mode dflt mdd) = Inr p
      \<and> fetch_installation_handler (instance_type env p) pm' \<noteq> None))"
proof -
  let ?Q = "\<lambda>i pm. \<exists>idd mdd entry artifact p. plugin_parts plan i = Inr (idd, mdd, entry, artifact)
      \<and> load_plugin env artifact entry (plugin_open_mode dflt mdd) = Inr p
      \<and> instance_type env p \<in> map_keys (handler_map pm)"
  have all: "load_plan_plugins env dflt plan is pm = (None, pm') \<Longrightarrow> manager_ok env pm \<Longrightarrow>
      \<forall>i \<in> set is. is_handler_plugin plan i \<longrightarrow> ?Q i pm'" for "is" pm
  proof (induction "is" arbitrary: pm)
    case (Cons j "is")
    obtain x pm1 where s: "load_plan_plugin env dflt plan j pm = (x, pm1)" by (cases "load_plan_plugin env dflt plan j pm")
    then have x: "x = None" and rest: "load_plan_plugins env dflt plan is pm1 = (None, pm')"
      using Cons.prems(1) by (auto split: option.splits)
    have ok1: "manager_ok env pm1" using load_plan_plugin_grows [of env pm dflt plan j] Cons.prems(2) by (simp add: s grows_def)
    have sub: "map_keys (handler_map pm1) \<subseteq> map_keys (handler_map pm')"
      using load_plan_plugins_grows [of env pm1 dflt plan "is"] ok1 by (simp add: rest grows_def)
    have "?Q j pm'" if "is_handler_plugin plan j"
      using load_plan_plugin_serves [OF Cons.prems(2) that s [unfolded x]] sub by blast
    with Cons.IH [OF rest ok1] show ?case by simp
  qed simp
  let ?pm = "add_configuration (pl_infoProperty plan) pm"
  have load: "load_plan_plugins env dflt plan [0..<length (pl_instance plan)] ?pm = (None, pm')"
    using assms(2) by (simp add: load_from_plan_def)
  have ok: "manager_ok env ?pm" using add_configuration_grows [of env pm] assms(1) by (simp add: grows_def)
  have "manager_ok env pm'"
    using load_plan_plugins_grows [of env ?pm dflt plan] ok load by (metis grows_def snd_conv)
  moreover have "?Q i pm'" if "is_handler_plugin plan i" for i
    using all [OF load ok] that by (simp add: is_handler_plugin_def)
  ultimately show ?thesis by (simp add: fetch_installation_handler_def map_get_dom)
qed

text \<open>A plan with one instance handler.\<close>

definition handler_plan :: "int plan" where
  "handler_plan = new_plan\<lparr>
     pl_implementation := [new_mdd\<lparr>md_execParameter :=
       [mk_prop DANCE_PLUGIN_ARTIFACT (PrimAny (VString ''lib'')), mk_prop DANCE_PLUGIN_FACTORY (PrimAny (VString ''make'')),
        mk_prop IMPL_TYPE (PrimAny (VString DANCE_INSTALLATIONHANDLER))]\<rparr>],
     pl_instance := [new_idd\<lparr>id_name := ''h'', id_configProperty :=
       [mk_prop DANCE_IDH_DEPENDSON (PrimAny (VString ''Z''))]\<rparr>]\<rparr>"

theorem plan_plugins_served_witness:
  "fetch_installation_handler ''T'' (snd (load_from_plan example_plugins 1 handler_plan new_manager)) = Some 4
    \<and> fetch_installation_handler ''T'' (snd (load_from_plan example_plugins 1 handler_plan new_manager)) \<noteq> None"
proof -
  obtain x pm where l: "load_from_plan example_plugins 1 handler_plan new_manager = (x, pm)"
    by (cases "load_from_plan example_plugins 1 handler_plan new_manager")
  have f: "fst (load_from_plan example_plugins 1 handler_plan new_manager) = None"
    "fetch_installation_handler ''T'' (snd (load_from_plan example_plugins 1 handler_plan new_manager)) = Some 4"
    by code_simp+
  then have x: "x = None" using l by simp
  have "is_handler_plugin handler_plan 0" by code_simp
  moreover have "instance_type example_plugins p = ''T''" for p by (simp add: example_plugins_def)
  ultimately show ?thesis
    using plan_plugins_served [OF manager_ok_new l [unfolded x]] l f(2) by auto
qed

end
