(* ===== verification/Plan_Files.thy ===== *)
theory Plan_Files
  imports Config_Loader Split_Plan Plugin_Handlers
begin

text \<open>
  Plans and domains in files: Plan_Loader, which reads a file with the loader registered for its format,
  the loader of configuration files and the one of CDR files (dancex11/core), Convert_Plan, which writes
  CDR files, and the tools convert_plan and split_plan (tools/convert_plan, tools/split_plan). A file is
  its bytes. What the ORB marshals, what fwrite writes and what ACE_Get_Opt makes of the command line are
  parameters.
\<close>

abbreviation "REGISTER_NAMING \<equiv> ''nl.remedy.it.DnCX11.RegisterNaming''"
abbreviation "INSTANCE_IOR_FILE \<equiv> ''nl.remedy.it.DnCX11.InstanceIOR''"

section \<open>Loaders by format\<close>

record 'd plan_loader =
  ld_read_plan :: "string \<Rightarrow> 'd plan \<Rightarrow> bool \<times> 'd plan"
  ld_read_domain :: "string \<Rightarrow> 'd domain \<Rightarrow> bool \<times> 'd domain"

type_synonym 'd loaders = "(string, 'd plan_loader) smap"

type_synonym files = "string \<Rightarrow> string option"

definition extension :: "string \<Rightarrow> string" where
  "extension path = (case last_index CHR ''.'' path of None \<Rightarrow> [] | Some n \<Rightarrow> drop (n + 1) path)"

definition register_plan_loader :: "string \<Rightarrow> 'd plan_loader \<Rightarrow> 'd loaders \<Rightarrow> 'd loaders" where
  "register_plan_loader fmt ld m = (case map_get m fmt of None \<Rightarrow> map_put fmt ld m | Some _ \<Rightarrow> m)"

definition deregister_plan_loader :: "string \<Rightarrow> 'd loaders \<Rightarrow> 'd loaders" where
  "deregister_plan_loader fmt m = (case map_get m fmt of None \<Rightarrow> m | Some _ \<Rightarrow> map_erase fmt m)"

definition read_plan :: "'d loaders \<Rightarrow> string \<Rightarrow> 'd plan \<Rightarrow> string \<Rightarrow> bool \<times> 'd plan" where
  "read_plan m filename plan fmt =
     (case map_get m (if fmt = [] then extension filename else fmt) of
        Some ld \<Rightarrow> ld_read_plan ld filename plan
      | None \<Rightarrow> (False, plan))"

definition read_domain :: "'d loaders \<Rightarrow> string \<Rightarrow> 'd domain \<Rightarrow> string \<Rightarrow> bool \<times> 'd domain" where
  "read_domain m filename dmn fmt =
     (case map_get m (if fmt = [] then extension filename else fmt) of
        Some ld \<Rightarrow> ld_read_domain ld filename dmn
      | None \<Rightarrow> (False, dmn))"

section \<open>Configuration files\<close>

definition cfg_read_plan :: "'d env \<Rightarrow> files \<Rightarrow> string \<Rightarrow> 'd plan \<Rightarrow> bool \<times> 'd plan" where
  "cfg_read_plan env fs filename plan =
     (if filename = [] then (False, plan) else load_plan_config env filename (fs filename) plan)"

definition cfg_read_domain :: "'d env \<Rightarrow> files \<Rightarrow> string \<Rightarrow> 'd domain \<Rightarrow> bool \<times> 'd domain" where
  "cfg_read_domain env fs filename dmn =
     (if filename = [] then (False, dmn) else load_domain_config env filename (fs filename) dmn)"

definition cfg_loader :: "'d env \<Rightarrow> files \<Rightarrow> 'd plan_loader" where
  "cfg_loader env fs = \<lparr>ld_read_plan = cfg_read_plan env fs, ld_read_domain = cfg_read_domain env fs\<rparr>"

definition cfg_init :: "'d env \<Rightarrow> files \<Rightarrow> 'd loaders \<Rightarrow> 'd loaders" where
  "cfg_init env fs m =
     fold (\<lambda>fmt. register_plan_loader fmt (cfg_loader env fs))
       [''cfg'', ''conf'', ''config'', ''dpcfg'', ''ddcfg'', ''domcfg''] m"

definition new_plan_loader :: "'d env \<Rightarrow> files \<Rightarrow> 'd loaders" where
  "new_plan_loader env fs = cfg_init env fs []"

section \<open>CDR files\<close>

text \<open>
  The byte order of a machine or a file is true for little endian, as the byte 1 in a file. Marshalling
  yields the blocks of a message, unmarshalling is told the order of the bytes and may leave part of the
  data behind when it fails.
\<close>

record 'd marshal =
  ml_put_plan :: "bool \<Rightarrow> 'd plan \<Rightarrow> string list option"
  ml_get_plan :: "bool \<Rightarrow> string \<Rightarrow> 'd plan \<Rightarrow> bool \<times> 'd plan"
  ml_put_domain :: "bool \<Rightarrow> 'd domain \<Rightarrow> string list option"
  ml_get_domain :: "bool \<Rightarrow> string \<Rightarrow> 'd domain \<Rightarrow> bool \<times> 'd domain"

definition byte_of :: "bool \<Rightarrow> char" where
  "byte_of little = (if little then CHR 0x01 else CHR 0x00)"

definition u32_bytes :: "bool \<Rightarrow> 32 word \<Rightarrow> string" where
  "u32_bytes little w =
     (let bs = map (\<lambda>i. char_of (unat (drop_bit (8 * i) w))) [0, 1, 2, 3] in if little then bs else rev bs)"

definition u32_value :: "bool \<Rightarrow> string \<Rightarrow> 32 word" where
  "u32_value little cs =
     word_of_nat (foldr (\<lambda>c n. of_char c + 256 * n) (if little then cs else rev cs) 0)"

text \<open>Four bytes are swapped in place when the file is of the other order.\<close>

definition read_cdr ::
  "bool \<Rightarrow> files \<Rightarrow> (bool \<Rightarrow> string \<Rightarrow> 'x \<Rightarrow> bool \<times> 'x) \<Rightarrow> string \<Rightarrow> 'x \<Rightarrow> bool \<times> 'x" where
  "read_cdr host fs get filename x =
     (if filename = [] then (False, x)
      else (case fs filename of
         None \<Rightarrow> (False, x)
       | Some content \<Rightarrow>
           (case dropWhile is_space content of
              [] \<Rightarrow> (False, x)
            | order # rest \<Rightarrow>
                if length rest < 4 then (False, x)
                else let swapped = (order \<noteq> byte_of host);
                         size = unat (u32_value host (if swapped then rev (take 4 rest) else take 4 rest));
                         body = drop 4 rest in
                  if length body < size then (False, x)
                  else get (host \<noteq> swapped) (take size body) x)))"

definition cdr_loader :: "bool \<Rightarrow> files \<Rightarrow> 'd marshal \<Rightarrow> 'd plan_loader" where
  "cdr_loader host fs ml =
     \<lparr>ld_read_plan = read_cdr host fs (ml_get_plan ml), ld_read_domain = read_cdr host fs (ml_get_domain ml)\<rparr>"

definition cdr_init :: "bool \<Rightarrow> files \<Rightarrow> 'd marshal \<Rightarrow> 'd loaders \<Rightarrow> 'd loaders" where
  "cdr_init host fs ml m =
     fold (\<lambda>fmt. register_plan_loader fmt (cdr_loader host fs ml)) [''cdr'', ''ddcdr'', ''dpcdr''] m"

definition cdr_fini :: "'d loaders \<Rightarrow> 'd loaders" where
  "cdr_fini m = fold deregister_plan_loader [''cdr'', ''ddcdr'', ''dpcdr''] m"

text \<open>
  Writing: what fopen and fwrite do with a name and a sequence of blocks is the number of bytes written
  and the content of the file then, or None if it could not be opened.
\<close>

type_synonym file_writer = "string \<Rightarrow> string list \<Rightarrow> (nat \<times> string) option"

definition write_cdr_file ::
  "'d env \<Rightarrow> bool \<Rightarrow> file_writer \<Rightarrow> string \<Rightarrow> string list \<Rightarrow> files \<Rightarrow> bool \<times> files" where
  "write_cdr_file env host put filename blocks fs =
     (let cdr_length = word_of_int (truncate_cast env TUInt32 (int (length (concat blocks)))) :: 32 word in
      case put filename ([byte_of host] # u32_bytes host cdr_length # blocks) of
        None \<Rightarrow> (False, fs)
      | Some (n, content) \<Rightarrow> (n = 1 + 4 + unat cdr_length, fs(filename \<mapsto> content)))"

definition write_cdr ::
  "'d env \<Rightarrow> bool \<Rightarrow> file_writer \<Rightarrow> (bool \<Rightarrow> 'x \<Rightarrow> string list option) \<Rightarrow> string \<Rightarrow> 'x \<Rightarrow> files \<Rightarrow> bool \<times> files" where
  "write_cdr env host put marshal filename x fs =
     (if filename = [] then (False, fs)
      else (case marshal host x of
         None \<Rightarrow> (False, fs)
       | Some blocks \<Rightarrow> write_cdr_file env host put filename blocks fs))"

definition write_cdr_plan ::
  "'d env \<Rightarrow> bool \<Rightarrow> file_writer \<Rightarrow> 'd marshal \<Rightarrow> string \<Rightarrow> 'd plan \<Rightarrow> files \<Rightarrow> bool \<times> files" where
  "write_cdr_plan env host put ml filename plan fs = write_cdr env host put (ml_put_plan ml) filename plan fs"

definition write_cdr_domain ::
  "'d env \<Rightarrow> bool \<Rightarrow> file_writer \<Rightarrow> 'd marshal \<Rightarrow> string \<Rightarrow> 'd domain \<Rightarrow> files \<Rightarrow> bool \<times> files" where
  "write_cdr_domain env host put ml filename dmn fs = write_cdr env host put (ml_put_domain ml) filename dmn fs"

section \<open>Configuring a process\<close>

text \<open>
  The configuration file: the one given, or else the default one here, or else the one below
  DANCEX11_ROOT, where there is one; otherwise the default name, which is then not found.
\<close>

definition find_config :: "'d env \<Rightarrow> files \<Rightarrow> string option \<Rightarrow> string \<Rightarrow> string \<Rightarrow> string" where
  "find_config env fs root def_cfg config =
     (if config \<noteq> [] then config
      else if fs def_cfg \<noteq> None then def_cfg
      else (case root of
         None \<Rightarrow> def_cfg
       | Some r \<Rightarrow>
           let filename = r @ [directory_sep env] @ ''bin'' @ [directory_sep env] @ def_cfg in
           if fs filename \<noteq> None then filename else def_cfg))"


definition configure_tool ::
  "('p, 'd) plugin_env \<Rightarrow> 'd env \<Rightarrow> files \<Rightarrow> string option \<Rightarrow> string \<Rightarrow> string \<Rightarrow> string \<Rightarrow> ('p, 'd) manager \<Rightarrow>
    exn option \<times> ('p, 'd) manager" where
  "configure_tool penv env fs root tool def_cfg config pm =
     (let cfg_file = find_config env fs root def_cfg config in
      case load_plugins_config env cfg_file (fs cfg_file) new_plan of
        (False, _) \<Rightarrow>
          (Some (UserEx StartError tool
             (tool @ ''::configure - Failed to load configuration from ['' @ cfg_file @ '']'')), pm)
      | (True, plan) \<Rightarrow> load_from_plan penv (default_shlib_mode env) plan pm)"

text \<open>What a tool runs in: the machine, the files of the configuration and what may raise.\<close>

record ('p, 'd) tool_env =
  te_plugins :: "('p, 'd) plugin_env"
  te_config :: "'d env"
  te_root :: "string option"
  te_host :: bool
  te_writer :: file_writer
  te_marshal :: "'d marshal"
  te_orb :: "exn + unit"
  te_loaders :: "files \<Rightarrow> 'd loaders"

section \<open>convert_plan\<close>

record convert_options =
  co_input :: string
  co_output :: string
  co_config :: string
  co_fmt :: string

text \<open>The options as ACE_Get_Opt yields them up to the end, an unknown one as a question mark.\<close>

fun convert_args :: "(char \<times> string) list \<Rightarrow> convert_options \<Rightarrow> convert_options option" where
  "convert_args [] o1 = Some o1"
| "convert_args ((c, arg) # opts) o1 =
     (if c = CHR ''c'' then convert_args opts (o1\<lparr>co_config := arg\<rparr>)
      else if c = CHR ''i'' then convert_args opts (o1\<lparr>co_input := arg\<rparr>)
      else if c = CHR ''f'' then convert_args opts (o1\<lparr>co_fmt := arg\<rparr>)
      else if c = CHR ''o'' then convert_args opts (o1\<lparr>co_output := arg\<rparr>)
      else None)"

definition parse_convert :: "nat \<Rightarrow> (char \<times> string) list \<Rightarrow> convert_options option" where
  "parse_convert argc opts =
     (if argc < 2 then None
      else convert_args opts \<lparr>co_input = [], co_output = [], co_config = [], co_fmt = []\<rparr>)"

definition contains :: "string \<Rightarrow> string \<Rightarrow> bool" where
  "contains pat s = list_ex (\<lambda>i. take (length pat) (drop i s) = pat) [0..<Suc (length s)]"

definition convert_format :: "string \<Rightarrow> string \<Rightarrow> string" where
  "convert_format fmt filename = (if fmt \<noteq> [] then fmt else extension filename)"

definition is_domain_format :: "string \<Rightarrow> bool" where
  "is_domain_format fmt \<longleftrightarrow> contains ''cdd'' fmt \<or> contains ''ddcfg'' fmt \<or> contains ''domcfg'' fmt"

definition convert_file :: "('p, 'd) tool_env \<Rightarrow> convert_options \<Rightarrow> files \<Rightarrow> int \<times> files" where
  "convert_file te o1 fs =
     (let fmt = convert_format (co_fmt o1) (co_input o1) in
      if is_domain_format fmt then
        (case read_domain (te_loaders te fs) (co_input o1) \<lparr>dm_UUID = [], dm_label = [], dm_node = [], dm_infoProperty = []\<rparr> fmt of
           (False, _) \<Rightarrow> (1, fs)
         | (True, dmn) \<Rightarrow>
             if co_output o1 = [] then (0, fs)
             else (case write_cdr_domain (te_config te) (te_host te) (te_writer te) (te_marshal te) (co_output o1) dmn fs of
               (ok, fs') \<Rightarrow> (if ok then 0 else 1, fs')))
      else
        (case read_plan (te_loaders te fs) (co_input o1) new_plan fmt of
           (False, _) \<Rightarrow> (1, fs)
         | (True, plan) \<Rightarrow>
             if co_output o1 = [] then (0, fs)
             else (case write_cdr_plan (te_config te) (te_host te) (te_writer te) (te_marshal te) (co_output o1) plan fs of
               (ok, fs') \<Rightarrow> (if ok then 0 else 1, fs'))))"

text \<open>Every exception is caught and is the result 1.\<close>

definition convert_plan :: "('p, 'd) tool_env \<Rightarrow> nat \<Rightarrow> (char \<times> string) list \<Rightarrow> files \<Rightarrow> int \<times> files" where
  "convert_plan te argc opts fs =
     (case parse_convert argc opts of
        None \<Rightarrow> (- 1, fs)
      | Some o1 \<Rightarrow>
          (case configure_tool (te_plugins te) (te_config te) fs (te_root te) ''convert_plan''
               ''convert_plan.config'' (co_config o1) new_manager of
             (Some _, _) \<Rightarrow> (1, fs)
           | (None, _) \<Rightarrow>
               (case te_orb te of
                  Inl _ \<Rightarrow> (1, fs)
                | Inr _ \<Rightarrow> if co_input o1 = [] then (1, fs) else convert_file te o1 fs)))"

section \<open>split_plan\<close>

record split_options =
  so_input :: string
  so_fmt :: string
  so_config :: string
  so_type :: char
  so_warnings_as_error :: bool
  so_external_refs :: bool

fun split_args :: "(char \<times> string) list \<Rightarrow> split_options \<Rightarrow> split_options option" where
  "split_args [] o1 = Some o1"
| "split_args ((c, arg) # opts) o1 =
     (if c = CHR ''i'' then split_args opts (o1\<lparr>so_input := arg\<rparr>)
      else if c = CHR ''f'' then split_args opts (o1\<lparr>so_fmt := arg\<rparr>)
      else if c = CHR ''t'' then
        split_args opts (o1\<lparr>so_type := (if arg \<noteq> [] \<and> hd arg \<in> {CHR ''N'', CHR ''L''} then hd arg else CHR ''N'')\<rparr>)
      else if c = CHR ''e'' then split_args opts (o1\<lparr>so_warnings_as_error := True\<rparr>)
      else if c = CHR ''r'' then split_args opts (o1\<lparr>so_external_refs := True\<rparr>)
      else None)"

definition parse_split :: "nat \<Rightarrow> (char \<times> string) list \<Rightarrow> split_options option" where
  "parse_split argc opts =
     (if argc < 2 then None
      else split_args opts \<lparr>so_input = [], so_fmt = [], so_config = [], so_type = CHR ''N'',
        so_warnings_as_error = False, so_external_refs = False\<rparr>)"

text \<open>
  A connection of a sub plan with one endpoint needs one external reference, or a facet that stores its
  reference; the instance of an endpoint that is out of range has no defined outcome.
\<close>

definition check_connection :: "bool \<Rightarrow> 'd plan \<Rightarrow> 'd connection \<Rightarrow> bool option" where
  "check_connection allow plan conn =
     (if length (cn_internalEndpoint conn) = 1 \<and> length (cn_externalReference conn) \<noteq> 1 then
        let ep = cn_internalEndpoint conn ! 0 in
        if ep_kind ep \<noteq> Facet then Some False
        else if length (pl_instance plan) \<le> ep_instanceRef ep then None
        else let config = id_configProperty (pl_instance plan ! ep_instanceRef ep) in
          Some (allow \<and> (get_property_value as_string REGISTER_NAMING config \<noteq> None
            \<or> get_property_value as_string INSTANCE_IOR_FILE config \<noteq> None))
      else Some True)"

fun check_connections :: "bool \<Rightarrow> 'd plan \<Rightarrow> 'd connection list \<Rightarrow> bool \<Rightarrow> bool option" where
  "check_connections allow plan [] rc = Some rc"
| "check_connections allow plan (c # cs) rc =
     (case check_connection allow plan c of
        None \<Rightarrow> None
      | Some ok \<Rightarrow> check_connections allow plan cs (rc \<and> ok))"

definition check_sub_plan :: "bool \<Rightarrow> 'd plan \<Rightarrow> bool option" where
  "check_sub_plan allow plan = check_connections allow plan (pl_connection plan) True"

text \<open>The loop over the sub plans assigns the result of each check.\<close>

fun check_sub_plans :: "bool \<Rightarrow> 'd plan list \<Rightarrow> bool \<Rightarrow> bool option" where
  "check_sub_plans allow [] check = Some check"
| "check_sub_plans allow (p # ps) check =
     (case check_sub_plan allow p of None \<Rightarrow> None | Some ok \<Rightarrow> check_sub_plans allow ps ok)"

definition dirname :: "'d env \<Rightarrow> string \<Rightarrow> string" where
  "dirname env path = (case last_index (directory_sep env) path of None \<Rightarrow> [] | Some off \<Rightarrow> take off path)"

definition basename :: "'d env \<Rightarrow> string \<Rightarrow> bool \<Rightarrow> string" where
  "basename env path no_ext =
     (let off = (case last_index (directory_sep env) path of None \<Rightarrow> 0 | Some i \<Rightarrow> i + 1)
      in case (if no_ext then last_index CHR ''.'' path else None) of
           None \<Rightarrow> drop off path
         | Some n \<Rightarrow> if n < off then drop off path else take (n - off) (drop off path))"

definition sub_plan_file :: "'d env \<Rightarrow> string \<Rightarrow> string \<Rightarrow> string" where
  "sub_plan_file env input label =
     (let name = label @ ''-'' @ basename env input True @ ''.cdr'' in
      if dirname env input = [] then name else dirname env input @ [directory_sep env] @ name)"

fun write_sub_plans :: "('p, 'd) tool_env \<Rightarrow> string \<Rightarrow> (string \<times> 'd plan) list \<Rightarrow> files \<Rightarrow> bool \<times> files" where
  "write_sub_plans te input [] fs = (True, fs)"
| "write_sub_plans te input ((label, p) # ps) fs =
     (case write_cdr_plan (te_config te) (te_host te) (te_writer te) (te_marshal te)
          (sub_plan_file (te_config te) input label) p fs of
        (False, fs') \<Rightarrow> (False, fs')
      | (True, fs') \<Rightarrow> write_sub_plans te input ps fs')"

text \<open>The label of a locality: the process name or the name of its manager, or else the key as text.\<close>

fun process_name_of :: "'d properties \<Rightarrow> string option" where
  "process_name_of [] = None"
| "process_name_of (p # ps) =
     (case (if pr_name p = DANCE_LM_PROCESSNAME then as_string (pr_value p) else None) of
        Some n \<Rightarrow> Some n
      | None \<Rightarrow> process_name_of ps)"

fun manager_label :: "'d plan \<Rightarrow> string \<Rightarrow> 'd idd list \<Rightarrow> string option option" where
  "manager_label plan node [] = Some None"
| "manager_label plan node (inst # insts) =
     (if length (pl_implementation plan) \<le> id_implementationRef inst then None
      else if get_instance_type (md_execParameter (pl_implementation plan ! id_implementationRef inst)) = DANCE_LOCALITYMANAGER
      then Some (Some (node @ ''-'' @ (case process_name_of (id_configProperty inst) of Some n \<Rightarrow> n | None \<Rightarrow> id_name inst)))
      else manager_label plan node insts)"

definition locality_manager_label :: "(locality_key \<Rightarrow> string) \<Rightarrow> locality_key \<Rightarrow> 'd plan \<Rightarrow> string option" where
  "locality_manager_label key_text k plan =
     (if lk_implicit k then Some (key_text k)
      else (case manager_label plan (lk_node k) (pl_instance plan) of
         None \<Rightarrow> None
       | Some None \<Rightarrow> Some (key_text k)
       | Some (Some l) \<Rightarrow> Some l))"

text \<open>The labelled sub plans of a plan.\<close>

definition labelled_sub_plans ::
  "(string \<Rightarrow> string) \<Rightarrow> (locality_key \<Rightarrow> string) \<Rightarrow> char \<Rightarrow> 'd plan \<Rightarrow> (string \<times> 'd plan) list option" where
  "labelled_sub_plans fresh key_text ty plan =
     (if ty = CHR ''N'' then map_option (map (\<lambda>(n, k, p). (k, p))) (split_plan node_splitter plan [])
      else (case split_plan (locality_splitter fresh) plan no_filter of
         None \<Rightarrow> None
       | Some m \<Rightarrow> those (map (\<lambda>(n, k, p). map_option (\<lambda>l. (l, p)) (locality_manager_label key_text k p)) m)))"

definition split_file ::
  "('p, 'd) tool_env \<Rightarrow> (string \<Rightarrow> string) \<Rightarrow> (locality_key \<Rightarrow> string) \<Rightarrow> split_options \<Rightarrow> files \<Rightarrow> (int \<times> files) option" where
  "split_file te fresh key_text o1 fs =
     (case read_plan (te_loaders te fs) (so_input o1) new_plan (so_fmt o1) of
        (False, _) \<Rightarrow> Some (1, fs)
      | (True, plan) \<Rightarrow>
          (case labelled_sub_plans fresh key_text (so_type o1) plan of
             None \<Rightarrow> None
           | Some ps \<Rightarrow>
               (case check_sub_plans (so_external_refs o1) (map snd ps) True of
                  None \<Rightarrow> None
                | Some check \<Rightarrow>
                    if \<not> check \<and> so_warnings_as_error o1 then Some (1, fs)
                    else (case write_sub_plans te (so_input o1) ps fs of
                      (ok, fs') \<Rightarrow> Some (if ok then 0 else 1, fs')))))"

definition split_plan_exec ::
  "('p, 'd) tool_env \<Rightarrow> (string \<Rightarrow> string) \<Rightarrow> (locality_key \<Rightarrow> string) \<Rightarrow> nat \<Rightarrow> (char \<times> string) list \<Rightarrow> files \<Rightarrow>
    (int \<times> files) option" where
  "split_plan_exec te fresh key_text argc opts fs =
     (case parse_split argc opts of
        None \<Rightarrow> Some (1, fs)
      | Some o1 \<Rightarrow>
          (case configure_tool (te_plugins te) (te_config te) fs (te_root te) ''split_plan''
               ''split_plan.config'' (so_config o1) new_manager of
             (Some _, _) \<Rightarrow> Some (1, fs)
           | (None, _) \<Rightarrow>
               (case te_orb te of
                  Inl _ \<Rightarrow> Some (1, fs)
                | Inr _ \<Rightarrow> split_file te fresh key_text o1 fs)))"


section \<open>A file is read back\<close>

text \<open>What was written completely is the blocks in order.\<close>

definition writer_honest :: "file_writer \<Rightarrow> bool" where
  "writer_honest put \<longleftrightarrow> (\<forall>name blocks n content. put name blocks = Some (n, content) \<longrightarrow>
     n = length (concat blocks) \<longrightarrow> content = concat blocks)"

text \<open>A marshalled plan fits into a message and is unmarshalled in the order of its bytes.\<close>

definition marshal_faithful :: "'d marshal \<Rightarrow> bool \<Rightarrow> bool" where
  "marshal_faithful ml host \<longleftrightarrow> (\<forall>plan blocks. ml_put_plan ml host plan = Some blocks \<longrightarrow>
     length (concat blocks) < 2 ^ 32 \<and> (\<forall>p. ml_get_plan ml host (concat blocks) p = (True, plan)))"

lemma u32_roundtrip [simp]: "u32_value little (u32_bytes little w) = w"
proof -
  have le: "n mod 256 + 256 * (n div 256 mod 256 + 256 * (n div 65536 mod 256 + 256 * (n div 16777216 mod 256))) = n"
    if "n < 2 ^ 32" for n :: nat
  proof -
    have "n div 16777216 mod 256 = n div 65536 div 256" "n div 65536 = n div 256 div 256"
      using that by (simp_all add: div_mult2_eq [symmetric])
    then show ?thesis by (metis add.commute mult_div_mod_eq)
  qed
  have shifted: "unat (drop_bit k w) = unat w div 2 ^ k" for k
    unfolding unat_drop_bit_eq by (rule drop_bit_eq_div)
  have "unat w < 2 ^ 32" using unsigned_less [of w] by simp
  then have "foldr (\<lambda>c n. of_char c + 256 * n) (map (\<lambda>i. char_of (unat (drop_bit (8 * i) w))) [0, 1, 2, 3]) 0 = unat w"
    using le [of "unat w"] by (simp add: shifted)
  then show ?thesis
    by (cases little) (simp_all add: u32_value_def u32_bytes_def Let_def del: list.map upt_conv_Cons foldr_Cons foldr.simps)
qed

lemma u32_length [simp]: "length (u32_bytes little w) = 4"
  by (simp add: u32_bytes_def Let_def)

lemma u32_swap [simp]: "rev (u32_bytes little w) = u32_bytes (\<not> little) w"
  by (simp add: u32_bytes_def Let_def)

lemma byte_of_facts [simp]: "\<not> is_space (byte_of l)" "byte_of l = byte_of m \<longleftrightarrow> l = m"
  by (auto simp: byte_of_def is_space_def)

lemma read_written:
  assumes "fs name = Some (byte_of from # u32_bytes from w @ body)" "unat w = length body" "name \<noteq> []"
  shows "read_cdr to fs get name x = get from body x"
  using assms by (cases "from = to") (auto simp: read_cdr_def Let_def)

lemma written_file:
  assumes "truncates env" "writer_honest put" "marshal host x = Some blocks" "length (concat blocks) < 2 ^ 32"
    and "write_cdr env host put marshal name x fs = (True, fs')"
  shows "name \<noteq> [] \<and> fs' = fs(name \<mapsto>
    byte_of host # u32_bytes host (word_of_nat (length (concat blocks))) @ concat blocks)"
proof -
  have cast: "truncate_cast env TUInt32 (int (length (concat blocks))) = int (length (concat blocks))"
    using assms(1,4) by (intro truncatesD) simp_all
  have len: "unat (word_of_nat (length (concat blocks)) :: 32 word) = length (concat blocks)"
    using assms(4) by (simp add: unat_of_nat)
  let ?all = "[byte_of host] # u32_bytes host (word_of_nat (length (concat blocks))) # blocks"
  have ne: "name \<noteq> []" using assms(5) by (auto simp: write_cdr_def)
  then obtain content where put: "put name ?all = Some (1 + 4 + length (concat blocks), content)"
    and fs': "fs' = fs(name \<mapsto> content)"
    using assms(3,5) cast len by (auto simp: write_cdr_def write_cdr_file_def Let_def simp del: length_concat split: option.splits)
  have "1 + 4 + length (concat blocks) = length (concat ?all)" by (simp del: length_concat)
  with put assms(2) have "content = concat ?all" unfolding writer_honest_def by blast
  with ne fs' show ?thesis by simp
qed

lemma cdr_written_read:
  assumes "truncates env" "writer_honest put" "marshal_faithful ml host"
    and "write_cdr_plan env host put ml name plan fs = (True, fs')" "fs'' name = fs' name"
  shows "name \<noteq> [] \<and> read_cdr to fs'' (ml_get_plan ml) name p = (True, plan)"
proof -
  obtain blocks where b: "ml_put_plan ml host plan = Some blocks"
    using assms(4) by (auto simp: write_cdr_plan_def write_cdr_def split: if_splits option.splits)
  with assms(3) have law: "length (concat blocks) < 2 ^ 32" "ml_get_plan ml host (concat blocks) p = (True, plan)"
    by (auto simp: marshal_faithful_def)
  have w: "name \<noteq> [] \<and> fs' = fs(name \<mapsto>
      byte_of host # u32_bytes host (word_of_nat (length (concat blocks))) @ concat blocks)"
    using written_file [where marshal = "ml_put_plan ml" and x = plan, OF assms(1,2) b law(1)] assms(4)
    by (simp add: write_cdr_plan_def)
  then have "read_cdr to fs'' (ml_get_plan ml) name p = ml_get_plan ml host (concat blocks) p"
    using assms(5) law(1) by (intro read_written) (auto simp: unat_of_nat simp del: length_concat)
  with law w show ?thesis by simp
qed

lemma registered_new:
  "map_ok m \<Longrightarrow> map_get (register_plan_loader fmt ld m) f =
    (if f = fmt \<and> map_get m f = None then Some ld else map_get m f)"
  by (auto simp: register_plan_loader_def smap_laws split: option.splits)

lemma registered_ok: "map_ok m \<Longrightarrow> map_ok (register_plan_loader fmt ld m)"
  by (auto simp: register_plan_loader_def smap_laws split: option.splits)

abbreviation "tool_loaders env host fs ml \<equiv> cdr_init host fs ml (new_plan_loader env fs)"

lemma cdr_loaders:
  assumes "fmt \<in> {''cdr'', ''ddcdr'', ''dpcdr''}"
  shows "map_get (tool_loaders env host fs ml) fmt = Some (cdr_loader host fs ml)"
  using assms by (auto simp: cdr_init_def new_plan_loader_def cfg_init_def registered_new registered_ok)

lemma tool_read_cdr:
  assumes "fmt \<in> {''cdr'', ''ddcdr'', ''dpcdr''}"
  shows "read_plan (tool_loaders env host fs ml) name p fmt = read_cdr host fs (ml_get_plan ml) name p"
proof -
  have "fmt \<noteq> []" using assms by auto
  then show ?thesis by (simp add: read_plan_def cdr_loaders [OF assms] cdr_loader_def)
qed

text \<open>
  C18. A plan written to a CDR file on one machine is the plan read from it on another, whatever the byte
  orders of the two are.
\<close>

theorem cdr_file_roundtrip:
  assumes "truncates env" "writer_honest put" "marshal_faithful ml from"
    and "write_cdr_plan env from put ml name plan fs = (True, fs')" "fmt \<in> {''cdr'', ''ddcdr'', ''dpcdr''}"
  shows "read_plan (tool_loaders env' to fs' ml) name p fmt = (True, plan)"
  using cdr_written_read [OF assms(1-4), of fs' to p] by (simp add: tool_read_cdr [OF assms(5)])

section \<open>Splitting a file\<close>

lemma fill_names: "fill_sub_plans sp plan m = Some m' \<Longrightarrow> map fst m' = map fst m"
proof (induction m arbitrary: m')
  case (Cons e m)
  obtain n k p where "e = (n, k, p)" by (cases e)
  with Cons show ?case by (auto split: option.splits)
qed simp

lemma split_names:
  assumes "split_plan node_splitter plan f = Some m"
  shows "distinct (map fst m)"
proof -
  obtain m' where m': "fill_sub_plans node_splitter plan (assign_instances node_splitter plan f) = Some m'"
    "m = finalize_sub_plans node_splitter m'" using assms by (auto simp: split_plan_def)
  have "map fst m = map fst m'"
    by (auto simp: m'(2) finalize_sub_plans_def split: prod.splits)
  moreover have "map_ok (assign_instances node_splitter plan f)"
    using node.assigned_all [of plan f] by (simp add: node.assigned_def)
  ultimately show ?thesis using fill_names [OF m'(1)] map_ok_distinct by metis
qed

lemma node_labels:
  assumes "split_plan node_splitter plan [] = Some m"
  shows "distinct (map fst (map (\<lambda>(n, k, p). (k, p)) m))"
proof -
  have "k = n" if entry: "(n, k, p) \<in> set m" for n k p
  proof -
    obtain k0 p0 p1 where a: "(n, k0, p0) \<in> set (assign_instances node_splitter plan [])"
      "sp_finalize node_splitter p1 k0 = (p, k)" using split_origin [OF assms entry] by blast
    with node.assigned_entry [OF a(1)] show ?thesis by (simp add: node_splitter_def)
  qed
  then have "map fst (map (\<lambda>(n, k, p). (k, p)) m) = map fst m" by (auto simp: case_prod_beta)
  with split_names [OF assms] show ?thesis by (simp only:)
qed

lemma sub_plan_file_inject [simp]: "sub_plan_file env input l = sub_plan_file env input l' \<longleftrightarrow> l = l'"
  by (simp add: sub_plan_file_def Let_def)

text \<open>Writing a sub plan changes no other file.\<close>

lemma write_cdr_other: "write_cdr env host put marshal name x fs = (ok, fs') \<Longrightarrow> name' \<noteq> name \<Longrightarrow> fs' name' = fs name'"
  by (auto simp: write_cdr_def write_cdr_file_def Let_def split: if_splits option.splits)

lemma write_sub_plans_other:
  "write_sub_plans te input ps fs = (ok, fs') \<Longrightarrow> l \<notin> fst ` set ps \<Longrightarrow>
    fs' (sub_plan_file (te_config te) input l) = fs (sub_plan_file (te_config te) input l)"
proof (induction te input ps fs rule: write_sub_plans.induct)
  case (2 te input label p ps fs)
  obtain b fs1 where w: "write_cdr_plan (te_config te) (te_host te) (te_writer te) (te_marshal te)
      (sub_plan_file (te_config te) input label) p fs = (b, fs1)" by fastforce
  have "fs1 (sub_plan_file (te_config te) input l) = fs (sub_plan_file (te_config te) input l)"
    using write_cdr_other [OF w [unfolded write_cdr_plan_def]] 2(3) by simp
  with 2 w show ?case by (cases b) auto
qed simp

lemma written_sub_plans:
  assumes env: "truncates (te_config te)" "writer_honest (te_writer te)" "marshal_faithful (te_marshal te) (te_host te)"
  shows "write_sub_plans te input ps fs = (True, fs') \<Longrightarrow> distinct (map fst ps) \<Longrightarrow> (l, p) \<in> set ps \<Longrightarrow>
    read_cdr to fs' (ml_get_plan (te_marshal te)) (sub_plan_file (te_config te) input l) p0 = (True, p)"
proof (induction ps arbitrary: fs)
  case (Cons x ps)
  obtain label q where x: "x = (label, q)" by (cases x)
  obtain fs1 where w: "write_cdr_plan (te_config te) (te_host te) (te_writer te) (te_marshal te)
      (sub_plan_file (te_config te) input label) q fs = (True, fs1)" and rest: "write_sub_plans te input ps fs1 = (True, fs')"
    using Cons.prems(1) by (auto simp: x split: prod.splits bool.splits)
  show ?case
  proof (cases "l = label")
    case True
    with Cons.prems(2,3) have "p = q" "label \<notin> fst ` set ps" by (force simp: x)+
    with write_sub_plans_other [OF rest] cdr_written_read [OF env w] True show ?thesis by simp
  next
    case False
    with Cons.prems x have "(l, p) \<in> set ps" "distinct (map fst ps)" by auto
    with Cons.IH [OF rest] show ?thesis by blast
  qed
qed simp

text \<open>
  C8. When split_plan has split a file by node and reports success, there is a file for every sub plan, in the
  directory of the input and named after the node, and any machine reads the sub plan from it.
\<close>

theorem node_files_read_back:
  assumes "truncates (te_config te)" "writer_honest (te_writer te)" "marshal_faithful (te_marshal te) (te_host te)"
    and "so_type o1 = CHR ''N''" "read_plan (te_loaders te fs) (so_input o1) new_plan (so_fmt o1) = (True, plan)"
    and "split_file te fresh key_text o1 fs = Some (0, fs')" "split_plan node_splitter plan [] = Some m"
    and "(n, k, p) \<in> set m"
  shows "read_plan (tool_loaders env' to fs' (te_marshal te)) (sub_plan_file (te_config te) (so_input o1) k) p0 ''cdr''
    = (True, p)"
proof -
  let ?ps = "map (\<lambda>(n, k, p). (k, p)) m"
  have w: "write_sub_plans te (so_input o1) ?ps fs = (True, fs')"
    using assms(4-7) by (auto simp: split_file_def labelled_sub_plans_def split: option.splits if_splits prod.splits)
  have "(k, p) \<in> set ?ps" using assms(8) by force
  from written_sub_plans [OF assms(1-3) w node_labels [OF assms(7)] this] show ?thesis
    by (simp add: tool_read_cdr)
qed

text \<open>
  The check of the sub plans that the option for errors turns into a failure is that of the last one only:
  when it passes, the files are written, whatever the others are, and when it fails, nothing is.
\<close>

theorem last_sub_plan_decides:
  assumes "read_plan (te_loaders te fs) (so_input o1) new_plan (so_fmt o1) = (True, plan)"
    and "labelled_sub_plans fresh key_text (so_type o1) plan = Some (ps @ [(l, p)])"
    and "so_warnings_as_error o1" "\<forall>x \<in> set ps. check_sub_plan (so_external_refs o1) (snd x) \<noteq> None"
    and "check_sub_plan (so_external_refs o1) p = Some ok"
  shows "split_file te fresh key_text o1 fs =
    (if ok then (case write_sub_plans te (so_input o1) (ps @ [(l, p)]) fs of (b, fs') \<Rightarrow> Some (if b then 0 else 1, fs'))
     else Some (1, fs))"
proof -
  have "check_sub_plans a (map snd ps @ [p]) c = Some ok"
    if "\<forall>x \<in> set ps. check_sub_plan a (snd x) \<noteq> None" "check_sub_plan a p = Some ok" for a c
    using that by (induction ps arbitrary: c) auto
  with assms show ?thesis by (auto simp: split_file_def)
qed


section \<open>Concrete inputs\<close>

definition demo_writer :: file_writer where
  "demo_writer name blocks = Some (length (concat blocks), concat blocks)"

text \<open>A marshaller of one plan.\<close>

definition demo_marshal :: "int plan \<Rightarrow> int marshal" where
  "demo_marshal p = \<lparr>ml_put_plan = (\<lambda>h q. if q = p then Some [''a''] else None), ml_get_plan = (\<lambda>h s q. (True, p)),
     ml_put_domain = (\<lambda>h q. None), ml_get_domain = (\<lambda>h s q. (False, q))\<rparr>"

lemma demo_writer_honest: "writer_honest demo_writer"
  by (simp add: writer_honest_def demo_writer_def)

lemma demo_marshal_faithful: "marshal_faithful (demo_marshal p) host"
  by (simp add: marshal_faithful_def demo_marshal_def)

definition demo_tool :: "int marshal \<Rightarrow> int plan \<Rightarrow> (nat, int) tool_env" where
  "demo_tool ml p = \<lparr>te_plugins = example_plugins, te_config = example_env, te_root = None, te_host = True,
     te_writer = demo_writer, te_marshal = ml, te_orb = Inr (),
     te_loaders = (\<lambda>fs. [(''x'', \<lparr>ld_read_plan = (\<lambda>f q. (True, p)), ld_read_domain = (\<lambda>f q. (False, q))\<rparr>)])\<rparr>"

definition demo_split :: split_options where
  "demo_split = \<lparr>so_input = ''p.x'', so_fmt = [], so_config = [], so_type = CHR ''N'', so_warnings_as_error = True,
     so_external_refs = False\<rparr>"

theorem cdr_file_roundtrip_witness:
  "\<exists>fs'. write_cdr_plan example_env True demo_writer (demo_marshal new_plan) ''f'' new_plan (\<lambda>_. None) = (True, fs') \<and>
    read_plan (tool_loaders example_env False fs' (demo_marshal new_plan)) ''f'' three_instances ''cdr'' = (True, new_plan)"
proof -
  obtain b fs' where w: "write_cdr_plan example_env True demo_writer (demo_marshal new_plan) ''f'' new_plan (\<lambda>_. None) = (b, fs')"
    by fastforce
  have "fst (write_cdr_plan example_env True demo_writer (demo_marshal new_plan) ''f'' new_plan (\<lambda>_. None))" by code_simp
  with w have b: b by simp
  from cdr_file_roundtrip [OF truncates_example demo_writer_honest demo_marshal_faithful w [unfolded b [THEN eqTrueI]]] w b
  show ?thesis by auto
qed

definition demo_node_plan :: "int plan" where
  "demo_node_plan = (case split_plan node_splitter three_instances [] of Some ((n, k, p) # _) \<Rightarrow> p | _ \<Rightarrow> new_plan)"

theorem node_files_read_back_witness:
  "\<exists>fs'. split_file (demo_tool (demo_marshal demo_node_plan) three_instances) id lk_node demo_split (\<lambda>_. None) = Some (0, fs') \<and>
    read_plan (tool_loaders example_env False fs' (demo_marshal demo_node_plan))
      (sub_plan_file example_env ''p.x'' ''N'') new_plan ''cdr'' = (True, demo_node_plan)"
proof -
  let ?te = "demo_tool (demo_marshal demo_node_plan) three_instances"
  have "case split_file ?te id lk_node demo_split (\<lambda>_. None) of None \<Rightarrow> False | Some (r, _) \<Rightarrow> r = 0" by code_simp
  then obtain fs' where run: "split_file ?te id lk_node demo_split (\<lambda>_. None) = Some (0, fs')"
    by (auto split: option.splits prod.splits)
  have "case split_plan node_splitter three_instances [] of Some [(n, k, p)] \<Rightarrow> n = ''N'' \<and> k = ''N'' | _ \<Rightarrow> False" by code_simp
  then obtain p where m: "split_plan node_splitter three_instances [] = Some [(''N'', ''N'', p)]"
    by (auto split: option.splits list.splits)
  have te: "te_config ?te = example_env" "te_writer ?te = demo_writer" "te_marshal ?te = demo_marshal demo_node_plan"
    "so_input demo_split = ''p.x''" "so_type demo_split = CHR ''N''" by (simp_all add: demo_tool_def demo_split_def)
  have read: "read_plan (te_loaders ?te (\<lambda>_. None)) (so_input demo_split) new_plan (so_fmt demo_split) = (True, three_instances)"
    by code_simp
  have "p = demo_node_plan" by (simp add: demo_node_plan_def m)
  with node_files_read_back [OF _ _ _ te(5) read run m, where n = "''N''" and k = "''N''" and p = p
      and env' = example_env and to = False and ?p0.0 = new_plan] run
  show ?thesis by (auto simp: te demo_writer_honest demo_marshal_faithful)
qed

text \<open>Of the two nodes of this plan, the sub plan of the first does not pass.\<close>

definition two_nodes :: "int plan" where
  "two_nodes = new_plan\<lparr>pl_implementation := [new_mdd],
     pl_instance := [new_idd\<lparr>id_node := ''A''\<rparr>, new_idd\<lparr>id_node := ''B''\<rparr>],
     pl_connection := [new_connection\<lparr>cn_internalEndpoint := [new_endpoint\<lparr>ep_kind := EventConsumer\<rparr>]\<rparr>]\<rparr>"

abbreviation "any_marshal \<equiv> demo_marshal new_plan\<lparr>ml_put_plan := (\<lambda>h q. Some [''a''])\<rparr>"

theorem last_sub_plan_decides_witness:
  "\<exists>a b fs'. labelled_sub_plans id lk_node CHR ''N'' two_nodes = Some [(''A'', a), (''B'', b)] \<and>
    check_sub_plan False a = Some False \<and> check_sub_plan False b = Some True \<and>
    split_file (demo_tool any_marshal two_nodes) id lk_node demo_split (\<lambda>_. None) = Some (0, fs')"
proof -
  let ?te = "demo_tool any_marshal two_nodes"
  have "map_option (map (\<lambda>(l, q). (l, check_sub_plan False q))) (labelled_sub_plans id lk_node CHR ''N'' two_nodes) =
      Some [(''A'', Some False), (''B'', Some True)]" by code_simp
  then obtain a b where ps: "labelled_sub_plans id lk_node CHR ''N'' two_nodes = Some [(''A'', a), (''B'', b)]"
    and checks: "check_sub_plan False a = Some False" "check_sub_plan False b = Some True"
    by (auto simp: map_eq_Cons_conv)
  have read: "read_plan (te_loaders ?te (\<lambda>_. None)) (so_input demo_split) new_plan (so_fmt demo_split) = (True, two_nodes)"
    by code_simp
  obtain w fs' where w: "write_sub_plans ?te ''p.x'' [(''A'', a), (''B'', b)] (\<lambda>_. None) = (w, fs')" by fastforce
  have opts: "so_type demo_split = CHR ''N''" "so_warnings_as_error demo_split" "so_external_refs demo_split = False"
    "so_input demo_split = ''p.x''" by (simp_all add: demo_split_def)
  have run: "split_file ?te id lk_node demo_split (\<lambda>_. None) = Some (if w then 0 else 1, fs')"
    using last_sub_plan_decides [OF read, of id lk_node "[(''A'', a)]" "''B''" b True] ps checks w by (simp add: opts)
  have "case split_file ?te id lk_node demo_split (\<lambda>_. None) of Some (r, _) \<Rightarrow> r = 0 | None \<Rightarrow> False" by code_simp
  with run ps checks show ?thesis by (auto split: if_splits)
qed

end
