(* ===== verification/Launchers.thy ===== *)
theory Launchers
  imports Domain_Manager
begin

text \<open>
  The objects that launch a plan and take it down again: Locality_Launcher, Node_Launcher and
  Domain_Launcher (dancex11_locality_deployment_handler.cpp, dancex11_node_deployment_handler.cpp and
  dancex11_domain_deployment_handler.cpp below dancex11) inside a deployment manager, and Launcher_Base
  with EM_Launcher (plan_launcher/launcher_impl.cpp) outside of it. All of them drive the same two
  interfaces, a manager and the application managers and applications it hands out, which are a record of
  operations here; references are numbers, and calling a nil reference raises an exception that is
  another part of the record.
\<close>

record ('d, 'w) lifecycle =
  ly_nil :: exn
  ly_prepare :: "'d plan \<Rightarrow> 'w \<Rightarrow> (exn + nat option) \<times> 'w"
  ly_start_launch :: "nat \<Rightarrow> 'w \<Rightarrow> (exn + nat option) \<times> 'w"
  ly_finish_launch :: "nat \<Rightarrow> 'w \<Rightarrow> (exn + unit) \<times> 'w"
  ly_start :: "nat \<Rightarrow> 'w \<Rightarrow> (exn + unit) \<times> 'w"
  ly_stop :: "nat \<Rightarrow> 'w \<Rightarrow> (exn + unit) \<times> 'w"
  ly_destroy_app :: "nat \<Rightarrow> nat option \<Rightarrow> 'w \<Rightarrow> (exn + unit) \<times> 'w"
  ly_destroy_manager :: "nat option \<Rightarrow> 'w \<Rightarrow> (exn + unit) \<times> 'w"

definition on_ref :: "exn \<Rightarrow> (nat \<Rightarrow> 'w \<Rightarrow> (exn + 'a) \<times> 'w) \<Rightarrow> nat option \<Rightarrow> 'w \<Rightarrow> (exn + 'a) \<times> 'w" where
  "on_ref nil f r w = (case r of None \<Rightarrow> (Inl nil, w) | Some n \<Rightarrow> f n w)"

text \<open>The plan, whether the manager is there, and the references it handed out.\<close>

record 'd launcher =
  lr_plan :: "'d plan"
  lr_manager :: bool
  lr_am :: "nat option"
  lr_app :: "nat option"

text \<open>startLaunch, finishLaunch and start; the application is kept as soon as there is one.\<close>

definition bring_up ::
  "('d, 'w) lifecycle \<Rightarrow> 'd launcher \<Rightarrow> 'w \<Rightarrow> (exn + unit) \<times> 'd launcher \<times> 'w" where
  "bring_up ly l w =
     (case on_ref (ly_nil ly) (ly_start_launch ly) (lr_am l) w of
        (Inl e, w1) \<Rightarrow> (Inl e, l, w1)
      | (Inr app, w1) \<Rightarrow>
          let l' = l\<lparr>lr_app := app\<rparr> in
          (case on_ref (ly_nil ly) (ly_finish_launch ly) app w1 of
             (Inl e, w2) \<Rightarrow> (Inl e, l', w2)
           | (Inr _, w2) \<Rightarrow>
               (case on_ref (ly_nil ly) (ly_start ly) app w2 of (r, w3) \<Rightarrow> (r, l', w3))))"

text \<open>Stopping and destroying the application, if there is one, and the manager of it.\<close>

definition take_down_app ::
  "('d, 'w) lifecycle \<Rightarrow> 'd launcher \<Rightarrow> 'w \<Rightarrow> (exn + unit) \<times> 'd launcher \<times> 'w" where
  "take_down_app ly l w =
     (case lr_app l of
        None \<Rightarrow> (Inr (), l, w)
      | Some app \<Rightarrow>
          (case ly_stop ly app w of
             (Inl e, w1) \<Rightarrow> (Inl e, l, w1)
           | (Inr _, w1) \<Rightarrow>
               (case on_ref (ly_nil ly) (\<lambda>am. ly_destroy_app ly am (Some app)) (lr_am l) w1 of
                  (r, w2) \<Rightarrow> (r, l\<lparr>lr_app := None\<rparr>, w2))))"

definition take_down_am ::
  "('d, 'w) lifecycle \<Rightarrow> 'd launcher \<Rightarrow> 'w \<Rightarrow> (exn + unit) \<times> 'd launcher \<times> 'w" where
  "take_down_am ly l w =
     (case ly_destroy_manager ly (lr_am l) w of
        (Inl e, w1) \<Rightarrow> (Inl e, l\<lparr>lr_am := None\<rparr>, w1)
      | (Inr _, w1) \<Rightarrow> (Inr (), l\<lparr>lr_am := None, lr_manager := False\<rparr>, w1))"

section \<open>The launcher of a node\<close>

definition node_cleanup :: "('d, 'w) lifecycle \<Rightarrow> 'd launcher \<Rightarrow> 'w \<Rightarrow> 'd launcher \<times> 'w" where
  "node_cleanup ly l w =
     (case take_down_app ly l w of
        (Inl _, l1, w1) \<Rightarrow> (l1, w1)
      | (Inr _, l1, w1) \<Rightarrow> (case take_down_am ly l1 w1 of (_, l2, w2) \<Rightarrow> (l2, w2)))"

definition node_launch ::
  "('d, 'w) lifecycle \<Rightarrow> 'd launcher \<Rightarrow> 'w \<Rightarrow> (exn + unit) \<times> 'd launcher \<times> 'w" where
  "node_launch ly l w =
     (let l0 = l\<lparr>lr_manager := True\<rparr> in
      case ly_prepare ly (lr_plan l) w of
        (Inl e, w1) \<Rightarrow> (Inl e, l0, w1)
      | (Inr am, w1) \<Rightarrow>
          (case bring_up ly (l0\<lparr>lr_am := am\<rparr>) w1 of
             (Inr _, l2, w2) \<Rightarrow> (Inr (), l2, w2)
           | (Inl e, l2, w2) \<Rightarrow>
               if is_user e then (case node_cleanup ly l2 w2 of (l3, w3) \<Rightarrow> (Inl e, l3, w3))
               else (Inl e, l2, w2)))"

text \<open>Shutting down: the last step ends the process; it is not reached when something is raised.\<close>

definition launcher_shutdown ::
  "('d, 'w) lifecycle \<Rightarrow> ('w \<Rightarrow> 'w) \<Rightarrow> 'd launcher \<Rightarrow> 'w \<Rightarrow> (exn + unit) \<times> 'd launcher \<times> 'w" where
  "launcher_shutdown ly end_process l w =
     (case take_down_app ly l w of
        (Inl e, l1, w1) \<Rightarrow> (Inl e, l1, w1)
      | (Inr _, l1, w1) \<Rightarrow>
          (case if lr_am l1 = None then (Inr (), l1, w1) else take_down_am ly l1 w1 of
             (Inl e, l2, w2) \<Rightarrow> (Inl e, l2, w2)
           | (Inr _, l2, w2) \<Rightarrow> (Inr (), l2\<lparr>lr_manager := False\<rparr>, end_process w2)))"

section \<open>The launcher of a domain\<close>

text \<open>What the manager is told before it prepares: a domain file and references of node managers.\<close>

definition enter_node_map :: "string \<Rightarrow> 'd execution_manager \<Rightarrow> 'd execution_manager" where
  "enter_node_map nodemap em =
     (if CHR ''='' \<in> set nodemap then
        add_node_manager (takeWhile (\<lambda>c. c \<noteq> CHR ''='') nodemap) (tl (dropWhile (\<lambda>c. c \<noteq> CHR ''='') nodemap)) em
      else em)"

definition set_up_domain ::
  "(string \<Rightarrow> string \<Rightarrow> 'd domain option) \<Rightarrow> string \<Rightarrow> string \<Rightarrow> string list \<Rightarrow> 'd execution_manager \<Rightarrow>
    (exn + unit) \<times> 'd execution_manager" where
  "set_up_domain read_domain cdd fmt nodes em =
     (case if cdd = [] then (None, em) else load_cdd cdd (read_domain cdd fmt) em of
        (Some e, em1) \<Rightarrow> (Inl e, em1)
      | (None, em1) \<Rightarrow> (Inr (), foldl (\<lambda>m n. enter_node_map n m) em1 nodes))"

text \<open>Whatever the cleaning up raises, the references are dropped.\<close>

definition domain_cleanup :: "('d, 'w) lifecycle \<Rightarrow> 'd launcher \<Rightarrow> 'w \<Rightarrow> 'd launcher \<times> 'w" where
  "domain_cleanup ly l w =
     (case take_down_app ly l w of (_, l1, w1) \<Rightarrow>
        (case take_down_am ly l1 w1 of (_, l2, w2) \<Rightarrow>
           (l2\<lparr>lr_app := None, lr_manager := False, lr_am := None\<rparr>, w2)))"

text \<open>The format of the domain file is not handed on here, unlike where a manager is activated.\<close>

definition domain_launch ::
  "('d, 'd execution_manager \<times> 'w) lifecycle \<Rightarrow> (string \<Rightarrow> string \<Rightarrow> 'd domain option) \<Rightarrow> string \<Rightarrow> string list \<Rightarrow>
    'd launcher \<Rightarrow> 'd execution_manager \<times> 'w \<Rightarrow> (exn + unit) \<times> 'd launcher \<times> ('d execution_manager \<times> 'w)" where
  "domain_launch ly read_domain cdd nodes l s =
     (let l0 = l\<lparr>lr_manager := True\<rparr> in
      case s of (em, w) \<Rightarrow>
        (case set_up_domain read_domain cdd [] nodes em of
           (Inl e, em1) \<Rightarrow> (Inl e, l0, (em1, w))
         | (Inr _, em1) \<Rightarrow>
             (case ly_prepare ly (lr_plan l) (em1, w) of
                (Inl e, s1) \<Rightarrow> (Inl e, l0, s1)
              | (Inr am, s1) \<Rightarrow>
                  (case bring_up ly (l0\<lparr>lr_am := am\<rparr>) s1 of
                     (Inr _, l2, s2) \<Rightarrow> (Inr (), l2, s2)
                   | (Inl e, l2, s2) \<Rightarrow>
                       if is_user e then (case domain_cleanup ly l2 s2 of (l3, s3) \<Rightarrow> (Inl e, l3, s3))
                       else (Inl e, l2, s2)))))"

section \<open>The launcher of a locality\<close>

text \<open>The first instance that is a locality manager; an implementation out of range is undefined.\<close>

fun find_locality_instance :: "'d mdd list \<Rightarrow> 'd idd list \<Rightarrow> ('d mdd \<times> 'd idd) option option" where
  "find_locality_instance impls [] = Some None"
| "find_locality_instance impls (idd # idds) =
     (if length impls \<le> id_implementationRef idd then None
      else let mdd = impls ! id_implementationRef idd in
        if get_property_value as_string IMPL_TYPE (md_execParameter mdd) = Some DANCE_LOCALITYMANAGER
        then Some (Some (mdd, idd))
        else find_locality_instance impls idds)"

definition locality_properties :: "'d plan \<Rightarrow> 'd properties option" where
  "locality_properties plan =
     (case find_locality_instance (pl_implementation plan) (pl_instance plan) of
        None \<Rightarrow> None
      | Some None \<Rightarrow> Some []
      | Some (Some (mdd, idd)) \<Rightarrow> Some (append_properties (append_properties [] (md_execParameter mdd)) (id_configProperty idd)))"

definition locality_launch ::
  "('d, 'w) lifecycle \<Rightarrow> ('d properties \<Rightarrow> 'w \<Rightarrow> (exn + unit) \<times> 'w) \<Rightarrow> 'd launcher \<Rightarrow> 'w \<Rightarrow>
    ((exn + unit) \<times> 'd launcher \<times> 'w) option" where
  "locality_launch ly configure l w =
     (let l0 = l\<lparr>lr_manager := True\<rparr> in
      case locality_properties (lr_plan l) of
        None \<Rightarrow> None
      | Some prop \<Rightarrow> Some
          (case configure prop w of
             (Inl e, w1) \<Rightarrow> (Inl e, l0, w1)
           | (Inr _, w1) \<Rightarrow>
               (case ly_prepare ly (lr_plan l) w1 of
                  (Inl e, w2) \<Rightarrow> (Inl e, l0, w2)
                | (Inr am, w2) \<Rightarrow> bring_up ly (l0\<lparr>lr_am := am\<rparr>) w2)))"

text \<open>No reference is looked at before it is used.\<close>

definition locality_shutdown ::
  "('d, 'w) lifecycle \<Rightarrow> ('w \<Rightarrow> 'w) \<Rightarrow> 'd launcher \<Rightarrow> 'w \<Rightarrow> (exn + unit) \<times> 'd launcher \<times> 'w" where
  "locality_shutdown ly end_process l w =
     (case on_ref (ly_nil ly) (ly_stop ly) (lr_app l) w of
        (Inl e, w1) \<Rightarrow> (Inl e, l, w1)
      | (Inr _, w1) \<Rightarrow>
          let l1 = l\<lparr>lr_app := None\<rparr> in
          (case on_ref (ly_nil ly) (\<lambda>am. ly_destroy_app ly am (lr_app l)) (lr_am l) w1 of
             (Inl e, w2) \<Rightarrow> (Inl e, l1, w2)
           | (Inr _, w2) \<Rightarrow>
               (case take_down_am ly l1 w2 of
                  (Inl e, l2, w3) \<Rightarrow> (Inl e, l2, w3)
                | (Inr _, l2, w3) \<Rightarrow> (Inr (), l2, end_process w3))))"

section \<open>The launcher outside\<close>

record plan_options =
  po_am_ior :: string
  po_app_ior :: string
  po_plan_file :: string
  po_plan_fmt :: string
  po_plan_uuid :: string
  po_force :: bool

text \<open>
  Reading a plan, the text of a reference and a reference from a text (narrowed), files with references,
  what an execution manager manages (None if it is none) and what runs below a domain manager.
\<close>

record ('d, 'w) launch_env =
  lv_life :: "('d, 'w) lifecycle"
  lv_read_plan :: "string \<Rightarrow> string \<Rightarrow> 'd plan option"
  lv_text :: "nat option \<Rightarrow> 'w \<Rightarrow> (exn + string) \<times> 'w"
  lv_write :: "string \<Rightarrow> string \<Rightarrow> 'w \<Rightarrow> bool \<times> 'w"
  lv_read :: "string \<Rightarrow> 'w \<Rightarrow> string"
  lv_find_am :: "string \<Rightarrow> 'w \<Rightarrow> (exn + nat option) \<times> 'w"
  lv_find_app :: "string \<Rightarrow> 'w \<Rightarrow> (exn + nat option) \<times> 'w"
  lv_managers :: "'w \<Rightarrow> (exn + (nat \<times> string) list option) \<times> 'w"
  lv_apps :: "nat \<Rightarrow> 'w \<Rightarrow> (exn + nat option list option) \<times> 'w"

definition write_reference ::
  "('d, 'w) launch_env \<Rightarrow> string \<Rightarrow> string \<Rightarrow> string \<Rightarrow> nat option \<Rightarrow> 'w \<Rightarrow> (exn + unit) \<times> 'w" where
  "write_reference lv kind option default_file ref w =
     (if option = [] \<and> kind = ''DomainManager'' then (Inr (), w)
      else (case lv_text lv ref w of
         (Inl e, w1) \<Rightarrow> (Inl e, w1)
       | (Inr ior, w1) \<Rightarrow>
           (case lv_write lv (if option = [] then default_file else option) ior w1 of (_, w2) \<Rightarrow> (Inr (), w2))))"

text \<open>Everything between preparing the plan and the end of the launch.\<close>

definition outside_bring_up ::
  "('d, 'w) launch_env \<Rightarrow> plan_options \<Rightarrow> string \<Rightarrow> 'd launcher \<Rightarrow> 'w \<Rightarrow> (exn + unit) \<times> 'd launcher \<times> 'w" where
  "outside_bring_up lv opts kind l w =
     (case bring_up (lv_life lv) l w of
        (Inl e, l1, w1) \<Rightarrow> (Inl e, l1, w1)
      | (Inr _, l1, w1) \<Rightarrow>
          (case write_reference lv kind (po_am_ior opts) (''appmgr-'' @ pl_UUID (lr_plan l) @ ''.ior'') (lr_am l1) w1 of
             (Inl e, w2) \<Rightarrow> (Inl e, l1, w2)
           | (Inr _, w2) \<Rightarrow>
               (case write_reference lv kind (po_app_ior opts) (''app-'' @ pl_UUID (lr_plan l) @ ''.ior'') (lr_app l1) w2 of
                  (r, w3) \<Rightarrow> (r, l1, w3))))"

text \<open>Only user exceptions are handled; the manager of the plan is destroyed unless cleaning up fails.\<close>

definition launch_plan ::
  "('d, 'w) launch_env \<Rightarrow> plan_options \<Rightarrow> string \<Rightarrow> 'w \<Rightarrow> (exn + bool) \<times> 'w" where
  "launch_plan lv opts kind w =
     (if po_plan_file opts = [] then (Inr False, w)
      else (case lv_read_plan lv (po_plan_file opts) (po_plan_fmt opts) of
         None \<Rightarrow> (Inr False, w)
       | Some plan \<Rightarrow>
           (case ly_prepare (lv_life lv) plan w of
              (Inl e, w1) \<Rightarrow> (Inl e, w1)
            | (Inr am, w1) \<Rightarrow>
                (case outside_bring_up lv opts kind \<lparr>lr_plan = plan, lr_manager = True, lr_am = am, lr_app = None\<rparr> w1 of
                   (Inr _, _, w2) \<Rightarrow> (Inr True, w2)
                 | (Inl e, l2, w2) \<Rightarrow>
                     if is_user e then (case node_cleanup (lv_life lv) l2 w2 of (_, w3) \<Rightarrow> (Inr False, w3))
                     else (Inl e, w2)))))"

text \<open>A reference from an option, or else from the file of the plan's uuid; CORBA exceptions are none.\<close>

definition try_reference ::
  "(string \<Rightarrow> 'w \<Rightarrow> (exn + nat option) \<times> 'w) \<Rightarrow> string \<Rightarrow> 'w \<Rightarrow> (exn + nat option) \<times> 'w" where
  "try_reference look ior w =
     (if ior = [] then (Inr None, w)
      else (case look ior w of
         (Inr r, w1) \<Rightarrow> (Inr r, w1)
       | (Inl e, w1) \<Rightarrow> (if is_corba e then Inr None else Inl e, w1)))"

definition resolve_reference ::
  "('d, 'w) launch_env \<Rightarrow> (string \<Rightarrow> 'w \<Rightarrow> (exn + nat option) \<times> 'w) \<Rightarrow> string \<Rightarrow> string \<Rightarrow> string \<Rightarrow> 'w \<Rightarrow>
    (exn + nat option) \<times> 'w" where
  "resolve_reference lv look kind ior file w =
     (case try_reference look ior w of
        (Inr None, w1) \<Rightarrow> if kind = ''DomainManager'' then (Inr None, w1) else try_reference look (lv_read lv file w1) w1
      | r \<Rightarrow> r)"

text \<open>In a domain: the last manager of the plan that the execution manager knows, its first application.\<close>

definition resolve_app_manager ::
  "('d, 'w) launch_env \<Rightarrow> plan_options \<Rightarrow> string \<Rightarrow> 'w \<Rightarrow> (exn + nat option) \<times> 'w" where
  "resolve_app_manager lv opts kind w =
     (case resolve_reference lv (lv_find_am lv) kind (po_am_ior opts) (''appmgr-'' @ po_plan_uuid opts @ ''.ior'') w of
        (Inr None, w1) \<Rightarrow>
          if kind \<noteq> ''DomainManager'' then (Inr None, w1)
          else (case lv_managers lv w1 of
             (Inl e, w2) \<Rightarrow> (Inl e, w2)
           | (Inr None, w2) \<Rightarrow> (Inr None, w2)
           | (Inr (Some ms), w2) \<Rightarrow>
               (Inr (map_option fst (find (\<lambda>(_, u). u = po_plan_uuid opts) (rev ms))), w2))
      | r \<Rightarrow> r)"

definition resolve_application ::
  "('d, 'w) launch_env \<Rightarrow> plan_options \<Rightarrow> string \<Rightarrow> nat \<Rightarrow> 'w \<Rightarrow> ((exn + nat option) \<times> 'w) option" where
  "resolve_application lv opts kind am w =
     (case resolve_reference lv (lv_find_app lv) kind (po_app_ior opts) (''app-'' @ po_plan_uuid opts @ ''.ior'') w of
        (Inr None, w1) \<Rightarrow>
          if kind \<noteq> ''DomainManager'' then Some (Inr None, w1)
          else (case lv_apps lv am w1 of
             (Inl e, w2) \<Rightarrow> Some (Inl e, w2)
           | (Inr None, w2) \<Rightarrow> Some (Inr None, w2)
           | (Inr (Some []), w2) \<Rightarrow> None
           | (Inr (Some (a # _)), w2) \<Rightarrow> Some (Inr a, w2))
      | r \<Rightarrow> Some r)"

text \<open>
  Every exception of the three calls is logged and the next call made only if this one worked or the
  option to go on is set; true tells that the application manager was destroyed.
\<close>

definition teardown_plan ::
  "('d, 'w) launch_env \<Rightarrow> plan_options \<Rightarrow> string \<Rightarrow> 'w \<Rightarrow> ((exn + bool) \<times> 'w) option" where
  "teardown_plan lv opts kind w =
     (case resolve_app_manager lv opts kind w of
        (Inl e, w1) \<Rightarrow> Some (Inl e, w1)
      | (Inr None, w1) \<Rightarrow> Some (Inr False, w1)
      | (Inr (Some am), w1) \<Rightarrow>
          (case resolve_application lv opts kind am w1 of
             None \<Rightarrow> None
           | Some (Inl e, w2) \<Rightarrow> Some (Inl e, w2)
           | Some (Inr None, w2) \<Rightarrow> Some (Inr False, w2)
           | Some (Inr (Some app), w2) \<Rightarrow>
               let ly = lv_life lv;
                   (stopped, w3) = (case ly_stop ly app w2 of (r, v) \<Rightarrow> (r = Inr (), v));
                   (destroyed, w4) =
                     (if stopped \<or> po_force opts then (case ly_destroy_app ly am (Some app) w3 of (r, v) \<Rightarrow> (r = Inr (), v))
                      else (False, w3)) in
               if destroyed \<or> po_force opts then
                 (case ly_destroy_manager ly (Some am) w4 of (r, w5) \<Rightarrow> Some (Inr (r = Inr ()), w5))
               else Some (Inr False, w4)))"

section \<open>What is left behind\<close>

text \<open>
  The contract of a manager: an application or an application manager that was destroyed is gone, and
  destroying a manager brings no application to life.
\<close>

definition lifecycle_laws ::
  "('d, 'w) lifecycle \<Rightarrow> (nat \<Rightarrow> 'w \<Rightarrow> bool) \<Rightarrow> (nat \<Rightarrow> 'w \<Rightarrow> bool) \<Rightarrow> bool" where
  "lifecycle_laws ly am_alive app_alive \<longleftrightarrow>
     (\<forall>am app w w'. ly_destroy_app ly am (Some app) w = (Inr (), w') \<longrightarrow> \<not> app_alive app w') \<and>
     (\<forall>am w r w'. ly_destroy_manager ly (Some am) w = (r, w') \<longrightarrow>
        (r = Inr () \<longrightarrow> \<not> am_alive am w') \<and> (\<forall>app. app_alive app w' \<longrightarrow> app_alive app w))"

text \<open>The calls of the cleaning up work.\<close>

definition cleanup_works :: "('d, 'w) lifecycle \<Rightarrow> bool" where
  "cleanup_works ly \<longleftrightarrow>
     (\<forall>app w. \<exists>w'. ly_stop ly app w = (Inr (), w')) \<and>
     (\<forall>am app w. \<exists>w'. ly_destroy_app ly am app w = (Inr (), w')) \<and>
     (\<forall>am w. \<exists>w'. ly_destroy_manager ly am w = (Inr (), w'))"

definition launcher_empty :: "'d launcher \<Rightarrow> bool" where
  "launcher_empty l \<longleftrightarrow> \<not> lr_manager l \<and> lr_am l = None \<and> lr_app l = None"

lemma lifecycle_destroyed:
  assumes "lifecycle_laws ly am_alive app_alive"
  shows "ly_destroy_app ly am (Some app) w = (Inr (), w') \<Longrightarrow> \<not> app_alive app w'"
    and "ly_destroy_manager ly (Some am) w = (Inr (), w') \<Longrightarrow> \<not> am_alive am w'"
    and "ly_destroy_manager ly (Some am) w = (r, w') \<Longrightarrow> \<not> app_alive app w \<Longrightarrow> \<not> app_alive app w'"
  using assms unfolding lifecycle_laws_def by blast+

lemma take_down_app_works:
  assumes "cleanup_works ly" and "lr_am l = Some am"
  shows "\<exists>w'. take_down_app ly l w = (Inr (), l\<lparr>lr_app := None\<rparr>, w') \<and>
    (lifecycle_laws ly am_alive app_alive \<longrightarrow> (\<forall>app. lr_app l = Some app \<longrightarrow> \<not> app_alive app w'))"
proof (cases "lr_app l")
  case None
  then have "l\<lparr>lr_app := None\<rparr> = l" by (cases l) simp
  with None show ?thesis by (simp add: take_down_app_def)
next
  case (Some app)
  obtain w1 where stop: "ly_stop ly app w = (Inr (), w1)" using assms(1) unfolding cleanup_works_def by blast
  obtain w2 where destroy: "ly_destroy_app ly am (Some app) w1 = (Inr (), w2)"
    using assms(1) unfolding cleanup_works_def by blast
  with stop Some assms(2) lifecycle_destroyed(1) [OF _ destroy] show ?thesis
    by (auto simp: take_down_app_def on_ref_def)
qed

lemma take_down_am_works:
  assumes "cleanup_works ly" and "lr_am l = Some am"
  shows "\<exists>w'. take_down_am ly l w = (Inr (), l\<lparr>lr_am := None, lr_manager := False\<rparr>, w') \<and>
    (lifecycle_laws ly am_alive app_alive \<longrightarrow> \<not> am_alive am w' \<and> (\<forall>app. \<not> app_alive app w \<longrightarrow> \<not> app_alive app w'))"
proof -
  obtain w' where destroy: "ly_destroy_manager ly (Some am) w = (Inr (), w')"
    using assms(1) unfolding cleanup_works_def by blast
  with assms(2) lifecycle_destroyed(2,3) [OF _ destroy] show ?thesis
    by (simp add: take_down_am_def) blast
qed

lemma cleanups_work:
  assumes works: "cleanup_works ly" and laws: "lifecycle_laws ly am_alive app_alive" and am: "lr_am l = Some am"
  shows "\<exists>l' w'. node_cleanup ly l w = (l', w') \<and> domain_cleanup ly l w = (l', w') \<and> launcher_empty l' \<and>
    \<not> am_alive am w' \<and> (\<forall>app. lr_app l = Some app \<longrightarrow> \<not> app_alive app w')"
proof -
  obtain w1 where w1: "take_down_app ly l w = (Inr (), l\<lparr>lr_app := None\<rparr>, w1)"
    "\<forall>app. lr_app l = Some app \<longrightarrow> \<not> app_alive app w1"
    using take_down_app_works [OF works am, of w am_alive app_alive] laws by blast
  obtain w2 where w2: "take_down_am ly (l\<lparr>lr_app := None\<rparr>) w1 =
      (Inr (), l\<lparr>lr_app := None\<rparr>\<lparr>lr_am := None, lr_manager := False\<rparr>, w2)"
    "\<not> am_alive am w2" "\<forall>app. \<not> app_alive app w1 \<longrightarrow> \<not> app_alive app w2"
    using take_down_am_works [OF works, of "l\<lparr>lr_app := None\<rparr>" am w1 am_alive app_alive] am laws by auto
  show ?thesis
    using w1 w2 by (simp add: node_cleanup_def domain_cleanup_def launcher_empty_def)
qed

lemma bring_up_am: "bring_up ly l w = (r, l', w') \<Longrightarrow> lr_am l' = lr_am l \<and> lr_plan l' = lr_plan l"
  by (auto simp: bring_up_def Let_def split: prod.splits sum.splits)

lemma outside_bring_up_am: "outside_bring_up lv opts kind l w = (r, l', w') \<Longrightarrow> lr_am l' = lr_am l"
  by (auto simp: outside_bring_up_def split: prod.splits sum.splits dest!: bring_up_am)

text \<open>
  A launch outside the manager that a user exception ends cleans up after itself when the calls for that
  work: it is reported as failed, and neither the application manager nor the application is left.
\<close>
theorem outside_failed_launch_cleaned_up:
  assumes works: "cleanup_works (lv_life lv)" and laws: "lifecycle_laws (lv_life lv) am_alive app_alive"
    and user: "is_user e" and prep: "ly_prepare (lv_life lv) plan w = (Inr (Some am), w1)"
    and opts: "po_plan_file opts \<noteq> []" "lv_read_plan lv (po_plan_file opts) (po_plan_fmt opts) = Some plan"
    and up: "outside_bring_up lv opts kind \<lparr>lr_plan = plan, lr_manager = True, lr_am = Some am, lr_app = None\<rparr> w1 =
      (Inl e, l2, w2)"
  shows "\<exists>w'. launch_plan lv opts kind w = (Inr False, w') \<and> \<not> am_alive am w' \<and>
    (\<forall>app. lr_app l2 = Some app \<longrightarrow> \<not> app_alive app w')"
proof -
  have "lr_am l2 = Some am" using outside_bring_up_am [OF up] by simp
  from cleanups_work [OF works laws this, of w2] up prep user opts show ?thesis
    by (auto simp: launch_plan_def)
qed


text \<open>
  When stopping the application fails in the cleaning up, the launcher of a node keeps what it has, so
  shutting it down tries again; the launcher of a domain has forgotten the application, which is still
  there, and shutting it down ends the process without another attempt.
\<close>
theorem domain_launcher_forgets_application:
  assumes app: "lr_app l = Some app" "lr_am l = Some am" and stop: "ly_stop ly app w = (Inl e, w1)"
    and keeps: "ly_destroy_manager ly (Some am) w1 = (r, w2)"
  shows "node_cleanup ly l w = (l, w1) \<and>
    (\<exists>l'. domain_cleanup ly l w = (l', w2) \<and> launcher_empty l' \<and>
       (\<exists>l''. launcher_shutdown ly end_process l' w2 = (Inr (), l'', end_process w2)))"
  using assms
  by (cases r) (auto simp: node_cleanup_def domain_cleanup_def take_down_app_def take_down_am_def launcher_empty_def
      launcher_shutdown_def)

text \<open>
  A locality whose launch failed before it had an application is not shut down any more: stopping the
  application it does not have raises, and the end of the process is not reached. A launcher of a node or
  of a domain in the same state ends it.
\<close>
theorem locality_without_application_stays:
  assumes "locality_properties (lr_plan l) = Some prop" and "configure prop w = (Inr (), w1)"
    and "ly_prepare ly (lr_plan l) w1 = (Inl e, w2)" and "lr_app l = None"
  shows "\<exists>l'. locality_launch ly configure l w = Some (Inl e, l', w2) \<and>
    locality_shutdown ly end_process l' w2 = (Inl (ly_nil ly), l', w2) \<and>
    (lr_am l = None \<longrightarrow> (\<exists>l''. launcher_shutdown ly end_process l' w2 = (Inr (), l'', end_process w2)))"
  using assms
  by (simp add: locality_launch_def Let_def locality_shutdown_def on_ref_def launcher_shutdown_def take_down_app_def)

text \<open>
  A teardown that reports success has destroyed the application manager; without the option to go on in
  spite of errors the application was stopped and destroyed before.
\<close>
theorem teardown_success:
  assumes laws: "lifecycle_laws (lv_life lv) am_alive app_alive"
    and am: "resolve_app_manager lv opts kind w = (Inr (Some am), w1)"
    and app: "resolve_application lv opts kind am w1 = Some (Inr (Some app), w2)"
    and run: "teardown_plan lv opts kind w = Some (Inr True, w')"
  shows "\<not> am_alive am w' \<and> (\<not> po_force opts \<longrightarrow> \<not> app_alive app w' \<and> (\<exists>w3. ly_stop (lv_life lv) app w2 = (Inr (), w3)))"
proof -
  let ?ly = "lv_life lv"
  obtain r3 w3 where stop: "ly_stop ?ly app w2 = (r3, w3)" by fastforce
  obtain r4 w4 where destroy: "ly_destroy_app ?ly am (Some app) w3 = (r4, w4)" by fastforce
  obtain d w5 where d: "(if r3 = Inr () \<or> po_force opts then (r4 = Inr (), w4) else (False, w3)) = (d, w5)" by fastforce
  obtain r6 w6 where manager: "ly_destroy_manager ?ly (Some am) w5 = (r6, w6)" by fastforce
  have "d \<or> po_force opts" "r6 = Inr ()" "w' = w6"
    using run stop destroy d manager by (auto simp: teardown_plan_def am app Let_def split: if_splits)
  with manager lifecycle_destroyed(2) [OF laws] have "\<not> am_alive am w'" by metis
  moreover have "\<not> app_alive app w' \<and> r3 = Inr ()" if "\<not> po_force opts"
  proof -
    from that d \<open>d \<or> po_force opts\<close> have "r3 = Inr ()" "r4 = Inr ()" "w5 = w4" by (auto split: if_splits)
    with destroy lifecycle_destroyed(1) [OF laws] have "\<not> app_alive app w5" by metis
    with manager lifecycle_destroyed(3) [OF laws] \<open>w' = w6\<close> \<open>r3 = Inr ()\<close> show ?thesis by metis
  qed
  ultimately show ?thesis using stop by auto
qed


section \<open>Concrete inputs\<close>

text \<open>
  A manager whose world is what is alive: application managers and applications; preparing makes
  number 1, launching number 2. What raises is told by the exceptions.
\<close>

definition demo_life :: "exn option \<Rightarrow> exn option \<Rightarrow> exn option \<Rightarrow> ('d, nat set \<times> nat set) lifecycle" where
  "demo_life prep finish stop =
     \<lparr>ly_nil = SysEx ''INV_OBJREF'',
      ly_prepare = (\<lambda>plan w. case prep of Some e \<Rightarrow> (Inl e, w) | None \<Rightarrow> (Inr (Some 1), (insert 1 (fst w), snd w))),
      ly_start_launch = (\<lambda>am w. (Inr (Some 2), (fst w, insert 2 (snd w)))),
      ly_finish_launch = (\<lambda>app w. (case finish of Some e \<Rightarrow> Inl e | None \<Rightarrow> Inr (), w)),
      ly_start = (\<lambda>app w. (Inr (), w)),
      ly_stop = (\<lambda>app w. (case stop of Some e \<Rightarrow> Inl e | None \<Rightarrow> Inr (), w)),
      ly_destroy_app = (\<lambda>am app w. (Inr (), (fst w, case app of Some a \<Rightarrow> snd w - {a} | None \<Rightarrow> snd w))),
      ly_destroy_manager = (\<lambda>am w. (Inr (), (case am of Some a \<Rightarrow> fst w - {a} | None \<Rightarrow> fst w, snd w)))\<rparr>"

abbreviation "demo_failure \<equiv> UserEx StartError ''x'' ''y''"

definition demo_launcher :: "int launcher" where
  "demo_launcher = \<lparr>lr_plan = new_plan, lr_manager = False, lr_am = None, lr_app = None\<rparr>"

lemma demo_life_laws: "lifecycle_laws (demo_life prep finish stop) (\<lambda>am w. am \<in> fst w) (\<lambda>app w. app \<in> snd w)"
  by (auto simp: lifecycle_laws_def demo_life_def)

lemma demo_life_works: "cleanup_works (demo_life prep finish None)"
  by (auto simp: cleanup_works_def demo_life_def)

definition demo_launch_env :: "exn option \<Rightarrow> (int, nat set \<times> nat set) launch_env" where
  "demo_launch_env finish = \<lparr>lv_life = demo_life None finish None, lv_read_plan = (\<lambda>f fmt. Some new_plan),
     lv_text = (\<lambda>r w. (Inr ''ior'', w)), lv_write = (\<lambda>f t w. (True, w)), lv_read = (\<lambda>f w. ''ior''),
     lv_find_am = (\<lambda>t w. (Inr (Some 1), w)), lv_find_app = (\<lambda>t w. (Inr (Some 2), w)),
     lv_managers = (\<lambda>w. (Inr None, w)), lv_apps = (\<lambda>am w. (Inr None, w))\<rparr>"

definition demo_options :: plan_options where
  "demo_options = \<lparr>po_am_ior = [], po_app_ior = [], po_plan_file = ''plan'', po_plan_fmt = [], po_plan_uuid = ''u'',
     po_force = False\<rparr>"

lemmas demo_launch_defs = demo_launch_env_def demo_options_def demo_life_def demo_launcher_def bring_up_def on_ref_def
  outside_bring_up_def write_reference_def

abbreviation "demo_launched \<equiv> demo_launcher\<lparr>lr_manager := True, lr_am := Some 1, lr_app := Some 2\<rparr>"

lemma outside_failed_launch_cleaned_up_witness:
  "\<exists>w'. launch_plan (demo_launch_env (Some demo_failure)) demo_options ''NodeManager'' ({}, {}) = (Inr False, w') \<and>
    1 \<notin> fst w' \<and> (\<forall>app. lr_app demo_launched = Some app \<longrightarrow> app \<notin> snd w')"
proof (rule outside_failed_launch_cleaned_up [where e = demo_failure and plan = new_plan and ?w1.0 = "({1}, {})"
      and ?w2.0 = "({1}, {2})" and am_alive = "\<lambda>am w. am \<in> fst w" and app_alive = "\<lambda>app w. app \<in> snd w"])
  show "cleanup_works (lv_life (demo_launch_env (Some demo_failure)))"
    and "lifecycle_laws (lv_life (demo_launch_env (Some demo_failure))) (\<lambda>am w. am \<in> fst w) (\<lambda>app w. app \<in> snd w)"
    using demo_life_works demo_life_laws by (simp_all add: demo_launch_env_def)
qed (simp_all add: demo_launch_defs)


lemma domain_launcher_forgets_application_witness:
  "\<exists>l'. domain_cleanup (demo_life None None (Some demo_failure)) (demo_launcher\<lparr>lr_am := Some 1, lr_app := Some 2\<rparr>) ({1}, {2}) =
      (l', ({}, {2})) \<and> launcher_empty l'"
  using domain_launcher_forgets_application [of "demo_launcher\<lparr>lr_am := Some 1, lr_app := Some 2\<rparr>" 2 1
      "demo_life None None (Some demo_failure)" "({1}, {2})" demo_failure "({1}, {2})" "Inr ()" "({}, {2})" id]
  by (auto simp: demo_life_def)

lemma locality_without_application_stays_witness:
  "\<exists>l'. locality_launch (demo_life (Some demo_failure) None None) (\<lambda>_ w. (Inr (), w)) demo_launcher ({}, {}) =
      Some (Inl demo_failure, l', ({}, {})) \<and>
    locality_shutdown (demo_life (Some demo_failure) None None) id l' ({}, {}) = (Inl (SysEx ''INV_OBJREF''), l', ({}, {}))"
  using locality_without_application_stays [of demo_launcher "[]" "\<lambda>_ w. (Inr (), w)" "({}, {})" "({}, {})"
      "demo_life (Some demo_failure) None None" demo_failure "({}, {})" id]
  by (auto simp: demo_life_def demo_launcher_def locality_properties_def new_plan_def)

lemma demo_teardown:
  "teardown_plan (demo_launch_env None) demo_options ''NodeManager'' ({1}, {2}) = Some (Inr True, ({}, {}))"
  by (simp add: teardown_plan_def resolve_app_manager_def resolve_application_def resolve_reference_def try_reference_def
      demo_launch_defs)

lemma teardown_success_witness:
  "\<exists>w'. teardown_plan (demo_launch_env None) demo_options ''NodeManager'' ({1}, {2}) = Some (Inr True, w') \<and>
    1 \<notin> fst w' \<and> 2 \<notin> snd w'"
  using teardown_success [where lv = "demo_launch_env None" and am_alive = "\<lambda>am w. am \<in> fst w"
      and app_alive = "\<lambda>app w. app \<in> snd w", OF _ _ _ demo_teardown, of 1 "({1}, {2})" 2 "({1}, {2})"]
    demo_life_laws [of None None None] demo_teardown
  by (simp add: demo_launch_env_def demo_options_def resolve_app_manager_def resolve_application_def
      resolve_reference_def try_reference_def)

end
