(* ===== verification/Locality_Activator.thy ===== *)
theory Locality_Activator
  imports Locality
begin

text \<open>
  The locality manager handler of a node, dancex11/handler/instance: the instance handler of locality
  managers (locality_manager_handler_impl.cpp) and its activator (locality_activator_impl.cpp), which
  starts a locality manager in a process of its own, loads it into this process, or connects to one that
  runs already, and stops it again.

  The objects of type Server_Info are shared: the set of the activator, the exit handler of a process and
  the calls that wait for one hold pointers to them. They live in a list, and a pointer is an index.

  The platform is POSIX. Processes, the ORB and the remote objects are the environment. What arrives while
  the activator waits, calls of a process that was started and the exits of processes, is chosen by the
  environment as well; other requests that the ORB might dispatch meanwhile are not modelled.
\<close>

abbreviation "LOCALITY_UUID \<equiv> ''nl.remedy.it.DnCX11.Locality.UUID''"
abbreviation "LOCALITY_ARGUMENTS \<equiv> ''nl.remedy.it.DnCX11.Locality.Arguments''"
abbreviation "LOCALITY_EXECUTABLE \<equiv> ''nl.remedy.it.DnCX11.Locality.Exec''"
abbreviation "LOCALITY_DM_HANDLER \<equiv> ''nl.remedy.it.DnCX11.Locality.DMHandler''"
abbreviation "LOCALITY_CONFIGFILE \<equiv> ''nl.remedy.it.DnCX11.Locality.ConfigFile''"
abbreviation "LOCALITY_PORT \<equiv> ''nl.remedy.it.DnCX11.Locality.Port''"
abbreviation "LOCALITY_ADDRESS \<equiv> ''nl.remedy.it.DnCX11.Locality.Address''"
abbreviation "LOCALITY_HOST_FOR_REF \<equiv> ''nl.remedy.it.DnCX11.Locality.HostForRef''"
abbreviation "LOCALITY_IOR \<equiv> ''nl.remedy.it.DnCX11.Locality.IOR''"
abbreviation "DM_NUMERIC_ADDRESSES \<equiv> ''nl.remedy.it.DnCX11.DM.NumericAddresses''"
abbreviation AM_SPAWN :: "32 word" where "AM_SPAWN \<equiv> 0"
abbreviation AM_REMOTE :: "32 word" where "AM_REMOTE \<equiv> 1"
abbreviation AM_LOCAL :: "32 word" where "AM_LOCAL \<equiv> 2"
abbreviation BAD_PARAM :: exn where "BAD_PARAM \<equiv> SysEx ''IDL:omg.org/CORBA/BAD_PARAM:1.0''"
abbreviation BAD_INV_ORDER :: exn where "BAD_INV_ORDER \<equiv> SysEx ''IDL:omg.org/CORBA/BAD_INV_ORDER:1.0''"

section \<open>State and environment\<close>

datatype process_status = Active | Terminate_Requested | Terminated | Inactive

record 'd server_info =
  si_uuid :: string
  si_cmap :: "'d property_map"
  si_ref :: "nat option"
  si_mode :: "32 word"
  si_pid :: "nat option"
  si_status :: process_status
  si_plan_UUID :: string
  si_handler :: "nat option"

text \<open>
  What arrives while the activator waits: a process hands in the reference of its locality manager, says
  that it is configured, or ends.
\<close>

datatype 'd arrival = Called_Back string "nat option" "'d properties" | Configured string | Exited nat

record ('d, 'w) activator_env =
  ae_object :: "string \<Rightarrow> 'w \<Rightarrow> exn + nat option"
  ae_nil :: exn
  ae_configure :: "nat \<Rightarrow> 'd properties \<Rightarrow> 'w \<Rightarrow> exn option \<times> 'w"
  ae_shutdown :: "nat \<Rightarrow> 'w \<Rightarrow> exn option \<times> 'w"
  ae_directive :: "string \<Rightarrow> 'w \<Rightarrow> bool \<times> 'w"
  ae_loader :: "string \<Rightarrow> 'w \<Rightarrow> exn + nat option"
  ae_create :: "nat \<Rightarrow> 'w \<Rightarrow> nat option \<times> 'w"
  ae_handler_configure :: "nat \<Rightarrow> string \<Rightarrow> 'd properties \<Rightarrow> 'w \<Rightarrow> exn option \<times> 'w"
  ae_activate_manager :: "nat \<Rightarrow> string \<Rightarrow> 'w \<Rightarrow> (exn + nat option) \<times> 'w"
  ae_handler_shutdown :: "nat \<Rightarrow> 'w \<Rightarrow> exn option \<times> 'w"
  ae_ior :: string
  ae_generate :: "'w \<Rightarrow> string \<times> 'w"
  ae_getenv :: "string \<Rightarrow> string option"
  ae_is_file :: "string \<Rightarrow> bool"
  ae_command_ok :: "string \<Rightarrow> bool"
  ae_spawn :: "string \<Rightarrow> (string \<times> string) list \<Rightarrow> 'w \<Rightarrow> nat option \<times> 'w"
  ae_perform_work :: "'w \<Rightarrow> (exn + 'd arrival list) \<times> 'w"
  ae_block :: "'w \<Rightarrow> bool \<times> 'd arrival list \<times> 'w"
  ae_answer :: "exn + 'd properties \<Rightarrow> 'w \<Rightarrow> 'w"
  ae_countdown :: "'w \<Rightarrow> 'w \<Rightarrow> nat \<Rightarrow> nat"
  ae_duration :: "32 word \<Rightarrow> nat"

text \<open>
  The set of pointers is ordered by the UUIDs of what they point to. The list has its iteration order;
  the children are the processes with exit handlers and the pointers these hold.
\<close>

record 'd activator =
  la_properties :: "'d properties"
  la_multithreaded :: bool
  la_infos :: "'d server_info list"
  la_set :: "nat list"
  la_children :: "(nat \<times> nat) list"

definition new_activator :: "'d properties \<Rightarrow> bool \<Rightarrow> 'd activator" where
  "new_activator props mt = \<lparr>la_properties = props, la_multithreaded = mt, la_infos = [], la_set = [], la_children = []\<rparr>"

definition new_server_info :: "string \<Rightarrow> 'd server_info" where
  "new_server_info plan_UUID = \<lparr>si_uuid = [], si_cmap = [], si_ref = None, si_mode = 0, si_pid = None,
     si_status = Inactive, si_plan_UUID = plan_UUID, si_handler = None\<rparr>"

abbreviation info :: "'d activator \<Rightarrow> nat \<Rightarrow> 'd server_info" where
  "info la i \<equiv> la_infos la ! i"

definition upd_info :: "nat \<Rightarrow> ('d server_info \<Rightarrow> 'd server_info) \<Rightarrow> 'd activator \<Rightarrow> 'd activator" where
  "upd_info i f la = la\<lparr>la_infos := vec_upd i f (la_infos la)\<rparr>"

section \<open>What processes call\<close>

definition find_uuid :: "string \<Rightarrow> 'd activator \<Rightarrow> nat option" where
  "find_uuid uuid la = find (\<lambda>i. si_uuid (info la i) = uuid) (la_set la)"

definition locality_manager_callback ::
  "nat option \<Rightarrow> string \<Rightarrow> 'd properties \<Rightarrow> 'd activator \<Rightarrow> (exn + 'd properties) \<times> 'd activator" where
  "locality_manager_callback ref uuid config la =
     (case find_uuid uuid la of
        None \<Rightarrow> (Inl BAD_PARAM, la)
      | Some i \<Rightarrow>
          (if si_status (info la i) = Active then (Inl BAD_INV_ORDER, la)
           else if si_ref (info la i) \<noteq> None then (Inl BAD_INV_ORDER, la)
           else (Inr (build_property_sequence config (si_cmap (info la i))), upd_info i (si_ref_update (\<lambda>_. ref)) la)))"

definition configuration_complete :: "string \<Rightarrow> 'd activator \<Rightarrow> exn option \<times> 'd activator" where
  "configuration_complete uuid la =
     (case find_uuid uuid la of
        None \<Rightarrow> (Some BAD_PARAM, la)
      | Some i \<Rightarrow>
          (if si_status (info la i) = Active then (Some BAD_INV_ORDER, la)
           else if si_ref (info la i) = None then (Some BAD_INV_ORDER, la)
           else (None, upd_info i (si_status_update (\<lambda>_. Active)) la)))"

definition handle_exit :: "nat \<Rightarrow> 'd activator \<Rightarrow> 'd activator" where
  "handle_exit pid la =
     (case map_of (la_children la) pid of
        None \<Rightarrow> la
      | Some i \<Rightarrow> upd_info i (si_status_update (\<lambda>_. Terminated))
          (la\<lparr>la_children := filter (\<lambda>c. fst c \<noteq> pid) (la_children la)\<rparr>))"

fun arrive :: "('d, 'w) activator_env \<Rightarrow> 'd arrival \<Rightarrow> 'd activator \<times> 'w \<Rightarrow> 'd activator \<times> 'w" where
  "arrive env (Called_Back uuid ref config) (la, w) =
     (case locality_manager_callback ref uuid config la of (r, la') \<Rightarrow> (la', ae_answer env r w))"
| "arrive env (Configured uuid) (la, w) =
     (case configuration_complete uuid la of
        (x, la') \<Rightarrow> (la', ae_answer env (case x of Some e \<Rightarrow> Inl e | None \<Rightarrow> Inr []) w))"
| "arrive env (Exited pid) (la, w) = (handle_exit pid la, w)"

section \<open>Waiting for a process\<close>

definition lm_error :: "string \<Rightarrow> failure" where
  "lm_error reason = Raised (UserEx StartError ''locality_manager'' reason)"

text \<open>
  Each round performs work of the ORB for a tenth of a second. None is a loop that does not end. The
  countdown runs only while work is performed.
\<close>

partial_function (option) single_threaded_callback ::
  "('d, 'w) activator_env \<Rightarrow> nat \<Rightarrow> nat \<Rightarrow> 'd activator \<times> 'w \<Rightarrow> ((failure + unit) \<times> 'd activator \<times> 'w) option"
where
  "single_threaded_callback env i timeout s =
     (case (if si_status (info (fst s) i) \<noteq> Active \<and> si_status (info (fst s) i) \<noteq> Terminated then
              (case ae_perform_work env (snd s) of
                 (Inl e, w) \<Rightarrow> (Some e, timeout, fst s, w)
               | (Inr evs, w) \<Rightarrow>
                   (case fold (arrive env) evs (fst s, w) of
                      (la, w') \<Rightarrow> (None, ae_countdown env (snd s) w' timeout, la, w')))
            else (None, timeout, s)) of
        (Some e, _, s') \<Rightarrow> Some (Inl (Raised e), s')
      | (None, timeout', s') \<Rightarrow>
          (if si_status (info (fst s') i) = Terminated then
             Some (Inl (lm_error ''Failed to startup LocalityManager''), s')
           else if si_status (info (fst s') i) = Active then Some (Inr (), s')
           else if timeout' = 0 then Some (Inl (lm_error ''Timed out waiting for LocalityManager''), s')
           else single_threaded_callback env i timeout' s'))"

text \<open>With other threads to perform the work, the wait on the condition says whether it was signalled.\<close>

partial_function (option) multi_threaded_callback ::
  "('d, 'w) activator_env \<Rightarrow> nat \<Rightarrow> 'd activator \<times> 'w \<Rightarrow> ((failure + unit) \<times> 'd activator \<times> 'w) option"
where
  "multi_threaded_callback env i s =
     (if si_status (info (fst s) i) = Active then Some (Inr (), s)
      else case ae_block env (snd s) of
          (signalled, evs, w) \<Rightarrow>
            (case fold (arrive env) evs (fst s, w) of
               s' \<Rightarrow>
                 (if \<not> signalled then Some (Inl (lm_error ''timed out waiting for callback''), s')
                  else if si_status (info (fst s') i) = Terminated then
                    Some (Inl (lm_error ''Failed to startup LocalityManager''), s')
                  else multi_threaded_callback env i s')))"

section \<open>Starting a process\<close>

definition from_map :: "('d any \<Rightarrow> 'a option) \<Rightarrow> 'a \<Rightarrow> string \<Rightarrow> 'd property_map \<Rightarrow> 'a" where
  "from_map ex dflt name m = (case get_property_value_map ex name m of Some v \<Rightarrow> v | None \<Rightarrow> dflt)"

abbreviation dm_handler_lib :: "'d property_map \<Rightarrow> string" where
  "dm_handler_lib \<equiv> from_map as_string ''dancex11_locality_dm_handler'' LOCALITY_DM_HANDLER"

definition opt_text :: "string \<Rightarrow> string \<Rightarrow> string" where
  "opt_text switch v = (if v = [] then [] else switch @ v)"

definition command_text :: "'d property_map \<Rightarrow> string \<Rightarrow> string \<Rightarrow> string" where
  "command_text m uuid ior =
     (let port = from_map as_uint16 0 LOCALITY_PORT m
      in from_map as_string [] LOCALITY_ARGUMENTS m
       @ opt_text '' -c '' (from_map as_string [] LOCALITY_CONFIGFILE m)
       @ (if 0 < port then '' -p '' @ decimal (unat port) else [])
       @ opt_text '' -a '' (from_map as_string [] LOCALITY_ADDRESS m)
       @ (if from_map as_bool False DM_NUMERIC_ADDRESSES m then '' -N'' else [])
       @ opt_text '' -H '' (from_map as_string [] LOCALITY_HOST_FOR_REF m)
       @ opt_text '' --handler '' (dm_handler_lib m)
       @ (if from_map as_string [] DOMAIN_NC m = [] then []
          else '' --deployment-nc '' @ from_map as_string [] DOMAIN_NC m @ '' -S '')
       @ '' -- -u '' @ uuid @ '' -r '' @ ior)"

text \<open>The UUID of a process is entered into its record when the command line is made.\<close>

definition construct_command_line ::
  "('d, 'w) activator_env \<Rightarrow> nat \<Rightarrow> 'd activator \<times> 'w \<Rightarrow> string \<times> 'd activator \<times> 'w" where
  "construct_command_line env i s =
     (case s of (la, w) \<Rightarrow>
       (case (case map_get (si_cmap (info la i)) LOCALITY_UUID of
                Some v \<Rightarrow> ((case as_string v of Some u \<Rightarrow> u | None \<Rightarrow> []), w)
              | None \<Rightarrow> ae_generate env w) of
          (uuid, w') \<Rightarrow>
            (command_text (si_cmap (info la i)) uuid (ae_ior env), upd_info i (si_uuid_update (\<lambda>_. uuid)) la, w')))"

definition executable_path :: "('d, 'w) activator_env \<Rightarrow> 'd property_map \<Rightarrow> string" where
  "executable_path env m =
     (let path = ''dancex11_deployment_manager''
      in case map_get m LOCALITY_EXECUTABLE of
           Some v \<Rightarrow> (case as_string v of Some p \<Rightarrow> p | None \<Rightarrow> path)
         | None \<Rightarrow>
             (case ae_getenv env ''DANCEX11_ROOT'' of
                None \<Rightarrow> path
              | Some root \<Rightarrow>
                  (let filename = root @ ''/bin/'' @ path
                   in if ae_is_file env filename then filename else path)))"

text \<open>A search path goes after the one of this process. A value that is no string leaves the last path.\<close>

definition search_variable ::
  "('d, 'w) activator_env \<Rightarrow> 'd property_map \<Rightarrow> string \<Rightarrow> string \<Rightarrow> string \<Rightarrow> string \<times> (string \<times> string) list" where
  "search_variable env m name var path =
     (case map_get m name of
        None \<Rightarrow> (path, [])
      | Some v \<Rightarrow>
          (let p = (case as_string v of Some p \<Rightarrow> p | None \<Rightarrow> path);
               old = (case ae_getenv env var of Some x \<Rightarrow> x | None \<Rightarrow> [])
           in (p, if p = [] then [] else [(var, old @ '':'' @ p)])))"

definition spawn_locality_manager ::
  "('d, 'w) activator_env \<Rightarrow> nat \<Rightarrow> string \<Rightarrow> 'd activator \<times> 'w \<Rightarrow> (failure + nat) \<times> 'd activator \<times> 'w" where
  "spawn_locality_manager env i cmd_line s =
     (case s of (la, w) \<Rightarrow>
       (let m = si_cmap (info la i); path = executable_path env m; line = path @ '' '' @ cmd_line
        in if \<not> ae_command_ok env line then (Inl (lm_error ''Failed to create command line for server''), s)
           else case search_variable env m DANCE_LM_PATH ''PATH'' path of
               (path', vs) \<Rightarrow>
                 (case search_variable env m DANCE_LM_LIBPATH ''LD_LIBRARY_PATH'' path' of
                    (_, vs') \<Rightarrow>
                      (case ae_spawn env line (vs @ vs') w of
                         (None, w') \<Rightarrow> (Inl (lm_error ''Failed to spawn process''), la, w')
                       | (Some pid, w') \<Rightarrow>
                           (Inr pid, la\<lparr>la_children := (pid, i) # la_children la\<rparr>, w')))))"

definition activate_child_locality ::
  "('d, 'w) activator_env \<Rightarrow> nat \<Rightarrow> 'd activator \<times> 'w \<Rightarrow> (failure + nat option) \<times> 'd activator \<times> 'w" where
  "activate_child_locality env i s =
     (case construct_command_line env i s of (cmd_line, s1) \<Rightarrow>
       (case spawn_locality_manager env i cmd_line s1 of
          (Inl f, s2) \<Rightarrow> (Inl f, s2)
        | (Inr pid, s2) \<Rightarrow>
            (case (if la_multithreaded (fst s2) then multi_threaded_callback env i s2
                   else single_threaded_callback env i
                     (ae_duration env (from_map as_uint32 30 LOCALITY_TIMEOUT (si_cmap (info (fst s2) i)))) s2) of
               None \<Rightarrow> (Inl Hangs, s2)
             | Some (Inl f, s3) \<Rightarrow> (Inl f, s3)
             | Some (Inr _, la, w) \<Rightarrow> (Inr (si_ref (info la i)), upd_info i (si_pid_update (\<lambda>_. Some pid)) la, w))))"

section \<open>A locality manager that runs already\<close>

definition locality_error :: "string \<Rightarrow> failure" where
  "locality_error reason = Raised (UserEx StartError ''Locality_Activator'' reason)"

definition remote_ior :: "'d property_map \<Rightarrow> failure + string" where
  "remote_ior m =
     (case map_get m LOCALITY_IOR of
        Some v \<Rightarrow>
          (case as_string v of
             Some s \<Rightarrow> Inr s
           | None \<Rightarrow> Inl (locality_error ''Failed to retrieve remote LM reference''))
      | None \<Rightarrow>
          (let port = from_map as_uint16 0 LOCALITY_PORT m;
               addr = from_map as_string [] LOCALITY_ADDRESS m;
               addr' = (if addr = [] then if from_map as_bool False DM_NUMERIC_ADDRESSES m then ''127.0.0.1''
                          else ''localhost'' else addr)
           in if port = 0 then Inl (locality_error ''Unable to determine remote LM IOR'')
              else Inr (''corbaloc:iiop:'' @ addr' @ '':'' @ decimal (unat port) @ ''/DeploymentManager.LocalityManager'')))"

text \<open>Configuring the locality manager that a record refers to, which makes it active.\<close>

definition configure_server ::
  "('d, 'w) activator_env \<Rightarrow> nat \<Rightarrow> nat \<Rightarrow> 'd activator \<times> 'w \<Rightarrow> (failure + nat option) \<times> 'd activator \<times> 'w" where
  "configure_server env i lm s =
     (case s of (la, w) \<Rightarrow>
       (case ae_configure env lm (build_property_sequence [] (si_cmap (info la i))) w of
          (Some e, w') \<Rightarrow> (Inl (Raised e), la, w')
        | (None, w') \<Rightarrow> (Inr (Some lm), upd_info i (si_status_update (\<lambda>_. Active)) la, w')))"

definition activate_remote_locality ::
  "('d, 'w) activator_env \<Rightarrow> nat \<Rightarrow> 'd activator \<times> 'w \<Rightarrow> (failure + nat option) \<times> 'd activator \<times> 'w" where
  "activate_remote_locality env i s =
     (case remote_ior (si_cmap (info (fst s) i)) of
        Inl f \<Rightarrow> (Inl f, s)
      | Inr ior \<Rightarrow>
          (case ae_object env ior (snd s) of
             Inl e \<Rightarrow> (Inl (Raised e), s)
           | Inr r \<Rightarrow>
               (let s' = (upd_info i (si_ref_update (\<lambda>_. r)) (fst s), snd s)
                in case r of
                     None \<Rightarrow> (Inl (locality_error ''Unable to resolve remote LM reference''), s')
                   | Some lm \<Rightarrow> configure_server env i lm s')))"

section \<open>A locality manager in this process\<close>

definition activate_local_locality ::
  "('d, 'w) activator_env \<Rightarrow> nat \<Rightarrow> 'd activator \<times> 'w \<Rightarrow> (failure + nat option) \<times> 'd activator \<times> 'w" where
  "activate_local_locality env i s =
     (case s of (la, w) \<Rightarrow>
       (let m = si_cmap (info la i);
            not_loaded = locality_error ''Unable to load inprocess LocalityManager'';
            name = ''DANCEX11_INPROCESS_LOCALITY_MANAGER'';
            text = ''dynamic '' @ name @ '' Service_Object * '' @ dm_handler_lib m
              @ '':_make_DAnCEX11_DeploymentHandler_Impl() '' @ [CHR 0x22, CHR 0x22]
        in case ae_directive env text w of
             (False, w1) \<Rightarrow> (Inl not_loaded, la, w1)
           | (True, w1) \<Rightarrow>
               (case ae_loader env name w1 of
                  Inl _ \<Rightarrow> (Inl not_loaded, la, w1)
                | Inr None \<Rightarrow> (Inl Undefined, la, w1)
                | Inr (Some loader) \<Rightarrow>
                    (case ae_create env loader w1 of (h, w2) \<Rightarrow>
                      (let la2 = upd_info i (si_handler_update (\<lambda>_. h)) la
                       in case h of
                            None \<Rightarrow> (Inl (Raised (ae_nil env)), la2, w2)
                          | Some h' \<Rightarrow>
                              (case ae_handler_configure env h' (from_map as_string [] LOCALITY_CONFIGFILE m)
                                  (build_property_sequence [] m) w2 of
                                 (Some e, w3) \<Rightarrow> (Inl (Raised e), la2, w3)
                               | (None, w3) \<Rightarrow>
                                   (case ae_activate_manager env h' (si_plan_UUID (info la i) @ ''.LocalityManager'') w3 of
                                      (Inl e, w4) \<Rightarrow> (Inl (Raised e), la2, w4)
                                    | (Inr r, w4) \<Rightarrow>
                                        (let la4 = upd_info i (si_ref_update (\<lambda>_. r)) la2
                                         in case r of
                                              None \<Rightarrow> (Inl (locality_error ''Unable to narrow local LM reference''), la4, w4)
                                            | Some lm \<Rightarrow> configure_server env i lm (la4, w4)))))))))"

section \<open>Creating and removing\<close>

text \<open>
  A new pointer has no UUID yet when it is inserted. An element without one comes before all others, and
  a second one is not inserted.
\<close>

definition insert_info :: "nat \<Rightarrow> 'd activator \<Rightarrow> 'd activator" where
  "insert_info i la =
     (if \<exists>j \<in> set (la_set la). si_uuid (info la j) = [] then la else la\<lparr>la_set := i # la_set la\<rparr>)"

definition erase_plan :: "string \<Rightarrow> 'd activator \<Rightarrow> nat option \<times> 'd activator" where
  "erase_plan plan_UUID la =
     (case find (\<lambda>i. si_plan_UUID (info la i) = plan_UUID) (la_set la) of
        None \<Rightarrow> (None, la)
      | Some i \<Rightarrow> (Some i, la\<lparr>la_set := remove1 i (la_set la)\<rparr>))"

definition new_server :: "string \<Rightarrow> 'd properties \<Rightarrow> 'd activator \<Rightarrow> 'd server_info" where
  "new_server plan_UUID config la =
     (let m = build_property_map (build_property_map [] (la_properties la) True) config True
      in (new_server_info plan_UUID)\<lparr>si_cmap := m, si_mode := from_map as_uint32 0 LOCALITY_ACTIVATION_MODE m\<rparr>)"

definition create_locality_manager ::
  "('d, 'w) activator_env \<Rightarrow> string \<Rightarrow> 'd properties \<Rightarrow> 'd activator \<times> 'w \<Rightarrow>
    (failure + nat option) \<times> 'd activator \<times> 'w" where
  "create_locality_manager env plan_UUID config s =
     (case s of (la, w) \<Rightarrow>
       (let i = length (la_infos la); server = new_server plan_UUID config la;
            s1 = (insert_info i (la\<lparr>la_infos := la_infos la @ [server]\<rparr>), w)
        in case (if si_mode server = AM_SPAWN then activate_child_locality env i s1
                 else if si_mode server = AM_LOCAL then activate_local_locality env i s1
                 else if si_mode server = AM_REMOTE then activate_remote_locality env i s1
                 else (Inr None, s1)) of
             (Inl (Raised e), la', w') \<Rightarrow> (Inl (Raised e), snd (erase_plan plan_UUID la'), w')
           | (r, s') \<Rightarrow> (r, s')))"

definition remove_locality_manager ::
  "('d, 'w) activator_env \<Rightarrow> string \<Rightarrow> 'd activator \<times> 'w \<Rightarrow> exn option \<times> 'd activator \<times> 'w" where
  "remove_locality_manager env plan_UUID s =
     (case s of (la, w) \<Rightarrow>
       (case erase_plan plan_UUID la of
          (None, la') \<Rightarrow> (Some (UserEx StopError ''locality manager'' ''unable to stop locality manager''), la', w)
        | (Some i, la') \<Rightarrow>
            (if si_status (info la' i) = Terminated then (None, la', w)
             else if si_mode (info la' i) = AM_LOCAL then
               (let la'' = upd_info i (si_status_update (\<lambda>_. Terminated)) la'
                in case (case si_handler (info la' i) of
                           None \<Rightarrow> (Some (ae_nil env), w) | Some h \<Rightarrow> ae_handler_shutdown env h w) of
                     (Some e, w') \<Rightarrow> (if is_corba e then None else Some e, la'', w')
                   | (None, w') \<Rightarrow> (None, la'', w'))
             else
               (let la'' = upd_info i (si_status_update (\<lambda>_. Terminate_Requested)) la'
                in case (case si_ref (info la' i) of
                           None \<Rightarrow> (Some (ae_nil env), w) | Some lm \<Rightarrow> ae_shutdown env lm w) of
                     (Some e, w') \<Rightarrow> (if is_stop_error e then None else Some e, la'', w')
                   | (None, w') \<Rightarrow> (None, la'', w')))))"

section \<open>The instance handler\<close>

definition lh_install_instance ::
  "('d, 'w) activator_env \<Rightarrow> 'd plan \<Rightarrow> nat \<Rightarrow> 'd activator \<times> 'w \<Rightarrow> (failure + 'd any) \<times> 'd activator \<times> 'w" where
  "lh_install_instance env plan ref s =
     (if length (pl_instance plan) \<le> ref then
        (Inl (Raised (UserEx PlanError (pl_UUID plan) ''Invalid instance reference'')), s)
      else let idd = pl_instance plan ! ref in
        if length (pl_implementation plan) \<le> id_implementationRef idd then
          (Inl (Raised (UserEx PlanError (pl_UUID plan) ''Invalid Implementation reference'')), s)
        else case create_locality_manager env (pl_UUID plan)
            (append_properties (append_properties [] (md_execParameter (pl_implementation plan ! id_implementationRef idd)))
              (id_configProperty idd)) s of
            (Inl f, s') \<Rightarrow> (Inl f, s')
          | (Inr None, s') \<Rightarrow>
              (Inl (Raised (UserEx StartError (id_name idd)
                ''Received nil object reference for LocalityManager from Activator'')), s')
          | (Inr (Some lm), s') \<Rightarrow> (Inr (ObjAny (Some lm)), s'))"

definition lh_remove_instance ::
  "('d, 'w) activator_env \<Rightarrow> 'd plan \<Rightarrow> 'd activator \<times> 'w \<Rightarrow> exn option \<times> 'd activator \<times> 'w" where
  "lh_remove_instance env plan s = remove_locality_manager env (pl_UUID plan) s"

definition lh_configure :: "'d properties \<Rightarrow> 'd activator" where
  "lh_configure props = new_activator props False"

section \<open>An invariant\<close>

text \<open>
  Pointers are valid and in the set once, only the first element of the set has no UUID, and what is
  active has handed in a reference.
\<close>

definition activator_ok :: "'d activator \<Rightarrow> bool" where
  "activator_ok la \<longleftrightarrow> distinct (la_set la)
     \<and> (\<forall>i \<in> set (la_set la) \<union> snd ` set (la_children la). i < length (la_infos la))
     \<and> (\<forall>i \<in> set (tl (la_set la)). si_uuid (info la i) \<noteq> [])
     \<and> (\<forall>i < length (la_infos la). si_status (info la i) = Active \<longrightarrow> si_ref (info la i) \<noteq> None)"

lemma upd_info_frame [simp]:
  "la_set (upd_info i f la) = la_set la" "la_children (upd_info i f la) = la_children la"
  "la_properties (upd_info i f la) = la_properties la" "la_multithreaded (upd_info i f la) = la_multithreaded la"
  "length (la_infos (upd_info i f la)) = length (la_infos la)"
  by (simp_all add: upd_info_def)

lemma info_upd [simp]:
  "j < length (la_infos la) \<Longrightarrow> info (upd_info i f la) j = (if i = j then f (info la j) else info la j)"
  by (simp add: upd_info_def nth_vec_upd)

lemma find_uuid_some:
  "find_uuid uuid la = Some i \<Longrightarrow> i \<in> set (la_set la) \<and> si_uuid (info la i) = uuid"
  by (auto simp: find_uuid_def find_Some_iff)

lemma in_set_tl: "x \<in> set (tl xs) \<Longrightarrow> x \<in> set xs"
  by (cases xs) auto

lemma activator_ok_upd:
  assumes "activator_ok la"
    and "\<And>x. si_uuid (f x) = si_uuid x"
    and "i < length (la_infos la) \<Longrightarrow> si_status (f (info la i)) = Active \<Longrightarrow> si_ref (f (info la i)) \<noteq> None"
  shows "activator_ok (upd_info i f la)"
proof -
  have "\<forall>j \<in> set (tl (la_set la)). j < length (la_infos la)"
    using assms(1) in_set_tl by (fastforce simp: activator_ok_def)
  then show ?thesis using assms by (auto simp: activator_ok_def)
qed

text \<open>What a step leaves of the others: the set, the plans, the UUIDs, and what waiting can see.\<close>

definition same_frame :: "'d activator \<Rightarrow> 'd activator \<Rightarrow> bool" where
  "same_frame la la' \<longleftrightarrow> la_set la' = la_set la \<and> length (la_infos la') = length (la_infos la)
     \<and> la_multithreaded la' = la_multithreaded la
     \<and> (\<forall>i < length (la_infos la). si_uuid (info la' i) = si_uuid (info la i)
         \<and> si_plan_UUID (info la' i) = si_plan_UUID (info la i) \<and> si_mode (info la' i) = si_mode (info la i)
         \<and> (i \<notin> set (la_set la) \<longrightarrow> si_status (info la i) \<noteq> Active \<longrightarrow> si_status (info la' i) \<noteq> Active))"

lemma same_frame_refl [simp]: "same_frame la la"
  by (simp add: same_frame_def)

lemma same_frame_trans: "same_frame la la' \<Longrightarrow> same_frame la' la'' \<Longrightarrow> same_frame la la''"
  by (simp add: same_frame_def)

lemma terminated_frame: "same_frame la (upd_info i (si_status_update (\<lambda>_. Terminated)) la)"
  by (simp add: same_frame_def)

lemma arrive_ok:
  assumes "activator_ok la" "arrive env ev (la, w) = (la', w')"
  shows "activator_ok la' \<and> same_frame la la'"
proof (cases ev)
  case (Called_Back uuid ref config)
  show ?thesis
  proof (cases "find_uuid uuid la")
    case (Some i)
    then have i: "i < length (la_infos la)" using assms(1) find_uuid_some by (fastforce simp: activator_ok_def)
    show ?thesis
      using assms Some i
      by (auto simp: Called_Back locality_manager_callback_def same_frame_def split: if_splits
          intro!: activator_ok_upd)
  qed (use assms in \<open>auto simp: Called_Back locality_manager_callback_def\<close>)
next
  case (Configured uuid)
  show ?thesis
  proof (cases "find_uuid uuid la")
    case (Some i)
    then have "i < length (la_infos la)" "i \<in> set (la_set la)"
      using assms(1) find_uuid_some by (fastforce simp: activator_ok_def)+
    then show ?thesis
      using assms Some
      by (auto simp: Configured configuration_complete_def same_frame_def split: if_splits intro!: activator_ok_upd)
  qed (use assms in \<open>auto simp: Configured configuration_complete_def\<close>)
next
  case (Exited pid)
  let ?la = "la\<lparr>la_children := filter (\<lambda>c. fst c \<noteq> pid) (la_children la)\<rparr>"
  have "activator_ok ?la" "same_frame la ?la" using assms(1) by (auto simp: activator_ok_def same_frame_def)
  then show ?thesis
    using assms
    by (auto simp: Exited handle_exit_def split: option.splits intro: activator_ok_upd terminated_frame same_frame_trans)
qed

lemma arrivals_ok:
  assumes "activator_ok la" "fold (arrive env) evs (la, w) = (la', w')"
  shows "activator_ok la' \<and> same_frame la la'"
  using assms
proof (induction evs arbitrary: la w)
  case (Cons ev evs)
  obtain la1 w1 where a: "arrive env ev (la, w) = (la1, w1)" by (cases "arrive env ev (la, w)")
  with Cons arrive_ok [OF Cons.prems(1) a] show ?case by (auto intro: same_frame_trans)
qed simp

text \<open>The wait ends without a failure only when the server is active.\<close>

definition waited :: "nat \<Rightarrow> 'd activator \<times> 'w \<Rightarrow> (failure + unit) \<times> 'd activator \<times> 'w \<Rightarrow> bool" where
  "waited i s y \<longleftrightarrow> activator_ok (fst s) \<longrightarrow> (case y of (r, s') \<Rightarrow> activator_ok (fst s') \<and> same_frame (fst s) (fst s')
     \<and> (\<forall>x. r = Inr x \<longrightarrow> si_status (info (fst s') i) = Active))"

lemma waited_step: "activator_ok (fst s) \<Longrightarrow> activator_ok (fst s') \<and> same_frame (fst s) (fst s') \<Longrightarrow>
    waited i s' y \<Longrightarrow> waited i s y"
  by (auto simp: waited_def intro: same_frame_trans)

lemma single_threaded_result:
  fixes env :: "('d, 'w) activator_env"
  assumes "single_threaded_callback env i timeout s = Some y"
  shows "waited i s y"
proof (rule single_threaded_callback.raw_induct [where P = "\<lambda>env i timeout s y. waited i s y", OF _ assms])
  fix f :: "('d, 'w) activator_env \<Rightarrow> nat \<Rightarrow> nat \<Rightarrow> 'd activator \<times> 'w \<Rightarrow> ((failure + unit) \<times> 'd activator \<times> 'w) option"
    and env :: "('d, 'w) activator_env" and i timeout and s :: "'d activator \<times> 'w" and y
  assume IH: "\<And>(env :: ('d, 'w) activator_env) i timeout s y. f env i timeout s = Some y \<Longrightarrow> waited i s y"
  assume step: "(case (if si_status (info (fst s) i) \<noteq> Active \<and> si_status (info (fst s) i) \<noteq> Terminated then
              (case ae_perform_work env (snd s) of
                 (Inl e, w) \<Rightarrow> (Some e, timeout, fst s, w)
               | (Inr evs, w) \<Rightarrow>
                   (case fold (arrive env) evs (fst s, w) of
                      (la, w') \<Rightarrow> (None, ae_countdown env (snd s) w' timeout, la, w')))
            else (None, timeout, s)) of
        (Some e, _, s') \<Rightarrow> Some (Inl (Raised e), s')
      | (None, timeout', s') \<Rightarrow>
          (if si_status (info (fst s') i) = Terminated then
             Some (Inl (lm_error ''Failed to startup LocalityManager''), s')
           else if si_status (info (fst s') i) = Active then Some (Inr (), s')
           else if timeout' = 0 then Some (Inl (lm_error ''Timed out waiting for LocalityManager''), s')
           else f env i timeout' s')) = Some y"
  show "waited i s y"
  proof (cases "activator_ok (fst s)")
    case True
    show ?thesis
    proof (cases "si_status (info (fst s) i) \<noteq> Active \<and> si_status (info (fst s) i) \<noteq> Terminated")
      case wait: True
      show ?thesis
      proof (cases "ae_perform_work env (snd s)")
        case (Pair res w)
        show ?thesis
        proof (cases res)
          case (Inl e)
          then show ?thesis using step wait Pair by (auto simp: waited_def)
        next
          case (Inr evs)
          obtain la' w' where a: "fold (arrive env) evs (fst s, w) = (la', w')" by (cases "fold (arrive env) evs (fst s, w)")
          have ok: "activator_ok la' \<and> same_frame (fst s) la'" by (rule arrivals_ok [OF True a])
          show ?thesis
            using step wait ok IH waited_step [OF True, of "(la', w')" i y]
            by (auto simp: Pair Inr a waited_def split: if_splits)
        qed
      qed
    next
      case False
      then show ?thesis using step by (auto simp: waited_def split: if_splits)
    qed
  qed (simp add: waited_def)
qed

lemma multi_threaded_result:
  fixes env :: "('d, 'w) activator_env"
  assumes "multi_threaded_callback env i s = Some y"
  shows "waited i s y"
proof (rule multi_threaded_callback.raw_induct [where P = "\<lambda>env i s y. waited i s y", OF _ assms])
  fix f :: "('d, 'w) activator_env \<Rightarrow> nat \<Rightarrow> 'd activator \<times> 'w \<Rightarrow> ((failure + unit) \<times> 'd activator \<times> 'w) option"
    and env :: "('d, 'w) activator_env" and i and s :: "'d activator \<times> 'w" and y
  assume IH: "\<And>(env :: ('d, 'w) activator_env) i s y. f env i s = Some y \<Longrightarrow> waited i s y"
  assume step: "(if si_status (info (fst s) i) = Active then Some (Inr (), s)
      else case ae_block env (snd s) of
          (signalled, evs, w) \<Rightarrow>
            (case fold (arrive env) evs (fst s, w) of
               s' \<Rightarrow>
                 (if \<not> signalled then Some (Inl (lm_error ''timed out waiting for callback''), s')
                  else if si_status (info (fst s') i) = Terminated then
                    Some (Inl (lm_error ''Failed to startup LocalityManager''), s')
                  else f env i s'))) = Some y"
  show "waited i s y"
  proof (cases "activator_ok (fst s)")
    case True
    obtain signalled evs w where b: "ae_block env (snd s) = (signalled, evs, w)" by (metis prod_cases3)
    obtain la' w' where a: "fold (arrive env) evs (fst s, w) = (la', w')" by (cases "fold (arrive env) evs (fst s, w)")
    have ok: "activator_ok la' \<and> same_frame (fst s) la'" by (rule arrivals_ok [OF True a])
    show ?thesis
      using step ok IH waited_step [OF True, of "(la', w')" i y]
      by (auto simp: b a waited_def split: if_splits)
  qed (simp add: waited_def)
qed

section \<open>The invariant holds throughout\<close>

text \<open>What happens while a server is created leaves the others: their UUIDs, plans and modes.\<close>

definition frame_but :: "nat \<Rightarrow> 'd activator \<Rightarrow> 'd activator \<Rightarrow> bool" where
  "frame_but i la la' \<longleftrightarrow> la_set la' = la_set la \<and> length (la_infos la') = length (la_infos la)
     \<and> (\<forall>j < length (la_infos la). si_plan_UUID (info la' j) = si_plan_UUID (info la j)
         \<and> si_mode (info la' j) = si_mode (info la j) \<and> (j \<noteq> i \<longrightarrow> si_uuid (info la' j) = si_uuid (info la j)))"

lemma frame_but_same: "same_frame la la' \<Longrightarrow> frame_but i la la'"
  by (simp add: same_frame_def frame_but_def)

lemma frame_but_trans: "frame_but i la la' \<Longrightarrow> frame_but i la' la'' \<Longrightarrow> frame_but i la la''"
  by (simp add: frame_but_def)

text \<open>A result of an activation: a reference only when the server is active and has it.\<close>

definition activated ::
  "nat \<Rightarrow> 'd activator \<Rightarrow> (failure + nat option) \<times> 'd activator \<times> 'w \<Rightarrow> bool" where
  "activated i la y \<longleftrightarrow> (case y of (r, la', _) \<Rightarrow> activator_ok la' \<and> frame_but i la la'
     \<and> (\<forall>x. r = Inr x \<longrightarrow> x \<noteq> None \<and> si_ref (info la' i) = x \<and> si_status (info la' i) = Active))"

lemma activated_upd:
  assumes "activator_ok la" "i < length (la_infos la)" "activator_ok (upd_info i f la) \<Longrightarrow> activated i (upd_info i f la) y"
    and "\<And>x. si_uuid (f x) = si_uuid x" "\<And>x. si_plan_UUID (f x) = si_plan_UUID x" "\<And>x. si_mode (f x) = si_mode x"
    and "si_status (f (info la i)) = Active \<Longrightarrow> si_ref (f (info la i)) \<noteq> None"
  shows "activated i la y"
proof -
  have "activator_ok (upd_info i f la)" using assms by (intro activator_ok_upd) auto
  moreover have "frame_but i la (upd_info i f la)" using assms(4-6) by (simp add: frame_but_def)
  ultimately show ?thesis using assms(3) by (auto simp: activated_def intro: frame_but_trans)
qed

lemma activated_failure: "activator_ok la \<Longrightarrow> activated i la (Inl f, la, w)"
  by (simp add: activated_def frame_but_def)

lemma configure_server_ok:
  assumes "activator_ok la" "i < length (la_infos la)" "si_ref (info la i) = Some lm"
  shows "activated i la (configure_server env i lm (la, w))"
proof -
  have "activator_ok (upd_info i (si_status_update (\<lambda>_. Active)) la)"
    using assms by (intro activator_ok_upd) auto
  then show ?thesis
    using assms by (auto simp: configure_server_def activated_failure activated_def frame_but_def split: option.split prod.split)
qed

text \<open>A server that was just made.\<close>

definition new_at :: "nat \<Rightarrow> 'd activator \<Rightarrow> bool" where
  "new_at i la \<longleftrightarrow> activator_ok la \<and> i < length (la_infos la) \<and> i \<notin> set (tl (la_set la))
     \<and> si_status (info la i) = Inactive \<and> si_ref (info la i) = None"

lemma activate_remote_ok:
  assumes "new_at i la"
  shows "activated i la (activate_remote_locality env i (la, w))"
proof -
  let ?la = "\<lambda>r. upd_info i (si_ref_update (\<lambda>_. r)) la"
  have la: "activator_ok la" "i < length (la_infos la)" "si_status (info la i) = Inactive"
    using assms by (auto simp: new_at_def)
  have c: "activator_ok (?la (Some lm)) \<Longrightarrow> activated i (?la (Some lm)) (configure_server env i lm (?la (Some lm), w))" for lm
    using la by (intro configure_server_ok) auto
  have some: "activated i la (configure_server env i lm (?la (Some lm), w))" for lm
    by (rule activated_upd [OF la(1,2) c]) (use la in auto)
  have none: "activated i la (Inl f, ?la None, w)" for f
    by (rule activated_upd [OF la(1,2) activated_failure]) (use la in auto)
  have fail: "activated i la (Inl f, la, w)" for f using la by (simp add: activated_failure)
  show ?thesis
  proof (cases "remote_ior (si_cmap (info la i))")
    case ior: (Inr ior)
    show ?thesis
    proof (cases "ae_object env ior w")
      case (Inr r)
      show ?thesis
        unfolding activate_remote_locality_def fst_conv snd_conv ior Inr sum.case Let_def
        by (cases r) (simp_all only: option.case some none)
    qed (simp add: activate_remote_locality_def ior fail)
  qed (simp add: activate_remote_locality_def fail)
qed

lemma activate_local_ok:
  assumes "new_at i la"
  shows "activated i la (activate_local_locality env i (la, w))"
proof -
  let ?h = "\<lambda>h. upd_info i (si_handler_update (\<lambda>_. h)) la"
  let ?r = "\<lambda>h r. upd_info i (si_ref_update (\<lambda>_. r)) (?h h)"
  have la: "activator_ok la" "i < length (la_infos la)" "si_status (info la i) = Inactive"
    using assms by (auto simp: new_at_def)
  have ok: "activator_ok (?h h)" for h using la by (intro activator_ok_upd) auto
  have c: "activator_ok (?r h (Some lm)) \<Longrightarrow>
      activated i (?r h (Some lm)) (configure_server env i lm (?r h (Some lm), w'))" for h lm w'
    using la by (intro configure_server_ok) auto
  have c1: "activated i (?h h) (configure_server env i lm (?r h (Some lm), w'))" for h lm w'
    by (rule activated_upd [OF ok _ c]) (use la in auto)
  have some: "activated i la (configure_server env i lm (?r h (Some lm), w'))" for h lm w'
    by (rule activated_upd [OF la(1,2) c1]) (use la in auto)
  have c2: "activated i (?h h) (Inl f, ?r h None, w')" for h f w'
    by (rule activated_upd [OF ok _ activated_failure]) (use la in auto)
  have none: "activated i la (Inl f, ?r h None, w')" for h f w'
    by (rule activated_upd [OF la(1,2) c2]) (use la in auto)
  have fail: "activated i la (Inl f, ?h h, w')" for h f w'
    by (rule activated_upd [OF la(1,2) activated_failure]) (use la in auto)
  have fail0: "activated i la (Inl f, la, w')" for f w' using la by (simp add: activated_failure)
  note splits = prod.split [where P = "activated i la", THEN iffD2] option.split [where P = "activated i la", THEN iffD2]
    sum.split [where P = "activated i la", THEN iffD2] bool.split [where P = "activated i la", THEN iffD2]
  show ?thesis
    unfolding activate_local_locality_def Let_def prod.case
    by (intro splits conjI allI impI fail fail0) (simp_all only: some none)
qed

lemma command_line_ok:
  assumes "new_at i la" "construct_command_line env i (la, w) = (cmd_line, la', w')"
  shows "new_at i la' \<and> frame_but i la la' \<and> la_multithreaded la' = la_multithreaded la"
proof -
  obtain uuid where la': "la' = upd_info i (si_uuid_update (\<lambda>_. uuid)) la"
    using assms(2) by (auto simp: construct_command_line_def split: prod.splits)
  have "\<forall>j \<in> set (tl (la_set la)). j < length (la_infos la)"
    using assms(1) in_set_tl by (fastforce simp: activator_ok_def new_at_def)
  then have "activator_ok la'" using assms(1) by (auto simp: activator_ok_def new_at_def la')
  then show ?thesis using assms(1) by (simp add: new_at_def frame_but_def la')
qed

lemma spawn_ok:
  assumes "new_at i la" "spawn_locality_manager env i cmd_line (la, w) = (r, la', w')"
  shows "new_at i la' \<and> same_frame la la'"
proof -
  have "new_at i (la\<lparr>la_children := (pid, i) # la_children la\<rparr>)" for pid
    using assms(1) by (auto simp: new_at_def activator_ok_def)
  then show ?thesis
    using assms
    by (auto simp: spawn_locality_manager_def Let_def same_frame_def split: if_splits prod.splits option.splits)
qed

lemma activate_child_ok:
  assumes "new_at i la"
  shows "activated i la (activate_child_locality env i (la, w))
    \<and> (i \<notin> set (la_set la) \<longrightarrow> isl (fst (activate_child_locality env i (la, w))))"
proof -
  obtain cmd la1 w1 where c: "construct_command_line env i (la, w) = (cmd, la1, w1)" by (metis prod_cases3)
  have la1: "new_at i la1" "frame_but i la la1" using command_line_ok [OF assms c] by auto
  obtain r la2 w2 where p: "spawn_locality_manager env i cmd (la1, w1) = (r, la2, w2)" by (metis prod_cases3)
  have la2: "new_at i la2" "same_frame la1 la2" using spawn_ok [OF la1(1) p] by auto
  have f2: "frame_but i la la2" using la1(2) la2(2) by (blast intro: frame_but_trans frame_but_same)
  have ok2: "activator_ok la2" using la2(1) by (simp add: new_at_def)
  let ?wait = "if la_multithreaded la2 then multi_threaded_callback env i (la2, w2)
    else single_threaded_callback env i
      (ae_duration env (from_map as_uint32 30 LOCALITY_TIMEOUT (si_cmap (info la2 i)))) (la2, w2)"
  show ?thesis
  proof (cases r)
    case (Inl f)
    then show ?thesis
      using f2 ok2 by (simp add: activate_child_locality_def c p activated_def)
  next
    case (Inr pid)
    show ?thesis
    proof (cases ?wait)
      case None
      then show ?thesis
        using f2 ok2 by (auto simp: activate_child_locality_def c p Inr activated_def split: if_splits)
    next
      case (Some y)
      then have "waited i (la2, w2) y"
        by (auto split: if_splits dest: single_threaded_result multi_threaded_result)
      then obtain x la3 w3 where y: "y = (x, la3, w3)" and la3: "activator_ok la3" "same_frame la2 la3"
        and act: "\<forall>u. x = Inr u \<longrightarrow> si_status (info la3 i) = Active"
        using ok2 by (cases y) (auto simp: waited_def)
      have f3: "frame_but i la la3" using f2 la3(2) by (blast intro: frame_but_trans frame_but_same)
      have i: "i < length (la_infos la3)" "si_status (info la2 i) \<noteq> Active"
        using la2(1) la3(2) by (simp_all add: new_at_def same_frame_def)
      have set3: "la_set la2 = la_set la" using f2 by (simp add: frame_but_def)
      have out: "activate_child_locality env i (la, w) =
          (case x of Inl f \<Rightarrow> (Inl f, la3, w3) | Inr _ \<Rightarrow> (Inr (si_ref (info la3 i)), upd_info i (si_pid_update (\<lambda>_. Some pid)) la3, w3))"
        using Some by (auto simp: activate_child_locality_def c p Inr y split: if_splits sum.split)
      show ?thesis
      proof (cases x)
        case (Inl f)
        then show ?thesis using f3 la3 by (simp add: out activated_def)
      next
        case (Inr u)
        then have active: "si_status (info la3 i) = Active" using act by simp
        then have ref: "si_ref (info la3 i) \<noteq> None" using la3(1) i by (auto simp: activator_ok_def)
        have "activator_ok (upd_info i (si_pid_update (\<lambda>_. Some pid)) la3)"
          using la3(1) ref by (intro activator_ok_upd) auto
        moreover have "frame_but i la (upd_info i (si_pid_update (\<lambda>_. Some pid)) la3)"
          using f3 by (simp add: frame_but_def)
        moreover have "i \<in> set (la_set la)"
        proof (rule ccontr)
          assume "i \<notin> set (la_set la)"
          then show False using active la3(2) i set3 by (auto simp: same_frame_def)
        qed
        ultimately show ?thesis using active ref i by (simp add: out Inr activated_def)
      qed
    qed
  qed
qed

text \<open>A new server is put first, unless there is a server without a UUID.\<close>

definition unnamed :: "'d activator \<Rightarrow> bool" where
  "unnamed la \<longleftrightarrow> (\<exists>j \<in> set (la_set la). si_uuid (info la j) = [])"

abbreviation add_server :: "'d server_info \<Rightarrow> 'd activator \<Rightarrow> 'd activator" where
  "add_server server la \<equiv> insert_info (length (la_infos la)) (la\<lparr>la_infos := la_infos la @ [server]\<rparr>)"

lemma unnamed_append:
  "activator_ok la \<Longrightarrow> (\<exists>j \<in> set (la_set la). si_uuid ((la_infos la @ [server]) ! j) = []) = unnamed la"
  by (auto simp: unnamed_def activator_ok_def nth_append)

lemma add_server_frame:
  assumes "activator_ok la"
  shows "la_infos (add_server server la) = la_infos la @ [server]"
    and "la_set (add_server server la) = (if unnamed la then la_set la else length (la_infos la) # la_set la)"
    and "la_children (add_server server la) = la_children la"
    and "la_multithreaded (add_server server la) = la_multithreaded la"
  using unnamed_append [OF assms, of server] by (simp_all add: insert_info_def)

lemma new_server_new:
  "si_status (new_server u config la) = Inactive" "si_ref (new_server u config la) = None"
  "si_plan_UUID (new_server u config la) = u"
  by (simp_all add: new_server_def new_server_info_def Let_def)

lemma add_server_new:
  assumes "activator_ok la" "si_status server = Inactive" "si_ref server = None"
  shows "new_at (length (la_infos la)) (add_server server la)"
proof -
  let ?la = "add_server server la" and ?n = "length (la_infos la)"
  note frame = add_server_frame [OF assms(1)]
  have below: "\<forall>i \<in> set (la_set la) \<union> snd ` set (la_children la). i < ?n" using assms(1) by (simp add: activator_ok_def)
  have tl_sub: "set (tl (la_set ?la)) \<subseteq> set (la_set la)" by (auto simp: frame dest: in_set_tl)
  then have tl: "\<forall>i \<in> set (tl (la_set ?la)). i < ?n" using below by blast
  have "distinct (la_set ?la)" using assms(1) below by (auto simp: frame activator_ok_def)
  moreover have "\<forall>i \<in> set (la_set ?la) \<union> snd ` set (la_children ?la). i < length (la_infos ?la)"
    using below by (auto simp: frame less_Suc_eq)
  moreover have "\<forall>i \<in> set (tl (la_set ?la)). si_uuid (info ?la i) \<noteq> []"
    using assms(1) tl below by (auto simp: frame nth_append activator_ok_def unnamed_def split: if_splits)
  moreover have "\<forall>i < length (la_infos ?la). si_status (info ?la i) = Active \<longrightarrow> si_ref (info ?la i) \<noteq> None"
    using assms by (auto simp: frame nth_append activator_ok_def less_Suc_eq)
  ultimately have "activator_ok ?la" unfolding activator_ok_def by blast
  then show ?thesis using tl assms(2,3) by (auto simp: new_at_def frame)
qed

lemma set_tl_remove1: "set (tl (remove1 x xs)) \<subseteq> set (tl xs)"
  using set_remove1_subset [of x "tl xs"] by (cases xs) (auto dest: in_set_tl)

lemma erase_plan_ok:
  assumes "activator_ok la"
  shows "activator_ok (snd (erase_plan u la))"
proof -
  have "activator_ok (la\<lparr>la_set := remove1 i (la_set la)\<rparr>)" if "activator_ok la" for i
    using that set_tl_remove1 [of i "la_set la"] set_remove1_subset [of i "la_set la"]
    by (auto simp: activator_ok_def)
  then show ?thesis using assms by (simp add: erase_plan_def split: option.split)
qed

text \<open>Creating, as the activation that it is.\<close>

abbreviation activation ::
  "('d, 'w) activator_env \<Rightarrow> 32 word \<Rightarrow> nat \<Rightarrow> 'd activator \<times> 'w \<Rightarrow> (failure + nat option) \<times> 'd activator \<times> 'w" where
  "activation env mode i s \<equiv>
     (if mode = AM_SPAWN then activate_child_locality env i s
      else if mode = AM_LOCAL then activate_local_locality env i s
      else if mode = AM_REMOTE then activate_remote_locality env i s
      else (Inr None, s))"

lemma create_eq:
  "create_locality_manager env u config (la, w) =
    (case activation env (si_mode (new_server u config la)) (length (la_infos la))
        (add_server (new_server u config la) la, w) of
       (Inl (Raised e), la', w') \<Rightarrow> (Inl (Raised e), snd (erase_plan u la'), w') | (r, s') \<Rightarrow> (r, s'))"
  by (simp only: create_locality_manager_def Let_def prod.case)

lemma activation_ok:
  assumes "new_at i la"
  shows "activated i la (activation env mode i (la, w)) \<or> activation env mode i (la, w) = (Inr None, la, w)"
  by (auto intro: activate_child_ok [OF assms, THEN conjunct1] activate_local_ok [OF assms] activate_remote_ok [OF assms])

lemma create_result:
  assumes "activator_ok la" "create_locality_manager env u config (la, w) = (r, la', w')"
  shows "activator_ok la' \<and> (\<not> isl r \<longrightarrow> frame_but (length (la_infos la)) (add_server (new_server u config la) la) la')
    \<and> (\<forall>lm. r = Inr (Some lm) \<longrightarrow> si_ref (info la' (length (la_infos la))) = Some lm
        \<and> si_status (info la' (length (la_infos la))) = Active)"
proof -
  let ?la = "add_server (new_server u config la) la"
  let ?y = "activation env (si_mode (new_server u config la)) (length (la_infos la)) (?la, w)"
  have new: "new_at (length (la_infos la)) ?la" by (rule add_server_new [OF assms(1) new_server_new(1,2)])
  obtain x la1 w1 where y: "?y = (x, la1, w1)" by (metis prod_cases3)
  have "activated (length (la_infos la)) ?la (x, la1, w1) \<or> (x, la1, w1) = (Inr None, ?la, w)"
    unfolding y [symmetric] by (rule activation_ok [OF new])
  then have "activator_ok la1 \<and> frame_but (length (la_infos la)) ?la la1
    \<and> (\<forall>lm. x = Inr (Some lm) \<longrightarrow> si_ref (info la1 (length (la_infos la))) = Some lm
        \<and> si_status (info la1 (length (la_infos la))) = Active)"
    using new by (auto simp: activated_def new_at_def frame_but_def)
  then show ?thesis
    using assms(2) unfolding create_eq y
    by (auto simp: erase_plan_ok split: sum.splits failure.splits)
qed

lemma remove_ok:
  assumes "activator_ok la"
  shows "activator_ok (fst (snd (remove_locality_manager env u (la, w))))"
proof -
  obtain x la' where e: "erase_plan u la = (x, la')" by (cases "erase_plan u la")
  then have ok: "activator_ok la'" using erase_plan_ok [OF assms, of u] by simp
  have "activator_ok (upd_info i (si_status_update (\<lambda>_. Terminated)) la')"
    "activator_ok (upd_info i (si_status_update (\<lambda>_. Terminate_Requested)) la')" for i
    using ok by (auto intro!: activator_ok_upd)
  then show ?thesis
    using ok by (auto simp: remove_locality_manager_def e Let_def split: option.split prod.split)
qed

lemma erase_plan_none:
  "\<forall>k \<in> set (la_set la). si_plan_UUID (info la k) \<noteq> u \<Longrightarrow> erase_plan u la = (None, la)"
  using find_None_iff [of "\<lambda>i. si_plan_UUID (info la i) = u" "la_set la"] by (simp add: erase_plan_def)

section \<open>An environment\<close>

declare single_threaded_callback.simps [code] multi_threaded_callback.simps [code]

text \<open>Processes get the UUID u1; they call back at the second round of work and are configured at the third.\<close>

definition demo_arrivals :: "nat \<Rightarrow> int arrival list" where
  "demo_arrivals n = (if n = 2 then [Called_Back ''u1'' (Some 5) []] else if n = 3 then [Configured ''u1''] else [])"

definition demo_activator_env :: "(int, nat) activator_env" where
  "demo_activator_env = \<lparr>ae_object = (\<lambda>_ _. Inr (Some 3)), ae_nil = SysEx ''n'', ae_configure = (\<lambda>_ _ w. (None, w)),
     ae_shutdown = (\<lambda>_ w. (None, w + 100)), ae_directive = (\<lambda>_ w. (True, w)), ae_loader = (\<lambda>_ _. Inr (Some 0)),
     ae_create = (\<lambda>_ w. (Some 0, w)), ae_handler_configure = (\<lambda>_ _ _ w. (None, w)),
     ae_activate_manager = (\<lambda>_ _ w. (Inr (Some 4), w)), ae_handler_shutdown = (\<lambda>_ w. (None, w)),
     ae_ior = ''IOR:1'', ae_generate = (\<lambda>w. (''u1'', w)), ae_getenv = (\<lambda>_. None), ae_is_file = (\<lambda>_. False),
     ae_command_ok = (\<lambda>_. True), ae_spawn = (\<lambda>_ _ w. (Some 9, w)),
     ae_perform_work = (\<lambda>w. (Inr (demo_arrivals (w + 1)), w + 1)), ae_block = (\<lambda>w. (False, [], w)),
     ae_answer = (\<lambda>_ w. w), ae_countdown = (\<lambda>_ _ t. t - 1), ae_duration = unat\<rparr>"

abbreviation demo_create :: "string \<Rightarrow> 32 word \<Rightarrow> int activator \<times> nat \<Rightarrow> (failure + nat option) \<times> int activator \<times> nat" where
  "demo_create u mode \<equiv> create_locality_manager demo_activator_env u
     [mk_prop LOCALITY_ACTIVATION_MODE (PrimAny (VUInt32 mode)), mk_prop LOCALITY_PORT (PrimAny (VUInt16 77))]"

lemma new_activator_ok: "activator_ok (new_activator props mt)"
  by (simp add: activator_ok_def new_activator_def)

section \<open>Properties\<close>

text \<open>
  C24. Whatever arrives and whatever is created or removed, the records of the activator stay in order:
  every pointer is valid, the set has each server once and at most one without a UUID, and a server is
  active only after it handed in its reference.
\<close>

theorem activator_invariant:
  assumes "activator_ok la"
  shows "activator_ok (fst (snd (create_locality_manager env u config (la, w))))
    \<and> activator_ok (fst (snd (remove_locality_manager env u (la, w))))
    \<and> activator_ok (fst (arrive env ev (la, w)))"
proof (intro conjI)
  show "activator_ok (fst (snd (create_locality_manager env u config (la, w))))"
    by (metis create_result [OF assms] prod.collapse)
  show "activator_ok (fst (snd (remove_locality_manager env u (la, w))))" by (rule remove_ok [OF assms])
  show "activator_ok (fst (arrive env ev (la, w)))" by (metis arrive_ok [OF assms] prod.collapse)
qed

theorem activator_invariant_witness:
  "activator_ok (fst (snd (demo_create ''p'' AM_SPAWN (new_activator [] False, 0))))
    \<and> activator_ok (fst (arrive demo_activator_env (Configured ''u1'') (new_activator [] False, 0)))"
  using activator_invariant [OF new_activator_ok, of demo_activator_env "''p''" _ "[]" False 0 "Configured ''u1''"] by blast

text \<open>
  C31. A reference that create_locality_manager returns is that of an active server: a process is reported
  as started only after it handed in this reference and said that it is configured.
\<close>

theorem created_locality_active:
  assumes "activator_ok la" "create_locality_manager env u config (la, w) = (Inr (Some lm), la', w')"
  shows "si_ref (info la' (length (la_infos la))) = Some lm \<and> si_status (info la' (length (la_infos la))) = Active"
  using create_result [OF assms] by simp

text \<open>A process is started and calls back.\<close>

theorem created_locality_active_witness:
  "case demo_create ''p'' AM_SPAWN (new_activator [] False, 0) of (r, la, w) \<Rightarrow>
     r = Inr (Some 5) \<and> si_ref (info la 0) = Some 5 \<and> si_status (info la 0) = Active"
proof -
  obtain r la w where c: "demo_create ''p'' AM_SPAWN (new_activator [] False, 0) = (r, la, w)" by (metis prod_cases3)
  have "fst (demo_create ''p'' AM_SPAWN (new_activator [] False, 0)) = Inr (Some 5)" by code_simp
  then have r: "r = Inr (Some 5)" by (simp add: c)
  show ?thesis
    using created_locality_active [OF new_activator_ok c [unfolded r]] by (simp add: c r) (simp add: new_activator_def)
qed

text \<open>
  While a server without a UUID is registered, which every remote and every in-process one is, no
  process can be started as a locality: it calls back with a UUID that the activator does not know. And a
  further server that does start is not registered, so that it cannot be removed and keeps running.
\<close>

theorem unnamed_server_blocks:
  assumes "activator_ok la" "unnamed la" "\<forall>k \<in> set (la_set la). si_plan_UUID (info la k) \<noteq> u"
    and "create_locality_manager env u config (la, w) = (r, s')"
  shows "(si_mode (new_server u config la) = AM_SPAWN \<longrightarrow> isl r)
    \<and> (\<not> isl r \<longrightarrow> remove_locality_manager env u s' =
        (Some (UserEx StopError ''locality manager'' ''unable to stop locality manager''), s'))"
proof (intro conjI impI)
  let ?n = "length (la_infos la)" and ?la = "add_server (new_server u config la) la"
  have set: "la_set ?la = la_set la" using add_server_frame [OF assms(1)] assms(2) by simp
  have below: "\<forall>k \<in> set (la_set la). k < ?n" using assms(1) by (auto simp: activator_ok_def)
  obtain la' w' where s': "s' = (la', w')" by (cases s')
  {
    assume spawn: "si_mode (new_server u config la) = AM_SPAWN"
    have new: "new_at ?n ?la" by (rule add_server_new [OF assms(1) new_server_new(1,2)])
    have "?n \<notin> set (la_set ?la)" unfolding set using below by blast
    then have "isl (fst (activate_child_locality env ?n (?la, w)))"
      by (rule activate_child_ok [OF new, THEN conjunct2, THEN mp])
    then obtain f la1 w1 where "activate_child_locality env ?n (?la, w) = (Inl f, la1, w1)"
      by (cases "activate_child_locality env ?n (?la, w)") (auto simp: isl_def)
    then show "isl r" using assms(4) spawn unfolding create_eq by (cases f) auto
  next
    assume "\<not> isl r"
    then have f: "frame_but ?n ?la la'"
      using create_result [OF assms(1), of env u config w r la' w'] assms(4) unfolding s' by blast
    then have set': "la_set la' = la_set la" using set by (simp only: frame_but_def)
    have infos: "la_infos ?la = la_infos la @ [new_server u config la]" using add_server_frame [OF assms(1)] by simp
    have "\<forall>k \<in> set (la_set la'). si_plan_UUID (info la' k) \<noteq> u"
    proof
      fix k assume "k \<in> set (la_set la')"
      then have k: "k \<in> set (la_set la)" "k < ?n" using below set' by auto
      then have "si_plan_UUID (info la' k) = si_plan_UUID (info ?la k)" using f by (simp add: frame_but_def infos)
      also have "info ?la k = info la k" using k(2) by (simp add: infos nth_append)
      finally show "si_plan_UUID (info la' k) \<noteq> u" using assms(3) k(1) by simp
    qed
    then show "remove_locality_manager env u s' =
        (Some (UserEx StopError ''locality manager'' ''unable to stop locality manager''), s')"
      by (simp add: s' remove_locality_manager_def erase_plan_none)
  }
qed

text \<open>After one remote locality a second one is created and cannot be removed; a process cannot be started.\<close>

theorem unnamed_server_blocks_witness:
  "case demo_create ''p'' AM_REMOTE (new_activator [] False, 0) of (r, s) \<Rightarrow>
     r = Inr (Some 3)
     \<and> fst (demo_create ''q'' AM_REMOTE s) = Inr (Some 3)
     \<and> fst (remove_locality_manager demo_activator_env ''q'' (snd (demo_create ''q'' AM_REMOTE s))) =
         Some (UserEx StopError ''locality manager'' ''unable to stop locality manager'')
     \<and> isl (fst (demo_create ''q'' AM_SPAWN s))"
proof -
  obtain r la w where c: "demo_create ''p'' AM_REMOTE (new_activator [] False, 0) = (r, la, w)" by (metis prod_cases3)
  have "case demo_create ''p'' AM_REMOTE (new_activator [] False, 0) of (r, s) \<Rightarrow>
      r = Inr (Some 3) \<and> fst (demo_create ''q'' AM_REMOTE s) = Inr (Some 3) \<and> la_set (fst s) = [0]
      \<and> map (\<lambda>i. (si_uuid i, si_plan_UUID i)) (la_infos (fst s)) = [([], ''p'')] \<and> la_properties (fst s) = []"
    by code_simp
  then have h: "r = Inr (Some 3)" "fst (demo_create ''q'' AM_REMOTE (la, w)) = Inr (Some 3)" "la_set la = [0]"
    "map (\<lambda>i. (si_uuid i, si_plan_UUID i)) (la_infos la) = [([], ''p'')]" "la_properties la = []"
    by (simp_all add: c)
  then have un: "unnamed la" "\<forall>k \<in> set (la_set la). si_plan_UUID (info la k) \<noteq> ''q''"
    by (auto simp: unnamed_def map_eq_Cons_conv)
  have ok: "activator_ok la" using create_result [OF new_activator_ok c] by simp
  have mode: "si_mode (new_server ''q'' [mk_prop LOCALITY_ACTIVATION_MODE (PrimAny (VUInt32 AM_SPAWN)),
      mk_prop LOCALITY_PORT (PrimAny (VUInt16 77))] la) = AM_SPAWN"
    using h(5) by (simp add: new_server_def new_server_info_def Let_def build_property_map_def from_map_def
        get_property_value_map_def map_get_def)
  obtain r1 s1 where c1: "demo_create ''q'' AM_REMOTE (la, w) = (r1, s1)" by (metis surj_pair)
  obtain r2 s2 where c2: "demo_create ''q'' AM_SPAWN (la, w) = (r2, s2)" by (metis surj_pair)
  show ?thesis
    using unnamed_server_blocks [OF ok un c1] unnamed_server_blocks [OF ok un c2] mode h(1,2) by (simp add: c c1 c2)
qed

lemma single_threaded_ends:
  assumes "\<And>w w' t. ae_countdown env w w' t \<le> t - 1"
  shows "single_threaded_callback env i timeout s \<noteq> None"
proof (induction timeout arbitrary: s rule: less_induct)
  case (less timeout)
  show ?case
  proof (subst single_threaded_callback.simps, cases "ae_perform_work env (snd s)")
    case (Pair res w)
    have IH: "single_threaded_callback env i (ae_countdown env (snd s) w' timeout) s' \<noteq> None"
      if "ae_countdown env (snd s) w' timeout \<noteq> 0" for w' s'
      by (rule less.IH) (use assms [of "snd s" w' timeout] that in \<open>cases timeout; simp\<close>)
    then show "(case (if si_status (info (fst s) i) \<noteq> Active \<and> si_status (info (fst s) i) \<noteq> Terminated then
              (case ae_perform_work env (snd s) of
                 (Inl e, w) \<Rightarrow> (Some e, timeout, fst s, w)
               | (Inr evs, w) \<Rightarrow>
                   (case fold (arrive env) evs (fst s, w) of
                      (la, w') \<Rightarrow> (None, ae_countdown env (snd s) w' timeout, la, w')))
            else (None, timeout, s)) of
        (Some e, _, s') \<Rightarrow> Some (Inl (Raised e), s')
      | (None, timeout', s') \<Rightarrow>
          (if si_status (info (fst s') i) = Terminated then
             Some (Inl (lm_error ''Failed to startup LocalityManager''), s')
           else if si_status (info (fst s') i) = Active then Some (Inr (), s')
           else if timeout' = 0 then Some (Inl (lm_error ''Timed out waiting for LocalityManager''), s')
           else single_threaded_callback env i timeout' s')) \<noteq> None"
      using IH by (auto simp: Pair split: sum.split prod.split)
  qed
qed

lemma single_threaded_failure:
  fixes env :: "('d, 'w) activator_env"
  assumes "single_threaded_callback env i timeout s = Some y"
  shows "fst y \<noteq> Inl Hangs"
proof (rule single_threaded_callback.raw_induct [where P = "\<lambda>env i timeout s y. fst y \<noteq> Inl Hangs", OF _ assms])
qed (auto simp: lm_error_def split: prod.splits option.splits if_splits sum.splits)

lemma configure_server_ends: "fst (configure_server env i lm s) \<noteq> Inl Hangs"
  by (auto simp: configure_server_def split: prod.split option.split)

lemma remote_ior_ends: "remote_ior m \<noteq> Inl Hangs"
  by (simp add: remote_ior_def locality_error_def Let_def split: option.split)

lemma remote_ends: "fst (activate_remote_locality env i s) \<noteq> Inl Hangs"
  by (cases "remote_ior (si_cmap (info (fst s) i))")
    (use remote_ior_ends in \<open>auto simp: activate_remote_locality_def locality_error_def Let_def configure_server_ends
      split: option.split sum.split\<close>)

lemma local_ends: "fst (activate_local_locality env i s) \<noteq> Inl Hangs"
proof -
  let ?P = "\<lambda>y. fst y \<noteq> Inl Hangs"
  note splits = prod.split [where P = ?P, THEN iffD2] option.split [where P = ?P, THEN iffD2]
    sum.split [where P = ?P, THEN iffD2] bool.split [where P = ?P, THEN iffD2]
  show ?thesis
    unfolding activate_local_locality_def Let_def
    by (intro splits conjI allI impI configure_server_ends) (simp_all add: locality_error_def)
qed

lemma child_ends:
  assumes "\<And>w w' t. ae_countdown env w w' t \<le> t - 1" "\<not> la_multithreaded (fst s)"
  shows "fst (activate_child_locality env i s) \<noteq> Inl Hangs"
proof -
  obtain cmd s1 where c: "construct_command_line env i s = (cmd, s1)" by (metis surj_pair)
  then have m1: "\<not> la_multithreaded (fst s1)"
    using assms(2) by (auto simp: construct_command_line_def split: prod.splits)
  obtain r s2 where p: "spawn_locality_manager env i cmd s1 = (r, s2)" by (metis surj_pair)
  then have m2: "\<not> la_multithreaded (fst s2)" and "r \<noteq> Inl Hangs"
    using m1 by (auto simp: spawn_locality_manager_def lm_error_def Let_def split: if_splits prod.splits option.splits)
  obtain y where y: "single_threaded_callback env i
      (ae_duration env (from_map as_uint32 30 LOCALITY_TIMEOUT (si_cmap (info (fst s2) i)))) s2 = Some y"
    using single_threaded_ends [OF assms(1)] by blast
  have "fst y \<noteq> Inl Hangs" by (rule single_threaded_failure [OF y])
  then show ?thesis
    using \<open>r \<noteq> _\<close> m2 y by (auto simp: activate_child_locality_def c p split: sum.split prod.split)
qed

text \<open>
  C37. Starting a process ends: when the clock moves while the activator waits, create_locality_manager
  returns or raises an exception, whatever arrives and whether or not the process ever calls back.
\<close>

theorem child_start_returns:
  assumes "\<And>w w' t. ae_countdown env w w' t \<le> t - 1" "\<not> la_multithreaded la"
  shows "fst (create_locality_manager env u config (la, w)) \<noteq> Inl Hangs"
proof -
  let ?la = "add_server (new_server u config la) la"
  have "fst (activation env (si_mode (new_server u config la)) (length (la_infos la)) (?la, w)) \<noteq> Inl Hangs"
    using child_ends [OF assms(1), of "(?la, w)" "length (la_infos la)"] assms(2)
    by (simp add: insert_info_def local_ends remote_ends)
  then show ?thesis unfolding create_eq by (auto split: sum.splits failure.splits prod.splits)
qed

theorem child_start_returns_witness:
  "fst (create_locality_manager (demo_activator_env\<lparr>ae_perform_work := \<lambda>w. (Inr [], w)\<rparr>) ''p'' [] (new_activator [] False, 0))
    \<noteq> Inl Hangs"
  by (rule child_start_returns) (simp_all add: demo_activator_env_def new_activator_def)

end
