(* ===== verification/Deployment_Handlers.thy ===== *)
theory Deployment_Handlers
  imports Plan_Files Launchers Locality_Activator
begin

text \<open>
  The handlers that a deployment manager loads: LocalityDeploymentHandler, NodeDeploymentHandler and
  DomainDeploymentHandler (dancex11/*_deployment_handler) with their loaders. A handler reads a
  configuration, installs the plugins it lists, and activates a manager or a launcher in the POA of
  managers. The POA keeps what is active by name; activating a name twice, deactivating one that is not
  active and any call after the ORB is shut down raise as the POA documents it.
\<close>

section \<open>Objects\<close>

datatype ('p, 'd) servant =
    Locality_Manager_Servant string "('p, 'd) manager option"
  | Node_Manager_Servant string "('p, 'd) manager option"
  | Execution_Manager_Servant string "'d execution_manager"
  | Locality_Launcher_Servant string "('p, 'd) manager option" "'d launcher"
  | Node_Launcher_Servant string "('p, 'd) manager option" "'d launcher"
  | Domain_Launcher_Servant string "string list" string string "'d launcher"

record ('p, 'd) poa =
  pa_root :: bool
  pa_managers :: bool
  pa_down :: bool
  pa_active :: "(string \<times> ('p, 'd) servant) list"

abbreviation "ALREADY_ACTIVE \<equiv> OtherUser ''IDL:omg.org/PortableServer/POA/ObjectAlreadyActive:1.0''"
abbreviation "NOT_ACTIVE \<equiv> OtherUser ''IDL:omg.org/PortableServer/POA/ObjectNotActive:1.0''"

definition activate_object :: "string \<Rightarrow> ('p, 'd) servant \<Rightarrow> ('p, 'd) poa \<Rightarrow> (exn + unit) \<times> ('p, 'd) poa" where
  "activate_object name s pa =
     (if pa_down pa then (Inl BAD_INV_ORDER, pa)
      else if map_of (pa_active pa) name \<noteq> None then (Inl ALREADY_ACTIVE, pa)
      else (Inr (), pa\<lparr>pa_active := (name, s) # pa_active pa\<rparr>))"

definition deactivate_object :: "string \<Rightarrow> ('p, 'd) poa \<Rightarrow> (exn + unit) \<times> ('p, 'd) poa" where
  "deactivate_object name pa =
     (if pa_down pa then (Inl BAD_INV_ORDER, pa)
      else if map_of (pa_active pa) name = None then (Inl NOT_ACTIVE, pa)
      else (Inr (), pa\<lparr>pa_active := filter (\<lambda>e. fst e \<noteq> name) (pa_active pa)\<rparr>))"

text \<open>What all handlers have, and what each has besides.\<close>

record ('p, 'd) deployment_handler =
  dh_servant_id :: string
  dh_launch_plan :: "'d plan"
  dh_plugins :: "('p, 'd) manager option"
  dh_poas :: bool
  dh_shutdown :: bool

record ('p, 'd) locality_handler = "('p, 'd) deployment_handler" +
  lh_uuid :: string
  lh_activator :: string

record ('p, 'd) node_handler = "('p, 'd) deployment_handler" +
  nh_domain_nc :: string

record ('p, 'd) domain_handler = "('p, 'd) deployment_handler" +
  xh_domain_nc :: string
  xh_nodes :: "string list"
  xh_cdd :: string
  xh_cddfmt :: string

record ('p, 'd) handler_env =
  hv_plugins :: "('p, 'd) plugin_env"
  hv_config :: "'d env"
  hv_files :: files
  hv_root :: "string option"
  hv_loaders :: "'d loaders"
  hv_new_uuid :: string

section \<open>The loaders of the handlers\<close>

text \<open>
  Options as ACE_Get_Opt yields them: a character, or the name of a long option that has none. None is the
  end of the process that the help option is.
\<close>

datatype handler_option = Short char string | Long string string

fun locality_loader_init :: "handler_option list \<Rightarrow> string \<times> string \<Rightarrow> (string \<times> string) option" where
  "locality_loader_init [] s = Some s"
| "locality_loader_init (Short c arg # opts) (uuid, ior) =
     (if c = CHR ''u'' then locality_loader_init opts (arg, ior)
      else if c = CHR ''r'' then locality_loader_init opts (uuid, arg)
      else if c = CHR ''h'' then None
      else locality_loader_init opts (uuid, ior))"
| "locality_loader_init (Long name arg # opts) (uuid, ior) =
     (if name = ''uuid'' then locality_loader_init opts (arg, ior)
      else if name = ''activator'' then locality_loader_init opts (uuid, arg)
      else locality_loader_init opts (uuid, ior))"

fun domain_loader_init ::
  "handler_option list \<Rightarrow> string list \<times> string \<times> string \<Rightarrow> (string list \<times> string \<times> string) option" where
  "domain_loader_init [] s = Some s"
| "domain_loader_init (Short c arg # opts) s = (if c = CHR ''h'' then None else domain_loader_init opts s)"
| "domain_loader_init (Long name arg # opts) (nodes, cdd, fmt) =
     domain_loader_init opts
       (if name = ''node'' then (nodes @ [arg], cdd, fmt)
        else if name = ''nodemap'' then (nodes, arg, fmt)
        else if name = ''mapfmt'' then (nodes, cdd, arg)
        else (nodes, cdd, fmt))"

definition new_locality_handler :: "string \<times> string \<Rightarrow> ('p, 'd) locality_handler" where
  "new_locality_handler args = \<lparr>dh_servant_id = [], dh_launch_plan = new_plan, dh_plugins = None, dh_poas = False,
     dh_shutdown = False, lh_uuid = fst args, lh_activator = snd args\<rparr>"

definition new_node_handler :: "('p, 'd) node_handler" where
  "new_node_handler = \<lparr>dh_servant_id = [], dh_launch_plan = new_plan, dh_plugins = None, dh_poas = False,
     dh_shutdown = False, nh_domain_nc = []\<rparr>"

definition new_domain_handler :: "string list \<times> string \<times> string \<Rightarrow> ('p, 'd) domain_handler" where
  "new_domain_handler args = \<lparr>dh_servant_id = [], dh_launch_plan = new_plan, dh_plugins = None, dh_poas = False,
     dh_shutdown = False, xh_domain_nc = [], xh_nodes = fst args, xh_cdd = fst (snd args), xh_cddfmt = snd (snd args)\<rparr>"

section \<open>Configuring\<close>

text \<open>The POA of managers is created, or found if it is there already.\<close>

definition create_poas :: "string \<Rightarrow> ('p, 'd) poa \<Rightarrow> (exn + unit) \<times> ('p, 'd) poa" where
  "create_poas handler pa =
     (if \<not> pa_root pa then
        (Inl (UserEx StartError handler ''Deployment state uninitialized. Missing ORB/RootPOA''), pa)
      else (Inr (), pa\<lparr>pa_managers := True\<rparr>))"

text \<open>
  The common part; the argument is what a handler does between reading the configuration and installing
  the plugins. A plan that was read in part stays when reading fails.
\<close>

definition configure_handler ::
  "('p, 'd) handler_env \<Rightarrow> string \<Rightarrow> string \<Rightarrow>
    (('p, 'd, 'z) deployment_handler_scheme \<Rightarrow> ('p, 'd, 'z) deployment_handler_scheme) \<Rightarrow>
    string \<Rightarrow> 'd properties \<Rightarrow> bool \<Rightarrow> ('p, 'd, 'z) deployment_handler_scheme \<Rightarrow> ('p, 'd) poa \<Rightarrow>
    exn option \<times> ('p, 'd, 'z) deployment_handler_scheme \<times> ('p, 'd) poa" where
  "configure_handler hv handler config_file between config prop sh h pa =
     (let env = hv_config hv;
          cfg_file = find_config env (hv_files hv) (hv_root hv) config_file config in
      case load_deployment_config env cfg_file (hv_files hv cfg_file) new_plan (dh_launch_plan h) of
        (False, _, plan) \<Rightarrow>
          (Some (UserEx StartError handler
             (handler @ ''::configure - Failed to load configuration from ['' @ cfg_file @ '']'')),
           h\<lparr>dh_launch_plan := plan\<rparr>, pa)
      | (True, plugin_plan, plan) \<Rightarrow>
          let h1 = between (h\<lparr>dh_launch_plan := plan\<rparr>) in
          (case load_from_plan (hv_plugins hv) (default_shlib_mode env) plugin_plan
               (set_configuration prop new_manager) of
             (Some e, _) \<Rightarrow> (Some e, h1, pa)
           | (None, pm) \<Rightarrow>
               let h2 = h1\<lparr>dh_plugins := Some pm\<rparr> in
               (case create_poas handler pa of
                  (Inl e, pa') \<Rightarrow> (Some e, h2, pa')
                | (Inr _, pa') \<Rightarrow> (None, h2\<lparr>dh_poas := True, dh_shutdown := sh\<rparr>, pa'))))"

definition locality_configure ::
  "('p, 'd) handler_env \<Rightarrow> string \<Rightarrow> 'd properties \<Rightarrow> bool \<Rightarrow> ('p, 'd) locality_handler \<Rightarrow> ('p, 'd) poa \<Rightarrow>
    exn option \<times> ('p, 'd) locality_handler \<times> ('p, 'd) poa" where
  "locality_configure hv config prop sh h pa =
     configure_handler hv ''LocalityDeploymentHandler'' ''localitymanager.config''
       (\<lambda>h. if lh_uuid h = [] then h\<lparr>lh_uuid := hv_new_uuid hv\<rparr> else h) config prop sh h pa"

definition node_configure ::
  "('p, 'd) handler_env \<Rightarrow> string \<Rightarrow> 'd properties \<Rightarrow> bool \<Rightarrow> ('p, 'd) node_handler \<Rightarrow> ('p, 'd) poa \<Rightarrow>
    exn option \<times> ('p, 'd) node_handler \<times> ('p, 'd) poa" where
  "node_configure hv config prop sh h pa =
     configure_handler hv ''NodeDeploymentHandler'' ''nodemanager.config'' id config prop sh
       (case get_property_value as_string DOMAIN_NC prop of None \<Rightarrow> h | Some nc \<Rightarrow> h\<lparr>nh_domain_nc := nc\<rparr>) pa"

definition domain_configure ::
  "('p, 'd) handler_env \<Rightarrow> string \<Rightarrow> 'd properties \<Rightarrow> bool \<Rightarrow> ('p, 'd) domain_handler \<Rightarrow> ('p, 'd) poa \<Rightarrow>
    exn option \<times> ('p, 'd) domain_handler \<times> ('p, 'd) poa" where
  "domain_configure hv config prop sh h pa =
     configure_handler hv ''DomainDeploymentHandler'' ''domainmanager.config'' id config prop sh
       (case get_property_value as_string DOMAIN_NC prop of None \<Rightarrow> h | Some nc \<Rightarrow> h\<lparr>xh_domain_nc := nc\<rparr>) pa"

section \<open>Activating a manager or a launcher\<close>

text \<open>The name is kept once the object is active, and is the reference that is returned.\<close>

definition activate_servant ::
  "string \<Rightarrow> ('p, 'd) servant \<Rightarrow> ('p, 'd, 'z) deployment_handler_scheme \<Rightarrow> ('p, 'd) poa \<Rightarrow>
    (exn + string) \<times> ('p, 'd, 'z) deployment_handler_scheme \<times> ('p, 'd) poa" where
  "activate_servant name s h pa =
     (case activate_object name s pa of
        (Inl e, pa') \<Rightarrow> (Inl e, h, pa')
      | (Inr _, pa') \<Rightarrow> (Inr name, h\<lparr>dh_servant_id := name\<rparr>, pa'))"

text \<open>A plan that was moved from is empty.\<close>

definition new_launcher :: "'d plan \<Rightarrow> 'd launcher" where
  "new_launcher plan = \<lparr>lr_plan = plan, lr_manager = False, lr_am = None, lr_app = None\<rparr>"

definition node_activate_manager ::
  "string \<Rightarrow> ('p, 'd) node_handler \<Rightarrow> ('p, 'd) poa \<Rightarrow> (exn + string) \<times> ('p, 'd) node_handler \<times> ('p, 'd) poa" where
  "node_activate_manager name h pa = activate_servant name (Node_Manager_Servant (nh_domain_nc h) (dh_plugins h)) h pa"

definition node_activate_launcher ::
  "string \<Rightarrow> ('p, 'd) node_handler \<Rightarrow> ('p, 'd) poa \<Rightarrow> (exn + string) \<times> ('p, 'd) node_handler \<times> ('p, 'd) poa" where
  "node_activate_launcher name h pa =
     activate_servant name (Node_Launcher_Servant (nh_domain_nc h) (dh_plugins h) (new_launcher (dh_launch_plan h)))
       (h\<lparr>dh_launch_plan := new_plan\<rparr>) pa"

definition domain_of_file :: "'d loaders \<Rightarrow> string \<Rightarrow> string \<Rightarrow> 'd domain option" where
  "domain_of_file loaders cdd fmt =
     (case read_domain loaders cdd \<lparr>dm_UUID = [], dm_label = [], dm_node = [], dm_infoProperty = []\<rparr> fmt of
        (True, dmn) \<Rightarrow> Some dmn
      | (False, _) \<Rightarrow> None)"

definition domain_activate_manager ::
  "('p, 'd) handler_env \<Rightarrow> 'd execution_manager \<Rightarrow> string \<Rightarrow> ('p, 'd) domain_handler \<Rightarrow> ('p, 'd) poa \<Rightarrow>
    (exn + string) \<times> ('p, 'd) domain_handler \<times> ('p, 'd) poa" where
  "domain_activate_manager hv em name h pa =
     (case set_up_domain (domain_of_file (hv_loaders hv)) (xh_cdd h) (xh_cddfmt h) (xh_nodes h) em of
        (Inl e, _) \<Rightarrow> (Inl e, h, pa)
      | (Inr _, em') \<Rightarrow> activate_servant name (Execution_Manager_Servant (xh_domain_nc h) em') h pa)"

definition domain_activate_launcher ::
  "string \<Rightarrow> ('p, 'd) domain_handler \<Rightarrow> ('p, 'd) poa \<Rightarrow> (exn + string) \<times> ('p, 'd) domain_handler \<times> ('p, 'd) poa" where
  "domain_activate_launcher name h pa =
     activate_servant name
       (Domain_Launcher_Servant (xh_domain_nc h) (xh_nodes h) (xh_cdd h) (xh_cddfmt h) (new_launcher (dh_launch_plan h)))
       (h\<lparr>dh_launch_plan := new_plan, xh_nodes := [], xh_cdd := [], xh_cddfmt := []\<rparr>) pa"

definition locality_activate_launcher ::
  "string \<Rightarrow> ('p, 'd) locality_handler \<Rightarrow> ('p, 'd) poa \<Rightarrow> (exn + string) \<times> ('p, 'd) locality_handler \<times> ('p, 'd) poa" where
  "locality_activate_launcher name h pa =
     activate_servant name (Locality_Launcher_Servant (lh_uuid h) (dh_plugins h) (new_launcher (dh_launch_plan h)))
       (h\<lparr>dh_launch_plan := new_plan\<rparr>) pa"

text \<open>The activator that started a process, and the locality manager of the process, which it configures.\<close>

record ('d, 'w) activator_ref =
  ar_resolve :: "string \<Rightarrow> 'w \<Rightarrow> exn + bool"
  ar_callback :: "string \<Rightarrow> 'd properties \<Rightarrow> 'w \<Rightarrow> (exn + 'd properties) \<times> 'w"
  ar_complete :: "string \<Rightarrow> 'w \<Rightarrow> exn option \<times> 'w"
  ar_configure :: "'d properties \<Rightarrow> 'w \<Rightarrow> exn option \<times> 'w"
  ar_text :: "exn \<Rightarrow> string"

definition call_activator ::
  "('d, 'w) activator_ref \<Rightarrow> string \<Rightarrow> 'w \<Rightarrow> exn option \<times> 'w" where
  "call_activator ar uuid w =
     (case ar_callback ar uuid [] w of
        (Inl e, w1) \<Rightarrow> (Some e, w1)
      | (Inr config, w1) \<Rightarrow>
          (case ar_configure ar config w1 of
             (Some e, w2) \<Rightarrow> (Some e, w2)
           | (None, w2) \<Rightarrow> ar_complete ar uuid w2))"

definition activator_error :: "('d, 'w) activator_ref \<Rightarrow> exn \<Rightarrow> exn" where
  "activator_error ar e = UserEx StartError ''LocalityDeploymentHandler''
     (if e = BAD_PARAM then ''Bad Locality Activator reference''
      else if is_corba e then ar_text ar e
      else ''Caught exception while calling Locality Activator'')"

definition register_with_activator ::
  "('d, 'w) activator_ref \<Rightarrow> string \<Rightarrow> string \<Rightarrow> 'w \<Rightarrow> exn option \<times> 'w" where
  "register_with_activator ar activator uuid w =
     (if activator = [] then (None, w)
      else (case ar_resolve ar activator w of
         Inl e \<Rightarrow> (Some e, w)
       | Inr False \<Rightarrow>
           (Some (UserEx StartError ''LocalityDeploymentHandler'' ''Failed to resolve Locality Activator''), w)
       | Inr True \<Rightarrow>
           (case call_activator ar uuid w of
              (None, w') \<Rightarrow> (None, w')
            | (Some e, w') \<Rightarrow> (Some (activator_error ar e), w'))))"

definition locality_activate_manager ::
  "('d, 'w) activator_ref \<Rightarrow> string \<Rightarrow> ('p, 'd) locality_handler \<Rightarrow> ('p, 'd) poa \<times> 'w \<Rightarrow>
    (exn + string) \<times> ('p, 'd) locality_handler \<times> ('p, 'd) poa \<times> 'w" where
  "locality_activate_manager ar name h s =
     (case activate_servant name (Locality_Manager_Servant (lh_uuid h) (dh_plugins h)) h (fst s) of
        (Inl e, h', pa) \<Rightarrow> (Inl e, h', pa, snd s)
      | (Inr ref, h', pa) \<Rightarrow>
          (case register_with_activator ar (lh_activator h) (lh_uuid h) (snd s) of
             (Some e, w) \<Rightarrow> (Inl e, h', pa, w)
           | (None, w) \<Rightarrow> (Inr ref, h', pa, w)))"

section \<open>Shutting down\<close>

text \<open>Only the exception of an ORB that is shut down is expected.\<close>

definition handler_shutdown ::
  "('p, 'd, 'z) deployment_handler_scheme \<Rightarrow> ('p, 'd) poa \<Rightarrow>
    exn option \<times> ('p, 'd, 'z) deployment_handler_scheme \<times> ('p, 'd) poa" where
  "handler_shutdown h pa =
     (case (if dh_servant_id h = [] then (Inr (), pa) else deactivate_object (dh_servant_id h) pa) of
        (r, pa') \<Rightarrow>
          (case r of
             Inl e \<Rightarrow> if e = BAD_INV_ORDER then (None, h\<lparr>dh_launch_plan := new_plan, dh_plugins := None\<rparr>, pa')
                      else (Some e, h, pa')
           | Inr _ \<Rightarrow> (None, h\<lparr>dh_launch_plan := new_plan, dh_plugins := None\<rparr>, pa')))"


section \<open>What a configuration gives\<close>

lemma constraints_plugin: "load_plugin_config env p st = (b, q, st') \<Longrightarrow> constraints st' = constraints st"
  using plugin_cases [of env p st b q st'] by (auto split: if_splits)

lemma constraints_deployment_object:
  "load_deployment_object env p st = (b, q, st') \<Longrightarrow> constraints st' = constraints st"
  by (auto simp: load_deployment_object_def split: if_splits
      dest: constraints_plugin constraints_info constraints_plan_object)

lemma constraints_deployment_loop:
  "deployment_loop env p st = (b, q, st') \<Longrightarrow> constraints st' = constraints st"
proof (induction env p st rule: deployment_loop.induct)
  case (1 env p st)
  obtain c q1 st1 where o: "load_deployment_object env p st = (c, q1, st1)" by (metis prod_cases3)
  with 1 constraints_deployment_object [OF o] show ?case
    by (cases "parser_eof p"; cases c) (simp_all add: deployment_loop.simps [of env p])
qed

lemma deployment_plan_valid:
  assumes "truncates env" "fresh_plan plan" "length inp < 2 ^ 32"
    and "load_deployment_config env filename (Some inp) plugins plan = (True, plugins', plan')"
  shows "plan_valid plan'"
proof -
  let ?p = "parse_next False (new_parser inp)" and ?st = "new_state plugins plan"
  obtain q st where loop: "deployment_loop env ?p ?st = (True, q, st)"
    and fin: "fst (finalize_component_plan st)"
    and plan': "plan' = label_plan (cfg_basename env filename True @ ''.components'') filename
      (st_components (snd (finalize_component_plan st)))"
    using assms(4) by (auto simp: load_deployment_config_def split: prod.splits bool.splits)
  have "inv (length inp) q st"
    by (rule deployment_loop_keeps [OF assms(1) inv_start [OF assms(2,3)] loop])
  moreover have "constraints st = []"
    using constraints_deployment_loop [OF loop] assms(2) by (simp add: new_state_def fresh_plan_def)
  ultimately have "plan_valid (st_components (snd (finalize_component_plan st)))"
    using fin by (intro finalize_valid) (auto simp: prod_eq_iff)
  then show ?thesis by (simp add: plan')
qed

text \<open>A launch plan that is valid, and plugins of which every instance handler is in place.\<close>

definition handler_ready ::
  "('p, 'd) handler_env \<Rightarrow> 'd plan \<Rightarrow> ('p, 'd, 'z) deployment_handler_scheme \<Rightarrow> bool" where
  "handler_ready hv plugin_plan h \<longleftrightarrow> plan_valid (dh_launch_plan h) \<and>
     (\<exists>pm. dh_plugins h = Some pm \<and> manager_ok (hv_plugins hv) pm \<and>
        (\<forall>i. is_handler_plugin plugin_plan i \<longrightarrow>
          (\<exists>idd mdd entry artifact p. plugin_parts plugin_plan i = Inr (idd, mdd, entry, artifact)
            \<and> load_plugin (hv_plugins hv) artifact entry (plugin_open_mode (default_shlib_mode (hv_config hv)) mdd) = Inr p
            \<and> fetch_installation_handler (instance_type (hv_plugins hv) p) pm \<noteq> None)))"

lemma configure_handler_ready:
  assumes env: "truncates (hv_config hv)" "fresh_plan (dh_launch_plan h)"
    and short: "\<forall>f inp. hv_files hv f = Some inp \<longrightarrow> length inp < 2 ^ 32"
    and same: "\<And>h. dh_launch_plan (between h) = dh_launch_plan h"
    and run: "configure_handler hv handler config_file between config prop sh h pa = (None, h', pa')"
  shows "\<exists>cfg_file plugin_plan. cfg_file = find_config (hv_config hv) (hv_files hv) (hv_root hv) config_file config
    \<and> load_deployment_config (hv_config hv) cfg_file (hv_files hv cfg_file) new_plan (dh_launch_plan h)
        = (True, plugin_plan, dh_launch_plan h')
    \<and> handler_ready hv plugin_plan h' \<and> dh_poas h' \<and> pa_managers pa'"
proof -
  let ?cfg = "find_config (hv_config hv) (hv_files hv) (hv_root hv) config_file config"
  obtain plugin_plan plan where load:
    "load_deployment_config (hv_config hv) ?cfg (hv_files hv ?cfg) new_plan (dh_launch_plan h) = (True, plugin_plan, plan)"
    using run by (fastforce simp: configure_handler_def Let_def split: prod.splits bool.splits)
  then obtain inp where inp: "hv_files hv ?cfg = Some inp"
    by (cases "hv_files hv ?cfg") (auto simp: load_deployment_config_def)
  have valid: "plan_valid plan"
    using deployment_plan_valid [OF env(1,2) _ load [unfolded inp]] short inp by blast
  obtain pm where pm: "load_from_plan (hv_plugins hv) (default_shlib_mode (hv_config hv)) plugin_plan
      (set_configuration prop new_manager) = (None, pm)"
    and h': "h' = between (h\<lparr>dh_launch_plan := plan\<rparr>)\<lparr>dh_plugins := Some pm, dh_poas := True, dh_shutdown := sh\<rparr>"
    and pa': "pa_managers pa'"
    using run load by (auto simp: configure_handler_def create_poas_def Let_def split: prod.splits option.splits if_splits)
  have "manager_ok (hv_plugins hv) (set_configuration prop new_manager)"
    by (simp add: manager_ok_def set_configuration_def new_manager_def deps_finite_def map_keys_def)
  from plan_plugins_served [OF this pm] valid load same show ?thesis
    by (auto simp: h' pa' handler_ready_def)
qed


section \<open>A process registers with its activator\<close>

text \<open>The activator in the process that started this one, which is handed the reference of the locality manager.\<close>

definition activator_service ::
  "nat \<Rightarrow> ('d properties \<Rightarrow> exn option) \<Rightarrow> (exn \<Rightarrow> string) \<Rightarrow> ('d, 'd activator) activator_ref" where
  "activator_service ref configure text =
     \<lparr>ar_resolve = (\<lambda>_ _. Inr True), ar_callback = locality_manager_callback (Some ref),
      ar_complete = configuration_complete, ar_configure = (\<lambda>config la. (configure config, la)), ar_text = text\<rparr>"

text \<open>
  C10. A process that was started for a locality, with the UUID its activator waits for, registers: its locality
  manager gets the configuration of the server. When that works the server is active with the reference of the
  manager, and no other server has changed; otherwise starting the process fails, and the server does not
  become active.
\<close>

theorem process_registers:
  assumes ok: "activator_ok la" and found: "find_uuid (lh_uuid h) la = Some i"
    and waiting: "si_status (info la i) \<noteq> Active" "si_ref (info la i) = None"
    and pa: "\<not> pa_down pa" "map_of (pa_active pa) name = None" and act: "lh_activator h \<noteq> []"
    and cfg: "x = configure (build_property_sequence [] (si_cmap (info la i)))"
  shows "\<exists>r h' pa' la'. locality_activate_manager (activator_service ref configure text) name h (pa, la) = (r, h', pa', la')
    \<and> (x = None \<longrightarrow> r = Inr name \<and> si_status (info la' i) = Active)
    \<and> (x \<noteq> None \<longrightarrow> (\<exists>reason. r = Inl (UserEx StartError ''LocalityDeploymentHandler'' reason))
        \<and> si_status (info la' i) = si_status (info la i))
    \<and> si_ref (info la' i) = Some ref \<and> (\<forall>j < length (la_infos la). j \<noteq> i \<longrightarrow> info la' j = info la j)"
proof -
  have i: "i < length (la_infos la)" using find_uuid_some [OF found] ok by (auto simp: activator_ok_def)
  let ?la = "upd_info i (si_ref_update (\<lambda>_. Some ref)) la"
  have handed: "locality_manager_callback (Some ref) (lh_uuid h) [] la =
      (Inr (build_property_sequence [] (si_cmap (info la i))), ?la)"
    using waiting by (simp add: locality_manager_callback_def found)
  have find: "find_uuid (lh_uuid h) ?la = Some i"
  proof -
    have "j < length (la_infos la)" if "j \<in> set (la_set la)" for j using ok that by (auto simp: activator_ok_def)
    then have "find (\<lambda>j. si_uuid (info ?la j) = lh_uuid h) (la_set la) = find (\<lambda>j. si_uuid (info la j) = lh_uuid h) (la_set la)"
      by (intro find_cong refl) auto
    with found show ?thesis by (simp add: find_uuid_def)
  qed
  have complete: "configuration_complete (lh_uuid h) ?la = (None, upd_info i (si_status_update (\<lambda>_. Active)) ?la)"
    using waiting i by (simp add: configuration_complete_def find)
  show ?thesis
    using pa act i handed complete
    by (cases x) (auto simp: locality_activate_manager_def activate_servant_def activate_object_def register_with_activator_def
        call_activator_def activator_service_def activator_error_def cfg)
qed

section \<open>Shutting down\<close>

text \<open>
  Shutting a handler down after it activated a launcher deactivates that launcher and nothing else, and
  drops the plan and the plugins. The name stays, so shutting it down again raises an exception that is no
  StopError.
\<close>

theorem shutdown_works_once:
  assumes run: "node_activate_launcher name h pa = (Inr ref, h1, pa1)" and name: "name \<noteq> []"
  shows "\<exists>h2. handler_shutdown h1 pa1 = (None, h2, pa) \<and> dh_plugins h2 = None \<and> dh_launch_plan h2 = new_plan
    \<and> handler_shutdown h2 pa = (Some NOT_ACTIVE, h2, pa)"
proof -
  have act: "\<not> pa_down pa" "map_of (pa_active pa) name = None"
    using run by (auto simp: node_activate_launcher_def activate_servant_def activate_object_def split: if_splits)
  then have "filter (\<lambda>e. fst e \<noteq> name) (pa_active pa) = pa_active pa"
    by (auto simp: filter_id_conv map_of_eq_None_iff)
  with act run name show ?thesis
    by (auto simp: node_activate_launcher_def activate_servant_def activate_object_def handler_shutdown_def
        deactivate_object_def)
qed


section \<open>Concrete inputs\<close>

definition small_config :: string where
  "small_config = ''nl.remedy.it.DnCX11.InstanceHandler a f'' @ [newline]"

definition demo_handler_env :: "(nat, int) handler_env" where
  "demo_handler_env = \<lparr>hv_plugins = example_plugins, hv_config = example_env,
     hv_files = (\<lambda>f. if f = ''nodemanager.config'' then Some small_config else None), hv_root = None, hv_loaders = [],
     hv_new_uuid = ''u''\<rparr>"

definition demo_poa :: "(nat, int) poa" where
  "demo_poa = \<lparr>pa_root = True, pa_managers = False, pa_down = False, pa_active = []\<rparr>"


definition demo_started :: "int activator" where
  "demo_started = (new_activator [] False)\<lparr>la_infos := [(new_server_info ''p'')\<lparr>si_uuid := ''u''\<rparr>], la_set := [0]\<rparr>"

theorem process_registers_witness:
  "\<exists>h' pa' la'. locality_activate_manager (activator_service 7 (\<lambda>_. None) (\<lambda>_. [])) ''lm''
      (new_locality_handler (''u'', ''ior'')) (demo_poa, demo_started) = (Inr ''lm'', h', pa', la') \<and>
    si_status (info la' 0) = Active \<and> si_ref (info la' 0) = Some 7"
proof -
  have la: "activator_ok demo_started" "find_uuid ''u'' demo_started = Some 0"
    "si_status (info demo_started 0) \<noteq> Active" "si_ref (info demo_started 0) = None"
    by (simp_all add: demo_started_def new_activator_def new_server_info_def activator_ok_def find_uuid_def)
  show ?thesis
    using process_registers [OF la(1) _ la(3,4), of "new_locality_handler (''u'', ''ior'')" demo_poa "''lm''"
        None "\<lambda>_. None" 7 "\<lambda>_. []"] la(2)
    by (auto simp: new_locality_handler_def demo_poa_def)
qed

theorem shutdown_works_once_witness:
  "\<exists>h1 pa1 h2. node_activate_launcher ''dm'' new_node_handler demo_poa = (Inr ''dm'', h1, pa1) \<and>
    handler_shutdown h1 pa1 = (None, h2, demo_poa) \<and> handler_shutdown h2 demo_poa = (Some NOT_ACTIVE, h2, demo_poa)"
proof -
  have "\<exists>h1 pa1. node_activate_launcher ''dm'' new_node_handler demo_poa = (Inr ''dm'', h1, pa1)"
    by (simp add: node_activate_launcher_def activate_servant_def activate_object_def demo_poa_def)
  then obtain h1 pa1 where "node_activate_launcher ''dm'' new_node_handler demo_poa = (Inr ''dm'', h1, pa1)" by blast
  with shutdown_works_once [OF this] show ?thesis by auto
qed

end
