(* ===== verification/Configuration_Handlers.thy ===== *)
theory Configuration_Handlers
  imports Utility
begin

text \<open>
  The configuration plugins of a locality, dancex11/handler/configuration: CPU_Affinity, Process_Priority
  and Process_Name. Each has the name of a configuration property as its type and applies the property to
  the process. The system calls are parameters; they give the text of an error, or None.
\<close>

abbreviation "DANCE_LM_CPUAFFINITY \<equiv> ''nl.remedy.it.DnCX11.LocalityManager.CPUAffinity''"
abbreviation "DANCE_LM_PROCESSPRIORITY \<equiv> ''nl.remedy.it.DnCX11.LocalityManager.ProcessPriority''"

text \<open>atoi: white space, a sign and the digits that follow, within the range of int.\<close>

definition atoi :: "string \<Rightarrow> int" where
  "atoi str =
     (case dropWhile is_space str of
        [] \<Rightarrow> 0
      | c # r \<Rightarrow>
          let n = int (foldl (\<lambda>v d. 10 * v + digit_val d) 0
            (takeWhile is_digit (if c = CHR ''-'' \<or> c = CHR ''+'' then r else c # r)))
          in if c = CHR ''-'' then - n else n)"

record 'w system_calls =
  sc_setaffinity :: "nat set \<Rightarrow> 'w \<Rightarrow> string option \<times> 'w"
  sc_setprio :: "int \<Rightarrow> 'w \<Rightarrow> string option \<times> 'w"
  sc_setname :: "string \<Rightarrow> 'w \<Rightarrow> string option \<times> 'w"

section \<open>CPU affinity\<close>

text \<open>A set of CPUs holds 1024 of them; CPU_SET leaves a greater number out.\<close>

abbreviation "CPU_SETSIZE \<equiv> 1024"

definition cpu_set :: "nat \<Rightarrow> nat set \<Rightarrow> nat set" where
  "cpu_set i cpus = (if i < CPU_SETSIZE then insert i cpus else cpus)"

fun cpu_mask :: "string \<Rightarrow> string list \<Rightarrow> nat set \<Rightarrow> exn + nat set" where
  "cpu_mask name [] cpus = Inr cpus"
| "cpu_mask name (token # tokens) cpus =
     (let i = atoi token in
      if 0 \<le> i then cpu_mask name tokens (cpu_set (nat i) cpus)
      else Inl (UserEx StartError name ''All affinity values should be greater than 0''))"

definition cpu_affinity_configure :: "'w system_calls \<Rightarrow> 'd property \<Rightarrow> 'w \<Rightarrow> exn option \<times> 'w" where
  "cpu_affinity_configure sc prop w =
     (case as_string (pr_value prop) of
        None \<Rightarrow> (Some (UserEx StartError (pr_name prop) ''Unable to extract CPU affinity string''), w)
      | Some affinity \<Rightarrow>
          (case cpu_mask (pr_name prop) (tokenize affinity CHR '','') {} of
             Inl e \<Rightarrow> (Some e, w)
           | Inr cpus \<Rightarrow>
               (case sc_setaffinity sc cpus w of
                  (None, w') \<Rightarrow> (None, w')
                | (Some err, w') \<Rightarrow>
                    (Some (UserEx StartError (pr_name prop) (''Unable to set CPU affinity to <'' @ affinity @ ''>: '' @ err)), w'))))"

section \<open>Process priority\<close>

fun as_int32 :: "'d any \<Rightarrow> 32 word option" where
  "as_int32 (PrimAny (VInt32 v)) = Some v"
| "as_int32 _ = None"

definition signed_decimal :: "int \<Rightarrow> string" where
  "signed_decimal n = (if n < 0 then CHR ''-'' # decimal (nat (- n)) else decimal (nat n))"

definition process_priority_configure :: "'w system_calls \<Rightarrow> 'd property \<Rightarrow> 'w \<Rightarrow> exn option \<times> 'w" where
  "process_priority_configure sc prop w =
     (case as_int32 (pr_value prop) of
        None \<Rightarrow> (Some (plan_error (pr_name prop) ''Unable to extract priority value from config property''), w)
      | Some prio \<Rightarrow>
          (case sc_setprio sc (sint prio) w of
             (None, w') \<Rightarrow> (None, w')
           | (Some err, w') \<Rightarrow>
               (Some (UserEx StartError (pr_name prop)
                  (''Unable to set process priority to <'' @ signed_decimal (sint prio) @ ''>: '' @ err)), w')))"

section \<open>Process name\<close>

text \<open>The name is cut to 15 characters; that it could not be set is only logged.\<close>

definition process_name_configure :: "'w system_calls \<Rightarrow> 'd property \<Rightarrow> 'w \<Rightarrow> exn option \<times> 'w" where
  "process_name_configure sc prop w =
     (case as_string (pr_value prop) of
        None \<Rightarrow> (Some (plan_error (pr_name prop) ''Unable to extract process name from config property''), w)
      | Some pname \<Rightarrow> (None, snd (sc_setname sc (take 15 pname) w)))"

section \<open>The plugins by type\<close>

definition configuration_plugin :: "string \<Rightarrow> ('w system_calls \<Rightarrow> 'd property \<Rightarrow> 'w \<Rightarrow> exn option \<times> 'w) option" where
  "configuration_plugin ty =
     (if ty = DANCE_LM_CPUAFFINITY then Some cpu_affinity_configure
      else if ty = DANCE_LM_PROCESSPRIORITY then Some process_priority_configure
      else if ty = DANCE_LM_PROCESSNAME then Some process_name_configure
      else None)"

section \<open>Properties\<close>

lemma tokenize_single: "c \<notin> set s \<Longrightarrow> tokenize s c = [s]"
proof -
  assume "c \<notin> set s"
  then have "takeWhile (\<lambda>x. x \<noteq> c) s = s" "dropWhile (\<lambda>x. x \<noteq> c) s = []"
    by (auto simp: takeWhile_eq_all_conv)
  then show ?thesis by (subst tokenize.simps) (simp only: list.case)
qed

lemma tokenize_split: "c \<notin> set s \<Longrightarrow> tokenize (s @ c # rest) c = s # tokenize rest c"
proof -
  assume "c \<notin> set s"
  then have "takeWhile (\<lambda>x. x \<noteq> c) (s @ c # rest) = s" "dropWhile (\<lambda>x. x \<noteq> c) (s @ c # rest) = c # rest"
    by (auto simp: takeWhile_append dropWhile_append)
  then show ?thesis by (subst tokenize.simps) (simp only: list.case)
qed

lemma tokenize_joined:
  "ts \<noteq> [] \<Longrightarrow> \<forall>t \<in> set ts. c \<notin> set t \<Longrightarrow> tokenize (join_with c ts) c = ts"
proof (induction ts)
  case (Cons t ts)
  then show ?case by (cases ts) (simp_all add: tokenize_single tokenize_split)
qed simp

lemma digit_not_sign: "is_digit c \<Longrightarrow> c \<noteq> CHR ''-'' \<and> c \<noteq> CHR ''+'' \<and> c \<noteq> CHR '',''"
  by (auto simp: is_digit_def)

lemma atoi_decimal [simp]: "atoi (decimal n) = int n"
proof -
  obtain c r where dec: "decimal n = c # r" using decimal_nonempty by (cases "decimal n") auto
  have digits: "is_digit c" "takeWhile is_digit r = r"
    using decimal_digits [of n] by (auto simp: dec list_all_iff takeWhile_eq_all_conv)
  show ?thesis
    using decimal_value [of n] digits(1) digit_not_space [OF digits(1)] digit_not_sign [OF digits(1)]
    by (simp add: atoi_def dec Let_def digits(2))
qed

lemma cpu_mask_numbers: "cpu_mask name (map decimal ns) cpus = Inr (cpus \<union> {n \<in> set ns. n < CPU_SETSIZE})"
  by (induction ns arbitrary: cpus) (auto simp: cpu_set_def Let_def)

text \<open>
  An affinity written as a list of numbers with commas between them is the set of CPUs that the process
  is given; a number beyond the size of such a set is left out without an error.
\<close>

theorem affinity_applied:
  assumes "ns \<noteq> []" "pr_value prop = PrimAny (VString (join_with CHR '','' (map decimal ns)))"
  shows "cpu_affinity_configure sc prop w =
    (case sc_setaffinity sc {n \<in> set ns. n < CPU_SETSIZE} w of
       (None, w') \<Rightarrow> (None, w')
     | (Some err, w') \<Rightarrow> (Some (UserEx StartError (pr_name prop)
         (''Unable to set CPU affinity to <'' @ join_with CHR '','' (map decimal ns) @ ''>: '' @ err)), w'))"
proof -
  have "\<forall>t \<in> set (map decimal ns). CHR '','' \<notin> set t"
    using decimal_digits digit_not_sign by (fastforce simp: list_all_iff)
  then have "tokenize (join_with CHR '','' (map decimal ns)) CHR '','' = map decimal ns"
    using assms(1) by (intro tokenize_joined) auto
  with assms(2) show ?thesis by (simp add: cpu_affinity_configure_def cpu_mask_numbers)
qed

text \<open>A process whose world is the set of CPUs it may run on.\<close>

definition demo_system :: "(nat set) system_calls" where
  "demo_system = \<lparr>sc_setaffinity = (\<lambda>m w. (None, m)), sc_setprio = (\<lambda>p w. (None, w)), sc_setname = (\<lambda>n w. (None, w))\<rparr>"

theorem affinity_applied_witness:
  "cpu_affinity_configure demo_system (mk_prop ''a'' (PrimAny (VString (join_with CHR '','' (map decimal [2, 5, 4000]))))) {} =
    (None, {2, 5})"
proof -
  have "{n \<in> set [2, 5, 4000]. n < CPU_SETSIZE} = {2, 5 :: nat}" by auto
  then show ?thesis
    by (subst affinity_applied [where ns = "[2, 5, 4000]"]) (simp_all add: demo_system_def)
qed

text \<open>A token without a number is CPU 0, and an empty affinity is that CPU.\<close>

theorem affinity_without_number:
  "cpu_affinity_configure sc (mk_prop n (PrimAny (VString ''''))) w =
    (case sc_setaffinity sc {0} w of
       (None, w') \<Rightarrow> (None, w')
     | (Some err, w') \<Rightarrow> (Some (UserEx StartError n (''Unable to set CPU affinity to <>: '' @ err)), w'))"
  by (simp add: cpu_affinity_configure_def tokenize_single atoi_def cpu_set_def Let_def split: option.split prod.split)

end
