(* ===== verification/Manager_Module.thy ===== *)
theory Manager_Module
  imports Deployment_Handlers Configuration_Handlers
begin

text \<open>
  The process of a deployment manager, DeploymentManager_Module
  (dancex11/deployment_manager/deployment_manager_module.cpp): its command line, the start of the handler
  it loads, the registration of what the handler activates, and the teardown of another such process.
  The ORB and the service configurator are records of operations over a world; object references are
  numbers, and None is a nil reference.
\<close>

abbreviation "DM_INSTANCE_NAME \<equiv> ''nl.remedy.it.DnCX11.DM.InstanceName''"
abbreviation "DM_INSTANCE_PORT \<equiv> ''nl.remedy.it.DnCX11.DM.InstancePort''"
abbreviation "DM_INSTANCE_ADDRESS \<equiv> ''nl.remedy.it.DnCX11.DM.InstanceAddress''"
abbreviation "DM_INSTANCE_REFHOST \<equiv> ''nl.remedy.it.DnCX11.DM.InstanceReferenceHost''"

section \<open>The ORB\<close>

record 'w orb_api =
  oi_object :: "string \<Rightarrow> 'w \<Rightarrow> exn + nat option"
  oi_text :: "nat option \<Rightarrow> 'w \<Rightarrow> exn + string"
  oi_context :: "nat \<Rightarrow> 'w \<Rightarrow> exn + nat option"
  oi_resolve :: "nat \<Rightarrow> string \<times> string \<Rightarrow> 'w \<Rightarrow> exn + nat option"
  oi_rebind :: "nat \<Rightarrow> string \<times> string \<Rightarrow> nat option \<Rightarrow> 'w \<Rightarrow> exn option \<times> 'w"
  oi_unbind :: "nat \<Rightarrow> string \<times> string \<Rightarrow> 'w \<Rightarrow> exn option \<times> 'w"
  oi_control :: "nat \<Rightarrow> 'w \<Rightarrow> exn + nat option"
  oi_control_shutdown :: "nat \<Rightarrow> 'w \<Rightarrow> exn option \<times> 'w"
  oi_table :: "'w \<Rightarrow> exn + bool"
  oi_table_bind :: "string \<Rightarrow> string \<Rightarrow> 'w \<Rightarrow> exn option \<times> 'w"
  oi_table_unbind :: "string \<Rightarrow> 'w \<Rightarrow> exn option \<times> 'w"
  oi_run :: "'w \<Rightarrow> exn option \<times> 'w"
  oi_nil :: exn

text \<open>A naming context from its reference as text, and the reference it has for a name.\<close>

definition find_context :: "'w orb_api \<Rightarrow> string \<Rightarrow> 'w \<Rightarrow> exn + nat option" where
  "find_context oi nc w =
     (case oi_object oi nc w of
        Inl e \<Rightarrow> Inl e
      | Inr None \<Rightarrow> Inr None
      | Inr (Some r) \<Rightarrow> oi_context oi r w)"

definition find_name :: "'w orb_api \<Rightarrow> string \<Rightarrow> string \<times> string \<Rightarrow> 'w \<Rightarrow> exn + nat option" where
  "find_name oi nc name w =
     (case find_context oi nc w of
        Inl e \<Rightarrow> Inl e
      | Inr None \<Rightarrow> Inr None
      | Inr (Some c) \<Rightarrow> oi_resolve oi c name w)"

text \<open>A reference in a file: its first word.\<close>

definition read_IOR :: "files \<Rightarrow> string \<Rightarrow> string" where
  "read_IOR fs file =
     (case fs file of
        None \<Rightarrow> []
      | Some content \<Rightarrow> takeWhile (\<lambda>c. \<not> is_space c) (dropWhile is_space content))"

section \<open>Command line\<close>

record 'd manager_options =
  mo_other_opts :: "string list"
  mo_handler_lib :: string
  mo_handler_arg :: string
  mo_name :: string
  mo_kind :: string
  mo_deployment_nc :: string
  mo_nc_registration :: bool
  mo_config :: string
  mo_props :: "'d properties"
  mo_launcher :: bool
  mo_plan_file :: string
  mo_plan_fmt :: string
  mo_listen_port :: "16 word"
  mo_listen_addr :: string
  mo_numeric :: bool
  mo_host_for_ref :: string
  mo_teardown :: bool

definition new_manager_options :: "string option \<Rightarrow> 'd manager_options" where
  "new_manager_options listen_addr =
     \<lparr>mo_other_opts = [], mo_handler_lib = [], mo_handler_arg = [], mo_name = [], mo_kind = ''Launcher'',
      mo_deployment_nc = [], mo_nc_registration = True, mo_config = [], mo_props = [], mo_launcher = False,
      mo_plan_file = [], mo_plan_fmt = [], mo_listen_port = 0,
      mo_listen_addr = (case listen_addr of None \<Rightarrow> [] | Some a \<Rightarrow> a), mo_numeric = False, mo_host_for_ref = [],
      mo_teardown = False\<rparr>"

text \<open>
  What ACE_Get_Opt yields: an option or a long option with its argument, an argument of its own, or an unknown
  switch, each with the index of the next element of argv.
\<close>

datatype got =
    Got char "string option" nat
  | Got_Long string "string option" nat
  | Got_Arg string nat
  | Got_Unknown nat

fun got_ind :: "got \<Rightarrow> nat" where
  "got_ind (Got _ _ i) = i"
| "got_ind (Got_Long _ _ i) = i"
| "got_ind (Got_Arg _ i) = i"
| "got_ind (Got_Unknown i) = i"

text \<open>Reading on until the index moves; None if it never does. The last argument is the index at the end.\<close>

fun skip_switch :: "nat \<Rightarrow> nat \<Rightarrow> got list \<Rightarrow> got list option" where
  "skip_switch i fin [] = (if fin = i then None else Some [])"
| "skip_switch i fin (g # gs) = (if got_ind g = i then skip_switch i fin gs else Some gs)"

lemma skip_switch_shorter: "skip_switch i fin gs = Some gs' \<Longrightarrow> length gs' \<le> length gs"
  by (induction i fin gs rule: skip_switch.induct) (auto split: if_splits)

definition arg_text :: "string option \<Rightarrow> string" where
  "arg_text a = (case a of None \<Rightarrow> [] | Some t \<Rightarrow> t)"

definition set_manager_option :: "'d env \<Rightarrow> char \<Rightarrow> string \<Rightarrow> 'd manager_options \<Rightarrow> 'd manager_options" where
  "set_manager_option env c a o1 =
     (if c = CHR ''n'' then o1\<lparr>mo_name := a\<rparr>
      else if c = CHR ''d'' then o1\<lparr>mo_deployment_nc := a\<rparr>
      else if c = CHR ''c'' then o1\<lparr>mo_config := a\<rparr>
      else if c = CHR ''a'' then o1\<lparr>mo_listen_addr := a\<rparr>
      else if c = CHR ''p'' then o1\<lparr>mo_listen_port := word_of_int (atoi a)\<rparr>
      else if c = CHR ''N'' then o1\<lparr>mo_numeric := True\<rparr>
      else if c = CHR ''H'' then o1\<lparr>mo_host_for_ref := a\<rparr>
      else if c = CHR ''f'' then o1\<lparr>mo_plan_fmt := a\<rparr>
      else if c = CHR ''P'' then
        (case parse_property_definition env a of None \<Rightarrow> o1 | Some p \<Rightarrow> o1\<lparr>mo_props := mo_props o1 @ [p]\<rparr>)
      else if c = CHR ''x'' then o1\<lparr>mo_teardown := True\<rparr>
      else if c = CHR ''k'' then o1\<lparr>mo_kind := a\<rparr>
      else if c = CHR ''S'' then o1\<lparr>mo_nc_registration := False\<rparr>
      else o1)"

text \<open>
  The loop over the options. False is the help option; None has no defined outcome: an element behind the end
  of argv, or a loop that does not end. The index where a plan may follow is -1 in the beginning.
\<close>

function manager_loop ::
  "'d env \<Rightarrow> string list \<Rightarrow> nat \<Rightarrow> got list \<Rightarrow> int \<Rightarrow> 'd manager_options \<Rightarrow> (bool \<times> 'd manager_options) option" where
  "manager_loop env argv fin gs plan_ind o1 =
     (case gs of
        [] \<Rightarrow> Some (True, o1)
      | g # gs1 \<Rightarrow>
          (case g of
             Got c a i \<Rightarrow>
               if c = CHR ''h'' then
                 Some (False, if mo_handler_lib o1 = [] then o1 else o1\<lparr>mo_handler_arg := ''-h''\<rparr>)
               else if c = CHR ''l'' then
                 (case a of
                    Some f \<Rightarrow> manager_loop env argv fin gs1 plan_ind (o1\<lparr>mo_launcher := True, mo_plan_file := f\<rparr>)
                  | None \<Rightarrow> manager_loop env argv fin gs1 (int i) (o1\<lparr>mo_launcher := True\<rparr>))
               else manager_loop env argv fin gs1 plan_ind (set_manager_option env c (arg_text a) o1)
           | Got_Long name a i \<Rightarrow>
               manager_loop env argv fin gs1 plan_ind
                 (if name = ''handler'' then o1\<lparr>mo_handler_lib := arg_text a\<rparr>
                  else if name = ''handler-arg'' then o1\<lparr>mo_handler_arg := arg_text a\<rparr>
                  else o1)
           | Got_Arg a i \<Rightarrow>
               manager_loop env argv fin gs1 plan_ind
                 (if plan_ind + 1 = int i then o1\<lparr>mo_plan_file := a\<rparr>
                  else o1\<lparr>mo_other_opts := mo_other_opts o1 @ [a]\<rparr>)
           | Got_Unknown i \<Rightarrow>
               if length argv \<le> i then None
               else if argv ! i = ''-ORBEndpoint'' \<or> argv ! i = ''-ORBListenEndpoints'' then
                 manager_loop env argv fin gs1 plan_ind o1
               else (case skip_switch i fin gs1 of
                  None \<Rightarrow> None
                | Some gs2 \<Rightarrow>
                    manager_loop env argv fin gs2 plan_ind (o1\<lparr>mo_other_opts := mo_other_opts o1 @ [argv ! i]\<rparr>))))"
  by pat_completeness auto
termination
  by (relation "measure (\<lambda>(_, _, _, gs, _, _). length gs)") (auto dest: skip_switch_shorter)

declare manager_loop.simps [simp del]

definition manager_args ::
  "'d env \<Rightarrow> string list \<Rightarrow> nat \<Rightarrow> got list \<Rightarrow> 'd manager_options \<Rightarrow> (bool \<times> 'd manager_options) option" where
  "manager_args env argv fin gs o1 =
     (case manager_loop env argv fin gs (- 1) o1 of
        None \<Rightarrow> None
      | Some (False, o2) \<Rightarrow> Some (False, o2)
      | Some (True, o2) \<Rightarrow>
          Some (True,
            if 0 < fin \<and> fin < length argv \<and> argv ! (fin - 1) = ''--''
            then o2\<lparr>mo_handler_arg := join_with CHR '' '' (drop fin argv)\<rparr> else o2))"

text \<open>The arguments of the ORB.\<close>

definition orb_endpoint :: "'d manager_options \<Rightarrow> string" where
  "orb_endpoint o1 =
     ''iiop://'' @ mo_listen_addr o1
     @ (if 0 < mo_listen_port o1 then CHR '':'' # decimal (unat (mo_listen_port o1)) else [])
     @ (if mo_host_for_ref o1 \<noteq> [] then ''/hostname_in_ior='' @ mo_host_for_ref o1 else [])"

definition manager_orb_args :: "'d manager_options \<Rightarrow> string \<Rightarrow> string list" where
  "manager_orb_args o1 argv0 =
     (if mo_teardown o1 then [argv0]
      else (if 0 < mo_listen_port o1 \<or> mo_listen_addr o1 \<noteq> [] \<or> mo_host_for_ref o1 \<noteq> []
            then [argv0, ''-ORBListenEndpoints'', orb_endpoint o1] else [argv0])
        @ (if mo_numeric o1 then [''-ORBDottedDecimalAddresses'', ''1''] else []))
     @ mo_other_opts o1"

section \<open>The handler\<close>

record ('d, 'w) manager_handler =
  mh_type :: string
  mh_configure :: "string \<Rightarrow> 'd properties \<Rightarrow> 'w \<Rightarrow> exn option \<times> 'w"
  mh_activate_manager :: "string \<Rightarrow> 'w \<Rightarrow> (exn + nat option) \<times> 'w"
  mh_activate_launcher :: "string \<Rightarrow> 'w \<Rightarrow> (exn + nat option) \<times> 'w"
  mh_set_plan :: "nat option \<Rightarrow> 'd plan \<Rightarrow> 'w \<Rightarrow> exn option \<times> 'w"
  mh_launch :: "nat option \<Rightarrow> 'w \<Rightarrow> exn option \<times> 'w"
  mh_shutdown :: "'w \<Rightarrow> exn option \<times> 'w"

record ('d, 'w) module_env =
  me_config :: "'d env"
  me_orb :: "'w orb_api"
  me_files :: "'w \<Rightarrow> files"
  me_write :: "string \<Rightarrow> string \<Rightarrow> 'w \<Rightarrow> bool \<times> 'w"
  me_loaders :: "'w \<Rightarrow> 'd loaders"
  me_initialize :: "string list \<Rightarrow> 'w \<Rightarrow> 'w"
  me_orb_init :: "'w \<Rightarrow> exn option \<times> 'w"
  me_activate_poa :: "'w \<Rightarrow> exn option \<times> 'w"
  me_directive :: "string \<Rightarrow> 'w \<Rightarrow> bool \<times> 'w"
  me_find_loader :: "'w \<Rightarrow> ('d, 'w) manager_handler option option"

record ('d, 'w) manager_module =
  mm_handler :: "('d, 'w) manager_handler option"
  mm_objectid :: string
  mm_objectkind :: string
  mm_dm :: "nat option"
  mm_options :: "'d manager_options"

text \<open>The service object of the handler library; without a loader behind its name there is no outcome.\<close>

definition handler_directive :: "'d manager_options \<Rightarrow> string" where
  "handler_directive o1 =
     ''dynamic DANCEX11_DEPLOYMENT_HANDLER Service_Object * '' @ mo_handler_lib o1
     @ '':_make_DAnCEX11_DeploymentHandler_Impl() '' @ [CHR 0x22] @ mo_handler_arg o1 @ [CHR 0x22]"

definition load_handler ::
  "('d, 'w) module_env \<Rightarrow> ('d, 'w) manager_module \<Rightarrow> 'w \<Rightarrow> (('d, 'w) manager_module \<times> 'w) option" where
  "load_handler me m w =
     (case (if mo_handler_lib (mm_options m) = [] then (True, w)
            else me_directive me (handler_directive (mm_options m)) w) of
        (False, w1) \<Rightarrow> Some (m, w1)
      | (True, w1) \<Rightarrow>
          (case me_find_loader me w1 of
             None \<Rightarrow> None
           | Some handler \<Rightarrow> Some (m\<lparr>mm_handler := handler\<rparr>, w1)))"

definition remove_handler ::
  "('d, 'w) module_env \<Rightarrow> ('d, 'w) manager_module \<Rightarrow> 'w \<Rightarrow> ('d, 'w) manager_module \<times> 'w" where
  "remove_handler me m w =
     (m\<lparr>mm_handler := None, mm_dm := None\<rparr>, snd (me_directive me ''remove DANCEX11_DEPLOYMENT_HANDLER'' w))"

definition object_id :: "string \<Rightarrow> string" where
  "object_id dm_name = (if dm_name = [] then ''DeploymentManager'' else dm_name)"

section \<open>Tearing a manager down\<close>

definition corbaloc :: "string \<Rightarrow> 16 word \<Rightarrow> string \<Rightarrow> string" where
  "corbaloc addr port name = ''corbaloc:iiop:'' @ addr @ '':'' @ decimal (unat port) @ ''/'' @ name"

text \<open>A reference from a file, by the port, or from the naming context, in this order.\<close>

definition find_manager ::
  "('d, 'w) module_env \<Rightarrow> 'd manager_options \<Rightarrow> string \<Rightarrow> string \<Rightarrow> 'w \<Rightarrow> exn + nat option" where
  "find_manager me o1 dm_file oid w =
     (let oi = me_orb me;
          ior = (if dm_file = [] then [] else read_IOR (me_files me w) dm_file) in
      case (if ior = [] then Inr None else oi_object oi ior w) of
        Inl e \<Rightarrow> Inl e
      | Inr (Some r) \<Rightarrow> Inr (Some r)
      | Inr None \<Rightarrow>
          (case (if 0 < mo_listen_port o1
                 then oi_object oi (corbaloc (mo_listen_addr o1) (mo_listen_port o1) (oid @ ''.'' @ mo_kind o1)) w
                 else Inr None) of
             Inl e \<Rightarrow> Inl e
           | Inr (Some r) \<Rightarrow> Inr (Some r)
           | Inr None \<Rightarrow>
               if mo_deployment_nc o1 = [] then Inr None
               else (case find_name oi (mo_deployment_nc o1) (oid, mo_kind o1) w of
                  Inl e \<Rightarrow> if is_corba e then Inr None else Inl e
                | Inr r \<Rightarrow> Inr r)))"

definition init_teardown ::
  "('d, 'w) module_env \<Rightarrow> string \<Rightarrow> string \<Rightarrow> string \<Rightarrow> ('d, 'w) manager_module \<Rightarrow> 'w \<Rightarrow>
    (exn + bool) \<times> ('d, 'w) manager_module \<times> 'w" where
  "init_teardown me argv0 dm_name dm_file m w =
     (case me_orb_init me (me_initialize me (manager_orb_args (mm_options m) argv0) w) of
        (Some e, w1) \<Rightarrow> (Inl e, m, w1)
      | (None, w1) \<Rightarrow>
          let m1 = m\<lparr>mm_objectid := object_id dm_name, mm_objectkind := mo_kind (mm_options m)\<rparr> in
          (case find_manager me (mm_options m) dm_file (object_id dm_name) w1 of
             Inl e \<Rightarrow> (Inl e, m1, w1)
           | Inr dm \<Rightarrow>
               (case (case dm of None \<Rightarrow> Inr None | Some r \<Rightarrow> oi_control (me_orb me) r w1) of
                  Inl e \<Rightarrow> (Inl e, m1\<lparr>mm_dm := dm\<rparr>, w1)
                | Inr None \<Rightarrow> (Inr False, m1\<lparr>mm_dm := None\<rparr>, w1)
                | Inr (Some _) \<Rightarrow> (Inr True, m1\<lparr>mm_dm := dm\<rparr>, w1))))"

section \<open>Starting a manager\<close>

definition handler_properties :: "'d manager_options \<Rightarrow> string \<Rightarrow> 'd properties" where
  "handler_properties o1 dm_name =
     mo_props o1 @ [mk_prop DM_INSTANCE_NAME (PrimAny (VString dm_name))]
     @ (if 0 < mo_listen_port o1 then [mk_prop DM_INSTANCE_PORT (PrimAny (VUInt16 (mo_listen_port o1)))] else [])
     @ (if mo_listen_addr o1 \<noteq> [] then [mk_prop DM_INSTANCE_ADDRESS (PrimAny (VString (mo_listen_addr o1)))] else [])
     @ (if mo_numeric o1 then [mk_prop DM_NUMERIC_ADDRESSES (PrimAny (VBool True))] else [])
     @ (if mo_host_for_ref o1 \<noteq> [] then [mk_prop DM_INSTANCE_REFHOST (PrimAny (VString (mo_host_for_ref o1)))] else [])
     @ (if mo_deployment_nc o1 \<noteq> [] then [mk_prop DOMAIN_NC (PrimAny (VString (mo_deployment_nc o1)))] else [])"

definition object_kind :: "'d manager_options \<Rightarrow> ('d, 'w) manager_handler \<Rightarrow> string" where
  "object_kind o1 mh = (if mo_plan_file o1 = [] then mh_type mh else ''Launcher'')"

text \<open>A launcher, with the plan of the command line if there is one, or a manager.\<close>

definition start_launcher ::
  "('d, 'w) module_env \<Rightarrow> 'd manager_options \<Rightarrow> ('d, 'w) manager_handler \<Rightarrow> string \<Rightarrow> 'w \<Rightarrow>
    (exn + nat option option) \<times> 'w" where
  "start_launcher me o1 mh svc_name w =
     (case mh_activate_launcher mh svc_name w of
        (Inl e, w1) \<Rightarrow> (Inl e, w1)
      | (Inr dlm, w1) \<Rightarrow>
          (case (if mo_plan_file o1 = [] then (Inr True, w1)
                 else (case read_plan (me_loaders me w1) (mo_plan_file o1) new_plan (mo_plan_fmt o1) of
                    (False, _) \<Rightarrow> (Inr False, w1)
                  | (True, plan) \<Rightarrow>
                      (case mh_set_plan mh dlm plan w1 of (Some e, w2) \<Rightarrow> (Inl e, w2) | (None, w2) \<Rightarrow> (Inr True, w2)))) of
             (Inl e, w2) \<Rightarrow> (Inl e, w2)
           | (Inr False, w2) \<Rightarrow> (Inr None, w2)
           | (Inr True, w2) \<Rightarrow>
               (case mh_launch mh dlm w2 of
                  (Some e, w3) \<Rightarrow> (Inl e, w3)
                | (None, w3) \<Rightarrow> (Inr (Some dlm), w3))))"

definition start_manager ::
  "('d, 'w) manager_handler \<Rightarrow> string \<Rightarrow> 'w \<Rightarrow> (exn + nat option option) \<times> 'w" where
  "start_manager mh svc_name w =
     (case mh_activate_manager mh svc_name w of
        (Inl e, w1) \<Rightarrow> (Inl e, w1)
      | (Inr ddm, w1) \<Rightarrow> (Inr (Some ddm), w1))"

definition write_manager_IOR ::
  "('d, 'w) module_env \<Rightarrow> string \<Rightarrow> nat option \<Rightarrow> 'w \<Rightarrow> exn option \<times> 'w" where
  "write_manager_IOR me dm_file dm w =
     (case oi_text (me_orb me) dm w of
        Inl e \<Rightarrow> (Some e, w)
      | Inr ior \<Rightarrow> (None, if dm_file = [] then w else snd (me_write me dm_file ior w)))"

definition start_handler ::
  "('d, 'w) module_env \<Rightarrow> string \<Rightarrow> string \<Rightarrow> ('d, 'w) manager_handler \<Rightarrow> ('d, 'w) manager_module \<Rightarrow> 'w \<Rightarrow>
    (exn + bool) \<times> ('d, 'w) manager_module \<times> 'w" where
  "start_handler me dm_name dm_file mh m w =
     (let o1 = mm_options m in
      case mh_configure mh (mo_config o1) (handler_properties o1 dm_name) w of
        (Some e, w1) \<Rightarrow> (Inl e, m, w1)
      | (None, w1) \<Rightarrow>
          (case me_activate_poa me w1 of
             (Some e, w2) \<Rightarrow> (Inl e, m, w2)
           | (None, w2) \<Rightarrow>
               let m1 = m\<lparr>mm_objectid := object_id dm_name, mm_objectkind := object_kind o1 mh\<rparr>;
                   svc_name = mm_objectid m1 @ ''.'' @ mm_objectkind m1 in
               (case (if mo_launcher o1 then start_launcher me o1 mh svc_name w2 else start_manager mh svc_name w2) of
                  (Inl e, w3) \<Rightarrow> (Inl e, m1, w3)
                | (Inr None, w3) \<Rightarrow> (Inr False, m1, w3)
                | (Inr (Some dm), w3) \<Rightarrow>
                    (case write_manager_IOR me dm_file dm w3 of
                       (Some e, w4) \<Rightarrow> (Inl e, m1\<lparr>mm_dm := dm\<rparr>, w4)
                     | (None, w4) \<Rightarrow> (Inr True, m1\<lparr>mm_dm := dm\<rparr>, w4)))))"

definition init_startup ::
  "('d, 'w) module_env \<Rightarrow> string \<Rightarrow> string \<Rightarrow> string \<Rightarrow> ('d, 'w) manager_module \<Rightarrow> 'w \<Rightarrow>
    ((exn + bool) \<times> ('d, 'w) manager_module \<times> 'w) option" where
  "init_startup me argv0 dm_name dm_file m w =
     (case load_handler me m (me_initialize me (manager_orb_args (mm_options m) argv0) w) of
        None \<Rightarrow> None
      | Some (m1, w1) \<Rightarrow>
          (case mm_handler m1 of
             None \<Rightarrow> Some (Inr False, m1, w1)
           | Some mh \<Rightarrow> Some (start_handler me dm_name dm_file mh m1 w1)))"

text \<open>CORBA exceptions end the initialisation; the name may have a file for the reference behind an equals sign.\<close>

definition split_name :: "string \<Rightarrow> string \<times> string" where
  "split_name n =
     (if CHR ''='' \<in> set n then (takeWhile (\<lambda>c. c \<noteq> CHR ''='') n, tl (dropWhile (\<lambda>c. c \<noteq> CHR ''='') n)) else (n, []))"

definition catch_corba :: "(exn + bool) \<times> 'm \<times> 'w \<Rightarrow> (exn + bool) \<times> 'm \<times> 'w" where
  "catch_corba r = (case r of (Inl e, s) \<Rightarrow> (if is_corba e then Inr False else Inl e, s) | _ \<Rightarrow> r)"

definition manager_init ::
  "('d, 'w) module_env \<Rightarrow> string list \<Rightarrow> nat \<Rightarrow> got list \<Rightarrow> ('d, 'w) manager_module \<Rightarrow> 'w \<Rightarrow>
    ((exn + bool) \<times> ('d, 'w) manager_module \<times> 'w) option" where
  "manager_init me argv fin gs m w =
     (case manager_args (me_config me) argv fin gs (mm_options m) of
        None \<Rightarrow> None
      | Some (False, o1) \<Rightarrow>
          if mo_handler_lib o1 = [] then Some (Inr False, m\<lparr>mm_options := o1\<rparr>, w)
          else (case load_handler me (m\<lparr>mm_options := o1\<rparr>) w of
             None \<Rightarrow> None
           | Some (m1, w1) \<Rightarrow> Some (Inr False, m1, w1))
      | Some (True, o1) \<Rightarrow>
          (case split_name (mo_name o1) of (dm_name, dm_file) \<Rightarrow>
             if mo_teardown o1 then Some (catch_corba (init_teardown me (hd argv) dm_name dm_file (m\<lparr>mm_options := o1\<rparr>) w))
             else map_option catch_corba (init_startup me (hd argv) dm_name dm_file (m\<lparr>mm_options := o1\<rparr>) w)))"

section \<open>Running\<close>

text \<open>
  Before the ORB runs the object is entered into the table of the ORB and into the naming context. The
  results tell whether the table was there and took the name.
\<close>

definition table_register :: "'w orb_api \<Rightarrow> string \<Rightarrow> string \<Rightarrow> 'w \<Rightarrow> (exn + bool option) \<times> 'w" where
  "table_register oi service_id ior w =
     (case oi_table oi w of
        Inl e \<Rightarrow> (if is_corba e then Inr (Some False) else Inl e, w)
      | Inr False \<Rightarrow> (Inr None, w)
      | Inr True \<Rightarrow>
          (case oi_table_bind oi service_id ior w of
             (None, w1) \<Rightarrow> (Inr (Some True), w1)
           | (Some e, w1) \<Rightarrow> (if is_corba e then Inr (Some False) else Inl e, w1)))"

definition nc_register ::
  "'w orb_api \<Rightarrow> 'd manager_options \<Rightarrow> string \<times> string \<Rightarrow> nat option \<Rightarrow> 'w \<Rightarrow> exn option \<times> 'w" where
  "nc_register oi o1 name dm w =
     (if mo_nc_registration o1 \<and> mo_deployment_nc o1 \<noteq> [] then
        (case find_context oi (mo_deployment_nc o1) w of
           Inl e \<Rightarrow> (if is_corba e then None else Some e, w)
         | Inr None \<Rightarrow> (None, w)
         | Inr (Some c) \<Rightarrow>
             (case oi_rebind oi c name dm w of
                (None, w1) \<Rightarrow> (None, w1)
              | (Some e, w1) \<Rightarrow> (if is_corba e then None else Some e, w1)))
      else (None, w))"

definition finish_run ::
  "('d, 'w) module_env \<Rightarrow> ('d, 'w) manager_module \<Rightarrow> bool \<Rightarrow> string \<Rightarrow> 'w \<Rightarrow>
    (exn + bool) \<times> ('d, 'w) manager_module \<times> 'w" where
  "finish_run me m bound service_id w =
     (case (if bound then oi_table_unbind (me_orb me) service_id w else (None, w)) of
        (u, w1) \<Rightarrow>
          if (case u of Some e \<Rightarrow> \<not> is_corba e | None \<Rightarrow> False) then (Inl (the u), m, w1)
          else (case (case mm_handler m of None \<Rightarrow> (Some (oi_nil (me_orb me)), w1) | Some mh \<Rightarrow> mh_shutdown mh w1) of
             (s, w2) \<Rightarrow>
               if (case s of Some e \<Rightarrow> \<not> is_stop_error e | None \<Rightarrow> False) then (Inl (the s), m, w2)
               else (case remove_handler me m w2 of (m', w3) \<Rightarrow> (Inr True, m', w3))))"

definition run_teardown ::
  "('d, 'w) module_env \<Rightarrow> ('d, 'w) manager_module \<Rightarrow> 'w \<Rightarrow> (exn + bool) \<times> ('d, 'w) manager_module \<times> 'w" where
  "run_teardown me m w =
     (case (case mm_dm m of None \<Rightarrow> Inr None | Some r \<Rightarrow> oi_control (me_orb me) r w) of
        Inl e \<Rightarrow> (Inl e, m, w)
      | Inr None \<Rightarrow> (Inl (oi_nil (me_orb me)), m, w)
      | Inr (Some c) \<Rightarrow>
          (case oi_control_shutdown (me_orb me) c w of
             (Some e, w1) \<Rightarrow> (Inl e, m, w1)
           | (None, w1) \<Rightarrow> (Inr True, m, w1)))"

definition manager_run ::
  "('d, 'w) module_env \<Rightarrow> ('d, 'w) manager_module \<Rightarrow> 'w \<Rightarrow> (exn + bool) \<times> ('d, 'w) manager_module \<times> 'w" where
  "manager_run me m w =
     (let oi = me_orb me; o1 = mm_options m; service_id = mm_objectid m @ ''.'' @ mm_objectkind m in
      if mo_teardown o1 then run_teardown me m w
      else (case oi_text oi (mm_dm m) w of
         Inl e \<Rightarrow> (Inl e, m, w)
       | Inr ior \<Rightarrow>
           (case table_register oi service_id ior w of
              (Inl e, w1) \<Rightarrow> (Inl e, m, w1)
            | (Inr None, w1) \<Rightarrow> (Inr False, m, w1)
            | (Inr (Some bound), w1) \<Rightarrow>
                (case nc_register oi o1 (mm_objectid m, mm_objectkind m) (mm_dm m) w1 of
                   (Some e, w2) \<Rightarrow> (Inl e, m, w2)
                 | (None, w2) \<Rightarrow>
                     (case oi_run oi w2 of
                        (Some e, w3) \<Rightarrow> (Inl e, m, w3)
                      | (None, w3) \<Rightarrow> finish_run me m bound service_id w3)))))"

text \<open>What the activated object calls when it is shut down: the name is taken out of the naming context.\<close>

definition manager_shutdown :: "('d, 'w) module_env \<Rightarrow> ('d, 'w) manager_module \<Rightarrow> 'w \<Rightarrow> exn option \<times> 'w" where
  "manager_shutdown me m w =
     (if mo_nc_registration (mm_options m) \<and> mo_deployment_nc (mm_options m) \<noteq> [] then
        (case find_context (me_orb me) (mo_deployment_nc (mm_options m)) w of
           Inl e \<Rightarrow> (if is_corba e then None else Some e, w)
         | Inr None \<Rightarrow> (None, w)
         | Inr (Some c) \<Rightarrow>
             (case oi_unbind (me_orb me) c (mm_objectid m, mm_objectkind m) w of
                (None, w1) \<Rightarrow> (None, w1)
              | (Some e, w1) \<Rightarrow> (if is_corba e then None else Some e, w1)))
      else (None, w))"

definition new_manager_module :: "string option \<Rightarrow> ('d, 'w) manager_module" where
  "new_manager_module listen_addr =
     \<lparr>mm_handler = None, mm_objectid = [], mm_objectkind = [], mm_dm = None, mm_options = new_manager_options listen_addr\<rparr>"

text \<open>The exit status of the process.\<close>

definition manager_main ::
  "('d, 'w) module_env \<Rightarrow> string option \<Rightarrow> string list \<Rightarrow> nat \<Rightarrow> got list \<Rightarrow> 'w \<Rightarrow> (int \<times> 'w) option" where
  "manager_main me listen_addr argv fin gs w =
     (case manager_init me argv fin gs (new_manager_module listen_addr) w of
        None \<Rightarrow> None
      | Some (Inr True, m, w1) \<Rightarrow> (case manager_run me m w1 of (r, _, w2) \<Rightarrow> Some (if r = Inr True then 0 else 1, w2))
      | Some (_, _, w1) \<Rightarrow> Some (1, w1))"

section \<open>A registered manager is found by its kind\<close>

text \<open>
  A naming context and the references as the naming service documents them: what was bound is resolved, other
  names and references are not touched.
\<close>

definition naming_law :: "'w orb_api \<Rightarrow> bool" where
  "naming_law oi \<longleftrightarrow> (\<forall>c name r w w'. oi_rebind oi c name (Some r) w = (None, w') \<longrightarrow>
     oi_resolve oi c name w' = Inr (Some r) \<and> (\<forall>n. n \<noteq> name \<longrightarrow> oi_resolve oi c n w' = oi_resolve oi c n w) \<and>
     (\<forall>t. oi_object oi t w' = oi_object oi t w) \<and> (\<forall>x. oi_context oi x w' = oi_context oi x w))"

lemma namingD:
  assumes "naming_law oi" "oi_rebind oi c name (Some r) w = (None, w')"
  shows "oi_resolve oi c name w' = Inr (Some r)" "n \<noteq> name \<Longrightarrow> oi_resolve oi c n w' = oi_resolve oi c n w"
    and "oi_object oi t w' = oi_object oi t w" "oi_context oi x w' = oi_context oi x w"
  using assms unfolding naming_law_def by blast+

lemma registered_names:
  assumes "naming_law oi" "find_context oi nc w = Inr (Some c)" "mo_nc_registration o1" "mo_deployment_nc o1 = nc" "nc \<noteq> []"
    and "oi_rebind oi c name (Some r) w = (None, w')"
  shows "nc_register oi o1 name (Some r) w = (None, w') \<and>
    find_name oi nc n w' = (if n = name then Inr (Some r) else oi_resolve oi c n w)"
proof -
  note D = namingD [OF assms(1,6)]
  have "find_context oi nc w' = find_context oi nc w"
    by (simp add: find_context_def D(3,4) split: sum.split option.split)
  with assms D(1) D(2) [of n] show ?thesis by (simp add: nc_register_def find_name_def)
qed


text \<open>
  An endpoint switch is not skipped when it is unknown to the parser, so the letters behind it are options
  again: the rest of -ORBEndpoint from the n on becomes the name of the manager.
\<close>

theorem endpoint_becomes_name:
  "manager_args env [''dm'', ''-ORBEndpoint'', ''iiop://h''] 3
     [Got_Unknown 1, Got_Unknown 1, Got_Unknown 1, Got_Unknown 1, Got CHR ''n'' (Some ''dpoint'') 2, Got_Arg ''iiop://h'' 3] o1 =
   Some (True, o1\<lparr>mo_name := ''dpoint'', mo_other_opts := mo_other_opts o1 @ [''iiop://h'']\<rparr>)"
  by (simp add: manager_args_def manager_loop.simps set_manager_option_def arg_text_def)


section \<open>Concrete inputs\<close>

text \<open>An ORB whose world is the content of a naming context; every reference is to that context.\<close>

definition demo_orb :: "((string \<times> string) \<times> nat) list orb_api" where
  "demo_orb =
     \<lparr>oi_object = (\<lambda>t w. Inr (Some 0)), oi_text = (\<lambda>r w. Inr []), oi_context = (\<lambda>r w. Inr (Some 9)),
      oi_resolve = (\<lambda>c n w. case map_of w n of None \<Rightarrow> Inl (OtherUser ''NotFound'') | Some r \<Rightarrow> Inr (Some r)),
      oi_rebind = (\<lambda>c n r w. case r of None \<Rightarrow> (Some BAD_PARAM, w) | Some r' \<Rightarrow> (None, (n, r') # w)),
      oi_unbind = (\<lambda>c n w. (None, filter (\<lambda>e. fst e \<noteq> n) w)), oi_control = (\<lambda>r w. Inr (Some r)),
      oi_control_shutdown = (\<lambda>r w. (None, w)), oi_table = (\<lambda>w. Inr True), oi_table_bind = (\<lambda>n i w. (None, w)),
      oi_table_unbind = (\<lambda>n w. (None, w)), oi_run = (\<lambda>w. (None, w)), oi_nil = BAD_PARAM\<rparr>"

lemma demo_orb_law: "naming_law demo_orb"
  by (auto simp: naming_law_def demo_orb_def split: option.splits)

definition demo_module_env :: "(int, ((string \<times> string) \<times> nat) list) module_env" where
  "demo_module_env =
     \<lparr>me_config = example_env, me_orb = demo_orb, me_files = (\<lambda>w f. None), me_write = (\<lambda>f t w. (True, w)),
      me_loaders = (\<lambda>w. []), me_initialize = (\<lambda>a w. w), me_orb_init = (\<lambda>w. (None, w)), me_activate_poa = (\<lambda>w. (None, w)),
      me_directive = (\<lambda>t w. (True, w)), me_find_loader = (\<lambda>w. None)\<rparr>"

definition demo_node_handler :: "(int, ((string \<times> string) \<times> nat) list) manager_handler" where
  "demo_node_handler =
     \<lparr>mh_type = ''NodeManager'', mh_configure = (\<lambda>c p w. (None, w)), mh_activate_manager = (\<lambda>n w. (Inr (Some 7), w)),
      mh_activate_launcher = (\<lambda>n w. (Inr (Some 7), w)), mh_set_plan = (\<lambda>r p w. (None, w)), mh_launch = (\<lambda>r w. (None, w)),
      mh_shutdown = (\<lambda>w. (None, w))\<rparr>"

abbreviation "demo_nc_options \<equiv> (new_manager_options None :: int manager_options)\<lparr>mo_deployment_nc := ''nc''\<rparr>"


end
