(* ===== verification/Launcher_Module.thy ===== *)
theory Launcher_Module
  imports Manager_Module
begin

text \<open>
  The plan launcher, PlanLauncher_Module (dancex11/plan_launcher/plan_launcher_module.cpp): its command line,
  its configuration, how it finds the manager to talk to, and the launch or the teardown of a plan.
\<close>

section \<open>Command line\<close>

record launcher_options = plan_options +
  ln_other_opts :: "string list"
  ln_dm_ior :: string
  ln_dm_name :: string
  ln_dm_port :: "16 word"
  ln_dm_addr :: string
  ln_dm_timeout :: "32 word"
  ln_deployment_nc :: string
  ln_config :: string
  ln_teardown :: bool

definition new_launcher_options :: launcher_options where
  "new_launcher_options =
     \<lparr>po_am_ior = [], po_app_ior = [], po_plan_file = [], po_plan_fmt = [], po_plan_uuid = [], po_force = False,
      ln_other_opts = [], ln_dm_ior = [], ln_dm_name = [], ln_dm_port = 0, ln_dm_addr = ''localhost'',
      ln_dm_timeout = 0, ln_deployment_nc = [], ln_config = [], ln_teardown = False\<rparr>"

definition set_launcher_option :: "char \<Rightarrow> string \<Rightarrow> launcher_options \<Rightarrow> launcher_options" where
  "set_launcher_option c a o1 =
     (if c = CHR ''n'' then o1\<lparr>ln_dm_name := a\<rparr>
      else if c = CHR ''r'' then o1\<lparr>ln_dm_ior := a\<rparr>
      else if c = CHR ''t'' then o1\<lparr>ln_dm_timeout := word_of_int (atoi a)\<rparr>
      else if c = CHR ''m'' then o1\<lparr>po_am_ior := a\<rparr>
      else if c = CHR ''i'' then o1\<lparr>po_app_ior := a\<rparr>
      else if c = CHR ''d'' then o1\<lparr>ln_deployment_nc := a\<rparr>
      else if c = CHR ''c'' then o1\<lparr>ln_config := a\<rparr>
      else if c = CHR ''a'' then o1\<lparr>ln_dm_addr := a\<rparr>
      else if c = CHR ''p'' then o1\<lparr>ln_dm_port := word_of_int (atoi a)\<rparr>
      else if c = CHR ''l'' then o1\<lparr>po_plan_file := a\<rparr>
      else if c = CHR ''f'' then o1\<lparr>po_plan_fmt := a\<rparr>
      else if c = CHR ''u'' then o1\<lparr>po_plan_uuid := a\<rparr>
      else o1)"

text \<open>As for the manager, without the switches for an endpoint.\<close>

function launcher_args ::
  "string list \<Rightarrow> nat \<Rightarrow> got list \<Rightarrow> int \<Rightarrow> launcher_options \<Rightarrow> (bool \<times> launcher_options) option" where
  "launcher_args argv fin gs plan_ind o1 =
     (case gs of
        [] \<Rightarrow> Some (True, o1)
      | g # gs1 \<Rightarrow>
          (case g of
             Got c a i \<Rightarrow>
               if c = CHR ''h'' then Some (False, o1)
               else if c = CHR ''x'' then
                 (case a of
                    Some f \<Rightarrow> launcher_args argv fin gs1 plan_ind (o1\<lparr>ln_teardown := True, po_plan_file := f\<rparr>)
                  | None \<Rightarrow> launcher_args argv fin gs1 (int i) (o1\<lparr>ln_teardown := True\<rparr>))
               else launcher_args argv fin gs1 plan_ind (set_launcher_option c (arg_text a) o1)
           | Got_Long name a i \<Rightarrow>
               launcher_args argv fin gs1 plan_ind (if name = ''force'' then o1\<lparr>po_force := True\<rparr> else o1)
           | Got_Arg a i \<Rightarrow>
               launcher_args argv fin gs1 plan_ind
                 (if plan_ind + 1 = int i then o1\<lparr>po_plan_file := a\<rparr>
                  else o1\<lparr>ln_other_opts := ln_other_opts o1 @ [a]\<rparr>)
           | Got_Unknown i \<Rightarrow>
               if length argv \<le> i then None
               else (case skip_switch i fin gs1 of
                  None \<Rightarrow> None
                | Some gs2 \<Rightarrow>
                    launcher_args argv fin gs2 plan_ind (o1\<lparr>ln_other_opts := ln_other_opts o1 @ [argv ! i]\<rparr>))))"
  by pat_completeness auto
termination
  by (relation "measure (\<lambda>(_, _, gs, _, _). length gs)") (auto dest: skip_switch_shorter)

declare launcher_args.simps [simp del]

definition launcher_orb_args :: "launcher_options \<Rightarrow> string \<Rightarrow> string list" where
  "launcher_orb_args o1 argv0 = argv0 # ln_other_opts o1"

section \<open>Finding the manager\<close>

text \<open>The ORB of a launcher also narrows to the interfaces of managers, and time passes.\<close>

record 'w launcher_orb = "'w orb_api" +
  li_manager :: "nat \<Rightarrow> 'w \<Rightarrow> exn + nat option"
  li_is_execution :: "nat \<Rightarrow> 'w \<Rightarrow> exn + bool"
  li_is_node :: "nat \<Rightarrow> 'w \<Rightarrow> exn + bool"
  li_now :: "'w \<Rightarrow> nat"
  li_pass :: "'w \<Rightarrow> 'w"
  li_sleep :: "'w \<Rightarrow> 'w"

definition catch_nil :: "exn + nat option \<Rightarrow> exn + nat option" where
  "catch_nil r = (case r of Inl e \<Rightarrow> if is_corba e then Inr None else Inl e | Inr x \<Rightarrow> Inr x)"

definition svc_kinds :: "string list" where
  "svc_kinds = [''DomainManager'', ''NodeManager'', ''LocalityManager'']"

text \<open>
  By name: for each kind the port, then the naming context, which is kept once it was found. The result has the
  object with its kind and the context.
\<close>

definition kind_by_port :: "('w, 'z) orb_api_scheme \<Rightarrow> launcher_options \<Rightarrow> string \<Rightarrow> string \<Rightarrow> 'w \<Rightarrow> exn + nat option" where
  "kind_by_port oi o1 oid kind w =
     (if 0 < ln_dm_port o1
      then catch_nil (oi_object oi (corbaloc (ln_dm_addr o1) (ln_dm_port o1) (oid @ ''.'' @ kind)) w)
      else Inr None)"

definition kept_context ::
  "('w, 'z) orb_api_scheme \<Rightarrow> launcher_options \<Rightarrow> nat option \<Rightarrow> 'w \<Rightarrow> exn + nat option" where
  "kept_context oi o1 nc w =
     (case nc of
        Some c \<Rightarrow> Inr (Some c)
      | None \<Rightarrow> catch_nil (find_context (orb_api.truncate oi) (ln_deployment_nc o1) w))"

fun find_kind ::
  "('w, 'z) orb_api_scheme \<Rightarrow> launcher_options \<Rightarrow> string \<Rightarrow> string list \<Rightarrow> nat option \<Rightarrow> 'w \<Rightarrow>
    exn + (nat \<times> string) option \<times> nat option" where
  "find_kind oi o1 oid [] nc w = Inr (None, nc)"
| "find_kind oi o1 oid (kind # kinds) nc w =
     (case kind_by_port oi o1 oid kind w of
        Inl e \<Rightarrow> Inl e
      | Inr (Some r) \<Rightarrow> Inr (Some (r, kind), nc)
      | Inr None \<Rightarrow>
          if ln_deployment_nc o1 = [] then find_kind oi o1 oid kinds nc w
          else (case kept_context oi o1 nc w of
             Inl e \<Rightarrow> Inl e
           | Inr None \<Rightarrow> find_kind oi o1 oid kinds None w
           | Inr (Some c) \<Rightarrow>
               (case catch_nil (oi_resolve oi c (oid, kind) w) of
                  Inl e \<Rightarrow> Inl e
                | Inr (Some r) \<Rightarrow> Inr (Some (r, kind), Some c)
                | Inr None \<Rightarrow> find_kind oi o1 oid kinds (Some c) w)))"

text \<open>One round; the kind of an earlier round stays when this one finds no name.\<close>

definition resolve_round ::
  "'w launcher_orb \<Rightarrow> launcher_options \<Rightarrow> string \<Rightarrow> string \<times> nat option \<Rightarrow> 'w \<Rightarrow>
    exn + nat option \<times> string \<times> nat option" where
  "resolve_round li o1 oid s w =
     (case (if ln_dm_ior o1 = [] then Inr None else catch_nil (oi_object li (ln_dm_ior o1) w)) of
        Inl e \<Rightarrow> Inl e
      | Inr x \<Rightarrow>
          (case (case x of
              Some r \<Rightarrow> Inr (Some (r, fst s), snd s)
            | None \<Rightarrow> find_kind li o1 oid svc_kinds (snd s) w) of
             Inl e \<Rightarrow> Inl e
           | Inr (None, nc) \<Rightarrow> Inr (None, fst s, nc)
           | Inr (Some (r, kind), nc) \<Rightarrow>
               (case li_manager li r w of
                  Inl e \<Rightarrow> Inl e
                | Inr dm \<Rightarrow> Inr (dm, kind, nc))))"

text \<open>Rounds until a manager is found or the time is over; None is a clock that does not move.\<close>

partial_function (option) resolve_loop ::
  "'w launcher_orb \<Rightarrow> launcher_options \<Rightarrow> string \<Rightarrow> nat \<Rightarrow> string \<times> nat option \<Rightarrow> 'w \<Rightarrow>
    ((exn + nat option \<times> string) \<times> 'w) option" where
  "resolve_loop li o1 oid timeout s w =
     (case resolve_round li o1 oid s w of
        Inl e \<Rightarrow> Some (Inl e, w)
      | Inr (Some dm, kind, nc) \<Rightarrow> Some (Inr (Some dm, kind), w)
      | Inr (None, kind, nc) \<Rightarrow>
          (let w1 = li_pass li w;
               w2 = (if li_now li w1 < timeout then li_sleep li w1 else w1) in
           if li_now li w2 < timeout then resolve_loop li o1 oid timeout (kind, nc) w2
           else Some (Inr (None, kind), w2)))"

definition kind_of_manager :: "'w launcher_orb \<Rightarrow> nat \<Rightarrow> 'w \<Rightarrow> exn + string" where
  "kind_of_manager li dm w =
     (case li_is_execution li dm w of
        Inl e \<Rightarrow> Inl e
      | Inr True \<Rightarrow> Inr ''DomainManager''
      | Inr False \<Rightarrow>
          (case li_is_node li dm w of
             Inl e \<Rightarrow> Inl e
           | Inr True \<Rightarrow> Inr ''NodeManager''
           | Inr False \<Rightarrow> Inr ''LocalityManager''))"

definition resolve_manager ::
  "'w launcher_orb \<Rightarrow> launcher_options \<Rightarrow> 'w \<Rightarrow> ((exn + (nat \<times> string) option) \<times> 'w) option" where
  "resolve_manager li o1 w =
     (case resolve_loop li o1 (object_id (ln_dm_name o1)) (li_now li w + unat (ln_dm_timeout o1)) ([], None) w of
        None \<Rightarrow> None
      | Some (Inl e, w1) \<Rightarrow> Some (Inl e, w1)
      | Some (Inr (None, kind), w1) \<Rightarrow> Some (Inr None, w1)
      | Some (Inr (Some dm, kind), w1) \<Rightarrow>
          if kind \<noteq> [] then Some (Inr (Some (dm, kind)), w1)
          else (case kind_of_manager li dm w1 of
             Inl e \<Rightarrow> Some (if is_corba e then Inr (Some (dm, [])) else Inl e, w1)
           | Inr k \<Rightarrow> Some (Inr (Some (dm, k)), w1)))"

section \<open>The launcher\<close>

record ('p, 'd, 'w) launcher_env =
  le_orb :: "'w launcher_orb"
  le_plugins :: "('p, 'd) plugin_env"
  le_config :: "'d env"
  le_files :: "'w \<Rightarrow> files"
  le_root :: "string option"
  le_loaders :: "'w \<Rightarrow> 'd loaders"
  le_initialize :: "string list \<Rightarrow> 'w \<Rightarrow> 'w"
  le_orb_init :: "'w \<Rightarrow> exn option \<times> 'w"
  le_launch :: "nat \<Rightarrow> ('d, 'w) launch_env"

text \<open>A configuration that cannot be read is not fatal as an exception, unlike for the other tools.\<close>

definition launcher_configure ::
  "('p, 'd, 'w) launcher_env \<Rightarrow> launcher_options \<Rightarrow> 'w \<Rightarrow> exn + ('p, 'd) manager option" where
  "launcher_configure le o1 w =
     (let fs = le_files le w;
          cfg_file = find_config (le_config le) fs (le_root le) ''plan_launcher.config'' (ln_config o1) in
      case load_plugins_config (le_config le) cfg_file (fs cfg_file) new_plan of
        (False, _) \<Rightarrow> Inr None
      | (True, plan) \<Rightarrow>
          (case load_from_plan (le_plugins le) (default_shlib_mode (le_config le)) plan new_manager of
             (Some e, _) \<Rightarrow> Inl e
           | (None, pm) \<Rightarrow> Inr (Some pm)))"

definition launcher_init ::
  "('p, 'd, 'w) launcher_env \<Rightarrow> string list \<Rightarrow> launcher_options \<Rightarrow> 'w \<Rightarrow> ((exn + (nat \<times> string) option) \<times> 'w) option" where
  "launcher_init le argv o1 w =
     (let w1 = le_initialize le (launcher_orb_args o1 (hd argv)) w in
      map_option (\<lambda>(r, w'). (case r of Inl e \<Rightarrow> if is_corba e then Inr None else Inl e | Inr x \<Rightarrow> Inr x, w'))
        (case launcher_configure le o1 w1 of
           Inl e \<Rightarrow> Some (Inl e, w1)
         | Inr None \<Rightarrow> Some (Inr None, w1)
         | Inr (Some _) \<Rightarrow>
             (case le_orb_init le w1 of
                (Some e, w2) \<Rightarrow> Some (Inl e, w2)
              | (None, w2) \<Rightarrow> resolve_manager (le_orb le) o1 w2)))"

definition launcher_run ::
  "('p, 'd, 'w) launcher_env \<Rightarrow> launcher_options \<Rightarrow> nat \<times> string \<Rightarrow> 'w \<Rightarrow> ((exn + bool) \<times> 'w) option" where
  "launcher_run le o1 dm w =
     (let lv = le_launch le (fst dm); opts = plan_options.truncate o1 in
      if ln_teardown o1 then
        (case (if po_plan_file opts = [] then Some (po_plan_uuid opts)
               else (case read_plan (le_loaders le w) (po_plan_file opts) new_plan (po_plan_fmt opts) of
                  (False, _) \<Rightarrow> None
                | (True, plan) \<Rightarrow> Some (pl_UUID plan))) of
           None \<Rightarrow> Some (Inr False, w)
         | Some uuid \<Rightarrow>
             if uuid = [] then Some (Inr False, w) else teardown_plan lv (opts\<lparr>po_plan_uuid := uuid\<rparr>) (snd dm) w)
      else Some (launch_plan lv opts (snd dm) w))"

definition launcher_main ::
  "('p, 'd, 'w) launcher_env \<Rightarrow> string list \<Rightarrow> nat \<Rightarrow> got list \<Rightarrow> 'w \<Rightarrow> (int \<times> 'w) option" where
  "launcher_main le argv fin gs w =
     (case launcher_args argv fin gs (- 1) new_launcher_options of
        None \<Rightarrow> None
      | Some (False, _) \<Rightarrow> Some (1, w)
      | Some (True, o1) \<Rightarrow>
          (case launcher_init le argv o1 w of
             None \<Rightarrow> None
           | Some (Inr (Some dm), w1) \<Rightarrow>
               map_option (\<lambda>(r, w2). (if r = Inr True then 0 else 1, w2)) (launcher_run le o1 dm w1)
           | Some (_, w1) \<Rightarrow> Some (1, w1)))"

section \<open>Properties\<close>

text \<open>Kinds that are not bound raise, and are passed over.\<close>

lemma kinds_before:
  assumes "ln_dm_port o1 = 0" "ln_deployment_nc o1 \<noteq> []"
    and "\<forall>k \<in> set ks. \<exists>e. oi_resolve oi c (oid, k) w = Inl e \<and> is_corba e"
    and "kept_context oi o1 nc w = Inr (Some c)" "ks = [] \<Longrightarrow> nc' = nc" "ks \<noteq> [] \<Longrightarrow> nc' = Some c"
  shows "find_kind oi o1 oid (ks @ kinds) nc w = find_kind oi o1 oid kinds nc' w"
  using assms
proof (induction ks arbitrary: nc)
  case (Cons k ks)
  have "find_kind oi o1 oid (ks @ kinds) (Some c) w = find_kind oi o1 oid kinds nc' w"
    using Cons.prems by (intro Cons.IH) (auto simp: kept_context_def)
  with Cons.prems show ?case by (auto simp: kind_by_port_def catch_nil_def)
qed simp

text \<open>
  C13. A manager that is registered in the naming context under the type of its handler is found there by a
  launcher with the same name and context, in the first round and with its kind, when no manager of another
  kind has the name.
\<close>

theorem launcher_finds_registered:
  assumes law: "naming_law (orb_api.truncate li)"
    and nc: "find_context (orb_api.truncate li) (ln_deployment_nc o1) w = Inr (Some c)" "ln_deployment_nc o1 \<noteq> []"
    and bound: "oi_rebind li c (object_id (ln_dm_name o1), kind) (Some r) w = (None, w')"
    and kind: "kind \<in> set svc_kinds"
    and other: "\<forall>k. k \<noteq> kind \<longrightarrow> oi_resolve li c (object_id (ln_dm_name o1), k) w = Inl e" "is_corba e"
    and opts: "ln_dm_ior o1 = []" "ln_dm_port o1 = 0" and dm: "li_manager li r w' = Inr (Some dm)"
  shows "resolve_manager li o1 w' = Some (Inr (Some (dm, kind)), w')"
proof -
  let ?oid = "object_id (ln_dm_name o1)"
  have bound': "oi_rebind (orb_api.truncate li) c (?oid, kind) (Some r) w = (None, w')"
    using bound by (simp add: orb_api.truncate_def)
  note D = namingD [OF law bound']
  have here: "oi_resolve li c (?oid, kind) w' = Inr (Some r)"
    using D(1) by (simp add: orb_api.truncate_def)
  have apart: "oi_resolve li c (?oid, k) w' = Inl e" if "k \<noteq> kind" for k
    using D(2) [of "(?oid, k)"] that other(1) by (simp add: orb_api.truncate_def)
  have ctx: "kept_context li o1 nc' w' = Inr (Some c)" if "nc' = None \<or> nc' = Some c" for nc'
    using that nc(1) D(3,4) by (auto simp: kept_context_def catch_nil_def find_context_def split: sum.splits option.splits)
  obtain ks ks' where ks: "svc_kinds = ks @ kind # ks'" "kind \<notin> set ks"
    using kind by (meson split_list_first)
  have "find_kind li o1 ?oid (ks @ kind # ks') None w' =
      find_kind li o1 ?oid (kind # ks') (if ks = [] then None else Some c) w'"
  proof (intro kinds_before [where c = c])
    show "\<forall>k \<in> set ks. \<exists>e. oi_resolve li c (?oid, k) w' = Inl e \<and> is_corba e"
      using apart ks(2) other(2) by metis
  qed (simp_all add: opts nc(2) ctx)
  also have "\<dots> = Inr (Some (r, kind), Some c)"
    by (simp add: kind_by_port_def opts nc(2) ctx here catch_nil_def)
  finally have "resolve_round li o1 ?oid ([], None) w' = Inr (Some dm, kind, Some c)"
    by (simp add: resolve_round_def ks(1) opts dm)
  moreover have "kind \<noteq> []" using kind by (auto simp: svc_kinds_def)
  ultimately show ?thesis
    by (simp add: resolve_manager_def resolve_loop.simps)
qed

text \<open>
  C27. By a port only a domain manager is found: a reference by a port is not nil before it is used, so the
  launcher takes the first kind, and that using it raises ends the search in the first round, whatever the
  timeout is and whatever else is at the port or in the naming context.
\<close>

theorem port_finds_domain_only:
  assumes "ln_dm_ior o1 = []" "0 < ln_dm_port o1"
    and "oi_object li (corbaloc (ln_dm_addr o1) (ln_dm_port o1) (object_id (ln_dm_name o1) @ ''.DomainManager'')) w = Inr (Some r)"
    and "li_manager li r w = Inl e" "is_corba e"
  shows "resolve_manager li o1 w = Some (Inl e, w)
    \<and> (launcher_configure le o1 w = Inr (Some pm) \<and> le_orb le = li \<and> le_orb_init le w = (None, w) \<and>
        le_initialize le (launcher_orb_args o1 (hd argv)) w = w \<longrightarrow> launcher_init le argv o1 w = Some (Inr None, w))"
proof -
  have "find_kind li o1 (object_id (ln_dm_name o1)) svc_kinds None w = Inr (Some (r, ''DomainManager''), None)"
    using assms(2,3) by (simp add: svc_kinds_def kind_by_port_def catch_nil_def)
  then have "resolve_round li o1 (object_id (ln_dm_name o1)) ([], None) w = Inl e"
    using assms(1,4) by (simp add: resolve_round_def)
  then have "resolve_manager li o1 w = Some (Inl e, w)"
    by (simp add: resolve_manager_def resolve_loop.simps)
  with assms(5) show ?thesis by (auto simp: launcher_init_def Let_def)
qed


section \<open>Concrete inputs\<close>

definition demo_launcher_orb :: "exn + nat option \<Rightarrow> ((string \<times> string) \<times> nat) list launcher_orb" where
  "demo_launcher_orb dm = orb_api.extend demo_orb
     (launcher_orb.fields (\<lambda>r w. dm) (\<lambda>r w. Inr False) (\<lambda>r w. Inr True) (\<lambda>w. 0) id id)"

lemma demo_launcher_simps:
  "orb_api.truncate (demo_launcher_orb dm) = demo_orb" "oi_object (demo_launcher_orb dm) = oi_object demo_orb"
  "oi_rebind (demo_launcher_orb dm) = oi_rebind demo_orb" "oi_resolve (demo_launcher_orb dm) = oi_resolve demo_orb"
  "li_manager (demo_launcher_orb dm) = (\<lambda>r w. dm)"
  by (simp_all add: demo_launcher_orb_def orb_api.defs launcher_orb.defs demo_orb_def)

abbreviation "demo_launcher_options \<equiv> new_launcher_options\<lparr>ln_dm_name := ''N'', ln_deployment_nc := ''nc''\<rparr>"

theorem launcher_finds_registered_witness:
  "resolve_manager (demo_launcher_orb (Inr (Some 8))) demo_launcher_options [((''N'', ''NodeManager''), 7)] =
    Some (Inr (Some (8, ''NodeManager'')), [((''N'', ''NodeManager''), 7)])"
  by (rule launcher_finds_registered [where w = "[]" and c = 9 and r = 7 and e = "OtherUser ''NotFound''"])
    (simp_all add: demo_launcher_simps demo_orb_law, simp_all add: demo_orb_def find_context_def new_launcher_options_def
      object_id_def svc_kinds_def)

theorem port_finds_domain_only_witness:
  "resolve_manager (demo_launcher_orb (Inl (SysEx ''OBJECT_NOT_EXIST''))) (demo_launcher_options\<lparr>ln_dm_port := 60001\<rparr>)
      [((''N'', ''NodeManager''), 7)] = Some (Inl (SysEx ''OBJECT_NOT_EXIST''), [((''N'', ''NodeManager''), 7)])"
  by (rule port_finds_domain_only [where r = 0, THEN conjunct1])
    (simp_all add: demo_launcher_simps demo_orb_def new_launcher_options_def word_less_nat_alt)

end
