(* ===== verification/Xml_Values.thy ===== *)
theory Xml_Values
  imports Deployment_Data
begin

text \<open>
  Values of properties in XML files: tools/config_handlers/dynany_handler, which builds the DynAny that a
  data type and a data value describe, and tools/config_handlers/any_handler.cpp, which turns it into an
  Any. The classes of the parsed XML are \<open>data_type\<close>, with its parts as far as they are present, and
  \<open>data_value\<close>, the lists of the elements of each kind. The ORB with its type codes and DynAnys is the
  parameter \<open>dyn_orb\<close>; a call on a reference that narrowing left nil is part of what such an operation
  does. Dereferencing a part that is absent is \<open>Invalid_Access\<close>.
\<close>

section \<open>Operations that may raise\<close>

datatype xml_exn =
    Config_Error (ce_name: string) (ce_error: string)
  | Invalid_Value string
  | Corba_Error string
  | Other_Error

datatype xml_failure = Thrown xml_exn | Invalid_Access

type_synonym ('s, 'x) xml_op = "'s \<Rightarrow> (xml_failure + 'x) \<times> 's"

definition ret :: "'x \<Rightarrow> ('s, 'x) xml_op" where
  "ret x s = (Inr x, s)"

definition throw :: "xml_exn \<Rightarrow> ('s, 'x) xml_op" where
  "throw e s = (Inl (Thrown e), s)"

definition access_failure :: "('s, 'x) xml_op" where
  "access_failure s = (Inl Invalid_Access, s)"

definition after :: "('s, 'x) xml_op \<Rightarrow> ('x \<Rightarrow> ('s, 'y) xml_op) \<Rightarrow> ('s, 'y) xml_op" where
  "after m f s = (case m s of (Inl e, s') \<Rightarrow> (Inl e, s') | (Inr x, s') \<Rightarrow> f x s')"

definition catch_in :: "(xml_exn \<Rightarrow> ('s, 'x) xml_op) \<Rightarrow> ('s, 'x) xml_op \<Rightarrow> ('s, 'x) xml_op" where
  "catch_in h m s = (case m s of (Inl (Thrown e), s') \<Rightarrow> h e s' | r \<Rightarrow> r)"

definition call :: "xml_exn + 'x \<Rightarrow> ('s, 'x) xml_op" where
  "call r s = (case r of Inl e \<Rightarrow> (Inl (Thrown e), s) | Inr x \<Rightarrow> (Inr x, s))"

definition deref :: "'x option \<Rightarrow> ('s, 'x) xml_op" where
  "deref p s = (case p of None \<Rightarrow> (Inl Invalid_Access, s) | Some x \<Rightarrow> (Inr x, s))"

fun each :: "('x \<Rightarrow> ('s, 'y) xml_op) \<Rightarrow> 'x list \<Rightarrow> ('s, 'y list) xml_op" where
  "each f [] = ret []"
| "each f (x # xs) = after (f x) (\<lambda>y. after (each f xs) (\<lambda>ys. ret (y # ys)))"

lemma after_cong [fundef_cong]: "m = m' \<Longrightarrow> (\<And>x. f x = f' x) \<Longrightarrow> after m f = after m' f'"
  by (metis ext)

lemma each_cong [fundef_cong]: "xs = ys \<Longrightarrow> (\<And>x. x \<in> set ys \<Longrightarrow> f x = g x) \<Longrightarrow> each f xs = each g ys"
  by (induction ys arbitrary: xs) auto

section \<open>Data types and values\<close>

text \<open>
  The parts of a data type: enum, struct, sequence, alias and array with their names, type ids and element
  types, and the bounds of a bounded string. Of a value, the elements of each kind.
\<close>

datatype data_type = Data_Type
  (dt_kind: tc_kind)
  (dt_enum: "(string \<times> string \<times> string list) option")
  (dt_struct: "(string \<times> string \<times> (string \<times> data_type) list) option")
  (dt_sequence: "(32 word option \<times> data_type) option")
  (dt_alias: "(string \<times> string \<times> data_type) option")
  (dt_array: "(32 word \<times> data_type) option")
  (dt_string: "32 word list option")

datatype 'd data_value = Data_Value
  (dv_short: "16 word list") (dv_long: "32 word list")
  (dv_ushort: "16 word list") (dv_ulong: "32 word list")
  (dv_float: "'d list") (dv_double: "'d list")
  (dv_boolean: "bool list") (dv_octet: "8 word list")
  (dv_enum: "string list") (dv_string: "string list")
  (dv_longlong: "64 word list") (dv_ulonglong: "64 word list")
  (dv_element: "'d data_value list") (dv_member: "(string \<times> 'd data_value) list")

definition basic_type :: "tc_kind \<Rightarrow> data_type" where
  "basic_type k = Data_Type k None None None None None None"

text \<open>
  Type codes and DynAnys of the ORB. \<open>do_basic_tc\<close> are the constants of CORBA, None is a nil type code. A
  DynAny is changed by its operations, so they return it.
\<close>

record ('t, 'a, 'd) dyn_orb =
  do_resolve :: "xml_exn + bool"
  do_zero :: 'd
  do_basic_tc :: "tc_kind \<Rightarrow> 't"
  do_string_tc :: "32 word \<Rightarrow> xml_exn + 't"
  do_enum_tc :: "string \<Rightarrow> string \<Rightarrow> string list \<Rightarrow> xml_exn + 't"
  do_struct_tc :: "string \<Rightarrow> string \<Rightarrow> (string \<times> 't option) list \<Rightarrow> xml_exn + 't"
  do_sequence_tc :: "32 word \<Rightarrow> 't option \<Rightarrow> xml_exn + 't"
  do_array_tc :: "32 word \<Rightarrow> 't option \<Rightarrow> xml_exn + 't"
  do_alias_tc :: "string \<Rightarrow> string \<Rightarrow> 't option \<Rightarrow> xml_exn + 't"
  do_create :: "'t option \<Rightarrow> xml_exn + 'a"
  do_insert :: "'d prim \<Rightarrow> 'a \<Rightarrow> xml_exn + 'a"
  do_insert_wchar :: "int \<Rightarrow> 'a \<Rightarrow> xml_exn + 'a"
  do_set_enum :: "string \<Rightarrow> 'a \<Rightarrow> xml_exn + 'a"
  do_set_length :: "32 word \<Rightarrow> 'a \<Rightarrow> xml_exn + 'a"
  do_set_sequence :: "'a list \<Rightarrow> 'a \<Rightarrow> xml_exn + 'a"
  do_set_array :: "'a list \<Rightarrow> 'a \<Rightarrow> xml_exn + 'a"
  do_set_members :: "(string \<times> 'a) list \<Rightarrow> 'a \<Rightarrow> xml_exn + 'a"
  do_copy :: "'a \<Rightarrow> xml_exn + 'a"
  do_to_any :: "'a \<Rightarrow> xml_exn + 'd any"
  do_destroy :: "'a \<Rightarrow> xml_exn + unit"

text \<open>The state of the handler: the type codes registered by their type id.\<close>

type_synonym 't typecodes = "(string, 't option) smap"

definition register_typecode :: "string \<Rightarrow> 't option \<Rightarrow> ('t typecodes, unit) xml_op" where
  "register_typecode tid tc tcs = (Inr (), map_put tid tc tcs)"

text \<open>Looking up an id with the index operator enters it with a nil type code.\<close>

definition get_typecode :: "string \<Rightarrow> ('t typecodes, 't option) xml_op" where
  "get_typecode tid tcs =
     (case map_get tcs tid of Some tc \<Rightarrow> (Inr tc, tcs) | None \<Rightarrow> (Inr None, map_put tid None tcs))"

section \<open>Type codes\<close>

definition string_typecode :: "('t, 'a, 'd) dyn_orb \<Rightarrow> data_type \<Rightarrow> ('t typecodes, 't option) xml_op" where
  "string_typecode D t =
     (if dt_kind t \<noteq> TK_string then throw (Config_Error [] ''Expected <string> element, incorrect tc_kind.'')
      else
        let bound = (case dt_string t of Some (b # _) \<Rightarrow> b | _ \<Rightarrow> 0) in
        after (call (do_string_tc D bound)) (\<lambda>tc. ret (Some tc)))"

definition enum_typecode :: "('t, 'a, 'd) dyn_orb \<Rightarrow> data_type \<Rightarrow> ('t typecodes, 't option) xml_op" where
  "enum_typecode D t =
     (case dt_enum t of
        None \<Rightarrow> throw (Config_Error [] ''Did not find expected enum type description,tk_kind may be wrong.'')
      | Some (name, tid, ms) \<Rightarrow>
          after (call (do_enum_tc D tid name ms)) (\<lambda>tc.
          after (register_typecode tid (Some tc)) (\<lambda>_. ret (Some tc))))"

definition struct_typecode ::
  "('t, 'a, 'd) dyn_orb \<Rightarrow> data_type \<Rightarrow> ('t typecodes, (string \<times> 't option) list) xml_op \<Rightarrow> ('t typecodes, 't option) xml_op" where
  "struct_typecode D t members =
     (case dt_struct t of
        None \<Rightarrow> throw (Config_Error [] ''Expected struct type information, tc_kind may beincorrect'')
      | Some (name, tid, _) \<Rightarrow>
          after members (\<lambda>ms.
          after (call (do_struct_tc D tid name ms)) (\<lambda>tc.
          after (register_typecode tid (Some tc)) (\<lambda>_. ret (Some tc)))))"

definition sequence_typecode ::
  "('t, 'a, 'd) dyn_orb \<Rightarrow> data_type \<Rightarrow> ('t typecodes, 't option) xml_op \<Rightarrow> ('t typecodes, 't option) xml_op" where
  "sequence_typecode D t element =
     (case dt_sequence t of
        None \<Rightarrow> throw (Config_Error [] ''Expected <sequence> element, incorrect tc_kind.'')
      | Some (bound, _) \<Rightarrow>
          after element (\<lambda>etc.
          after (call (do_sequence_tc D (case bound of None \<Rightarrow> 0 | Some b \<Rightarrow> b) etc)) (\<lambda>tc. ret (Some tc))))"

definition array_typecode ::
  "('t, 'a, 'd) dyn_orb \<Rightarrow> data_type \<Rightarrow> ('t typecodes, 't option) xml_op \<Rightarrow> ('t typecodes, 't option) xml_op" where
  "array_typecode D t element =
     (case dt_array t of
        None \<Rightarrow> throw (Config_Error [] ''Expected <array> element, incorrect tc_kind.'')
      | Some (len, _) \<Rightarrow>
          after element (\<lambda>etc. after (call (do_array_tc D len etc)) (\<lambda>tc. ret (Some tc))))"

definition alias_typecode ::
  "('t, 'a, 'd) dyn_orb \<Rightarrow> data_type \<Rightarrow> ('t typecodes, 't option) xml_op \<Rightarrow> ('t typecodes, 't option) xml_op" where
  "alias_typecode D t element =
     (case dt_alias t of
        None \<Rightarrow> throw (Config_Error [] ''Did not find expected alias type description, tk_kind may be wrong.'')
      | Some (name, tid, _) \<Rightarrow>
          after element (\<lambda>etc.
          after (call (do_alias_tc D tid name etc)) (\<lambda>tc.
          after (register_typecode tid (Some tc)) (\<lambda>_. ret (Some tc)))))"

text \<open>The part of a type that its type code needs as well: the members of a struct, the element type.\<close>

definition struct_members :: "data_type \<Rightarrow> (string \<times> data_type) list" where
  "struct_members t = (case dt_struct t of None \<Rightarrow> [] | Some (_, _, ms) \<Rightarrow> ms)"

definition sequence_element :: "data_type \<Rightarrow> data_type option" where
  "sequence_element t = map_option snd (dt_sequence t)"

definition array_element :: "data_type \<Rightarrow> data_type option" where
  "array_element t = map_option snd (dt_array t)"

definition alias_element :: "data_type \<Rightarrow> data_type option" where
  "alias_element t = map_option (\<lambda>(_, _, e). e) (dt_alias t)"

lemma size_members:
  assumes "(n, m) \<in> set (struct_members t)"
  shows "size m < size t"
proof -
  obtain a b ms where ms: "dt_struct t = Some (a, b, ms)" "(n, m) \<in> set ms"
    using assms that by (cases "dt_struct t") (auto simp: struct_members_def)
  have "size m \<le> size_list (size_prod (\<lambda>_. 0) size) ms"
    by (rule size_list_estimation' [OF ms(2)]) simp
  then show ?thesis using ms(1) by (cases t) auto
qed

lemma size_elements:
  "sequence_element t = Some e \<Longrightarrow> size e < size t"
  "array_element t = Some e \<Longrightarrow> size e < size t"
  "alias_element t = Some e \<Longrightarrow> size e < size t"
  by (cases t; auto simp: sequence_element_def array_element_def alias_element_def)+

function create_typecode :: "('t, 'a, 'd) dyn_orb \<Rightarrow> data_type \<Rightarrow> ('t typecodes, 't option) xml_op" where
  "create_typecode D t =
     (case dt_kind t of
        TK_null \<Rightarrow> throw (Config_Error [] ''Null or void types not supported'')
      | TK_void \<Rightarrow> throw (Config_Error [] ''Null or void types not supported'')
      | TK_string \<Rightarrow> string_typecode D t
      | TK_enum \<Rightarrow> enum_typecode D t
      | TK_struct \<Rightarrow>
          struct_typecode D t
            (each (\<lambda>(n, m). after (create_typecode D m) (\<lambda>tc. ret (n, tc))) (struct_members t))
      | TK_sequence \<Rightarrow>
          sequence_typecode D t (case sequence_element t of None \<Rightarrow> access_failure | Some e \<Rightarrow> create_typecode D e)
      | TK_alias \<Rightarrow>
          alias_typecode D t (case alias_element t of None \<Rightarrow> access_failure | Some e \<Rightarrow> create_typecode D e)
      | TK_array \<Rightarrow>
          array_typecode D t (case array_element t of None \<Rightarrow> access_failure | Some e \<Rightarrow> create_typecode D e)
      | TK_longdouble \<Rightarrow> ret None
      | TK_wstring \<Rightarrow> ret None
      | k \<Rightarrow>
          if k \<in> {TK_short, TK_long, TK_ushort, TK_ulong, TK_float, TK_double, TK_boolean, TK_char, TK_octet,
                   TK_longlong, TK_ulonglong, TK_wchar}
          then ret (Some (do_basic_tc D k))
          else throw (Config_Error [] ''Type not supported''))"
  by pat_completeness auto
termination
  by (relation "measure (\<lambda>(D, t). size t)") (auto dest: size_members size_elements)

declare create_typecode.simps [simp del]

section \<open>Values\<close>

text \<open>A value must not have elements of a basic kind other than that of its type.\<close>

definition mismatched :: "'d data_value \<Rightarrow> tc_kind \<Rightarrow> bool" where
  "mismatched v k \<longleftrightarrow>
     dv_short v \<noteq> [] \<and> k \<noteq> TK_short \<or>
     dv_long v \<noteq> [] \<and> k \<noteq> TK_long \<or>
     dv_ushort v \<noteq> [] \<and> k \<noteq> TK_ushort \<or>
     dv_ulong v \<noteq> [] \<and> k \<noteq> TK_ulong \<or>
     dv_float v \<noteq> [] \<and> k \<noteq> TK_float \<or>
     dv_double v \<noteq> [] \<and> k \<noteq> TK_double \<or>
     dv_boolean v \<noteq> [] \<and> k \<noteq> TK_boolean \<or>
     dv_octet v \<noteq> [] \<and> k \<noteq> TK_octet \<or>
     dv_longlong v \<noteq> [] \<and> k \<noteq> TK_longlong \<or>
     dv_ulonglong v \<noteq> [] \<and> k \<noteq> TK_ulonglong \<or>
     dv_string v \<noteq> [] \<and> \<not> (k = TK_string \<or> k = TK_char \<or> k = TK_wchar)"

definition first_or :: "'x \<Rightarrow> 'x list \<Rightarrow> 'x" where
  "first_or z xs = (case xs of [] \<Rightarrow> z | x # _ \<Rightarrow> x)"

text \<open>The character a C string starts with, which is NUL for an empty one; plain char is signed.\<close>

definition first_char :: "string list \<Rightarrow> char" where
  "first_char ss = first_or (CHR 0x00) (first_or [] ss)"

definition char_int :: "char \<Rightarrow> int" where
  "char_int c = sint (of_char c :: 8 word)"

text \<open>The DynAny of a basic type, which exists already when a type code was required.\<close>

definition basic_value ::
  "('t, 'a, 'd) dyn_orb \<Rightarrow> tc_kind \<Rightarrow> 'a option \<Rightarrow> ('a \<Rightarrow> xml_exn + 'a) \<Rightarrow> ('t typecodes, 'a) xml_op" where
  "basic_value D k made insert_value =
     after (case made of Some a \<Rightarrow> ret a | None \<Rightarrow> call (do_create D (Some (do_basic_tc D k))))
       (\<lambda>a. call (insert_value a))"

definition string_value ::
  "('t, 'a, 'd) dyn_orb \<Rightarrow> data_type \<Rightarrow> 'd data_value \<Rightarrow> 't option \<Rightarrow> ('t typecodes, 'a) xml_op" where
  "string_value D t v req =
     after (if req \<noteq> None then ret req else create_typecode D t) (\<lambda>tc.
     after (call (do_create D tc)) (\<lambda>a.
     call (do_insert D (VString (first_or [] (dv_string v))) a)))"

text \<open>
  Errors inside a value get the name of the type around it in front. The handlers of an exception look the
  name up themselves, in a part of the type that may be absent.
\<close>

definition add_name :: "string \<Rightarrow> string \<Rightarrow> string" where
  "add_name outer inner = outer @ '':'' @ inner"

definition named_errors :: "bool \<Rightarrow> string option \<Rightarrow> ('s, 'x) xml_op \<Rightarrow> ('s, 'x) xml_op" where
  "named_errors invalid_handled tid m =
     catch_in (\<lambda>e. case e of
         Config_Error n r \<Rightarrow> (case tid of Some i \<Rightarrow> throw (Config_Error (add_name i n) r) | None \<Rightarrow> throw e)
       | Invalid_Value _ \<Rightarrow>
           after (deref tid) (\<lambda>i. throw (Config_Error i
             (if invalid_handled then ''Invalid value provided in XML'' else ''Unknown exception'')))
       | _ \<Rightarrow> after (deref tid) (\<lambda>i. throw (Config_Error i ''Unknown exception''))) m"

definition enum_value ::
  "('t, 'a, 'd) dyn_orb \<Rightarrow> data_type \<Rightarrow> 'd data_value \<Rightarrow> 't option \<Rightarrow> ('t typecodes, 'a) xml_op" where
  "enum_value D t v req =
     named_errors True (map_option (\<lambda>(_, tid, _). tid) (dt_enum t))
       (after (if req \<noteq> None then ret req else create_typecode D t) (\<lambda>tc.
        after (call (do_create D tc)) (\<lambda>a.
        case dv_enum v of
          [] \<Rightarrow> access_failure
        | s # _ \<Rightarrow> call (do_set_enum D s a))))"

text \<open>Which kinds the elements of sequences and arrays can have; the first ones throw an int.\<close>

definition rejected_element :: "tc_kind \<Rightarrow> bool" where
  "rejected_element k \<longleftrightarrow> k \<in> {TK_null, TK_void, TK_objref, TK_fixed, TK_component, TK_home}"

definition supported_element :: "tc_kind \<Rightarrow> bool" where
  "supported_element k \<longleftrightarrow>
     k \<in> {TK_short, TK_long, TK_ushort, TK_ulong, TK_float, TK_double, TK_boolean, TK_octet, TK_string,
          TK_longlong, TK_ulonglong, TK_longdouble, TK_wstring, TK_enum, TK_struct, TK_sequence, TK_array}"

definition invalid_as :: "string \<Rightarrow> ('s, 'x) xml_op \<Rightarrow> ('s, 'x) xml_op" where
  "invalid_as reason m =
     catch_in (\<lambda>e. case e of Invalid_Value _ \<Rightarrow> throw (Config_Error [] reason) | _ \<Rightarrow> throw e) m"

text \<open>\<open>extract\<close> makes the DynAny of an element.\<close>

definition sequence_value ::
  "('t, 'a, 'd) dyn_orb \<Rightarrow> data_type \<Rightarrow> 'd data_value \<Rightarrow> 't option \<Rightarrow>
    ('d data_value \<Rightarrow> ('t typecodes, 'a) xml_op) \<Rightarrow> ('t typecodes, 'a) xml_op" where
  "sequence_value D t v req extract =
     after (if req \<noteq> None then ret req else create_typecode D t) (\<lambda>tc.
     after (call (do_create D tc)) (\<lambda>a.
     after (deref (sequence_element t)) (\<lambda>e.
       if rejected_element (dt_kind e) then throw Other_Error
       else if \<not> supported_element (dt_kind e) then throw (Config_Error [] ''Type not supported'')
       else invalid_as ''Invalid value whilst populating the sequence.''
         (after (call (do_set_length D (word_of_nat (length (dv_element v))) a)) (\<lambda>a1.
          after (each (\<lambda>x. after (extract x) (\<lambda>b. call (do_copy D b))) (dv_element v)) (\<lambda>bs.
          call (do_set_sequence D bs a1)))))))"

definition array_value ::
  "('t, 'a, 'd) dyn_orb \<Rightarrow> data_type \<Rightarrow> 'd data_value \<Rightarrow> 't option \<Rightarrow>
    ('d data_value \<Rightarrow> ('t typecodes, 'a) xml_op) \<Rightarrow> ('t typecodes, 'a) xml_op" where
  "array_value D t v req extract =
     after (if req \<noteq> None then ret req else create_typecode D t) (\<lambda>tc.
     after (call (do_create D tc)) (\<lambda>a.
     after (deref (array_element t)) (\<lambda>e.
       if rejected_element (dt_kind e) then throw Other_Error
       else if \<not> supported_element (dt_kind e) then throw (Config_Error [] ''Type not supported'')
       else invalid_as ''Invalid value while populating the array.''
         (after (each (\<lambda>x. after (extract x) (\<lambda>b. call (do_copy D b))) (dv_element v)) (\<lambda>bs.
          call (do_set_array D bs a))))))"

definition create_type_map :: "data_type \<Rightarrow> (string, data_type) smap" where
  "create_type_map t = fold (\<lambda>(n, m). map_put n m) (struct_members t) []"

definition struct_value ::
  "('t, 'a, 'd) dyn_orb \<Rightarrow> data_type \<Rightarrow> 't option \<Rightarrow> ('t typecodes, (string \<times> 'a) list) xml_op \<Rightarrow>
    ('t typecodes, 'a) xml_op" where
  "struct_value D t req values =
     named_errors False (map_option (\<lambda>(_, tid, _). tid) (dt_struct t))
       (after (if req \<noteq> None then ret req else create_typecode D t) (\<lambda>tc.
        after (deref (dt_struct t)) (\<lambda>_.
        after (call (do_create D tc)) (\<lambda>a.
        after values (\<lambda>vs. call (do_set_members D vs a))))))"

definition alias_value ::
  "('t, 'a, 'd) dyn_orb \<Rightarrow> data_type \<Rightarrow> 't option \<Rightarrow> ('t option \<Rightarrow> ('t typecodes, 'a) xml_op) \<Rightarrow>
    ('t typecodes, 'a) xml_op" where
  "alias_value D t req extract =
     named_errors True (map_option (\<lambda>(_, tid, _). tid) (dt_alias t))
       (after (if req \<noteq> None then ret req else create_typecode D t) (\<lambda>tc.
        after (deref (dt_alias t)) (\<lambda>_. extract tc)))"

lemma type_map_lookup: "map_get (create_type_map t) n = map_of (rev (struct_members t)) n"
  using smap.get_puts [OF smap.ok_empty, of "struct_members t" n]
  by (simp add: create_type_map_def split: option.splits)

lemma type_map_members: "map_get (create_type_map t) n = Some m \<Longrightarrow> (n, m) \<in> set (struct_members t)"
  unfolding type_map_lookup by (auto dest: map_of_SomeD)

function extract_into_dynany ::
  "('t, 'a, 'd) dyn_orb \<Rightarrow> data_type \<Rightarrow> 'd data_value \<Rightarrow> 't option \<Rightarrow> ('t typecodes, 'a) xml_op" where
  "extract_into_dynany D t v req =
     after (case req of None \<Rightarrow> ret None | Some _ \<Rightarrow> after (call (do_create D req)) (\<lambda>a. ret (Some a))) (\<lambda>made.
       if mismatched v (dt_kind t) then throw (Config_Error [] ''Wrong value type for data type'')
       else (case dt_kind t of
          TK_null \<Rightarrow> throw (Config_Error [] ''Null or void types not supported'')
        | TK_void \<Rightarrow> throw (Config_Error [] ''Null or void types not supported'')
        | TK_short \<Rightarrow> basic_value D TK_short made (do_insert D (VInt16 (first_or 0 (dv_short v))))
        | TK_long \<Rightarrow> basic_value D TK_long made (do_insert D (VInt32 (first_or 0 (dv_long v))))
        | TK_ushort \<Rightarrow> basic_value D TK_ushort made (do_insert D (VUInt16 (first_or 0 (dv_ushort v))))
        | TK_ulong \<Rightarrow> basic_value D TK_ulong made (do_insert D (VUInt32 (first_or 0 (dv_ulong v))))
        | TK_float \<Rightarrow> basic_value D TK_float made (do_insert D (VFloat (first_or (do_zero D) (dv_float v))))
        | TK_double \<Rightarrow> basic_value D TK_double made (do_insert D (VDouble (first_or (do_zero D) (dv_double v))))
        | TK_boolean \<Rightarrow> basic_value D TK_boolean made (do_insert D (VBool (first_or False (dv_boolean v))))
        | TK_octet \<Rightarrow> basic_value D TK_octet made (do_insert D (VOctet (first_or 0 (dv_octet v))))
        | TK_longlong \<Rightarrow> basic_value D TK_longlong made (do_insert D (VInt64 (first_or 0 (dv_longlong v))))
        | TK_ulonglong \<Rightarrow> basic_value D TK_ulonglong made (do_insert D (VUInt64 (first_or 0 (dv_ulonglong v))))
        | TK_char \<Rightarrow> basic_value D TK_char made (do_insert D (VChar (first_char (dv_string v))))
        | TK_wchar \<Rightarrow> basic_value D TK_wchar made (do_insert_wchar D (char_int (first_char (dv_string v))))
        | TK_string \<Rightarrow> string_value D t v req
        | TK_enum \<Rightarrow> enum_value D t v req
        | TK_sequence \<Rightarrow>
            (case sequence_element t of
               None \<Rightarrow> sequence_value D t v req (\<lambda>_. access_failure)
             | Some e \<Rightarrow> sequence_value D t v req (\<lambda>x. extract_into_dynany D e x None))
        | TK_struct \<Rightarrow>
            struct_value D t req
              (each (\<lambda>(n, x). case map_get (create_type_map t) n of
                   None \<Rightarrow> access_failure
                 | Some m \<Rightarrow> after (extract_into_dynany D m x None) (\<lambda>a. ret (n, a))) (dv_member v))
        | TK_alias \<Rightarrow>
            (case alias_element t of
               None \<Rightarrow> alias_value D t req (\<lambda>_. access_failure)
             | Some e \<Rightarrow> alias_value D t req (\<lambda>tc. extract_into_dynany D e v tc))
        | TK_array \<Rightarrow>
            (case array_element t of
               None \<Rightarrow> array_value D t v req (\<lambda>_. access_failure)
             | Some e \<Rightarrow> array_value D t v req (\<lambda>x. extract_into_dynany D e x None))
        | _ \<Rightarrow> throw (Config_Error [] ''Type not supported'')))"
  by pat_completeness auto
termination
  by (relation "measure (\<lambda>(D, t, v, req). size t)")
    (auto dest: size_members size_elements type_map_members)

declare extract_into_dynany.simps [simp del]

section \<open>Any values\<close>

text \<open>The handler is made when it is first used; making it is tried again after it raised.\<close>

type_synonym 't dyn_handler = "'t typecodes option"

definition get_instance :: "('t, 'a, 'd) dyn_orb \<Rightarrow> ('t dyn_handler, 't typecodes) xml_op" where
  "get_instance D h =
     (case h of
        Some tcs \<Rightarrow> (Inr tcs, h)
      | None \<Rightarrow>
          (case do_resolve D of
             Inl e \<Rightarrow> (Inl (Thrown e), None)
           | Inr False \<Rightarrow> (Inl (Thrown (Config_Error [] ''Unable to narrow DynAny factory'')), None)
           | Inr True \<Rightarrow> (Inr [], Some [])))"

definition with_typecodes :: "'t typecodes \<Rightarrow> ('t typecodes, 'x) xml_op \<Rightarrow> ('t dyn_handler, 'x) xml_op" where
  "with_typecodes tcs m h = (case m tcs of (r, tcs') \<Rightarrow> (r, Some tcs'))"

definition extract_into_any ::
  "('t, 'a, 'd) dyn_orb \<Rightarrow> data_type \<times> 'd data_value \<Rightarrow> ('t dyn_handler, 'd any) xml_op" where
  "extract_into_any D desc =
     catch_in (\<lambda>e. case e of
         Config_Error n r \<Rightarrow> throw e
       | Other_Error \<Rightarrow> throw (Config_Error [] ''Caught error whilst parsing XML into Any'')
       | _ \<Rightarrow> throw (Config_Error [] ''CORBA Exception while extracting into dynany''))
       (after (get_instance D) (\<lambda>tcs.
        after (with_typecodes tcs (extract_into_dynany D (fst desc) (snd desc) None)) (\<lambda>dyn.
        after (call (do_to_any D dyn)) (\<lambda>a.
        after (call (do_destroy D dyn)) (\<lambda>_. ret a)))))"

section \<open>No access to what is absent\<close>

definition no_access :: "('s, 'x) xml_op \<Rightarrow> bool" where
  "no_access m \<longleftrightarrow> (\<forall>s. fst (m s) \<noteq> Inl Invalid_Access)"

lemma no_access_simps [simp]:
  "no_access (ret x)" "no_access (throw e)" "no_access (call r)" "no_access (deref (Some x))"
  "no_access (register_typecode tid tc)"
  by (auto simp: no_access_def ret_def throw_def call_def deref_def register_typecode_def split: sum.splits)

lemma no_accessI: "(\<And>s r t. m s = (r, t) \<Longrightarrow> r \<noteq> Inl Invalid_Access) \<Longrightarrow> no_access m"
  unfolding no_access_def by (metis prod.collapse)

lemma no_accessD: "no_access m \<Longrightarrow> m s = (r, t) \<Longrightarrow> r \<noteq> Inl Invalid_Access"
  unfolding no_access_def by (metis fst_conv)

lemma no_access_after:
  assumes m: "no_access m" and f: "\<And>s x t. m s = (Inr x, t) \<Longrightarrow> no_access (f x)"
  shows "no_access (after m f)"
proof (rule no_accessI)
  fix s r t
  assume run: "after m f s = (r, t)"
  obtain r1 t1 where m1: "m s = (r1, t1)" by fastforce
  show "r \<noteq> Inl Invalid_Access"
  proof (cases r1)
    case (Inl e)
    then show ?thesis using run m1 no_accessD [OF m m1] by (auto simp: after_def)
  next
    case (Inr x)
    then show ?thesis using run m1 no_accessD [OF f, of s x t1 t1 r t] by (simp add: after_def)
  qed
qed

lemma no_access_catch:
  assumes m: "no_access m" and h: "\<And>e. no_access (h e)"
  shows "no_access (catch_in h m)"
proof (rule no_accessI)
  fix s r t
  assume run: "catch_in h m s = (r, t)"
  obtain r1 t1 where m1: "m s = (r1, t1)" by fastforce
  show "r \<noteq> Inl Invalid_Access"
  proof (cases "\<exists>e. r1 = Inl (Thrown e)")
    case True
    then obtain e where "r1 = Inl (Thrown e)" ..
    then show ?thesis using run m1 no_accessD [OF h, of e t1 r t] by (simp add: catch_in_def)
  next
    case False
    then have "r = r1" using run m1 by (auto simp: catch_in_def split: sum.splits xml_failure.splits)
    then show ?thesis using no_accessD [OF m m1] by simp
  qed
qed

lemma no_access_each: "(\<And>x. x \<in> set xs \<Longrightarrow> no_access (f x)) \<Longrightarrow> no_access (each f xs)"
  by (induction xs) (auto intro!: no_access_after)

lemmas no_access_intros = no_access_after no_access_catch no_access_each

lemma no_access_named:
  assumes m: "no_access m" and none: "tid = None \<Longrightarrow> \<exists>n r. \<forall>s. fst (m s) = Inl (Thrown (Config_Error n r))"
  shows "no_access (named_errors h tid m)"
proof (cases tid)
  case None
  then obtain n r where nr: "\<And>s. fst (m s) = Inl (Thrown (Config_Error n r))" using none by blast
  show ?thesis
  proof (rule no_accessI)
    fix s r' t
    assume run: "named_errors h tid m s = (r', t)"
    obtain s2 where "m s = (Inl (Thrown (Config_Error n r)), s2)" by (metis nr prod.collapse)
    then show "r' \<noteq> Inl Invalid_Access"
      using run None by (auto simp: named_errors_def catch_in_def throw_def)
  qed
next
  case (Some i)
  show ?thesis unfolding named_errors_def Some
    by (rule no_access_catch [OF m]) (auto split: xml_exn.split intro!: no_access_after)
qed

text \<open>
  A type is described when its kind comes with the part it needs, and so for the types inside. What has a
  type code is described, so a type that is not raises an error before its parts are used.
\<close>

function described :: "data_type \<Rightarrow> bool" where
  "described t =
     (case dt_kind t of
        TK_enum \<Rightarrow> dt_enum t \<noteq> None
      | TK_struct \<Rightarrow> dt_struct t \<noteq> None \<and> list_all (\<lambda>(n, m). described m) (struct_members t)
      | TK_sequence \<Rightarrow> (case sequence_element t of None \<Rightarrow> False | Some e \<Rightarrow> described e)
      | TK_alias \<Rightarrow> (case alias_element t of None \<Rightarrow> False | Some e \<Rightarrow> described e)
      | TK_array \<Rightarrow> (case array_element t of None \<Rightarrow> False | Some e \<Rightarrow> described e)
      | _ \<Rightarrow> True)"
  by pat_completeness auto
termination
  by (relation "measure size") (auto dest: size_members size_elements)

declare described.simps [simp del]

text \<open>
  A value fits a type when each enumeration in it has a value and each member of a struct is one of the type.
\<close>

function value_fits :: "data_type \<Rightarrow> 'd data_value \<Rightarrow> bool" where
  "value_fits t v =
     (case dt_kind t of
        TK_enum \<Rightarrow> dv_enum v \<noteq> []
      | TK_struct \<Rightarrow>
          list_all (\<lambda>(n, x). case map_get (create_type_map t) n of None \<Rightarrow> False | Some m \<Rightarrow> value_fits m x)
            (dv_member v)
      | TK_sequence \<Rightarrow>
          (case sequence_element t of None \<Rightarrow> True | Some e \<Rightarrow> list_all (\<lambda>x. value_fits e x) (dv_element v))
      | TK_alias \<Rightarrow> (case alias_element t of None \<Rightarrow> True | Some e \<Rightarrow> value_fits e v)
      | TK_array \<Rightarrow>
          (case array_element t of None \<Rightarrow> True | Some e \<Rightarrow> list_all (\<lambda>x. value_fits e x) (dv_element v))
      | _ \<Rightarrow> True)"
  by pat_completeness auto
termination
  by (relation "measure (\<lambda>(t, v). size t)") (auto dest: size_members size_elements type_map_members)

declare value_fits.simps [simp del]

lemma typecode_no_access: "no_access (create_typecode D t)"
proof (induction D t rule: create_typecode.induct)
  case (1 D t)
  have "no_access (struct_typecode D t
      (each (\<lambda>(n, m). after (create_typecode D m) (\<lambda>tc. ret (n, tc))) (struct_members t)))"
    if "dt_kind t = TK_struct"
    using 1(1)[OF that] by (auto simp: struct_typecode_def split: option.split prod.split intro!: no_access_intros)
  moreover have "no_access (sequence_typecode D t
      (case sequence_element t of None \<Rightarrow> access_failure | Some e \<Rightarrow> create_typecode D e))"
    if "dt_kind t = TK_sequence"
    using 1(2)[OF that] by (auto simp: sequence_typecode_def sequence_element_def split: option.split intro!: no_access_intros)
  moreover have "no_access (alias_typecode D t
      (case alias_element t of None \<Rightarrow> access_failure | Some e \<Rightarrow> create_typecode D e))"
    if "dt_kind t = TK_alias"
    using 1(4)[OF that] by (auto simp: alias_typecode_def alias_element_def split: option.split intro!: no_access_intros)
  moreover have "no_access (array_typecode D t
      (case array_element t of None \<Rightarrow> access_failure | Some e \<Rightarrow> create_typecode D e))"
    if "dt_kind t = TK_array"
    using 1(3)[OF that] by (auto simp: array_typecode_def array_element_def split: option.split intro!: no_access_intros)
  moreover have "no_access (string_typecode D t)" "no_access (enum_typecode D t)"
    by (auto simp: string_typecode_def enum_typecode_def Let_def split: option.split intro!: no_access_intros)
  ultimately show ?case
    by (subst create_typecode.simps) (simp split: tc_kind.split)
qed

lemma after_value: "after m f s = (Inr y, t) \<Longrightarrow> \<exists>x u. m s = (Inr x, u) \<and> f x u = (Inr y, t)"
  by (auto simp: after_def split: prod.splits sum.splits)

lemma each_value:
  "each f xs s = (Inr ys, t) \<Longrightarrow> list_all2 (\<lambda>x y. \<exists>u u'. f x u = (Inr y, u')) xs ys"
proof (induction xs arbitrary: s t ys)
  case (Cons x xs)
  then obtain y u zs where "f x s = (Inr y, u)" "each f xs u = (Inr zs, t)" "ys = y # zs"
    by (auto simp: ret_def dest!: after_value)
  with Cons.IH [of u zs t] show ?case by auto
qed (simp add: ret_def)

lemma each_value_of:
  assumes "each f xs s = (Inr ys, t)" "x \<in> set xs"
  shows "\<exists>y u u'. f x u = (Inr y, u')"
proof -
  obtain i where i: "i < length xs" "x = xs ! i" using assms(2) by (auto simp: in_set_conv_nth)
  with each_value [OF assms(1)] have "\<exists>u u'. f x u = (Inr (ys ! i), u')" by (simp add: list_all2_conv_all_nth)
  then show ?thesis by blast
qed

lemma typecode_described: "create_typecode D t s = (Inr tc, u) \<Longrightarrow> described t"
proof (induction D t arbitrary: s tc u rule: create_typecode.induct)
  case (1 D t)
  note run = 1(5) [unfolded create_typecode.simps [of D t]]
  show ?case
  proof (cases "dt_kind t")
    case TK_struct
    have "described m" if "(n, m) \<in> set (struct_members t)" for n m
    proof -
      obtain ms s1 s2 where "each (\<lambda>(n, m). after (create_typecode D m) (\<lambda>tc. ret (n, tc))) (struct_members t) s1 = (Inr ms, s2)"
        using run TK_struct by (auto simp: struct_typecode_def throw_def dest!: after_value split: option.splits)
      from each_value_of [OF this that] obtain y s3 s4
        where "after (create_typecode D m) (\<lambda>tc. ret (n, tc)) s3 = (Inr y, s4)" by force
      then show ?thesis using 1(1) [OF TK_struct that refl] by (auto dest!: after_value)
    qed
    with run TK_struct show ?thesis
      by (subst described.simps) (auto simp: struct_typecode_def throw_def list_all_iff split: option.splits)
  next
    case TK_sequence
    then show ?thesis using run 1(2) [OF TK_sequence]
      by (subst described.simps) (auto simp: sequence_typecode_def sequence_element_def throw_def dest!: after_value split: option.splits)
  next
    case TK_array
    then show ?thesis using run 1(3) [OF TK_array]
      by (subst described.simps) (auto simp: array_typecode_def array_element_def throw_def dest!: after_value split: option.splits)
  next
    case TK_alias
    then show ?thesis using run 1(4) [OF TK_alias]
      by (subst described.simps) (auto simp: alias_typecode_def alias_element_def throw_def dest!: after_value split: option.splits)
  qed (use run in \<open>(subst described.simps, auto simp: enum_typecode_def throw_def split: option.splits)[1]\<close>)+
qed

lemma required_typecode:
  assumes "req = None \<or> described t" "described t \<Longrightarrow> (\<And>tc. no_access (f tc))"
  shows "no_access (after (if req \<noteq> None then ret req else create_typecode D t) f)"
proof (cases "req = None")
  case True
  then show ?thesis
    using assms(2) by (auto simp: typecode_no_access dest: typecode_described intro!: no_access_after)
next
  case False
  with assms show ?thesis by (auto intro!: no_access_after)
qed

lemma no_access_invalid_as: "no_access m \<Longrightarrow> no_access (invalid_as reason m)"
  unfolding invalid_as_def by (rule no_access_catch) (auto split: xml_exn.split)

lemma no_access_basic: "no_access (basic_value D k made f)"
  unfolding basic_value_def by (auto split: option.split intro!: no_access_after)

lemma no_access_string: "no_access (string_value D t v req)"
  unfolding string_value_def by (auto simp: typecode_no_access intro!: no_access_after)

lemma described_parts:
  assumes "described t"
  shows "dt_kind t = TK_sequence \<Longrightarrow> \<exists>e. sequence_element t = Some e \<and> described e"
    and "dt_kind t = TK_array \<Longrightarrow> \<exists>e. array_element t = Some e \<and> described e"
    and "dt_kind t = TK_alias \<Longrightarrow> \<exists>e. alias_element t = Some e \<and> described e"
  using assms [unfolded described.simps [of t]] by (auto split: option.splits)

lemma no_access_sequence:
  assumes "dt_kind t = TK_sequence" "req = None \<or> described t"
    and "\<And>x. described t \<Longrightarrow> x \<in> set (dv_element v) \<Longrightarrow> no_access (extract x)"
  shows "no_access (sequence_value D t v req extract)"
  unfolding sequence_value_def
  by (rule required_typecode [OF assms(2)], frule described_parts(1) [OF _ assms(1)])
    (auto intro!: no_access_intros no_access_invalid_as assms(3))

lemma no_access_array:
  assumes "dt_kind t = TK_array" "req = None \<or> described t"
    and "\<And>x. described t \<Longrightarrow> x \<in> set (dv_element v) \<Longrightarrow> no_access (extract x)"
  shows "no_access (array_value D t v req extract)"
  unfolding array_value_def
  by (rule required_typecode [OF assms(2)], frule described_parts(2) [OF _ assms(1)])
    (auto intro!: no_access_intros no_access_invalid_as assms(3))

text \<open>A type without the part its kind needs gives the error of the type code.\<close>

lemma undescribed_typecode:
  "dt_kind t = TK_enum \<Longrightarrow> dt_enum t = None \<Longrightarrow> \<exists>n r. \<forall>s. create_typecode D t s = (Inl (Thrown (Config_Error n r)), s)"
  "dt_kind t = TK_struct \<Longrightarrow> dt_struct t = None \<Longrightarrow> \<exists>n r. \<forall>s. create_typecode D t s = (Inl (Thrown (Config_Error n r)), s)"
  "dt_kind t = TK_alias \<Longrightarrow> dt_alias t = None \<Longrightarrow> \<exists>n r. \<forall>s. create_typecode D t s = (Inl (Thrown (Config_Error n r)), s)"
  by (subst create_typecode.simps; simp add: enum_typecode_def struct_typecode_def alias_typecode_def throw_def)+

lemma named_after_typecode:
  assumes "req = None \<or> described t" "described t \<Longrightarrow> (\<And>tc. no_access (f tc))"
    and "tid = None \<Longrightarrow> \<not> described t \<and> (\<exists>n r. \<forall>s. create_typecode D t s = (Inl (Thrown (Config_Error n r)), s))"
  shows "no_access (named_errors h tid (after (if req \<noteq> None then ret req else create_typecode D t) f))"
proof (rule no_access_named)
  show "no_access (after (if req \<noteq> None then ret req else create_typecode D t) f)"
    by (rule required_typecode [OF assms(1,2)])
  assume "tid = None"
  with assms(1,3) show "\<exists>n r. \<forall>s. fst (after (if req \<noteq> None then ret req else create_typecode D t) f s) =
      Inl (Thrown (Config_Error n r))"
    by (auto simp: after_def)
qed

lemma no_access_enum:
  assumes "dt_kind t = TK_enum" "req = None \<or> described t" "dv_enum v \<noteq> []"
  shows "no_access (enum_value D t v req)"
  unfolding enum_value_def
proof (rule named_after_typecode [OF assms(2)])
  show "no_access (after (call (do_create D tc)) (\<lambda>a. case dv_enum v of [] \<Rightarrow> access_failure | s # _ \<Rightarrow> call (do_set_enum D s a)))" for tc
    using assms(3) by (auto split: list.split intro!: no_access_intros)
  assume "map_option (\<lambda>(_, tid, _). tid) (dt_enum t) = None"
  then show "\<not> described t \<and> (\<exists>n r. \<forall>s. create_typecode D t s = (Inl (Thrown (Config_Error n r)), s))"
    using undescribed_typecode(1) [OF assms(1), of D] assms(1) by (subst described.simps) simp
qed

lemma no_access_struct:
  assumes "dt_kind t = TK_struct" "req = None \<or> described t" "no_access ms"
  shows "no_access (struct_value D t req ms)"
  unfolding struct_value_def
proof (rule named_after_typecode [OF assms(2)])
  assume "described t"
  then have "dt_struct t \<noteq> None" using assms(1) by (subst (asm) described.simps) simp
  then show "no_access (after (deref (dt_struct t)) (\<lambda>_. after (call (do_create D tc)) (\<lambda>a.
      after ms (\<lambda>vs. call (do_set_members D vs a)))))" for tc
    using assms(3) by (auto intro!: no_access_intros)
next
  assume "map_option (\<lambda>(_, tid, _). tid) (dt_struct t) = None"
  then show "\<not> described t \<and> (\<exists>n r. \<forall>s. create_typecode D t s = (Inl (Thrown (Config_Error n r)), s))"
    using undescribed_typecode(2) [OF assms(1), of D] assms(1) by (subst described.simps) simp
qed

lemma no_access_alias:
  assumes "dt_kind t = TK_alias" "req = None \<or> described t" "described t \<Longrightarrow> (\<And>tc. no_access (extract tc))"
  shows "no_access (alias_value D t req extract)"
  unfolding alias_value_def
proof (rule named_after_typecode [OF assms(2)])
  assume "described t"
  then have "dt_alias t \<noteq> None"
    using assms(1) by (subst (asm) described.simps) (auto simp: alias_element_def split: option.splits)
  then show "no_access (after (deref (dt_alias t)) (\<lambda>_. extract tc))" for tc
    using assms(3) [OF \<open>described t\<close>] by (auto intro!: no_access_intros)
next
  assume "map_option (\<lambda>(_, tid, _). tid) (dt_alias t) = None"
  then show "\<not> described t \<and> (\<exists>n r. \<forall>s. create_typecode D t s = (Inl (Thrown (Config_Error n r)), s))"
    using undescribed_typecode(3) [OF assms(1), of D] assms(1) by (subst described.simps) (simp add: alias_element_def)
qed

text \<open>Reading a value that fits its type never uses what is absent.\<close>

lemma extract_no_access:
  "value_fits t v \<Longrightarrow> req = None \<or> described t \<Longrightarrow> no_access (extract_into_dynany D t v req)"
proof (induction D t v req rule: extract_into_dynany.induct)
  case (1 D t v req)
  note fits = 1(5) [unfolded value_fits.simps [of t v]]
  let ?ms = "each (\<lambda>(n, x). case map_get (create_type_map t) n of None \<Rightarrow> access_failure
      | Some m \<Rightarrow> after (extract_into_dynany D m x None) (\<lambda>a. ret (n, a))) (dv_member v)"
  let ?sq = "case sequence_element t of None \<Rightarrow> sequence_value D t v req (\<lambda>_. access_failure)
      | Some e \<Rightarrow> sequence_value D t v req (\<lambda>x. extract_into_dynany D e x None)"
  let ?ar = "case array_element t of None \<Rightarrow> array_value D t v req (\<lambda>_. access_failure)
      | Some e \<Rightarrow> array_value D t v req (\<lambda>x. extract_into_dynany D e x None)"
  let ?al = "case alias_element t of None \<Rightarrow> alias_value D t req (\<lambda>_. access_failure)
      | Some e \<Rightarrow> alias_value D t req (\<lambda>tc. extract_into_dynany D e v tc)"
  show ?case
  proof (cases "mismatched v (dt_kind t)")
    case False
    have "no_access ?ms" if k: "dt_kind t = TK_struct"
      using fits k 1(1) [OF False k _ refl] by (fastforce simp: list_all_iff split: option.splits intro!: no_access_intros)
    then have st: "no_access (struct_value D t req ?ms)" if "dt_kind t = TK_struct"
      using no_access_struct [OF that 1(6)] that by blast
    have sq: "no_access ?sq" if k: "dt_kind t = TK_sequence"
      using fits k 1(2) [OF False k] described_parts(1) [OF _ k]
      by (auto simp: list_all_iff split: option.split intro!: no_access_sequence [OF k 1(6)])
    have ar: "no_access ?ar" if k: "dt_kind t = TK_array"
      using fits k 1(3) [OF False k] described_parts(2) [OF _ k]
      by (auto simp: list_all_iff split: option.split intro!: no_access_array [OF k 1(6)])
    have al: "no_access ?al" if k: "dt_kind t = TK_alias"
      using fits k 1(4) [OF False k] described_parts(3) [OF _ k]
      by (auto split: option.split intro!: no_access_alias [OF k 1(6)])
    have en: "no_access (enum_value D t v req)" if k: "dt_kind t = TK_enum"
      using fits k by (intro no_access_enum [OF k 1(6)]) simp
    show ?thesis
    proof (subst extract_into_dynany.simps, rule no_access_after, goal_cases)
      case 1
      show ?case by (auto split: option.split intro!: no_access_intros)
    next
      case (2 s made u)
      show ?case
        using False st sq ar al en by (cases "dt_kind t") (simp_all add: no_access_basic no_access_string)
    qed
  next
    case True
    then show ?thesis
      by (subst extract_into_dynany.simps) (auto split: option.split intro!: no_access_intros)
  qed
qed

section \<open>Basic values\<close>

fun prim_kind :: "'d prim \<Rightarrow> tc_kind" where
  "prim_kind (VChar _) = TK_char"
| "prim_kind (VOctet _) = TK_octet"
| "prim_kind (VBool _) = TK_boolean"
| "prim_kind (VInt16 _) = TK_short"
| "prim_kind (VInt32 _) = TK_long"
| "prim_kind (VInt64 _) = TK_longlong"
| "prim_kind (VUInt16 _) = TK_ushort"
| "prim_kind (VUInt32 _) = TK_ulong"
| "prim_kind (VUInt64 _) = TK_ulonglong"
| "prim_kind (VFloat _) = TK_float"
| "prim_kind (VDouble _) = TK_double"
| "prim_kind (VString _) = TK_string"

text \<open>The data value with one element for a basic value, and the one without any.\<close>

fun prim_value :: "'d prim \<Rightarrow> 'd data_value" where
  "prim_value (VInt16 w) = Data_Value [w] [] [] [] [] [] [] [] [] [] [] [] [] []"
| "prim_value (VInt32 w) = Data_Value [] [w] [] [] [] [] [] [] [] [] [] [] [] []"
| "prim_value (VUInt16 w) = Data_Value [] [] [w] [] [] [] [] [] [] [] [] [] [] []"
| "prim_value (VUInt32 w) = Data_Value [] [] [] [w] [] [] [] [] [] [] [] [] [] []"
| "prim_value (VFloat d) = Data_Value [] [] [] [] [d] [] [] [] [] [] [] [] [] []"
| "prim_value (VDouble d) = Data_Value [] [] [] [] [] [d] [] [] [] [] [] [] [] []"
| "prim_value (VBool b) = Data_Value [] [] [] [] [] [] [b] [] [] [] [] [] [] []"
| "prim_value (VOctet w) = Data_Value [] [] [] [] [] [] [] [w] [] [] [] [] [] []"
| "prim_value (VChar c) = Data_Value [] [] [] [] [] [] [] [] [] [[c]] [] [] [] []"
| "prim_value (VString s) = Data_Value [] [] [] [] [] [] [] [] [] [s] [] [] [] []"
| "prim_value (VInt64 w) = Data_Value [] [] [] [] [] [] [] [] [] [] [w] [] [] []"
| "prim_value (VUInt64 w) = Data_Value [] [] [] [] [] [] [] [] [] [] [] [w] [] []"

definition no_value :: "'d data_value" where
  "no_value = Data_Value [] [] [] [] [] [] [] [] [] [] [] [] [] []"

fun zero_like :: "'d \<Rightarrow> 'd prim \<Rightarrow> 'd prim" where
  "zero_like z (VChar _) = VChar (CHR 0x00)"
| "zero_like z (VOctet _) = VOctet 0"
| "zero_like z (VBool _) = VBool False"
| "zero_like z (VInt16 _) = VInt16 0"
| "zero_like z (VInt32 _) = VInt32 0"
| "zero_like z (VInt64 _) = VInt64 0"
| "zero_like z (VUInt16 _) = VUInt16 0"
| "zero_like z (VUInt32 _) = VUInt32 0"
| "zero_like z (VUInt64 _) = VUInt64 0"
| "zero_like z (VFloat _) = VFloat z"
| "zero_like z (VDouble _) = VDouble z"
| "zero_like z (VString _) = VString []"

text \<open>
  An ORB stores basic values when a DynAny of the type of a value takes the value and turns into an Any
  with it.
\<close>

definition basic_typecode :: "('t, 'a, 'd) dyn_orb \<Rightarrow> tc_kind \<Rightarrow> xml_exn + 't" where
  "basic_typecode D k = (if k = TK_string then do_string_tc D 0 else Inr (do_basic_tc D k))"

definition stores_basic :: "('t, 'a, 'd) dyn_orb \<Rightarrow> bool" where
  "stores_basic D \<longleftrightarrow>
     (\<forall>p. \<exists>tc a b. basic_typecode D (prim_kind p) = Inr tc \<and> do_create D (Some tc) = Inr a
        \<and> do_insert D p a = Inr b \<and> do_to_any D b = Inr (PrimAny p) \<and> do_destroy D b = Inr ())"

definition reads_as :: "('t, 'a, 'd) dyn_orb \<Rightarrow> data_type \<Rightarrow> 'd data_value \<Rightarrow> 'd prim \<Rightarrow> bool" where
  "reads_as D t v p \<longleftrightarrow>
     (\<forall>h. do_resolve D = Inr True \<or> h \<noteq> None \<longrightarrow> fst (extract_into_any D (t, v) h) = Inr (PrimAny p))"

lemma extracted_reads_as:
  fixes D :: "('t, 'a, 'd) dyn_orb"
  assumes "\<And>tcs. \<exists>a. extract_into_dynany D t v None tcs = (Inr a, tcs)
      \<and> do_to_any D a = Inr (PrimAny p) \<and> do_destroy D a = Inr ()"
  shows "reads_as D t v p"
  unfolding reads_as_def
proof (intro allI impI)
  fix h :: "'t dyn_handler"
  assume "do_resolve D = Inr True \<or> h \<noteq> None"
  then obtain tcs where "get_instance D h = (Inr tcs, Some tcs)"
    by (cases h) (auto simp: get_instance_def)
  with assms [of tcs] show "fst (extract_into_any D (t, v) h) = Inr (PrimAny p)"
    by (auto simp: extract_into_any_def catch_in_def after_def with_typecodes_def call_def ret_def)
qed

lemma basic_extracted:
  assumes "stores_basic D"
  shows "\<exists>a. extract_into_dynany D (basic_type (prim_kind p)) (prim_value p) None tcs = (Inr a, tcs)
      \<and> do_to_any D a = Inr (PrimAny p) \<and> do_destroy D a = Inr ()"
    and "\<exists>a. extract_into_dynany D (basic_type (prim_kind p)) no_value None tcs = (Inr a, tcs)
      \<and> do_to_any D a = Inr (PrimAny (zero_like (do_zero D) p)) \<and> do_destroy D a = Inr ()"
proof -
  have kind: "prim_kind (zero_like z p) = prim_kind p" for z by (cases p) simp_all
  note store = assms [unfolded stores_basic_def basic_typecode_def, rule_format]
  note parts = extract_into_dynany.simps basic_type_def mismatched_def basic_value_def string_value_def
    create_typecode.simps string_typecode_def after_def ret_def call_def first_or_def first_char_def no_value_def
  show "\<exists>a. extract_into_dynany D (basic_type (prim_kind p)) (prim_value p) None tcs = (Inr a, tcs)
      \<and> do_to_any D a = Inr (PrimAny p) \<and> do_destroy D a = Inr ()"
    using store [of p] by (cases p) (auto simp: parts)
  show "\<exists>a. extract_into_dynany D (basic_type (prim_kind p)) no_value None tcs = (Inr a, tcs)
      \<and> do_to_any D a = Inr (PrimAny (zero_like (do_zero D) p)) \<and> do_destroy D a = Inr ()"
    using store [of "zero_like (do_zero D) p"] by (cases p) (auto simp: parts)
qed

text \<open>
  A basic value written as its data value under its data type is read as an Any with the value; when the
  data value is missing, an Any with zero, false or the empty string comes out without an error.
\<close>

theorem basic_value_read:
  assumes "stores_basic D"
  shows "reads_as D (basic_type (prim_kind p)) (prim_value p) p
    \<and> reads_as D (basic_type (prim_kind p)) no_value (zero_like (do_zero D) p)"
  by (intro conjI extracted_reads_as basic_extracted assms)

text \<open>An ORB whose type codes are their kinds and whose DynAnys are Anys that take whatever is inserted.\<close>

definition demo_orb :: "(tc_kind, int any, int) dyn_orb" where
  "demo_orb = \<lparr>do_resolve = Inr True, do_zero = 0, do_basic_tc = (\<lambda>k. k), do_string_tc = (\<lambda>n. Inr TK_string),
     do_enum_tc = (\<lambda>tid n ms. Inr TK_enum), do_struct_tc = (\<lambda>tid n ms. Inr TK_struct),
     do_sequence_tc = (\<lambda>b e. Inr TK_sequence), do_array_tc = (\<lambda>n e. Inr TK_array),
     do_alias_tc = (\<lambda>tid n e. case e of None \<Rightarrow> Inl (Corba_Error ''BAD_TYPECODE'') | Some k \<Rightarrow> Inr k),
     do_create = (\<lambda>tc. case tc of None \<Rightarrow> Inl (Corba_Error ''BAD_TYPECODE'') | Some _ \<Rightarrow> Inr NullAny),
     do_insert = (\<lambda>p a. Inr (PrimAny p)), do_insert_wchar = (\<lambda>c a. Inr (OtherAny (nat c))),
     do_set_enum = (\<lambda>s a. if s = [] then Inl (Invalid_Value ''InvalidValue'') else Inr (OtherAny 0)),
     do_set_length = (\<lambda>n a. Inr a), do_set_sequence = (\<lambda>xs a. Inr (OtherAny (length xs))),
     do_set_array = (\<lambda>xs a. Inr (OtherAny (length xs))), do_set_members = (\<lambda>ms a. Inr (OtherAny (length ms))),
     do_copy = Inr, do_to_any = Inr, do_destroy = (\<lambda>a. Inr ())\<rparr>"

lemma demo_orb_basic: "stores_basic demo_orb"
  by (auto simp: stores_basic_def basic_typecode_def demo_orb_def)

theorem basic_value_read_witness:
  "reads_as demo_orb (basic_type TK_ushort) (prim_value (VUInt16 5)) (VUInt16 5)
    \<and> reads_as demo_orb (basic_type TK_ushort) no_value (VUInt16 0)"
  using basic_value_read [OF demo_orb_basic, of "VUInt16 5"] by simp

end
