(* ===== verification/Xml_Plan.thy ===== *)
theory Xml_Plan
  imports Xml_Values Plan_Files
begin

text \<open>
  Plans and domains in XML files: the conversions of tools/config_handlers/*_handler.cpp from the classes
  of the parsed XML to the IDL structures, XML_File_Intf, which reads a file, and the plan loader of these
  files. The records of the parsed XML have the elements and attributes that the conversions read; an
  optional one is an option. References inside a plan are by id, an \<open>xml_idref\<close> may lack one. Parsing the
  XML, which Xerces and the generated classes do, is a parameter.
\<close>

section \<open>The parsed XML\<close>

type_synonym xml_idref = "string option"

record 'd xml_property =
  xp_name :: string
  xp_value :: "data_type \<times> 'd data_value"

record 'd xml_requirement =
  xq_name :: string
  xq_type :: string
  xq_property :: "'d xml_property list"

datatype xml_sat_kind = Quantity_l | Capacity_l | Minimum_l | Maximum_l | Attribute_l | Selection_l

record 'd xml_sat_property =
  xs_name :: string
  xs_kind :: xml_sat_kind
  xs_dynamic :: bool
  xs_value :: "data_type \<times> 'd data_value"

record 'd xml_resource =
  xr_name :: string
  xr_types :: "string list"
  xr_property :: "'d xml_sat_property list"

record 'd xml_node =
  xn_name :: string
  xn_label :: "string option"
  xn_resource :: "'d xml_resource list"

record 'd xml_domain =
  xd_label :: "string option"
  xd_UUID :: "string option"
  xd_node :: "'d xml_node list"

record 'd xml_resource_use =
  xu_requirementName :: string
  xu_resourceName :: string
  xu_property :: "'d xml_property list"

datatype xml_usage =
    None_l | InstanceUsesResource_l | ResourceUsesInstance_l | PortUsesResource_l | ResourceUsesPort_l

record 'd xml_instance_resource = "'d xml_resource_use" +
  xu_usage :: xml_usage

record 'd xml_connection_resource = "'d xml_resource_use" +
  xu_targetName :: string

record 'd xml_artifact =
  xa_id :: "string option"
  xa_name :: string
  xa_node :: string
  xa_location :: "string list"
  xa_source :: "string list"
  xa_execParameter :: "'d xml_property list"
  xa_deployedResource :: "'d xml_resource_use list"
  xa_deployRequirement :: "'d xml_requirement list"

record 'd xml_implementation =
  xm_id :: "string option"
  xm_name :: string
  xm_source :: "string list"
  xm_artifact :: "xml_idref list"
  xm_execParameter :: "'d xml_property list"
  xm_deployRequirement :: "'d xml_requirement list"

record 'd xml_instance =
  xi_id :: "string option"
  xi_name :: string
  xi_node :: string
  xi_source :: string
  xi_implementation :: xml_idref
  xi_configProperty :: "'d xml_property list"
  xi_deployedResource :: "'d xml_instance_resource list"
  xi_deployedSharedResource :: "'d xml_instance_resource list"

datatype xml_port_kind =
    Facet_l | SimplexReceptacle_l | MultiplexReceptacle_l | EventEmitter_l
  | EventPublisher_l | EventConsumer_l | ExtendedPort_l | MirrorPort_l

record xml_endpoint =
  xe_portName :: string
  xe_provider :: "string option"
  xe_kind :: xml_port_kind
  xe_instance :: xml_idref

record xml_ext_ref =
  xf_location :: string
  xf_provider :: bool
  xf_portName :: "string option"
  xf_supportedType :: "string list"

record 'd xml_connection =
  xc_name :: string
  xc_source :: "string option"
  xc_deployRequirement :: "'d xml_requirement list"
  xc_externalEndpoint :: "string list"
  xc_internalEndpoint :: "xml_endpoint list"
  xc_externalReference :: "xml_ext_ref list"
  xc_deployedResource :: "'d xml_connection_resource list"

datatype xml_locality_kind = SameProcess_l | DifferentProcess_l | NoConstraint_l

record xml_locality =
  xl_constraint :: xml_locality_kind
  xl_constrainedInstance :: "xml_idref list"

record xml_port =
  xo_name :: string
  xo_specificType :: "string option"
  xo_supportedType :: "string list"
  xo_provider :: bool
  xo_exclusiveProvider :: bool
  xo_exclusiveUser :: bool
  xo_optional :: bool
  xo_kind :: xml_port_kind
  xo_templateParam :: "string list"

record xml_component_property =
  xt_name :: string
  xt_type :: data_type

record 'd xml_interface =
  xy_label :: "string option"
  xy_UUID :: "string option"
  xy_specificType :: "string option"
  xy_supportedType :: "string list"
  xy_idlFile :: "string list"
  xy_configProperty :: "'d xml_property list"
  xy_port :: "xml_port list"
  xy_property :: "xml_component_property list"
  xy_infoProperty :: "'d xml_property list"

text \<open>A plan also has external properties, which nothing reads.\<close>

record 'd xml_plan =
  xx_label :: "string option"
  xx_UUID :: "string option"
  xx_realizes :: "'d xml_interface option"
  xx_implementation :: "'d xml_implementation list"
  xx_instance :: "'d xml_instance list"
  xx_connection :: "'d xml_connection list"
  xx_dependsOn :: "string list"
  xx_artifact :: "'d xml_artifact list"
  xx_infoProperty :: "'d xml_property list"
  xx_localityConstraint :: "xml_locality list"

section \<open>Enumerations and basic types\<close>

fun convert_sat_kind :: "xml_sat_kind \<Rightarrow> sat_kind" where
  "convert_sat_kind Quantity_l = Quantity"
| "convert_sat_kind Capacity_l = Capacity"
| "convert_sat_kind Minimum_l = Minimum"
| "convert_sat_kind Maximum_l = Maximum"
| "convert_sat_kind Attribute_l = Attribute"
| "convert_sat_kind Selection_l = Selection"

fun convert_usage :: "xml_usage \<Rightarrow> resource_usage" where
  "convert_usage None_l = NoUsage"
| "convert_usage InstanceUsesResource_l = InstanceUsesResource"
| "convert_usage ResourceUsesInstance_l = ResourceUsesInstance"
| "convert_usage PortUsesResource_l = PortUsesResource"
| "convert_usage ResourceUsesPort_l = ResourceUsesPort"

fun convert_port_kind :: "xml_port_kind \<Rightarrow> port_kind" where
  "convert_port_kind Facet_l = Facet"
| "convert_port_kind SimplexReceptacle_l = SimplexReceptacle"
| "convert_port_kind MultiplexReceptacle_l = MultiplexReceptacle"
| "convert_port_kind EventEmitter_l = EventEmitter"
| "convert_port_kind EventPublisher_l = EventPublisher"
| "convert_port_kind EventConsumer_l = EventConsumer"
| "convert_port_kind ExtendedPort_l = ExtendedPort"
| "convert_port_kind MirrorPort_l = MirrorPort"

fun convert_locality_kind :: "xml_locality_kind \<Rightarrow> locality_kind" where
  "convert_locality_kind SameProcess_l = PlanSameProcess"
| "convert_locality_kind DifferentProcess_l = PlanDifferentProcess"
| "convert_locality_kind NoConstraint_l = PlanNoConstraint"

definition text_or_empty :: "string option \<Rightarrow> string" where
  "text_or_empty s = (case s of None \<Rightarrow> [] | Some t \<Rightarrow> t)"

definition convert_datatype :: "data_type \<Rightarrow> ('s, tc_kind) xml_op" where
  "convert_datatype t =
     (if dt_kind t \<in> {TK_null, TK_short, TK_long, TK_ushort, TK_ulong, TK_float, TK_double, TK_boolean,
          TK_char, TK_octet, TK_string, TK_longlong, TK_ulonglong, TK_longdouble, TK_wchar, TK_wstring,
          TK_any, TK_TypeCode}
      then ret (dt_kind t) else throw Other_Error)"

section \<open>Properties, requirements and resources\<close>

definition convert_property :: "('t, 'a, 'd) dyn_orb \<Rightarrow> 'd xml_property \<Rightarrow> ('t dyn_handler, 'd property) xml_op" where
  "convert_property D p =
     catch_in (\<lambda>e. case e of Config_Error _ r \<Rightarrow> throw (Config_Error (xp_name p) r) | _ \<Rightarrow> throw e)
       (after (extract_into_any D (xp_value p)) (\<lambda>a. ret (mk_prop (xp_name p) a)))"

definition convert_requirement ::
  "('t, 'a, 'd) dyn_orb \<Rightarrow> 'd xml_requirement \<Rightarrow> ('t dyn_handler, 'd requirement) xml_op" where
  "convert_requirement D q =
     after (each (convert_property D) (xq_property q)) (\<lambda>ps.
     ret \<lparr>rq_name = xq_name q, rq_type = xq_type q, rq_property = ps\<rparr>)"

definition convert_satisfierproperty ::
  "('t, 'a, 'd) dyn_orb \<Rightarrow> 'd xml_sat_property \<Rightarrow> ('t dyn_handler, 'd sat_property) xml_op" where
  "convert_satisfierproperty D p =
     catch_in (\<lambda>e. case e of Config_Error _ r \<Rightarrow> throw (Config_Error (xs_name p) r) | _ \<Rightarrow> throw e)
       (after (extract_into_any D (xs_value p)) (\<lambda>a.
        ret \<lparr>sp_name = xs_name p, sp_kind = convert_sat_kind (xs_kind p), sp_dynamic = xs_dynamic p, sp_value = a\<rparr>))"

definition convert_resource :: "('t, 'a, 'd) dyn_orb \<Rightarrow> 'd xml_resource \<Rightarrow> ('t dyn_handler, 'd resource) xml_op" where
  "convert_resource D r =
     after (each (convert_satisfierproperty D) (xr_property r)) (\<lambda>ps.
     ret \<lparr>rs_name = xr_name r, rs_types = xr_types r, rs_property = ps\<rparr>)"

definition convert_node :: "('t, 'a, 'd) dyn_orb \<Rightarrow> 'd xml_node \<Rightarrow> ('t dyn_handler, 'd node) xml_op" where
  "convert_node D n =
     after (each (convert_resource D) (xn_resource n)) (\<lambda>rs.
     ret \<lparr>nd_name = xn_name n, nd_label = text_or_empty (xn_label n), nd_resource = rs\<rparr>)"

definition resolve_domain :: "('t, 'a, 'd) dyn_orb \<Rightarrow> 'd xml_domain \<Rightarrow> ('t dyn_handler, 'd domain) xml_op" where
  "resolve_domain D x =
     after (each (convert_node D) (xd_node x)) (\<lambda>ns.
     ret (new_domain\<lparr>dm_label := text_or_empty (xd_label x), dm_UUID := text_or_empty (xd_UUID x), dm_node := ns\<rparr>))"

definition convert_resourcedeploymentdescription ::
  "('t, 'a, 'd) dyn_orb \<Rightarrow> 'd xml_resource_use \<Rightarrow> ('t dyn_handler, 'd resource_use) xml_op" where
  "convert_resourcedeploymentdescription D u =
     after (each (convert_property D) (xu_property u)) (\<lambda>ps.
     ret \<lparr>ru_requirementName = xu_requirementName u, ru_resourceName = xu_resourceName u, ru_property = ps\<rparr>)"

definition convert_instanceresourcedeploymentdescription ::
  "('t, 'a, 'd) dyn_orb \<Rightarrow> 'd xml_instance_resource \<Rightarrow> ('t dyn_handler, 'd instance_resource) xml_op" where
  "convert_instanceresourcedeploymentdescription D u =
     after (each (convert_property D) (xu_property u)) (\<lambda>ps.
     ret \<lparr>ru_requirementName = xu_requirementName u, ru_resourceName = xu_resourceName u, ru_property = ps,
          ru_usage = convert_usage (xu_usage u)\<rparr>)"

definition convert_connectionresourcedeploymentdescription ::
  "('t, 'a, 'd) dyn_orb \<Rightarrow> 'd xml_connection_resource \<Rightarrow> ('t dyn_handler, 'd connection_resource) xml_op" where
  "convert_connectionresourcedeploymentdescription D u =
     after (each (convert_property D) (xu_property u)) (\<lambda>ps.
     ret \<lparr>ru_requirementName = xu_requirementName u, ru_resourceName = xu_resourceName u, ru_property = ps,
          ru_targetName = xu_targetName u\<rparr>)"

section \<open>References by id\<close>

text \<open>
  The positions of the elements by their id: the first element with an id enters it. A reference becomes a
  position, or the largest number when no element of the kind has the id.
\<close>

type_synonym id_map = "string \<rightharpoonup> nat"

definition enter_id :: "string option \<Rightarrow> nat \<Rightarrow> id_map \<Rightarrow> id_map" where
  "enter_id i n m = (case i of None \<Rightarrow> m | Some s \<Rightarrow> (case m s of None \<Rightarrow> m(s \<mapsto> n) | Some _ \<Rightarrow> m))"

definition id_map :: "string option list \<Rightarrow> id_map" where
  "id_map ids = foldl (\<lambda>m (n, i). enter_id i n m) Map.empty (enumerate 0 ids)"

definition find_id :: "id_map \<Rightarrow> string \<Rightarrow> nat" where
  "find_id m s = (case m s of Some n \<Rightarrow> unat (word_of_nat n :: 32 word) | None \<Rightarrow> unat (- 1 :: 32 word))"

definition reference :: "id_map \<Rightarrow> xml_idref \<Rightarrow> ('s, nat) xml_op" where
  "reference m r = after (deref r) (\<lambda>s. ret (find_id m s))"

section \<open>Parts of a plan\<close>

definition convert_artifactdeploymentdescription ::
  "('t, 'a, 'd) dyn_orb \<Rightarrow> 'd xml_artifact \<Rightarrow> ('t dyn_handler, 'd artifact) xml_op" where
  "convert_artifactdeploymentdescription D x =
     after (each (convert_property D) (xa_execParameter x)) (\<lambda>ps.
     after (each (convert_resourcedeploymentdescription D) (xa_deployedResource x)) (\<lambda>us.
     after (each (convert_requirement D) (xa_deployRequirement x)) (\<lambda>rs.
     ret \<lparr>ar_name = xa_name x, ar_location = xa_location x, ar_node = xa_node x, ar_source = xa_source x,
          ar_execParameter = ps, ar_deployRequirement = rs, ar_deployedResource = us\<rparr>)))"

definition convert_monolithicdeploymentdescription ::
  "('t, 'a, 'd) dyn_orb \<Rightarrow> id_map \<Rightarrow> 'd xml_implementation \<Rightarrow> ('t dyn_handler, 'd mdd) xml_op" where
  "convert_monolithicdeploymentdescription D art_ids x =
     after (each (reference art_ids) (xm_artifact x)) (\<lambda>refs.
     after (each (convert_property D) (xm_execParameter x)) (\<lambda>ps.
     after (each (convert_requirement D) (xm_deployRequirement x)) (\<lambda>rs.
     ret \<lparr>md_name = xm_name x, md_source = xm_source x, md_artifactRef = refs, md_execParameter = ps,
          md_deployRequirement = rs\<rparr>)))"

definition convert_instancedeploymentdescription ::
  "('t, 'a, 'd) dyn_orb \<Rightarrow> id_map \<Rightarrow> 'd xml_instance \<Rightarrow> ('t dyn_handler, 'd idd) xml_op" where
  "convert_instancedeploymentdescription D impl_ids x =
     after (reference impl_ids (xi_implementation x)) (\<lambda>ref.
     after (each (convert_property D) (xi_configProperty x)) (\<lambda>ps.
     after (each (convert_instanceresourcedeploymentdescription D) (xi_deployedResource x)) (\<lambda>us.
     after (each (convert_instanceresourcedeploymentdescription D) (xi_deployedSharedResource x)) (\<lambda>ss.
     ret \<lparr>id_name = xi_name x, id_node = xi_node x, id_source = [xi_source x], id_implementationRef = ref,
          id_configProperty = ps, id_deployedResource = us, id_deployedSharedResource = ss\<rparr>))))"

definition convert_plansubcomponentportendpoint ::
  "id_map \<Rightarrow> xml_endpoint \<Rightarrow> ('s, endpoint) xml_op" where
  "convert_plansubcomponentportendpoint inst_ids x =
     after (reference inst_ids (xe_instance x)) (\<lambda>ref.
     ret \<lparr>ep_portName = xe_portName x, ep_provider = (xe_provider x = Some ''true''),
          ep_kind = convert_port_kind (xe_kind x), ep_instanceRef = ref\<rparr>)"

definition convert_externalreferenceendpoint :: "xml_ext_ref \<Rightarrow> ext_ref" where
  "convert_externalreferenceendpoint x =
     \<lparr>er_location = xf_location x, er_provider = xf_provider x, er_portName = text_or_empty (xf_portName x),
      er_supportedType = xf_supportedType x\<rparr>"

definition convert_planconnectiondescription ::
  "('t, 'a, 'd) dyn_orb \<Rightarrow> id_map \<Rightarrow> 'd xml_connection \<Rightarrow> ('t dyn_handler, 'd connection) xml_op" where
  "convert_planconnectiondescription D inst_ids x =
     after (each (convert_requirement D) (xc_deployRequirement x)) (\<lambda>rs.
     after (each (convert_plansubcomponentportendpoint inst_ids) (xc_internalEndpoint x)) (\<lambda>eps.
     after (each (convert_connectionresourcedeploymentdescription D) (xc_deployedResource x)) (\<lambda>us.
     ret \<lparr>cn_name = xc_name x, cn_source = (case xc_source x of None \<Rightarrow> [] | Some s \<Rightarrow> [s]),
          cn_deployRequirement = rs, cn_externalEndpoint = xc_externalEndpoint x, cn_internalEndpoint = eps,
          cn_externalReference = map convert_externalreferenceendpoint (xc_externalReference x),
          cn_deployedResource = us\<rparr>)))"

definition convert_planlocality :: "id_map \<Rightarrow> xml_locality \<Rightarrow> ('s, plan_locality) xml_op" where
  "convert_planlocality inst_ids x =
     after (each (reference inst_ids) (xl_constrainedInstance x)) (\<lambda>refs.
     ret \<lparr>lo_constraint = convert_locality_kind (xl_constraint x), lo_instanceRef = refs\<rparr>)"

section \<open>Interfaces\<close>

definition convert_componentportdescription :: "xml_port \<Rightarrow> port_description" where
  "convert_componentportdescription x =
     \<lparr>cp_name = xo_name x, cp_specificType = text_or_empty (xo_specificType x),
      cp_supportedType = xo_supportedType x, cp_provider = xo_provider x,
      cp_exclusiveProvider = xo_exclusiveProvider x, cp_exclusiveUser = xo_exclusiveUser x,
      cp_optional = xo_optional x, cp_kind = convert_port_kind (xo_kind x), cp_templateParam = xo_templateParam x\<rparr>"

definition convert_componentpropertydescription ::
  "xml_component_property \<Rightarrow> ('s, property_description) xml_op" where
  "convert_componentpropertydescription x =
     after (convert_datatype (xt_type x)) (\<lambda>tc. ret \<lparr>pd_name = xt_name x, pd_type = Some tc\<rparr>)"

text \<open>The configuration properties are copied from the first up to the first.\<close>

definition convert_componentinterfacedescription ::
  "('t, 'a, 'd) dyn_orb \<Rightarrow> 'd xml_interface \<Rightarrow> ('t dyn_handler, 'd interface_description) xml_op" where
  "convert_componentinterfacedescription D x =
     after (each (convert_property D) (take 0 (xy_configProperty x))) (\<lambda>cs.
     after (each convert_componentpropertydescription (xy_property x)) (\<lambda>ds.
     after (each (convert_property D) (xy_infoProperty x)) (\<lambda>is.
     ret \<lparr>ci_label = text_or_empty (xy_label x), ci_UUID = text_or_empty (xy_UUID x),
          ci_specificType = text_or_empty (xy_specificType x), ci_supportedType = xy_supportedType x,
          ci_idlFile = xy_idlFile x, ci_configProperty = cs,
          ci_port = map convert_componentportdescription (xy_port x), ci_property = ds, ci_infoProperty = is\<rparr>)))"

section \<open>Plans\<close>

definition resolve_plan :: "('t, 'a, 'd) dyn_orb \<Rightarrow> 'd xml_plan \<Rightarrow> ('t dyn_handler, 'd plan) xml_op" where
  "resolve_plan D x =
     after (each (convert_property D) (xx_infoProperty x)) (\<lambda>infos.
     after (case xx_realizes x of None \<Rightarrow> ret new_interface
       | Some i \<Rightarrow> convert_componentinterfacedescription D i) (\<lambda>realized.
     after (each (convert_artifactdeploymentdescription D) (xx_artifact x)) (\<lambda>arts.
     let art_ids = id_map (map xa_id (xx_artifact x)) in
     after (each (convert_monolithicdeploymentdescription D art_ids) (xx_implementation x)) (\<lambda>impls.
     let impl_ids = id_map (map xm_id (xx_implementation x)) in
     after (each (convert_instancedeploymentdescription D impl_ids) (xx_instance x)) (\<lambda>insts.
     let inst_ids = id_map (map xi_id (xx_instance x)) in
     after (each (convert_planconnectiondescription D inst_ids) (xx_connection x)) (\<lambda>conns.
     after (each (convert_planlocality inst_ids) (xx_localityConstraint x)) (\<lambda>locs.
     ret (new_plan\<lparr>pl_label := text_or_empty (xx_label x), pl_UUID := text_or_empty (xx_UUID x),
       pl_dependsOn := xx_dependsOn x, pl_infoProperty := infos, pl_realizes := realized, pl_artifact := arts,
       pl_implementation := impls, pl_instance := insts, pl_connection := conns,
       pl_localityConstraint := locs\<rparr>))))))))"

section \<open>Files\<close>

text \<open>
  XML_File_Intf: the file, what was read from it, and the search paths for schemas, pairs of an environment
  variable and a path relative to it. The helper of the XML library may not be initialised; it makes a
  document from a file, which the readers turn into the classes of the parsed XML.
\<close>

record ('m, 'd) xml_env =
  xv_initialized :: bool
  xv_create_dom :: "(string \<times> string) list \<Rightarrow> string \<Rightarrow> xml_exn + 'm option"
  xv_plan_reader :: "'m \<Rightarrow> xml_failure + 'd xml_plan"
  xv_domain_reader :: "'m \<Rightarrow> xml_failure + 'd xml_domain"

record 'd xml_file =
  xz_file :: string
  xz_paths :: "(string \<times> string) list"
  xz_plan :: "'d plan option"
  xz_domain :: "'d domain option"

definition new_xml_file :: "string \<Rightarrow> 'd xml_file" where
  "new_xml_file f = \<lparr>xz_file = f, xz_paths = [], xz_plan = None, xz_domain = None\<rparr>"

definition add_search_path :: "string \<Rightarrow> string \<Rightarrow> 'd xml_file \<Rightarrow> 'd xml_file" where
  "add_search_path environment relpath xf = xf\<lparr>xz_paths := xz_paths xf @ [(environment, relpath)]\<rparr>"

text \<open>What a read lets out: only errors of the configuration.\<close>

definition report_errors :: "string \<Rightarrow> ('s, 'x) xml_op \<Rightarrow> ('s, 'x) xml_op" where
  "report_errors f m =
     catch_in (\<lambda>e. case e of
         Config_Error _ _ \<Rightarrow> throw e
       | Corba_Error what \<Rightarrow> throw (Config_Error f what)
       | Invalid_Value what \<Rightarrow> throw (Config_Error f what)
       | Other_Error \<Rightarrow> throw (Config_Error f ''Unexpected C++ exception while parsing XML'')) m"

definition lift_read :: "xml_failure + 'x \<Rightarrow> ('s, 'x) xml_op" where
  "lift_read r s = (r, s)"

definition read_process_plan ::
  "('m, 'd) xml_env \<Rightarrow> ('t, 'a, 'd) dyn_orb \<Rightarrow> 'd xml_file \<Rightarrow> ('t dyn_handler, 'd plan option) xml_op" where
  "read_process_plan xv D xf =
     report_errors (xz_file xf)
       (if \<not> xv_initialized xv then ret None
        else after (call (xv_create_dom xv (xz_paths xf) (xz_file xf))) (\<lambda>d.
          case d of
            None \<Rightarrow> ret None
          | Some m \<Rightarrow>
              after (lift_read (xv_plan_reader xv m)) (\<lambda>x.
              after (resolve_plan D x) (\<lambda>p. ret (Some p)))))"

definition read_process_domain ::
  "('m, 'd) xml_env \<Rightarrow> ('t, 'a, 'd) dyn_orb \<Rightarrow> 'd xml_file \<Rightarrow> ('t dyn_handler, 'd domain option) xml_op" where
  "read_process_domain xv D xf =
     report_errors (xz_file xf)
       (if \<not> xv_initialized xv then ret None
        else after (call (xv_create_dom xv (xz_paths xf) (xz_file xf))) (\<lambda>d.
          case d of
            None \<Rightarrow> ret None
          | Some m \<Rightarrow>
              after (lift_read (xv_domain_reader xv m)) (\<lambda>x.
              after (resolve_domain D x) (\<lambda>p. ret (Some p)))))"

text \<open>A plan or a domain that was read is kept.\<close>

definition get_plan ::
  "('m, 'd) xml_env \<Rightarrow> ('t, 'a, 'd) dyn_orb \<Rightarrow> 'd xml_file \<Rightarrow> ('t dyn_handler, 'd plan option \<times> 'd xml_file) xml_op" where
  "get_plan xv D xf =
     (if xz_plan xf \<noteq> None then ret (xz_plan xf, xf)
      else after (read_process_plan xv D xf) (\<lambda>p. ret (p, xf\<lparr>xz_plan := p\<rparr>)))"

definition get_domain ::
  "('m, 'd) xml_env \<Rightarrow> ('t, 'a, 'd) dyn_orb \<Rightarrow> 'd xml_file \<Rightarrow> ('t dyn_handler, 'd domain option \<times> 'd xml_file) xml_op" where
  "get_domain xv D xf =
     (if xz_domain xf \<noteq> None then ret (xz_domain xf, xf)
      else after (read_process_domain xv D xf) (\<lambda>p. ret (p, xf\<lparr>xz_domain := p\<rparr>)))"

section \<open>The plan loader\<close>

text \<open>The result of the loader is what it returns or throws, or None when it accesses what is absent.\<close>

fun exn_of_xml :: "xml_exn \<Rightarrow> exn" where
  "exn_of_xml (Config_Error n r) = UserEx PlanError n r"
| "exn_of_xml (Invalid_Value what) = OtherUser what"
| "exn_of_xml (Corba_Error what) = SysEx what"
| "exn_of_xml Other_Error = ForeignEx"

definition schema_paths :: "string \<Rightarrow> 'd xml_file" where
  "schema_paths filename =
     add_search_path ''DNC_SCHEMA_ROOT'' ''/schema/''
       (add_search_path ''DANCEX11_ROOT'' ''/etc/schema/'' (new_xml_file filename))"

definition cdp_read_plan ::
  "('m, 'd) xml_env \<Rightarrow> ('t, 'a, 'd) dyn_orb \<Rightarrow> string \<Rightarrow> 'd plan \<Rightarrow> 't dyn_handler \<Rightarrow>
    (exn + bool) option \<times> 'd plan \<times> 't dyn_handler" where
  "cdp_read_plan xv D filename plan h =
     (if filename = [] then (Some (Inr False), plan, h)
      else (case get_plan xv D (schema_paths filename) h of
         (Inl Invalid_Access, h') \<Rightarrow> (None, plan, h')
       | (Inl (Thrown e), h') \<Rightarrow> (Some (Inl (exn_of_xml e)), plan, h')
       | (Inr (None, _), h') \<Rightarrow> (Some (Inl (plan_error ''CDPPlan_Loader::read_plan'' ''null plan'')), plan, h')
       | (Inr (Some p, _), h') \<Rightarrow> (Some (Inr True), p, h')))"

definition cdp_read_domain ::
  "('m, 'd) xml_env \<Rightarrow> ('t, 'a, 'd) dyn_orb \<Rightarrow> string \<Rightarrow> 'd domain \<Rightarrow> 't dyn_handler \<Rightarrow>
    (exn + bool) option \<times> 'd domain \<times> 't dyn_handler" where
  "cdp_read_domain xv D filename dmn h =
     (if filename = [] then (Some (Inr False), dmn, h)
      else (case get_domain xv D (schema_paths filename) h of
         (Inl Invalid_Access, h') \<Rightarrow> (None, dmn, h')
       | (Inl (Thrown e), h') \<Rightarrow> (Some (Inl (exn_of_xml e)), dmn, h')
       | (Inr (None, _), h') \<Rightarrow> (Some (Inl (plan_error ''CDPPlan_Loader::read_domain'' ''null domain'')), dmn, h')
       | (Inr (Some p, _), h') \<Rightarrow> (Some (Inr True), p, h')))"

text \<open>
  As a loader of the tools, which end alike when a loader raises and when it returns false. The documents
  of the file system are what the XML library makes of them.
\<close>

definition cdp_loader ::
  "('m, 'd) xml_env \<Rightarrow> ('t, 'a, 'd) dyn_orb \<Rightarrow> 't dyn_handler \<Rightarrow> 'd plan_loader" where
  "cdp_loader xv D h =
     \<lparr>ld_read_plan = (\<lambda>f p. case cdp_read_plan xv D f p h of (r, p', _) \<Rightarrow> (r = Some (Inr True), p')),
      ld_read_domain = (\<lambda>f p. case cdp_read_domain xv D f p h of (r, p', _) \<Rightarrow> (r = Some (Inr True), p'))\<rparr>"

definition cdp_init :: "'d plan_loader \<Rightarrow> 'd loaders \<Rightarrow> 'd loaders" where
  "cdp_init ld m = fold (\<lambda>fmt. register_plan_loader fmt ld) [''cdp'', ''xml'', ''cdd''] m"

definition cdp_fini :: "'d loaders \<Rightarrow> 'd loaders" where
  "cdp_fini m = fold deregister_plan_loader [''cdp'', ''xml'', ''cdd''] m"

text \<open>The static initializer registers the loader when the service configurator takes the service.\<close>

definition cdp_initializer :: "bool \<Rightarrow> 'd plan_loader \<Rightarrow> 'd loaders \<Rightarrow> int \<times> 'd loaders" where
  "cdp_initializer processed ld m = (if processed then (0, cdp_init ld m) else (1, m))"

section \<open>References inside a plan\<close>

lemma id_map_snoc: "id_map (ids @ [i]) = enter_id i (length ids) (id_map ids)"
  by (simp add: id_map_def enumerate_append_eq)

lemma id_map_first:
  "(\<forall>n. id_map ids s = Some n \<longrightarrow> n < length ids \<and> ids ! n = Some s \<and> (\<forall>k < n. ids ! k \<noteq> Some s))
    \<and> (id_map ids s = None \<longleftrightarrow> Some s \<notin> set ids)"
proof (induction ids rule: rev_induct)
  case Nil
  show ?case by (simp add: id_map_def)
next
  case (snoc i ids)
  show ?case
  proof (cases "i = Some s \<and> id_map ids s = None")
    case True
    then have "id_map (ids @ [i]) s = Some (length ids)" by (simp add: id_map_snoc enter_id_def)
    with True snoc show ?thesis by (auto simp: nth_append in_set_conv_nth)
  next
    case False
    then have "id_map (ids @ [i]) s = id_map ids s"
      by (auto simp: id_map_snoc enter_id_def split: option.split)
    with False snoc show ?thesis by (auto simp: nth_append)
  qed
qed

lemma find_id_in_range:
  assumes "length ids < 2 ^ 32"
  shows "find_id (id_map ids) s < length ids \<longleftrightarrow> Some s \<in> set ids"
proof (cases "id_map ids s")
  case None
  have "unat (- 1 :: 32 word) = 2 ^ 32 - 1" by (simp add: unsigned_minus_1_eq_mask mask_eq_exp_minus_1)
  with None assms id_map_first [of ids s] show ?thesis by (simp add: find_id_def)
next
  case (Some n)
  with id_map_first [of ids s] have "n < length ids" "Some s \<in> set ids" by auto
  with assms have "unat (word_of_nat n :: 32 word) = n" by (simp add: unat_of_nat)
  with Some \<open>n < length ids\<close> \<open>Some s \<in> set ids\<close> show ?thesis by (simp add: find_id_def)
qed

lemma reference_value: "reference m r s = (Inr n, t) \<Longrightarrow> \<exists>i. r = Some i \<and> n = find_id m i"
  by (cases r) (auto simp: reference_def deref_def ret_def dest!: after_value)

lemma references_value:
  "each (reference m) rs s = (Inr ns, t) \<Longrightarrow> \<exists>is. rs = map Some is \<and> ns = map (find_id m) is"
proof (induction rs arbitrary: s ns)
  case (Cons r rs)
  then obtain n u ms where n: "reference m r s = (Inr n, u)" and ms: "each (reference m) rs u = (Inr ms, t)" "ns = n # ms"
    by (auto simp: ret_def dest!: after_value)
  from reference_value [OF n] Cons.IH [OF ms(1)] ms(2) show ?case
    by (metis list.simps(9))
qed (simp add: ret_def)

text \<open>An idref names an element when it has an id and an element with this id.\<close>

definition names_one :: "string option list \<Rightarrow> xml_idref \<Rightarrow> bool" where
  "names_one ids r \<longleftrightarrow> r \<noteq> None \<and> r \<in> set ids"

definition idrefs_resolve :: "'d xml_plan \<Rightarrow> bool" where
  "idrefs_resolve x \<longleftrightarrow>
     list_all (\<lambda>i. names_one (map xm_id (xx_implementation x)) (xi_implementation i)) (xx_instance x)
     \<and> list_all (\<lambda>m. list_all (names_one (map xa_id (xx_artifact x))) (xm_artifact m)) (xx_implementation x)
     \<and> list_all (\<lambda>c. list_all (\<lambda>e. names_one (map xi_id (xx_instance x)) (xe_instance e)) (xc_internalEndpoint c))
         (xx_connection x)
     \<and> list_all (\<lambda>l. list_all (names_one (map xi_id (xx_instance x))) (xl_constrainedInstance l))
         (xx_localityConstraint x)"

lemma reference_in_range:
  assumes "length ids < 2 ^ 32" "reference (id_map ids) r s = (Inr n, t)"
  shows "n < length ids \<longleftrightarrow> names_one ids r"
  using reference_value [OF assms(2)] find_id_in_range [OF assms(1)] by (auto simp: names_one_def)

lemma references_in_range:
  assumes "length ids < 2 ^ 32" "each (reference (id_map ids)) rs s = (Inr ns, t)"
  shows "(\<forall>n \<in> set ns. n < length ids) \<longleftrightarrow> list_all (names_one ids) rs"
  using references_value [OF assms(2)] find_id_in_range [OF assms(1)] by (auto simp: names_one_def list_all_iff)

text \<open>What the conversions make of the references of an element.\<close>

lemma instance_reference:
  assumes "convert_instancedeploymentdescription D (id_map ids) x s = (Inr y, t)" "length ids < 2 ^ 32"
  shows "id_implementationRef y < length ids \<longleftrightarrow> names_one ids (xi_implementation x)"
proof -
  obtain u where "reference (id_map ids) (xi_implementation x) s = (Inr (id_implementationRef y), u)"
    using assms(1) by (auto simp: convert_instancedeploymentdescription_def ret_def dest!: after_value)
  from reference_in_range [OF assms(2) this] show ?thesis .
qed

lemma implementation_references:
  assumes "convert_monolithicdeploymentdescription D (id_map ids) x s = (Inr y, t)" "length ids < 2 ^ 32"
  shows "(\<forall>r \<in> set (md_artifactRef y). r < length ids) \<longleftrightarrow> list_all (names_one ids) (xm_artifact x)"
proof -
  obtain u where "each (reference (id_map ids)) (xm_artifact x) s = (Inr (md_artifactRef y), u)"
    using assms(1) by (auto simp: convert_monolithicdeploymentdescription_def ret_def dest!: after_value)
  from references_in_range [OF assms(2) this] show ?thesis .
qed

lemma locality_references:
  assumes "convert_planlocality (id_map ids) x s = (Inr y, t)" "length ids < 2 ^ 32"
  shows "(\<forall>r \<in> set (lo_instanceRef y). r < length ids) \<longleftrightarrow> list_all (names_one ids) (xl_constrainedInstance x)"
proof -
  obtain u where "each (reference (id_map ids)) (xl_constrainedInstance x) s = (Inr (lo_instanceRef y), u)"
    using assms(1) by (auto simp: convert_planlocality_def ret_def dest!: after_value)
  from references_in_range [OF assms(2) this] show ?thesis .
qed

lemma endpoint_reference:
  assumes "convert_plansubcomponentportendpoint (id_map ids) x s = (Inr y, t)" "length ids < 2 ^ 32"
  shows "ep_instanceRef y < length ids \<longleftrightarrow> names_one ids (xe_instance x)"
proof -
  obtain u where "reference (id_map ids) (xe_instance x) s = (Inr (ep_instanceRef y), u)"
    using assms(1) by (auto simp: convert_plansubcomponentportendpoint_def ret_def dest!: after_value)
  from reference_in_range [OF assms(2) this] show ?thesis .
qed

text \<open>A property of the elements is one of their conversions.\<close>

lemma each_iff:
  assumes "each f xs s = (Inr ys, t)" "\<And>x y u u'. f x u = (Inr y, u') \<Longrightarrow> P y \<longleftrightarrow> Q x"
  shows "(\<forall>y \<in> set ys. P y) \<longleftrightarrow> list_all Q xs"
  using each_value [OF assms(1)] assms(2) by (induction rule: list_all2_induct) auto

lemma connection_references:
  assumes "convert_planconnectiondescription D (id_map ids) x s = (Inr y, t)" "length ids < 2 ^ 32"
  shows "(\<forall>e \<in> set (cn_internalEndpoint y). ep_instanceRef e < length ids) \<longleftrightarrow>
    list_all (\<lambda>e. names_one ids (xe_instance e)) (xc_internalEndpoint x)"
proof -
  obtain rs u u' where "each (convert_requirement D) (xc_deployRequirement x) s = (Inr rs, u)"
    "each (convert_plansubcomponentportendpoint (id_map ids)) (xc_internalEndpoint x) u = (Inr (cn_internalEndpoint y), u')"
    using assms(1) by (auto simp: convert_planconnectiondescription_def ret_def dest!: after_value)
  from each_iff [OF this(2) endpoint_reference [OF _ assms(2)]] show ?thesis .
qed

lemma each_length: "each f xs s = (Inr ys, t) \<Longrightarrow> length ys = length xs"
  by (drule each_value) (simp add: list_all2_lengthD)

lemma resolve_plan_parts:
  fixes D :: "('t, 'a, 'd) dyn_orb"
  assumes "resolve_plan D x s = (Inr p, t)"
  shows "\<exists>u u'. each (convert_artifactdeploymentdescription D) (xx_artifact x) u = (Inr (pl_artifact p), u')"
    and "\<exists>u u'. each (convert_monolithicdeploymentdescription D (id_map (map xa_id (xx_artifact x))))
      (xx_implementation x) u = (Inr (pl_implementation p), u')"
    and "\<exists>u u'. each (convert_instancedeploymentdescription D (id_map (map xm_id (xx_implementation x))))
      (xx_instance x) u = (Inr (pl_instance p), u')"
    and "\<exists>u u'. each (convert_planconnectiondescription D (id_map (map xi_id (xx_instance x))))
      (xx_connection x) u = (Inr (pl_connection p), u')"
    and "\<exists>(u :: 't dyn_handler) u'. each (convert_planlocality (id_map (map xi_id (xx_instance x))))
      (xx_localityConstraint x) u = (Inr (pl_localityConstraint p), u')"
    and "\<exists>u u'. (case xx_realizes x of None \<Rightarrow> ret new_interface
       | Some i \<Rightarrow> convert_componentinterfacedescription D i) u = (Inr (pl_realizes p), u')"
  using assms by (clarsimp simp: resolve_plan_def ret_def Let_def dest!: after_value; blast)+

text \<open>
  C14. The references of a plan read from XML are positions of the plan exactly when every idref names an
  element of the kind it is for; one that does not is accepted and becomes the largest number.
\<close>

theorem xml_references_in_range:
  fixes D :: "('t, 'a, 'd) dyn_orb"
  assumes "resolve_plan D x h = (Inr p, h')"
    and "length (xx_artifact x) < 2 ^ 32" "length (xx_implementation x) < 2 ^ 32" "length (xx_instance x) < 2 ^ 32"
  shows "refs_ok p \<longleftrightarrow> idrefs_resolve x"
proof -
  note parts = resolve_plan_parts [OF assms(1)]
  have len: "length (pl_artifact p) = length (xx_artifact x)" "length (pl_implementation p) = length (xx_implementation x)"
    "length (pl_instance p) = length (xx_instance x)"
    using parts(1-3) by (auto dest: each_length)
  obtain u1 v1 where impls: "each (convert_monolithicdeploymentdescription D (id_map (map xa_id (xx_artifact x))))
      (xx_implementation x) u1 = (Inr (pl_implementation p), v1)" using parts(2) by blast
  obtain u2 v2 where insts: "each (convert_instancedeploymentdescription D (id_map (map xm_id (xx_implementation x))))
      (xx_instance x) u2 = (Inr (pl_instance p), v2)" using parts(3) by blast
  obtain u3 v3 where conns: "each (convert_planconnectiondescription D (id_map (map xi_id (xx_instance x))))
      (xx_connection x) u3 = (Inr (pl_connection p), v3)" using parts(4) by blast
  obtain u4 v4 where locs: "each (convert_planlocality (id_map (map xi_id (xx_instance x))))
      (xx_localityConstraint x) (u4 :: 't dyn_handler) = (Inr (pl_localityConstraint p), v4)" using parts(5) by blast
  have "(\<forall>i \<in> set (pl_instance p). id_implementationRef i < length (map xm_id (xx_implementation x))) \<longleftrightarrow>
      list_all (\<lambda>i. names_one (map xm_id (xx_implementation x)) (xi_implementation i)) (xx_instance x)"
    by (rule each_iff [OF insts]) (rule instance_reference, assumption, use assms in simp)
  moreover have "(\<forall>m \<in> set (pl_implementation p). \<forall>r \<in> set (md_artifactRef m). r < length (map xa_id (xx_artifact x))) \<longleftrightarrow>
      list_all (\<lambda>m. list_all (names_one (map xa_id (xx_artifact x))) (xm_artifact m)) (xx_implementation x)"
    by (rule each_iff [OF impls]) (rule implementation_references, assumption, use assms in simp)
  moreover have "(\<forall>c \<in> set (pl_connection p). \<forall>e \<in> set (cn_internalEndpoint c).
        ep_instanceRef e < length (map xi_id (xx_instance x))) \<longleftrightarrow>
      list_all (\<lambda>c. list_all (\<lambda>e. names_one (map xi_id (xx_instance x)) (xe_instance e)) (xc_internalEndpoint c)) (xx_connection x)"
    by (rule each_iff [OF conns]) (rule connection_references, assumption, use assms in simp)
  moreover have "(\<forall>l \<in> set (pl_localityConstraint p). \<forall>r \<in> set (lo_instanceRef l). r < length (map xi_id (xx_instance x))) \<longleftrightarrow>
      list_all (\<lambda>l. list_all (names_one (map xi_id (xx_instance x))) (xl_constrainedInstance l)) (xx_localityConstraint x)"
    by (rule each_iff [OF locs]) (rule locality_references, assumption, use assms in simp)
  ultimately show ?thesis by (simp add: refs_ok_def idrefs_resolve_def len)
qed

section \<open>What can go wrong\<close>

text \<open>
  The properties of a plan that are read, and its idrefs. The configuration of the interface is not read.
\<close>

definition requirement_properties :: "'d xml_requirement list \<Rightarrow> 'd xml_property list" where
  "requirement_properties qs = concat (map xq_property qs)"

definition use_properties :: "('d, 'z) xml_resource_use_scheme list \<Rightarrow> 'd xml_property list" where
  "use_properties us = concat (map xu_property us)"

definition plan_properties :: "'d xml_plan \<Rightarrow> 'd xml_property list" where
  "plan_properties x =
     xx_infoProperty x
     @ (case xx_realizes x of None \<Rightarrow> [] | Some i \<Rightarrow> xy_infoProperty i)
     @ concat (map (\<lambda>a. xa_execParameter a @ use_properties (xa_deployedResource a)
         @ requirement_properties (xa_deployRequirement a)) (xx_artifact x))
     @ concat (map (\<lambda>m. xm_execParameter m @ requirement_properties (xm_deployRequirement m))
         (xx_implementation x))
     @ concat (map (\<lambda>i. xi_configProperty i @ use_properties (xi_deployedResource i)
         @ use_properties (xi_deployedSharedResource i)) (xx_instance x))
     @ concat (map (\<lambda>c. requirement_properties (xc_deployRequirement c) @ use_properties (xc_deployedResource c))
         (xx_connection x))"

definition plan_idrefs :: "'d xml_plan \<Rightarrow> xml_idref list" where
  "plan_idrefs x =
     concat (map xm_artifact (xx_implementation x)) @ map xi_implementation (xx_instance x)
     @ concat (map (\<lambda>c. map xe_instance (xc_internalEndpoint c)) (xx_connection x))
     @ concat (map xl_constrainedInstance (xx_localityConstraint x))"

definition property_fits :: "'d xml_property \<Rightarrow> bool" where
  "property_fits p \<longleftrightarrow> value_fits (fst (xp_value p)) (snd (xp_value p))"

lemma any_no_access:
  assumes "value_fits (fst tv) (snd tv)"
  shows "no_access (extract_into_any D tv)"
proof -
  have "no_access (get_instance D)"
    by (rule no_accessI) (auto simp: get_instance_def split: option.splits sum.splits bool.splits)
  moreover have "no_access (with_typecodes tcs (extract_into_dynany D (fst tv) (snd tv) None))" for tcs
  proof (rule no_accessI)
    fix s r t
    assume "with_typecodes tcs (extract_into_dynany D (fst tv) (snd tv) None) s = (r, t)"
    then obtain u where "extract_into_dynany D (fst tv) (snd tv) None tcs = (r, u)"
      by (auto simp: with_typecodes_def split: prod.splits)
    with extract_no_access [OF assms, of None D] show "r \<noteq> Inl Invalid_Access" by (auto dest: no_accessD)
  qed
  ultimately show ?thesis
    unfolding extract_into_any_def by (auto split: xml_exn.split intro!: no_access_intros)
qed

lemma property_no_access: "property_fits p \<Longrightarrow> no_access (convert_property D p)"
  unfolding convert_property_def property_fits_def by (auto split: xml_exn.split intro!: no_access_intros any_no_access)

lemma requirement_no_access:
  "list_all property_fits (xq_property q) \<Longrightarrow> no_access (convert_requirement D q)"
  unfolding convert_requirement_def by (auto simp: list_all_iff intro!: no_access_intros property_no_access)

lemma use_no_access:
  "list_all property_fits (xu_property u) \<Longrightarrow> no_access (convert_resourcedeploymentdescription D u)"
  "list_all property_fits (xu_property v) \<Longrightarrow> no_access (convert_instanceresourcedeploymentdescription D v)"
  "list_all property_fits (xu_property w) \<Longrightarrow> no_access (convert_connectionresourcedeploymentdescription D w)"
  unfolding convert_resourcedeploymentdescription_def convert_instanceresourcedeploymentdescription_def
    convert_connectionresourcedeploymentdescription_def
  by (auto simp: list_all_iff intro!: no_access_intros property_no_access)

lemma reference_no_access: "r \<noteq> None \<Longrightarrow> no_access (reference m r)"
  unfolding reference_def by (auto intro!: no_access_intros)

lemma some_of:
  "None \<notin> A \<Longrightarrow> x \<in> A \<Longrightarrow> \<exists>y. x = Some y"
  "None \<notin> f ` B \<Longrightarrow> z \<in> B \<Longrightarrow> \<exists>y. f z = Some y"
  by (metis not_None_eq) (metis imageI not_None_eq)

lemma references_no_access: "None \<notin> set rs \<Longrightarrow> no_access (each (reference m) rs)"
  by (rule no_access_each, rule reference_no_access) metis

lemmas part_no_access = references_no_access no_access_after no_access_each property_no_access
  requirement_no_access use_no_access reference_no_access

lemma interface_no_access:
  "list_all property_fits (xy_infoProperty i) \<Longrightarrow> no_access (convert_componentinterfacedescription D i)"
  unfolding convert_componentinterfacedescription_def convert_componentpropertydescription_def convert_datatype_def
  by (auto simp: list_all_iff ball_Un intro!: part_no_access intro: some_of)

lemma artifact_no_access:
  "list_all property_fits (xa_execParameter a @ use_properties (xa_deployedResource a) @ requirement_properties (xa_deployRequirement a))
    \<Longrightarrow> no_access (convert_artifactdeploymentdescription D a)"
  unfolding convert_artifactdeploymentdescription_def
  by (auto simp: list_all_iff ball_Un use_properties_def requirement_properties_def intro!: part_no_access intro: some_of)

lemma implementation_no_access:
  "list_all property_fits (xm_execParameter m @ requirement_properties (xm_deployRequirement m))
    \<Longrightarrow> None \<notin> set (xm_artifact m) \<Longrightarrow> no_access (convert_monolithicdeploymentdescription D ids m)"
  unfolding convert_monolithicdeploymentdescription_def
  by (auto simp: list_all_iff ball_Un requirement_properties_def intro!: part_no_access intro: some_of)

lemma instance_no_access:
  "list_all property_fits (xi_configProperty i @ use_properties (xi_deployedResource i) @ use_properties (xi_deployedSharedResource i))
    \<Longrightarrow> xi_implementation i \<noteq> None \<Longrightarrow> no_access (convert_instancedeploymentdescription D ids i)"
  unfolding convert_instancedeploymentdescription_def
  by (auto simp: list_all_iff ball_Un use_properties_def intro!: part_no_access intro: some_of)

lemma connection_no_access:
  "list_all property_fits (requirement_properties (xc_deployRequirement c) @ use_properties (xc_deployedResource c))
    \<Longrightarrow> None \<notin> set (map xe_instance (xc_internalEndpoint c)) \<Longrightarrow> no_access (convert_planconnectiondescription D ids c)"
  unfolding convert_planconnectiondescription_def convert_plansubcomponentportendpoint_def
  by (auto simp: list_all_iff ball_Un use_properties_def requirement_properties_def intro!: part_no_access intro: some_of)

lemma locality_no_access:
  "None \<notin> set (xl_constrainedInstance l) \<Longrightarrow> no_access (convert_planlocality ids l)"
  unfolding convert_planlocality_def by (auto intro!: part_no_access intro: some_of)

lemma resolve_no_access:
  assumes "list_all property_fits (plan_properties x)" "None \<notin> set (plan_idrefs x)"
  shows "no_access (resolve_plan D x)"
proof -
  have vals: "\<forall>q \<in> set (plan_properties x). property_fits q" using assms(1) by (simp add: list_all_iff)
  have "no_access (each (convert_property D) (xx_infoProperty x))"
    using vals unfolding plan_properties_def by (auto simp: ball_Un intro!: no_access_each property_no_access)
  moreover have "no_access (case xx_realizes x of None \<Rightarrow> ret new_interface | Some i \<Rightarrow> convert_componentinterfacedescription D i)"
    using vals unfolding plan_properties_def
    by (auto simp: ball_Un list_all_iff split: option.split intro!: interface_no_access)
  moreover have "no_access (each (convert_artifactdeploymentdescription D) (xx_artifact x))"
    using vals unfolding plan_properties_def
    by (intro no_access_each artifact_no_access) (simp add: ball_Un list_all_iff)
  moreover have "no_access (each (convert_monolithicdeploymentdescription D ids) (xx_implementation x))" for ids
    using vals assms(2) unfolding plan_properties_def plan_idrefs_def
    by (intro no_access_each implementation_no_access) (simp_all add: ball_Un list_all_iff)
  moreover have "no_access (each (convert_instancedeploymentdescription D ids) (xx_instance x))" for ids
  proof (intro no_access_each instance_no_access)
    fix i assume i: "i \<in> set (xx_instance x)"
    then show "list_all property_fits (xi_configProperty i @ use_properties (xi_deployedResource i)
        @ use_properties (xi_deployedSharedResource i))"
      using vals unfolding plan_properties_def by (simp add: ball_Un list_all_iff)
    have "None \<notin> xi_implementation ` set (xx_instance x)" using assms(2) unfolding plan_idrefs_def by simp
    from some_of(2) [OF this i] show "xi_implementation i \<noteq> None" by simp
  qed
  moreover have "no_access (each (convert_planconnectiondescription D ids) (xx_connection x))" for ids
    using vals assms(2) unfolding plan_properties_def plan_idrefs_def
    by (intro no_access_each connection_no_access) (simp_all add: ball_Un list_all_iff)
  moreover have "no_access (each (convert_planlocality ids) (xx_localityConstraint x))" for ids
    using assms(2) unfolding plan_idrefs_def by (intro no_access_each locality_no_access) simp
  ultimately show ?thesis
    unfolding resolve_plan_def Let_def by (intro no_access_after) simp_all
qed

text \<open>What an operation can raise.\<close>

definition raises_only :: "(xml_exn \<Rightarrow> bool) \<Rightarrow> ('s, 'x) xml_op \<Rightarrow> bool" where
  "raises_only P m \<longleftrightarrow> (\<forall>s e t. m s = (Inl (Thrown e), t) \<longrightarrow> P e)"

lemma raises_only_simps [simp]:
  "raises_only P (ret x)" "raises_only P (throw e) \<longleftrightarrow> P e" "raises_only P (deref p)"
  by (auto simp: raises_only_def ret_def throw_def deref_def split: option.splits)

lemma raises_only_after: "raises_only P m \<Longrightarrow> (\<And>x. raises_only P (f x)) \<Longrightarrow> raises_only P (after m f)"
  unfolding raises_only_def after_def by (auto split: prod.splits sum.splits)

lemma raises_only_catch: "(\<And>e. raises_only P (h e)) \<Longrightarrow> raises_only P (catch_in h m)"
  unfolding raises_only_def catch_in_def by (auto split: prod.splits sum.splits xml_failure.splits)

lemma raises_only_each: "(\<And>x. x \<in> set xs \<Longrightarrow> raises_only P (f x)) \<Longrightarrow> raises_only P (each f xs)"
  by (induction xs) (auto intro!: raises_only_after)

lemmas raises_intros = raises_only_after raises_only_each

definition named_error :: "'d xml_property list \<Rightarrow> xml_exn \<Rightarrow> bool" where
  "named_error ps e \<longleftrightarrow> e = Other_Error \<or> (\<exists>q \<in> set ps. \<exists>r. e = Config_Error (xp_name q) r)"

lemma named_error_mono: "raises_only (named_error ps) m \<Longrightarrow> set ps \<subseteq> set qs \<Longrightarrow> raises_only (named_error qs) m"
  unfolding raises_only_def named_error_def by blast

lemma any_raises: "raises_only (\<lambda>e. \<exists>n r. e = Config_Error n r) (extract_into_any D tv)"
  unfolding extract_into_any_def by (rule raises_only_catch) (simp split: xml_exn.split)

lemma property_raises: "q \<in> set ps \<Longrightarrow> raises_only (named_error ps) (convert_property D q)"
proof -
  assume "q \<in> set ps"
  moreover have "raises_only (\<lambda>e. \<exists>n r. e = Config_Error n r)
      (after (extract_into_any D (xp_value q)) (\<lambda>a. ret (mk_prop (xp_name q) a)))"
    by (intro raises_only_after any_raises) simp
  ultimately show ?thesis
    unfolding convert_property_def raises_only_def catch_in_def throw_def
    by (fastforce simp: named_error_def split: prod.splits sum.splits xml_failure.splits xml_exn.splits)
qed

lemma properties_raise: "set qs \<subseteq> set ps \<Longrightarrow> raises_only (named_error ps) (each (convert_property D) qs)"
  by (auto intro!: raises_only_each property_raises)

lemma requirements_raise:
  "set (requirement_properties qs) \<subseteq> set ps \<Longrightarrow> raises_only (named_error ps) (each (convert_requirement D) qs)"
  unfolding convert_requirement_def requirement_properties_def
  by (auto intro!: raises_intros properties_raise)

lemma uses_raise:
  "set (use_properties us) \<subseteq> set ps \<Longrightarrow> raises_only (named_error ps) (each (convert_resourcedeploymentdescription D) us)"
  "set (use_properties vs) \<subseteq> set ps \<Longrightarrow> raises_only (named_error ps) (each (convert_instanceresourcedeploymentdescription D) vs)"
  "set (use_properties ws) \<subseteq> set ps \<Longrightarrow> raises_only (named_error ps) (each (convert_connectionresourcedeploymentdescription D) ws)"
  unfolding convert_resourcedeploymentdescription_def convert_instanceresourcedeploymentdescription_def
    convert_connectionresourcedeploymentdescription_def use_properties_def
  by (auto intro!: raises_intros properties_raise)

lemma reference_raises: "raises_only P (reference m r)"
  unfolding reference_def by (auto intro!: raises_intros)

lemmas part_raises = raises_only_after properties_raise requirements_raise uses_raise reference_raises

lemma interface_raises:
  "set (xy_infoProperty i) \<subseteq> set ps \<Longrightarrow> raises_only (named_error ps) (convert_componentinterfacedescription D i)"
  unfolding convert_componentinterfacedescription_def convert_componentpropertydescription_def convert_datatype_def
  by (auto simp: named_error_def intro!: raises_only_after raises_only_each intro: property_raises)

lemma resolve_raises: "raises_only (named_error (plan_properties x)) (resolve_plan D x)"
proof -
  let ?P = "named_error (plan_properties x)"
  have "raises_only ?P (each (convert_property D) (xx_infoProperty x))"
    by (rule properties_raise) (simp add: plan_properties_def)
  moreover have "raises_only ?P (case xx_realizes x of None \<Rightarrow> ret new_interface | Some i \<Rightarrow> convert_componentinterfacedescription D i)"
    by (auto simp: plan_properties_def split: option.split intro!: interface_raises)
  moreover have "raises_only ?P (each (convert_artifactdeploymentdescription D) (xx_artifact x))"
    unfolding convert_artifactdeploymentdescription_def plan_properties_def
    by (intro raises_only_each part_raises) auto
  moreover have "raises_only ?P (each (convert_monolithicdeploymentdescription D ids) (xx_implementation x))" for ids
    unfolding convert_monolithicdeploymentdescription_def plan_properties_def
    by (intro raises_only_each part_raises) auto
  moreover have "raises_only ?P (each (convert_instancedeploymentdescription D ids) (xx_instance x))" for ids
    unfolding convert_instancedeploymentdescription_def plan_properties_def
    by (intro raises_only_each part_raises) auto
  moreover have "raises_only ?P (each (convert_planconnectiondescription D ids) (xx_connection x))" for ids
    unfolding convert_planconnectiondescription_def convert_plansubcomponentportendpoint_def plan_properties_def
    by (intro raises_only_each part_raises) auto
  moreover have "raises_only ?P (each (convert_planlocality ids) (xx_localityConstraint x))" for ids
    unfolding convert_planlocality_def by (intro raises_only_each part_raises) auto
  ultimately show ?thesis
    unfolding resolve_plan_def Let_def by (intro raises_only_after) simp_all
qed

text \<open>The document of a file and what the loader makes of it.\<close>

definition parsed_as :: "('m, 'd) xml_env \<Rightarrow> string \<Rightarrow> 'd xml_plan \<Rightarrow> bool" where
  "parsed_as xv f x \<longleftrightarrow> xv_initialized xv \<and> f \<noteq> []
     \<and> (\<exists>m. xv_create_dom xv (xz_paths (schema_paths f :: 'd xml_file)) f = Inr (Some m) \<and> xv_plan_reader xv m = Inr x)"

lemma parsed_read:
  assumes "parsed_as xv f x" "resolve_plan D x h = (r, h')"
  shows "cdp_read_plan xv D f plan h =
    (case r of
       Inl Invalid_Access \<Rightarrow> (None, plan, h')
     | Inl (Thrown (Config_Error n e)) \<Rightarrow> (Some (Inl (UserEx PlanError n e)), plan, h')
     | Inl (Thrown (Corba_Error w)) \<Rightarrow> (Some (Inl (UserEx PlanError f w)), plan, h')
     | Inl (Thrown (Invalid_Value w)) \<Rightarrow> (Some (Inl (UserEx PlanError f w)), plan, h')
     | Inl (Thrown Other_Error) \<Rightarrow>
         (Some (Inl (UserEx PlanError f ''Unexpected C++ exception while parsing XML'')), plan, h')
     | Inr p \<Rightarrow> (Some (Inr True), p, h'))"
  using assms
  by (cases r; auto simp: parsed_as_def cdp_read_plan_def get_plan_def read_process_plan_def report_errors_def
      schema_paths_def add_search_path_def new_xml_file_def catch_in_def after_def call_def lift_read_def ret_def throw_def
      split: xml_failure.split xml_exn.split)

text \<open>
  C11. When the values of an XML plan fit their types, enumerations having a value and members of a struct
  being members of its type, and every idref has an id, then reading the plan has a defined outcome: the plan
  or an exception. Otherwise the conversion can use parts that are absent.
\<close>

theorem xml_plan_defined:
  assumes "parsed_as xv f x" "list_all property_fits (plan_properties x)" "None \<notin> set (plan_idrefs x)"
  shows "fst (cdp_read_plan xv D f plan h) \<noteq> None"
proof -
  obtain r h' where r: "resolve_plan D x h = (r, h')" by fastforce
  with no_accessD [OF resolve_no_access [OF assms(2,3)] r] show ?thesis
    by (simp add: parsed_read [OF assms(1) r] split: sum.split xml_failure.split xml_exn.split)
qed

text \<open>
  C20. An XML plan whose conversion fails leaves the plan of the caller as it was and raises a PlanError with
  the name of a property of the plan, however deep in the value of the property the error is, or with the name
  of the file when the type of an interface property is not a basic one.
\<close>

theorem xml_error_named:
  assumes "parsed_as xv f x" "cdp_read_plan xv D f plan h = (Some (Inl e), plan', h')"
  shows "plan' = plan \<and>
    ((\<exists>q \<in> set (plan_properties x). \<exists>r. e = UserEx PlanError (xp_name q) r)
     \<or> e = UserEx PlanError f ''Unexpected C++ exception while parsing XML'')"
proof -
  obtain r h1 where r: "resolve_plan D x h = (r, h1)" by fastforce
  from resolve_raises [of x D] r have named: "r = Inl (Thrown e') \<Longrightarrow> named_error (plan_properties x) e'" for e'
    unfolding raises_only_def by blast
  from assms(2) named show ?thesis
    by (auto simp: parsed_read [OF assms(1) r] named_error_def split: sum.splits xml_failure.splits xml_exn.splits)
qed

text \<open>What is never read: the configuration of the interface, the information of a domain.\<close>

lemma interface_configuration_empty:
  "convert_componentinterfacedescription D i u = (Inr c, u') \<Longrightarrow> ci_configProperty c = []"
  by (auto simp: convert_componentinterfacedescription_def ret_def dest!: after_value)

lemma interface_configuration_lost:
  assumes "resolve_plan D x h = (Inr p, h')"
  shows "ci_configProperty (pl_realizes p) = []"
proof (cases "xx_realizes x")
  case None
  with resolve_plan_parts(6) [OF assms] have "new_interface = pl_realizes p" by (simp add: ret_def)
  then show ?thesis by (metis new_interface_def interface_description.select_convs(6))
next
  case (Some i)
  with resolve_plan_parts(6) [OF assms] show ?thesis by (auto dest: interface_configuration_empty)
qed

lemma domain_information_lost: "resolve_domain D x h = (Inr d, h') \<Longrightarrow> dm_infoProperty d = []"
  by (auto simp: resolve_domain_def ret_def new_domain_def dest!: after_value)

section \<open>Examples\<close>

definition demo_struct :: data_type where
  "demo_struct = Data_Type TK_struct None (Some (''S'', ''IDL:S:1.0'', [(''a'', basic_type TK_long)])) None None None None"

definition demo_member :: "string \<Rightarrow> int data_value" where
  "demo_member n = Data_Value [] [] [] [] [] [] [] [] [] [] [] [] [] [(n, prim_value (VInt32 7))]"

text \<open>A plan with an instance, its implementation and its artifact, and one property.\<close>

definition demo_xml_plan :: "string \<Rightarrow> data_type \<times> int data_value \<Rightarrow> int xml_plan" where
  "demo_xml_plan idref tv =
     \<lparr>xx_label = Some ''demo'', xx_UUID = None, xx_realizes = None,
      xx_implementation = [\<lparr>xm_id = Some ''m'', xm_name = ''M'', xm_source = [], xm_artifact = [Some ''a''],
        xm_execParameter = [], xm_deployRequirement = []\<rparr>],
      xx_instance = [\<lparr>xi_id = Some ''i'', xi_name = ''I'', xi_node = ''N'', xi_source = [], xi_implementation = Some idref,
        xi_configProperty = [], xi_deployedResource = [], xi_deployedSharedResource = []\<rparr>],
      xx_connection = [], xx_dependsOn = [],
      xx_artifact = [\<lparr>xa_id = Some ''a'', xa_name = ''A'', xa_node = ''N'', xa_location = [], xa_source = [],
        xa_execParameter = [], xa_deployedResource = [], xa_deployRequirement = []\<rparr>],
      xx_infoProperty = [\<lparr>xp_name = ''p'', xp_value = tv\<rparr>], xx_localityConstraint = []\<rparr>"

definition demo_xml_env :: "int xml_plan \<Rightarrow> (unit, int) xml_env" where
  "demo_xml_env x = \<lparr>xv_initialized = True, xv_create_dom = (\<lambda>paths f. Inr (Some ())), xv_plan_reader = (\<lambda>m. Inr x),
     xv_domain_reader = (\<lambda>m. Inl (Thrown Other_Error))\<rparr>"

lemma demo_parsed: "parsed_as (demo_xml_env x) ''f'' x"
  by (simp add: parsed_as_def demo_xml_env_def)

lemmas op_simps = after_def ret_def throw_def call_def deref_def catch_in_def access_failure_def

lemma demo_long_extracted:
  "extract_into_any demo_orb (basic_type TK_long, prim_value (VInt32 7)) None = (Inr (PrimAny (VInt32 7)), Some [])"
  by (simp add: extract_into_any_def get_instance_def with_typecodes_def extract_into_dynany.simps basic_type_def
      mismatched_def basic_value_def first_or_def op_simps demo_orb_def)

lemma demo_resolved:
  "\<exists>p. resolve_plan demo_orb (demo_xml_plan idref (basic_type TK_long, prim_value (VInt32 7))) None = (Inr p, Some [])"
  by (simp add: resolve_plan_def demo_xml_plan_def convert_property_def demo_long_extracted op_simps
      convert_artifactdeploymentdescription_def convert_monolithicdeploymentdescription_def
      convert_instancedeploymentdescription_def reference_def del: prim_value.simps)

theorem xml_references_in_range_witness:
  "\<exists>p q. resolve_plan demo_orb (demo_xml_plan ''m'' (basic_type TK_long, prim_value (VInt32 7))) None = (Inr p, Some [])
    \<and> refs_ok p
    \<and> resolve_plan demo_orb (demo_xml_plan ''x'' (basic_type TK_long, prim_value (VInt32 7))) None = (Inr q, Some [])
    \<and> \<not> refs_ok q"
proof -
  let ?x = "\<lambda>s. demo_xml_plan s (basic_type TK_long, prim_value (VInt32 7))"
  obtain p where p: "resolve_plan demo_orb (?x ''m'') None = (Inr p, Some [])" using demo_resolved ..
  obtain q where q: "resolve_plan demo_orb (?x ''x'') None = (Inr q, Some [])" using demo_resolved ..
  have "refs_ok p \<longleftrightarrow> idrefs_resolve (?x ''m'')" "refs_ok q \<longleftrightarrow> idrefs_resolve (?x ''x'')"
    by (rule xml_references_in_range [OF p]; simp add: demo_xml_plan_def)
      (rule xml_references_in_range [OF q]; simp add: demo_xml_plan_def)
  moreover have "idrefs_resolve (?x ''m'')" "\<not> idrefs_resolve (?x ''x'')"
    by (simp_all add: idrefs_resolve_def names_one_def demo_xml_plan_def)
  ultimately show ?thesis using p q by blast
qed

lemma demo_properties:
  "plan_properties (demo_xml_plan idref tv) = [\<lparr>xp_name = ''p'', xp_value = tv\<rparr>]"
  "plan_idrefs (demo_xml_plan idref tv) = [Some ''a'', Some idref]"
  by (simp_all add: demo_xml_plan_def plan_properties_def plan_idrefs_def use_properties_def requirement_properties_def)

lemma demo_struct_parts [simp]:
  "dt_kind demo_struct = TK_struct" "dt_struct demo_struct = Some (''S'', ''IDL:S:1.0'', [(''a'', basic_type TK_long)])"
  "map_get (create_type_map demo_struct) n = (if n = ''a'' then Some (basic_type TK_long) else None)"
  "dv_member (demo_member n) = [(n, prim_value (VInt32 7))]" "mismatched (demo_member n) k = False"
  by (simp_all add: type_map_lookup demo_struct_def demo_member_def struct_members_def mismatched_def)

lemma demo_member_fits: "value_fits demo_struct (demo_member n) \<longleftrightarrow> n = ''a''"
proof -
  have "value_fits (basic_type TK_long) v" for v :: "int data_value"
    by (subst value_fits.simps) (simp add: basic_type_def)
  then show ?thesis by (simp add: value_fits.simps [of demo_struct])
qed

theorem xml_plan_defined_witness:
  "fst (cdp_read_plan (demo_xml_env (demo_xml_plan ''m'' (demo_struct, demo_member ''a''))) demo_orb ''f'' new_plan None) \<noteq> None"
  by (rule xml_plan_defined [OF demo_parsed]) (simp_all add: demo_properties property_fits_def demo_member_fits)

text \<open>A member that the type of a struct does not have: its type is a null pointer.\<close>

lemma unknown_member_undefined:
  "fst (cdp_read_plan (demo_xml_env (demo_xml_plan ''m'' (demo_struct, demo_member ''b''))) demo_orb ''f'' new_plan None) = None"
proof -
  have calls: "do_create demo_orb (Some TK_struct) = Inr NullAny" "do_struct_tc demo_orb i n ms = Inr TK_struct" for i n ms
    by (simp_all add: demo_orb_def)
  have "create_typecode demo_orb (basic_type TK_long) = ret (Some TK_long)"
    by (simp add: create_typecode.simps basic_type_def demo_orb_def)
  then have "\<exists>tcs. create_typecode demo_orb demo_struct [] = (Inr (Some TK_struct), tcs)"
    using calls
    by (simp add: create_typecode.simps [of _ demo_struct] struct_typecode_def struct_members_def register_typecode_def op_simps)
  then obtain tcs where tc: "create_typecode demo_orb demo_struct [] = (Inr (Some TK_struct), tcs)" ..
  have "\<exists>t. extract_into_dynany demo_orb demo_struct (demo_member ''b'') None [] = (Inl Invalid_Access, t)"
    using tc calls
    by (simp add: extract_into_dynany.simps [of _ demo_struct] struct_value_def named_errors_def op_simps)
  then have "\<exists>t. extract_into_any demo_orb (demo_struct, demo_member ''b'') None = (Inl Invalid_Access, t)"
    by (auto simp: extract_into_any_def get_instance_def with_typecodes_def op_simps demo_orb_def)
  then obtain t where "resolve_plan demo_orb (demo_xml_plan ''m'' (demo_struct, demo_member ''b'')) None = (Inl Invalid_Access, t)"
    by (auto simp: resolve_plan_def demo_xml_plan_def convert_property_def op_simps)
  from parsed_read [OF demo_parsed this] show ?thesis by simp
qed

text \<open>The error of an invalid enumerator has the name of the property, not that of the enumeration.\<close>

definition demo_enum :: data_type where
  "demo_enum = Data_Type TK_enum (Some (''E'', ''IDL:E:1.0'', [''x''])) None None None None None"

definition demo_enumerator :: "int data_value" where
  "demo_enumerator = Data_Value [] [] [] [] [] [] [] [] [[]] [] [] [] [] []"

lemma demo_enum_raises:
  "\<exists>t. extract_into_any demo_orb (demo_enum, demo_enumerator) None
    = (Inl (Thrown (Config_Error ''IDL:E:1.0'' ''Invalid value provided in XML'')), t)"
  by (simp add: extract_into_any_def get_instance_def with_typecodes_def extract_into_dynany.simps enum_value_def
      create_typecode.simps enum_typecode_def register_typecode_def named_errors_def mismatched_def op_simps
      demo_enum_def demo_enumerator_def demo_orb_def)

theorem xml_error_named_witness:
  "\<exists>h'. cdp_read_plan (demo_xml_env (demo_xml_plan ''m'' (demo_enum, demo_enumerator))) demo_orb ''f'' new_plan None
      = (Some (Inl (UserEx PlanError ''p'' ''Invalid value provided in XML'')), new_plan, h')"
proof -
  let ?x = "demo_xml_plan ''m'' (demo_enum, demo_enumerator)"
  obtain t where "resolve_plan demo_orb ?x None = (Inl (Thrown (Config_Error ''p'' ''Invalid value provided in XML'')), t)"
    using demo_enum_raises by (auto simp: resolve_plan_def demo_xml_plan_def convert_property_def op_simps)
  from parsed_read [OF demo_parsed this] obtain e plan' where
    e: "cdp_read_plan (demo_xml_env ?x) demo_orb ''f'' new_plan None = (Some (Inl e), plan', t)"
      "e = UserEx PlanError ''p'' ''Invalid value provided in XML''" by simp
  from xml_error_named [OF demo_parsed e(1)] have "plan' = new_plan" ..
  with e show ?thesis by blast
qed

end
