(* ===== verification/Spec2Isabelle.thy ===== *)
theory Spec2Isabelle
  imports Deployment_Network Artifact_Handler Launcher_Module Xml_Plan
begin

text \<open>
  DAnCEX11, the deployment and configuration tools for components of the repository: a plan of
  component instances, their implementations, artifacts, connections and locality constraints is read from
  a configuration file, split by node, split on each node by locality (a process), and deployed in three
  tiers. The execution manager of the domain asks the node manager of each node to prepare its part, the
  node manager installs one locality manager process per locality, and each locality manager installs,
  connects, configures and starts the instances of its part through handlers that are plugins.

  Parts and theories. Paths are under src/.

  \<^item> Prelude: ordered association lists as the model of std::map, with the locale \<open>ordered_map\<close> the
    components use; characters, words, decimal numerals.
  \<^item> Deployment_Data: the IDL structures of dancex11/deployment and the CORBA Any. Utility: the helpers of
    dancex11/core/dancex11_utility, property maps, exceptions in Anys.
  \<^item> Config_Stream, Config_Parser, Config_Util, Config_Property, Config_State, Config_Connections,
    Config_Instances, Config_Loader: dancex11/configurator, from characters to a deployment plan. The
    stream holds the rest of the file; every loader function returns success, the parser and the state.
  \<^item> Split_Plan: tools/split_plan, the splitting of a plan with the two splitters of the repository.
  \<^item> Dependency_Sorter, Scheduler: dancex11/scheduler, the installation order, completions, the event
    queue and the waits; the last section of Scheduler has the threaded wait as a step relation.
  \<^item> Plugin_Manager, Actions: dancex11/scheduler/events and dancex11/handler/interceptors, the registry of
    plugins, the deployment events and the error interceptors.
  \<^item> Locality: the locality manager, dancex11/locality_deployment_handler/dancex11_locality_manager_impl.cpp.
  \<^item> Node_Application, Node_Manager: dancex11/node_deployment_handler.
  \<^item> Node_Launch: the node tier from a plan to running localities, on top of Node_Application and Node_Manager.
  \<^item> Locality_Activator: the activator that starts the processes of localities and the locality manager
    handler, dancex11/handler/instance. Plugin_Handlers: the handlers there that install plugins.
  \<^item> Async_Round, Node_Locator, Domain_Application, Domain_Manager: dancex11/domain_deployment_handler,
    with the ORB wait strategy of the scheduler.
  \<^item> Deployment_Network: the domain tier on a network of node managers; the node tier meets the contract
    \<open>node_service\<close> the domain tier was verified against.
  \<^item> Installation_Repository, Artifact_Installation, Artifact_Handler: tools/artifact_installation and
    dancex11/handler/instance, from folders and files of a repository over the shared registries of
    installed artifacts to the deployment of the artifacts of an instance.
  \<^item> Plan_Files: dancex11/core and tools/convert_plan, tools/split_plan, the loaders of plans by format, CDR
    files and the two tools. Xml_Values, Xml_Plan: tools/config_handlers, the loader of XML files, from data
    types and data values to Anys, and from the parsed elements with their ids to a plan with indices.
  \<^item> Launchers, Deployment_Handlers: the launchers of the three kinds of managers with that of
    dancex11/plan_launcher, and the deployment handlers that configure a process and activate its servants.
  \<^item> Configuration_Handlers: dancex11/handler/configuration, the settings of a process. Manager_Module,
    Launcher_Module: the processes dancex11/deployment_manager and dancex11/plan_launcher from their command
    line to the naming service and back to shutdown.

  Reading the model. A C++ object is a record of its data members, a method a function from its arguments
  and the object to its result and the object. Exceptions are values: \<open>exn\<close> is what is thrown, and an
  operation that can also meet undefined behaviour (an index a vector does not have, a callback on an
  object that is gone) or wait for ever has a result of type \<open>failure + 'a\<close>. Numbers that the code keeps in
  uint32_t and whose wrap-around can matter (counters, time-outs, indices of a locality key) are words; an
  index into a vector of a plan is a nat. Text written to the log is left out, and so are locals that only
  feed it.

  Parameters of the model stand for what is not under src/: the conversion of floating-point numbers and
  the directory separator (\<open>env\<close>), the loading of plugins (\<open>plugin_env\<close>), the handlers, interceptors and
  configuration plugins themselves, ACE's activation queue and clock, the ORB with its naming service and
  the order in which replies arrive, and the processes behind remote references, as functions on a state
  \<open>'w\<close> of everything outside. So are the file system of the repositories and the HTTP client, what the ORB
  marshals and what a file becomes when it is written, the type codes and DynAnys of the ORB (\<open>dyn_orb\<close>), what
  Xerces and the generated classes parse (\<open>xml_env\<close>), ACE_Get_Opt, the active objects of a POA, the life cycle
  of managers and applications for the launchers (\<open>lifecycle\<close>), and the system calls of the configuration
  handlers. Laws of these are hypotheses of the theorems that need them: \<open>fifo\<close> (the queue keeps the order),
  \<open>patient\<close> (an event leaves some of the time-out), \<open>truncates\<close> (what a conversion to a shorter type does).

  Assumptions. Plain char is signed; a moved-from vector is empty; a file that was opened has no read
  errors; setting an ACE_Future notifies its observers once; operations of the ORB inside one process
  succeed; system exceptions and declared user exceptions cross process borders as they are, any other as
  CORBA::UNKNOWN. The reply handlers' objects and POA activations are not modelled. The loaders of the tools
  and processes return false where the loader of XML files raises.

  Bounds. A file is shorter than \<open>2 ^ 32\<close> characters where a theorem says so, and a plan or a round has
  fewer than \<open>2 ^ 32\<close> entries, so that the 32-bit counters of the code do not wrap. Loops are recursive
  functions with termination proofs (a shrinking queue, the rest of the input, the outstanding replies, the
  parts of a data type). A loop that need not end is a partial function into option: creating and removing
  folders, the wait for a process that is started, resolving a manager with a time-out. For these there are
  theorems on when they end (\<open>folders_end_at_base\<close>, \<open>child_start_returns\<close>), and None is also the result of an
  operation without a defined outcome, such as an index a vector does not have; in the XML theories it is
  \<open>Invalid_Access\<close>. The wait of the ORB that never ends is the result \<open>Hangs\<close>. There is no fuel.

  What the properties show. For the configuration: written tokens and values are read back, what is read
  has its declared type, a loaded plan is consistent. For splitting: each instance goes to exactly the
  sub plan of its node or process, indices stay valid, and the plans for which the second half holds are
  characterised (\<open>separable\<close>). For the scheduler: order, completeness of a wait, no lost wake-up. For the
  locality manager: each phase refines a specification that runs the handlers in order and throws the first
  failure. For the domain: a round of requests serves each once in any order, a launch succeeds exactly
  with the applications of all nodes. For the processes: what a configured or started process can rely on,
  that a registered manager is found by a launcher and by a teardown, that a failed launch is cleaned up. For
  artifacts: shared installations are counted and removed once, every call is answered, what is deployed is
  located. For files: a CDR file of either byte order and the files of a split plan are read back, the
  references of an XML plan are in range exactly when its idrefs resolve, reading it is defined when its
  values fit their types, and its errors name a property. The properties of kind error are behaviours of
  the code that differ from what it means to do; they are listed as findings of the manifest.

  Not modelled. The classes generated from the XML schemas (tools/config_handlers, Basic_Deployment_Data and
  the others) copy elements of a document into members, over libraries that are not here; the process-wide
  references and the calls of the dynamic linker (dancex11_deployment_state, dancex11_dynamic_loader) hold
  references and call those libraries; the logger writes text; the tests and the printing of plans
  are left out. The registry of the artifact installation is modelled call by call: interleavings of threads
  inside it are not, a lock that is held is a wait without an outcome.
\<close>

end
